(* ===== verification/Prelude.thy ===== *)
theory Prelude
  imports Main
begin

text \<open>
  Shared vocabulary of the development: results of fallible Go functions, Go's fixed-width
  integers and instants, and SQL tables as lists of rows.

  \<^item> A Go function that returns \<open>(T, error)\<close> is a HOL function into a sum, \<open>Inl\<close> the error;
    \<open>ebind\<close> is the \<open>if err != nil { return err }\<close> sequence.
  \<^item> \<open>int64\<close> and \<open>uint64\<close> arithmetic is written on \<open>int\<close> with the wrap-around explicit
    (\<open>i64\<close>, \<open>u64\<close>), so every place where the program can overflow shows it.
  \<^item> A \<open>time.Time\<close> is the number of nanoseconds since the Unix epoch.
  \<^item> A table is the list of its rows; \<open>find_row\<close>, \<open>update_rows\<close> and \<open>delete_rows\<close> are
    \<open>SELECT .. WHERE key = ?\<close>, \<open>UPDATE .. WHERE\<close> and \<open>DELETE .. WHERE\<close>.
\<close>

named_theorems row_simps \<open>lookup and key facts of tables after an update\<close>
named_theorems tx_simps \<open>inversion of successful results\<close>

section \<open>Results\<close>

definition ebind :: "'e + 'a \<Rightarrow> ('a \<Rightarrow> 'e + 'b) \<Rightarrow> 'e + 'b" where
  "ebind m f = (case m of Inl e \<Rightarrow> Inl e | Inr x \<Rightarrow> f x)"

lemma ebind_simps [simp]:
  "ebind (Inl e) f = Inl e"
  "ebind (Inr x) f = f x"
  by (simp_all add: ebind_def)

lemma ebind_Inr_iff [tx_simps]: "ebind m f = Inr y \<longleftrightarrow> (\<exists>x. m = Inr x \<and> f x = Inr y)"
  by (cases m) auto

lemma ebind_Inl_iff: "ebind m f = Inl e \<longleftrightarrow> m = Inl e \<or> (\<exists>x. m = Inr x \<and> f x = Inl e)"
  by (cases m) auto

lemma if_Inl_Inr_iff [tx_simps]:
  "(if b then Inl e else m) = Inr y \<longleftrightarrow> \<not> b \<and> m = Inr y"
  by simp

lemma option_Inl_Inr_iff [tx_simps]:
  "(case m of None \<Rightarrow> Inl e | Some x \<Rightarrow> f x) = Inr y \<longleftrightarrow> (\<exists>x. m = Some x \<and> f x = Inr y)"
  by (cases m) auto

text \<open>A loop over a list that threads a state and stops at the first error.\<close>

fun efold :: "('a \<Rightarrow> 's \<Rightarrow> 'e + 's) \<Rightarrow> 'a list \<Rightarrow> 's \<Rightarrow> 'e + 's" where
  "efold f [] s = Inr s"
| "efold f (x # xs) s = ebind (f x s) (efold f xs)"

lemma efold_inv:
  assumes "efold f xs s = Inr s'" "P s"
    and step: "\<And>x s s'. x \<in> set xs \<Longrightarrow> P s \<Longrightarrow> f x s = Inr s' \<Longrightarrow> P s'"
  shows "P s'"
  using assms
proof (induction xs arbitrary: s)
  case Nil
  then show ?case by simp
next
  case (Cons x xs)
  from Cons.prems(1) obtain t where t: "f x s = Inr t" "efold f xs t = Inr s'"
    by (auto simp: ebind_Inr_iff)
  have "P t" using Cons.prems(3)[OF _ Cons.prems(2) t(1)] by simp
  show ?case
    by (rule Cons.IH[OF t(2) \<open>P t\<close>]) (use Cons.prems(3) in \<open>auto\<close>)
qed

section \<open>Go integers and instants\<close>

abbreviation MaxInt64 :: int where
  "MaxInt64 \<equiv> 9223372036854775807"

definition is_i64 :: "int \<Rightarrow> bool" where
  "is_i64 x \<longleftrightarrow> - 9223372036854775808 \<le> x \<and> x \<le> MaxInt64"

definition i64 :: "int \<Rightarrow> int" where
  "i64 x = (x + 9223372036854775808) mod 18446744073709551616 - 9223372036854775808"

definition u64 :: "int \<Rightarrow> int" where
  "u64 x = x mod 18446744073709551616"

lemma i64_id [simp]: "is_i64 x \<Longrightarrow> i64 x = x"
  by (simp add: is_i64_def i64_def)

lemma is_i64_i64 [simp]: "is_i64 (i64 x)"
proof -
  have "0 \<le> (x + 9223372036854775808) mod 18446744073709551616"
    and "(x + 9223372036854775808) mod 18446744073709551616 < 18446744073709551616"
    by simp_all
  then show ?thesis unfolding is_i64_def i64_def by linarith
qed

lemma i64_add_left [simp]: "i64 (i64 a + b) = i64 (a + b)"
  unfolding i64_def by (simp add: mod_simps algebra_simps)

lemma i64_add_right [simp]: "i64 (a + i64 b) = i64 (a + b)"
  using i64_add_left[of b a] by (simp add: add.commute)

lemma i64_nonneg: "0 \<le> x \<Longrightarrow> x \<le> MaxInt64 \<Longrightarrow> i64 x = x"
  by (simp add: is_i64_def)

lemma u64_id [simp]: "0 \<le> x \<Longrightarrow> x < 18446744073709551616 \<Longrightarrow> u64 x = x"
  by (simp add: u64_def)

lemma u64_range: "0 \<le> u64 x" "u64 x < 18446744073709551616"
  by (simp_all add: u64_def)

lemma i64_u64 [simp]: "i64 (u64 x) = i64 x"
  unfolding i64_def u64_def by (simp add: mod_simps)

type_synonym time = int
type_synonym duration = int

text \<open>\<open>time.Duration(n) * time.Second\<close>: an \<open>int64\<close> multiplication that can wrap.\<close>

definition go_seconds :: "int \<Rightarrow> duration" where
  "go_seconds n = i64 (n * 1000000000)"

lemma go_seconds_id: "0 \<le> n \<Longrightarrow> n \<le> 9223372036 \<Longrightarrow> go_seconds n = n * 1000000000"
  by (simp add: go_seconds_def is_i64_def)

text \<open>\<open>t.Truncate(d)\<close> rounds down to a multiple of \<open>d\<close> since the zero time (1 January of year 1).\<close>

definition zero_time_ns :: int where
  "zero_time_ns = 62135596800 * 1000000000"

definition truncate_time :: "time \<Rightarrow> duration \<Rightarrow> time" where
  "truncate_time t d = (if d \<le> 0 then t else t - (t + zero_time_ns) mod d)"

lemma truncate_time_le: "truncate_time t d \<le> t"
  by (simp add: truncate_time_def)

lemma truncate_time_gt: "0 < d \<Longrightarrow> t < truncate_time t d + d"
  by (simp add: truncate_time_def pos_mod_bound)

lemma truncate_time_idem: "truncate_time (truncate_time t d) d = truncate_time t d"
proof (cases "d \<le> 0")
  case False
  have "(t - (t + zero_time_ns) mod d + zero_time_ns) mod d = 0"
    by (simp add: mod_simps algebra_simps)
  with False show ?thesis by (simp add: truncate_time_def)
qed (simp add: truncate_time_def)

section \<open>Tables\<close>

definition find_row :: "('r \<Rightarrow> 'k) \<Rightarrow> 'k \<Rightarrow> 'r list \<Rightarrow> 'r option" where
  "find_row key k t = find (\<lambda>r. key r = k) t"

definition update_rows :: "('r \<Rightarrow> bool) \<Rightarrow> ('r \<Rightarrow> 'r) \<Rightarrow> 'r list \<Rightarrow> 'r list" where
  "update_rows P f t = map (\<lambda>r. if P r then f r else r) t"

definition delete_rows :: "('r \<Rightarrow> bool) \<Rightarrow> 'r list \<Rightarrow> 'r list" where
  "delete_rows P t = filter (\<lambda>r. \<not> P r) t"

definition unique_on :: "('r \<Rightarrow> 'k) \<Rightarrow> 'r list \<Rightarrow> bool" where
  "unique_on key t \<longleftrightarrow> distinct (map key t)"

lemma find_row_Nil [simp]: "find_row key k [] = None"
  by (simp add: find_row_def)

lemma find_row_Cons: "find_row key k (r # t) = (if key r = k then Some r else find_row key k t)"
  by (simp add: find_row_def)

lemma find_row_Some [dest]: "find_row key k t = Some r \<Longrightarrow> r \<in> set t \<and> key r = k"
  by (auto simp: find_row_def find_Some_iff)

lemma find_row_None_iff: "find_row key k t = None \<longleftrightarrow> k \<notin> key ` set t"
  by (auto simp: find_row_def find_None_iff)

lemma find_row_append [row_simps]:
  "find_row key k (s @ t) = (case find_row key k s of None \<Rightarrow> find_row key k t | Some r \<Rightarrow> Some r)"
  by (induction s) (auto simp: find_row_Cons)

lemma find_row_unique:
  assumes "unique_on key t" "r \<in> set t"
  shows "find_row key (key r) t = Some r"
  using assms by (induction t) (auto simp: unique_on_def find_row_Cons)

lemma unique_on_eq:
  "unique_on key t \<Longrightarrow> r \<in> set t \<Longrightarrow> s \<in> set t \<Longrightarrow> key r = key s \<Longrightarrow> r = s"
  unfolding unique_on_def by (auto simp: distinct_map dest: inj_onD)

lemma unique_on_append_one:
  "unique_on key (t @ [r]) \<longleftrightarrow> unique_on key t \<and> key r \<notin> key ` set t"
  by (auto simp: unique_on_def)

lemma unique_on_delete [row_simps]: "unique_on key t \<Longrightarrow> unique_on key (delete_rows P t)"
  by (auto simp: unique_on_def delete_rows_def distinct_map_filter)

lemma set_delete_rows [simp]: "set (delete_rows P t) = {r \<in> set t. \<not> P r}"
  by (simp add: delete_rows_def)

lemma length_update_rows [simp]: "length (update_rows P f t) = length t"
  by (simp add: update_rows_def)

lemma set_update_rows: "set (update_rows P f t) = (\<lambda>r. if P r then f r else r) ` set t"
  by (simp add: update_rows_def)

lemma update_rows_Cons: "update_rows P f (r # t) = (if P r then f r else r) # update_rows P f t"
  by (simp add: update_rows_def)

lemma update_rows_none: "(\<And>r. r \<in> set t \<Longrightarrow> \<not> P r) \<Longrightarrow> update_rows P f t = t"
  by (simp add: update_rows_def map_idI)

lemma keys_delete_rows: "key ` {r \<in> set t. \<not> key r = k} = key ` set t - {k}"
  by auto

lemma find_row_delete_other [row_simps]:
  "(\<And>r. key r = k \<Longrightarrow> \<not> P r) \<Longrightarrow> find_row key k (delete_rows P t) = find_row key k t"
  by (induction t) (auto simp: find_row_def delete_rows_def)

lemma find_row_delete_self:
  "find_row key k (delete_rows (\<lambda>r. key r = k) t) = None"
  by (auto simp: find_row_None_iff)

text \<open>
  The interface of a column update: an \<open>UPDATE\<close> that leaves a key column alone. Every service
  that writes rows relies on what it says of later lookups, of the key's uniqueness and of the
  rows that were not selected.
\<close>

locale row_update =
  fixes key :: "'r \<Rightarrow> 'k"
    and col :: "'r \<Rightarrow> 'r"
  assumes keeps_key: "key (col r) = key r"
begin

lemma map_key_update: "map key (update_rows P col t) = map key t"
  by (simp add: update_rows_def keeps_key)

lemma unique_update: "unique_on key (update_rows P col t) \<longleftrightarrow> unique_on key t"
  by (simp only: unique_on_def map_key_update)

lemma keys_update: "key ` set (update_rows P col t) = key ` set t"
  using map_key_update[of P t] by (metis list.set_map)

lemma find_update:
  "find_row key k (update_rows P col t) =
     map_option (\<lambda>r. if P r then col r else r) (find_row key k t)"
  by (induction t) (auto simp: find_row_Cons update_rows_Cons update_rows_def keeps_key)

lemma find_update_self:
  "find_row key k (update_rows (\<lambda>r. key r = k) col t) = map_option col (find_row key k t)"
  unfolding find_update
  by (cases "find_row key k t") auto

lemma find_update_other:
  "k \<noteq> k' \<Longrightarrow> find_row key k (update_rows (\<lambda>r. key r = k') col t) = find_row key k t"
  unfolding find_update by (cases "find_row key k t") auto

end

lemma unique_on_update_same: "(\<And>r. key (col r) = key r) \<Longrightarrow> unique_on key (update_rows P col t) \<longleftrightarrow> unique_on key t"
  by (simp add: row_update.unique_update row_update_def)

lemma unique_on_update_one:
  assumes "unique_on key t" "unique_on pid t" "r \<in> set t" "\<And>x. x \<in> set t \<Longrightarrow> pid x \<noteq> pid r \<Longrightarrow> key x \<noteq> key (col r)"
  shows "unique_on key (update_rows (\<lambda>x. pid x = pid r) col t)"
proof -
  have eq: "update_rows (\<lambda>x. pid x = pid r) col t = map (\<lambda>x. if x = r then col r else x) t"
    using unique_on_eq[OF assms(2) _ assms(3)] by (auto simp: update_rows_def)
  have "x = y" if "x \<in> set t" "y \<in> set t" "key (if x = r then col r else x) = key (if y = r then col r else y)" for x y
    using that unique_on_eq[OF assms(1), of x y] unique_on_eq[OF assms(2) _ assms(3)] assms(4)[of x] assms(4)[of y]
    by (metis (full_types))
  moreover have "distinct t" using assms(1) by (auto simp: unique_on_def distinct_map)
  ultimately show ?thesis unfolding eq by (auto simp: unique_on_def distinct_map inj_on_def comp_def)
qed

lemma find_update_column:
  "(\<And>r. key (col r) = key r) \<Longrightarrow>
     find_row key k (update_rows (\<lambda>r. key r = k) col t) = map_option col (find_row key k t)"
  by (rule row_update.find_update_self) (simp add: row_update_def)

lemma bex_find_row:
  assumes "find_row key k t = Some r" "unique_on key t"
  shows "(\<exists>x \<in> set t. key x = k \<and> P x) \<longleftrightarrow> P r"
  using find_row_Some[OF assms(1)] unique_on_eq[OF assms(2)] by metis

lemma ball_update_rows:
  assumes "\<And>r. r \<in> set t \<Longrightarrow> Q r" "\<And>r. r \<in> set t \<Longrightarrow> P r \<Longrightarrow> Q (f r)"
  shows "\<forall>r \<in> set (update_rows P f t). Q r"
  using assms by (auto simp: set_update_rows)

lemma keys_update_rows: "(\<And>r. key (f r) = key r) \<Longrightarrow> key ` set (update_rows P f t) = key ` set t"
  by (rule row_update.keys_update) (simp add: row_update_def)

end
