(* ===== verification/Domain.thy ===== *)
theory Domain
  imports Prelude
begin

text \<open>
  The vocabulary shared by the services (\<open>src/internal/domain\<close>): machine error codes, the user
  lifecycle enums, and the tri-state fields of the API contract. Go's string enums are datatypes
  with one constructor per declared constant and one for any other string, so that the \<open>Valid\<close>
  checks keep their meaning. Error messages are not modelled, only their codes.
\<close>

section \<open>Errors\<close>

datatype code =
    CodeInvalidRequest | CodeUnauthorized | CodeForbidden | CodeRateLimited | CodeNodeUnavailable
  | CodeInternal | CodeNotFound
  | CodeUserNotFound | CodeUsernameExists
  | CodeDeviceNotFound | CodeDeviceLimitReached | CodeDevicePoolExhausted | CodeDeviceKeyExists
  | CodePlanNotFound | CodePlanInUse
  | CodeInterfaceNotFound | CodeInterfaceNameTaken | CodePortInUse | CodeSubnetInvalid
  | CodeSubnetOverlap | CodeParamConstraint
  | CodeCredentialInvalid | CodeSessionExpired | CodeTokenInvalid | CodeTokenExists
  | CodeIdempotencyKeyReused
  | CodeAdminNotFound | CodeAdminExists | CodeOwnerProtected
  | CodeSettingUnknown | CodeSettingInvalid | CodeConfigInvalid

text \<open>
  A \<open>*domain.Error\<close> carries its code; every other error (a driver or backend error) is foreign.
\<close>

datatype error = DomainError code | Foreign string

type_synonym 'a result = "error + 'a"

abbreviation E :: "code \<Rightarrow> 'a result" where
  "E c \<equiv> Inl (DomainError c)"

fun CodeOf :: "error \<Rightarrow> code" where
  "CodeOf (DomainError c) = c"
| "CodeOf (Foreign _) = CodeInternal"

section \<open>User lifecycle\<close>

datatype user_status =
    UserActive | UserDisabled | UserSuspended | UserExpired | UserTrafficExceeded
  | UserWaitingFirstConnection | StatusOther string

fun status_valid :: "user_status \<Rightarrow> bool" where
  "status_valid (StatusOther _) = False"
| "status_valid _ = True"

definition PeerWanted :: "user_status \<Rightarrow> bool" where
  "PeerWanted s \<longleftrightarrow> s = UserActive \<or> s = UserWaitingFirstConnection"

lemma PeerWanted_simps [simp]:
  "PeerWanted UserActive" "PeerWanted UserWaitingFirstConnection"
  "\<not> PeerWanted UserDisabled" "\<not> PeerWanted UserSuspended" "\<not> PeerWanted UserExpired"
  "\<not> PeerWanted UserTrafficExceeded" "\<not> PeerWanted (StatusOther x)"
  by (simp_all add: PeerWanted_def)

datatype disable_reason =
    DisableManual | DisableExpired | DisableTrafficLimit | DisableAdminAction | ReasonOther string

fun reason_valid :: "disable_reason \<Rightarrow> bool" where
  "reason_valid (ReasonOther _) = False"
| "reason_valid _ = True"

datatype start_policy =
    PolicyUnset | StartImmediate | StartFirstConnection | PolicyOther string

fun policy_valid :: "start_policy \<Rightarrow> bool" where
  "policy_valid StartImmediate = True"
| "policy_valid StartFirstConnection = True"
| "policy_valid _ = False"

datatype backend_mode = BackendKernel | BackendUserspace | BackendOther string

fun backend_mode_valid :: "backend_mode \<Rightarrow> bool" where
  "backend_mode_valid BackendKernel = True"
| "backend_mode_valid BackendUserspace = True"
| "backend_mode_valid (BackendOther _) = False"

section \<open>Tri-state fields\<close>

text \<open>
  \<open>OptInt64\<close>, \<open>OptInt\<close> and \<open>OptString\<close> have one shape; the zero value is \<open>Set = false\<close>. The
  JSON bytes reach \<open>UnmarshalJSON\<close> already split into the literal \<open>null\<close>, a value of the
  field's type, or something that does not decode.
\<close>

record 'a opt =
  opt_set :: bool
  opt_null :: bool
  opt_value :: 'a

datatype 'a json_field = JsonNull | JsonValue 'a | JsonBad

definition opt_absent :: "'a \<Rightarrow> 'a opt" where
  "opt_absent zero = \<lparr>opt_set = False, opt_null = False, opt_value = zero\<rparr>"

fun opt_unmarshal :: "'a json_field \<Rightarrow> 'a opt \<Rightarrow> 'a opt result" where
  "opt_unmarshal JsonNull o1 = Inr (o1\<lparr>opt_set := True, opt_null := True\<rparr>)"
| "opt_unmarshal (JsonValue v) o1 = Inr (o1\<lparr>opt_set := True, opt_value := v\<rparr>)"
| "opt_unmarshal JsonBad o1 = Inl (Foreign ''json'')"

definition opt_resolve :: "'a opt \<Rightarrow> 'a option \<Rightarrow> 'a option" where
  "opt_resolve o1 current =
     (if \<not> opt_set o1 then current else if opt_null o1 then None else Some (opt_value o1))"

text \<open>The value a limit carries when it is present and not null.\<close>

definition opt_given :: "'a opt \<Rightarrow> 'a option" where
  "opt_given o1 = (if opt_set o1 \<and> \<not> opt_null o1 then Some (opt_value o1) else None)"

lemma opt_resolve_None: "opt_resolve o1 None = opt_given o1"
  by (simp add: opt_resolve_def opt_given_def)

lemma opt_resolve_absent [simp]: "opt_resolve (opt_absent z) c = c"
  by (simp add: opt_resolve_def opt_absent_def)

section \<open>JSON payloads\<close>

datatype json = JNull | JBool bool | JInt int | JStr string | JList "json list"
  | JObj "(string \<times> json) list"

type_synonym payload = "(string \<times> json) list"

end
