(* ===== verification/Strconv.thy ===== *)
theory Strconv
  imports Prelude
begin

text \<open>
  The decimal conversions of Go's standard library that the program relies on: \<open>strconv\<close>
  formatting and parsing of unsigned decimals, \<open>strings.Split\<close> on one byte and
  \<open>strings.TrimSpace\<close> on ASCII input. A Go string is its list of bytes.
\<close>

definition is_digit :: "char \<Rightarrow> bool" where
  "is_digit c \<longleftrightarrow> 48 \<le> (of_char c :: nat) \<and> (of_char c :: nat) \<le> 57"

definition digit :: "nat \<Rightarrow> char" where
  "digit d = char_of (48 + d)"

definition digit_val :: "char \<Rightarrow> nat" where
  "digit_val c = of_char c - 48"

lemma of_char_digit: "d < 10 \<Longrightarrow> (of_char (digit d) :: nat) = 48 + d"
  by (simp add: digit_def of_char_of)

lemma digit_facts [simp]:
  "d < 10 \<Longrightarrow> is_digit (digit d)"
  "d < 10 \<Longrightarrow> digit_val (digit d) = d"
  by (simp_all add: is_digit_def digit_val_def of_char_digit)

lemma is_digit_val: "is_digit c \<Longrightarrow> digit_val c < 10 \<and> digit (digit_val c) = c"
  unfolding is_digit_def digit_val_def digit_def
  by (simp add: le_imp_diff_is_add[symmetric]) linarith

fun show_nat :: "nat \<Rightarrow> string" where
  "show_nat n = (if n < 10 then [digit n] else show_nat (n div 10) @ [digit (n mod 10)])"

declare show_nat.simps [simp del]

fun dec_val :: "nat \<Rightarrow> string \<Rightarrow> nat option" where
  "dec_val acc [] = Some acc"
| "dec_val acc (c # cs) = (if is_digit c then dec_val (10 * acc + digit_val c) cs else None)"

text \<open>Signed decimals.\<close>

definition show_int :: "int \<Rightarrow> string" where
  "show_int i = (if i < 0 then CHR ''-'' # show_nat (nat (- i)) else show_nat (nat i))"

definition parse_dec :: "string \<Rightarrow> nat option" where
  "parse_dec s = (if s = [] then None else dec_val 0 s)"

lemma dec_val_append:
  "dec_val acc (s @ t) = (case dec_val acc s of None \<Rightarrow> None | Some v \<Rightarrow> dec_val v t)"
  by (induction s arbitrary: acc) auto

lemma dec_val_show_nat: "dec_val 0 (show_nat n) = Some n"
proof (induction n rule: show_nat.induct)
  case (1 n)
  show ?case
  proof (cases "n < 10")
    case True
    then show ?thesis by (subst show_nat.simps) simp
  next
    case False
    with 1 show ?thesis by (subst show_nat.simps) (simp add: dec_val_append)
  qed
qed

lemma show_nat_nonempty [simp]: "show_nat n \<noteq> []"
  by (subst show_nat.simps) simp

lemma parse_show_nat [simp]: "parse_dec (show_nat n) = Some n"
  by (simp add: parse_dec_def dec_val_show_nat)

lemma show_nat_digits: "c \<in> set (show_nat n) \<Longrightarrow> is_digit c"
proof (induction n rule: show_nat.induct)
  case (1 n)
  then show ?case
    by (subst (asm) (2) show_nat.simps) (auto split: if_splits)
qed

lemma hd_show_nat: "n \<noteq> 0 \<Longrightarrow> hd (show_nat n) \<noteq> CHR ''0''"
proof (induction n rule: show_nat.induct)
  case (1 n)
  show ?case
  proof (cases "n < 10")
    case True
    have "digit n = CHR ''0'' \<longleftrightarrow> (of_char (digit n) :: nat) = of_char CHR ''0''"
      by (metis of_char_eq_iff)
    with True 1(2) show ?thesis by (subst show_nat.simps) (simp add: of_char_digit)
  next
    case False
    with 1(1) have "hd (show_nat (n div 10)) \<noteq> CHR ''0''" by simp
    with False show ?thesis by (subst show_nat.simps) simp
  qed
qed

lemma length_show_nat_1: "length (show_nat n) = 1 \<longleftrightarrow> n < 10"
  by (subst show_nat.simps) simp

lemma show_nat_no_leading_zero: "1 < length (show_nat n) \<Longrightarrow> hd (show_nat n) \<noteq> CHR ''0''"
  using hd_show_nat[of n] length_show_nat_1[of n] by (cases "n = 0") auto

lemma length_show_nat_bound: "n < 10 ^ k \<Longrightarrow> 0 < k \<Longrightarrow> length (show_nat n) \<le> k"
proof (induction k arbitrary: n)
  case 0
  then show ?case by simp
next
  case (Suc k)
  show ?case
  proof (cases "n < 10")
    case True
    then show ?thesis by (subst show_nat.simps) simp
  next
    case False
    with Suc.prems have "n div 10 < 10 ^ k" "0 < k"
      by (auto simp: less_mult_imp_div_less mult.commute intro: Nat.gr0I)
    from Suc.IH[OF this] False show ?thesis by (subst show_nat.simps) simp
  qed
qed

lemma show_nat_inj: "show_nat m = show_nat n \<Longrightarrow> m = n"
  by (metis option.inject parse_show_nat)

section \<open>Splitting\<close>

fun split_on :: "char \<Rightarrow> string \<Rightarrow> string list" where
  "split_on c [] = [[]]"
| "split_on c (x # xs) =
     (if x = c then [] # split_on c xs
      else (case split_on c xs of [] \<Rightarrow> [[x]] | w # ws \<Rightarrow> (x # w) # ws))"

lemma split_on_nonempty [simp]: "split_on c s \<noteq> []"
  by (induction s) (auto split: list.splits)

lemma split_on_absent: "c \<notin> set s \<Longrightarrow> split_on c s = [s]"
  by (induction s) auto

lemma split_on_append: "c \<notin> set s \<Longrightarrow> split_on c (s @ c # t) = s # split_on c t"
  by (induction s) auto

section \<open>Integers with a base prefix\<close>

text \<open>
  \<open>strconv.ParseUint(s, 0, bits)\<close>: the base follows from the prefix, and underscores may separate
  digits (\<open>underscore_ok\<close>; the state is the last thing seen: a digit, an underscore or neither).
\<close>

definition lower :: "char \<Rightarrow> nat" where
  "lower c = (let n = of_char c in if 65 \<le> n \<and> n \<le> 90 then n + 32 else n)"

definition digit_in :: "char \<Rightarrow> nat option" where
  "digit_in c = (if is_digit c then Some (digit_val c)
     else if 97 \<le> lower c \<and> lower c \<le> 122 then Some (lower c - 87) else None)"

fun digits_val :: "nat \<Rightarrow> nat \<Rightarrow> string \<Rightarrow> nat option" where
  "digits_val base acc [] = Some acc"
| "digits_val base acc (c # cs) =
     (if c = CHR ''_'' then digits_val base acc cs
      else case digit_in c of
             None \<Rightarrow> None
           | Some d \<Rightarrow> if base \<le> d then None else digits_val base (acc * base + d) cs)"

datatype last_seen = SawNothing | SawDigit | SawUnderscore

fun underscore_scan :: "bool \<Rightarrow> last_seen \<Rightarrow> string \<Rightarrow> bool" where
  "underscore_scan hex saw [] = (saw \<noteq> SawUnderscore)"
| "underscore_scan hex saw (c # cs) =
     (if is_digit c \<or> (hex \<and> 97 \<le> lower c \<and> lower c \<le> 102) then underscore_scan hex SawDigit cs
      else if c = CHR ''_'' then saw = SawDigit \<and> underscore_scan hex SawUnderscore cs
      else saw \<noteq> SawUnderscore \<and> underscore_scan hex SawNothing cs)"

definition underscore_ok :: "string \<Rightarrow> bool" where
  "underscore_ok s = (case s of
     z # p # rest \<Rightarrow> if z = CHR ''0'' \<and> lower p \<in> {98, 111, 120}
       then underscore_scan (lower p = 120) SawDigit rest else underscore_scan False SawNothing s
   | _ \<Rightarrow> underscore_scan False SawNothing s)"

definition base_of :: "string \<Rightarrow> nat \<times> string" where
  "base_of s = (case s of
     z # p # d # rest \<Rightarrow>
       if z \<noteq> CHR ''0'' then (10, s)
       else if lower p = 98 then (2, d # rest) else if lower p = 111 then (8, d # rest)
       else if lower p = 120 then (16, d # rest) else (8, p # d # rest)
   | z # rest \<Rightarrow> if z = CHR ''0'' then (8, rest) else (10, s)
   | [] \<Rightarrow> (10, []))"

definition parse_uint_auto :: "nat \<Rightarrow> string \<Rightarrow> nat option" where
  "parse_uint_auto bits s =
     (if s = [] then None
      else case base_of s of (base, body) \<Rightarrow>
        (case digits_val base 0 body of
           None \<Rightarrow> None
         | Some v \<Rightarrow> if 2 ^ bits \<le> v \<or> (CHR ''_'' \<in> set body \<and> \<not> underscore_ok s) then None else Some v))"

section \<open>Trimming\<close>

text \<open>\<open>strings.TrimSpace\<close> on ASCII text (the white space of other scripts is outside the model).\<close>

definition is_space :: "char \<Rightarrow> bool" where
  "is_space c \<longleftrightarrow> of_char c \<in> {9, 10, 11, 12, 13, 32 :: nat}"

definition trim_space :: "string \<Rightarrow> string" where
  "trim_space s = rev (dropWhile is_space (rev (dropWhile is_space s)))"

lemma length_trim_space: "length (trim_space s) \<le> length s"
  unfolding trim_space_def
  by (metis length_dropWhile_le length_rev order.trans)

end
