(* ===== verification/Ipam.thy ===== *)
theory Ipam
  imports Domain Strconv "HOL-Library.Word"
begin

unbundle bit_operations_syntax

text \<open>
  The IPv4 pool contract (\<open>src/internal/ipam/pools.go\<close>) over the part of Go's \<open>net/netip\<close> it
  uses. An address is a 32-bit word, a prefix an address and a bit count; addresses and prefixes
  are read and written in their text forms, as the database stores them. An IPv6 text is not an
  IPv4 prefix, and every caller rejects it in the same branch as a malformed one.
\<close>

type_synonym addr = "32 word"

record prefix =
  p_addr :: addr
  p_bits :: nat

section \<open>Text forms\<close>

definition parse_field :: "nat \<Rightarrow> string \<Rightarrow> nat option" where
  "parse_field m s =
     (case parse_dec s of
        None \<Rightarrow> None
      | Some n \<Rightarrow> if (1 < length s \<and> hd s = CHR ''0'') \<or> m < n then None else Some n)"

definition addr_of :: "nat \<Rightarrow> nat \<Rightarrow> nat \<Rightarrow> nat \<Rightarrow> addr" where
  "addr_of a b c d = of_nat (((a * 256 + b) * 256 + c) * 256 + d)"

definition octet :: "nat \<Rightarrow> addr \<Rightarrow> nat" where
  "octet k a = unat a div 2 ^ k mod 256"

definition parse_addr :: "string \<Rightarrow> addr option" where
  "parse_addr s =
     (case map (parse_field 255) (split_on CHR ''.'' s) of
        [Some a, Some b, Some c, Some d] \<Rightarrow> Some (addr_of a b c d)
      | _ \<Rightarrow> None)"

definition show_addr :: "addr \<Rightarrow> string" where
  "show_addr a = show_nat (octet 24 a) @ CHR ''.'' # show_nat (octet 16 a) @
     CHR ''.'' # show_nat (octet 8 a) @ CHR ''.'' # show_nat (octet 0 a)"

definition parse_prefix :: "string \<Rightarrow> prefix option" where
  "parse_prefix s =
     (case split_on CHR ''/'' s of
        [a, b] \<Rightarrow>
          (case (parse_addr a, parse_field 32 b) of
             (Some x, Some n) \<Rightarrow> Some \<lparr>p_addr = x, p_bits = n\<rparr>
           | _ \<Rightarrow> None)
      | _ \<Rightarrow> None)"

definition show_prefix :: "prefix \<Rightarrow> string" where
  "show_prefix p = show_addr (p_addr p) @ CHR ''/'' # show_nat (p_bits p)"

lemma parse_field_show [simp]: "n \<le> m \<Longrightarrow> parse_field m (show_nat n) = Some n"
  using show_nat_no_leading_zero[of n] by (auto simp: parse_field_def)

lemma show_nat_not_sep: "\<not> is_digit c \<Longrightarrow> c \<notin> set (show_nat n)"
  using show_nat_digits by blast

lemma sep_not_digit [simp]: "\<not> is_digit CHR ''.''" "\<not> is_digit CHR ''/''" "\<not> is_digit CHR ''-''"
  by (simp_all add: is_digit_def)

lemma octet_less [simp]: "octet k a < 256" "octet k a \<le> 255"
  using mod_less_divisor[of 256 "unat a div 2 ^ k"] by (simp_all add: octet_def)

lemma unat_less_32: "unat (a :: addr) < 2 ^ 32"
  using unsigned_less[of a, where ?'a = nat] by simp

lemma addr_of_octets: "addr_of (octet 24 a) (octet 16 a) (octet 8 a) (octet 0 a) = a"
proof -
  let ?n = "unat a"
  have "?n < 2 ^ 32" by (rule unat_less_32)
  then have "octet 24 a = ?n div 256 div 256 div 256"
    by (simp add: octet_def div_mult2_eq[symmetric])
  moreover have "octet 16 a = ?n div 256 div 256 mod 256" "octet 8 a = ?n div 256 mod 256"
    "octet 0 a = ?n mod 256"
    by (simp_all add: octet_def div_mult2_eq[symmetric])
  ultimately have "((octet 24 a * 256 + octet 16 a) * 256 + octet 8 a) * 256 + octet 0 a = ?n"
    by (simp only: div_mult_mod_eq)
  then show ?thesis by (simp add: addr_of_def)
qed

lemma parse_show_addr [simp]: "parse_addr (show_addr a) = Some a"
  by (simp add: parse_addr_def show_addr_def split_on_append split_on_absent show_nat_not_sep
      addr_of_octets)

lemma show_addr_inj: "show_addr a = show_addr b \<longleftrightarrow> a = b"
  by (metis option.inject parse_show_addr)

lemma slash_not_in_addr: "CHR ''/'' \<notin> set (show_addr a)"
  by (auto simp: show_addr_def show_nat_not_sep)

lemma parse_show_prefix:
  "p_bits p \<le> 32 \<Longrightarrow> parse_prefix (show_prefix p) = Some p"
  by (simp add: parse_prefix_def show_prefix_def split_on_append slash_not_in_addr split_on_absent
      show_nat_not_sep)

lemma parse_prefix_bits: "parse_prefix s = Some p \<Longrightarrow> p_bits p \<le> 32"
  by (auto simp: parse_prefix_def parse_field_def split: list.splits option.splits if_splits)

section \<open>Prefixes\<close>

definition host_bits :: "prefix \<Rightarrow> nat" where
  "host_bits p = 32 - p_bits p"

definition masked_addr :: "prefix \<Rightarrow> addr" where
  "masked_addr p = p_addr p AND NOT (mask (host_bits p))"

definition masked :: "prefix \<Rightarrow> prefix" where
  "masked p = \<lparr>p_addr = masked_addr p, p_bits = p_bits p\<rparr>"

definition contains :: "prefix \<Rightarrow> addr \<Rightarrow> bool" where
  "contains p a \<longleftrightarrow> drop_bit (host_bits p) (a XOR p_addr p) = 0"

definition overlaps :: "prefix \<Rightarrow> prefix \<Rightarrow> bool" where
  "overlaps p q \<longleftrightarrow>
     (let m = min (p_bits p) (p_bits q)
      in masked_addr (p\<lparr>p_bits := m\<rparr>) = masked_addr (q\<lparr>p_bits := m\<rparr>))"

definition is_private :: "addr \<Rightarrow> bool" where
  "is_private a \<longleftrightarrow> octet 24 a = 10 \<or> (octet 24 a = 172 \<and> octet 16 a div 16 = 1)
     \<or> (octet 24 a = 192 \<and> octet 16 a = 168)"

text \<open>\<open>Addr.Next\<close>: the address after the last one is the invalid zero \<open>Addr\<close>.\<close>

definition next_addr :: "addr \<Rightarrow> addr option" where
  "next_addr a = (if a = - 1 then None else Some (a + 1))"

section \<open>The pool contract\<close>

definition MaxPools :: nat where
  "MaxPools = 16"

definition Last :: "prefix \<Rightarrow> addr" where
  "Last p = masked_addr p OR mask (host_bits p)"

definition Parse :: "string \<Rightarrow> prefix result" where
  "Parse cidr =
     (case parse_prefix cidr of
        None \<Rightarrow> E CodeSubnetInvalid
      | Some p \<Rightarrow>
          if p \<noteq> masked p \<or> 29 < p_bits p \<or> \<not> is_private (p_addr p) \<or> \<not> is_private (Last p)
          then E CodeSubnetInvalid else Inr p)"

definition Capacity :: "prefix \<Rightarrow> int" where
  "Capacity p = u64 (2 ^ host_bits p - 3)"

definition Assignable :: "prefix \<Rightarrow> addr \<Rightarrow> bool" where
  "Assignable pool a \<longleftrightarrow> contains pool a \<and> a \<noteq> masked_addr pool
     \<and> Some a \<noteq> next_addr (masked_addr pool) \<and> a \<noteq> Last pool"

definition Gateway :: "string \<Rightarrow> string" where
  "Gateway cidr =
     (case parse_prefix cidr of
        None \<Rightarrow> []
      | Some p \<Rightarrow> (case next_addr (masked_addr p) of
            None \<Rightarrow> ''invalid Prefix''
          | Some g \<Rightarrow> show_prefix \<lparr>p_addr = g, p_bits = p_bits p\<rparr>))"

fun validate_loop :: "prefix list \<Rightarrow> string list \<Rightarrow> unit result" where
  "validate_loop prefixes [] = Inr ()"
| "validate_loop prefixes (cidr # rest) =
     ebind (Parse cidr) (\<lambda>p.
       if \<exists>q \<in> set prefixes. overlaps p q then E CodeSubnetOverlap
       else validate_loop (prefixes @ [p]) rest)"

definition Validate :: "string list \<Rightarrow> unit result" where
  "Validate pools =
     (if length pools < 1 \<or> MaxPools < length pools then E CodeSubnetInvalid
      else validate_loop [] pools)"

text \<open>
  The stored extras are a JSON text: \<open>null\<close> decodes to no extra pools, a list of strings to that
  list, anything else fails.
\<close>

type_synonym extras = "string list json_field"

definition Decode :: "string \<Rightarrow> extras \<Rightarrow> string list result" where
  "Decode primary extras =
     (case extras of
        JsonBad \<Rightarrow> Inl (Foreign ''ipam: invalid stored pool list'')
      | JsonNull \<Rightarrow> ebind (Validate [primary]) (\<lambda>_. Inr [primary])
      | JsonValue additional \<Rightarrow>
          ebind (Validate (primary # additional)) (\<lambda>_. Inr (primary # additional)))"

text \<open>\<open>Extras\<close> slices off the first pool and panics on an empty list.\<close>

fun Extras :: "string list \<Rightarrow> extras option" where
  "Extras [] = None"
| "Extras (_ # rest) = Some (JsonValue rest)"

section \<open>Addresses as numbers\<close>

lemma masked_addr_push: "masked_addr p = push_bit (host_bits p) (drop_bit (host_bits p) (p_addr p))"
  unfolding masked_addr_def by (rule bit_eqI) (auto simp: bit_simps)

lemma unat_take_bit_mod: "unat (take_bit n (w :: addr)) = unat w mod 2 ^ n"
  by (simp only: unsigned_take_bit_eq) (simp only: take_bit_eq_mod)

lemma unat_take_bit_le: "unat (take_bit n (w :: addr)) \<le> unat w"
  by (simp only: unat_take_bit_mod) simp

lemma host_bits_le: "host_bits p \<le> 32"
  by (simp add: host_bits_def)

lemma unat_masked: "unat (masked_addr p) = unat (p_addr p) div 2 ^ host_bits p * 2 ^ host_bits p"
proof -
  let ?h = "host_bits p" and ?w = "p_addr p"
  have "masked_addr p = ?w - take_bit ?h ?w"
    unfolding masked_addr_push using bits_ident[of ?h ?w] by (simp add: algebra_simps)
  moreover have "take_bit ?h ?w \<le> ?w"
    using unat_take_bit_le[of ?h ?w] by (simp add: word_le_nat_alt)
  ultimately have "unat (masked_addr p) = unat ?w - unat ?w mod 2 ^ ?h"
    by (simp only: unat_sub unat_take_bit_mod)
  then show ?thesis by (simp add: minus_mod_eq_div_mult)
qed

lemma unat_mask: "n \<le> 32 \<Longrightarrow> unat (mask n :: addr) = 2 ^ n - 1"
proof -
  assume "n \<le> 32"
  then have "unat (mask n :: addr) = mask n"
    by (intro bit_eqI) (auto simp: bit_simps)
  then show ?thesis by (simp add: mask_eq_exp_minus_1)
qed

lemma Last_add: "Last p = masked_addr p + mask (host_bits p)"
  unfolding Last_def
  by (rule disjunctive_add_eq_or[symmetric]) (auto simp: bit_simps bit_eq_iff masked_addr_def)

lemma unat_block: "unat (w :: addr) div 2 ^ h * 2 ^ h + (2 ^ h - 1) < 2 ^ 32" if "h \<le> 32"
proof -
  have "unat w < 2 ^ 32" by (rule unat_less_32)
  also have "(2::nat) ^ 32 = 2 ^ (32 - h) * 2 ^ h" using that by (simp flip: power_add)
  finally have "unat w div 2 ^ h < 2 ^ (32 - h)" by (simp add: less_mult_imp_div_less)
  then have "Suc (unat w div 2 ^ h) * 2 ^ h \<le> 2 ^ (32 - h) * 2 ^ h"
    by (intro mult_right_mono) auto
  also have "\<dots> = 2 ^ 32" using that by (simp flip: power_add)
  finally have "Suc (unat w div 2 ^ h) * 2 ^ h \<le> 2 ^ 32" .
  moreover have "(0::nat) < 2 ^ h" by simp
  ultimately show ?thesis unfolding mult_Suc by linarith
qed

lemma unat_Last: "unat (Last p) = unat (masked_addr p) + (2 ^ host_bits p - 1)"
proof -
  have "unat (masked_addr p) + unat (mask (host_bits p) :: addr) < 2 ^ 32"
    using unat_block[OF host_bits_le, where w = "p_addr p"]
    by (simp add: unat_masked unat_mask[OF host_bits_le])
  then show ?thesis
    unfolding Last_add by (subst unat_add_lem[THEN iffD1]) (simp_all add: unat_mask host_bits_le)
qed

lemma contains_div:
  "contains p a \<longleftrightarrow> unat a div 2 ^ host_bits p = unat (p_addr p) div 2 ^ host_bits p"
proof -
  have "contains p a \<longleftrightarrow> drop_bit (host_bits p) a = drop_bit (host_bits p) (p_addr p)"
    by (simp add: contains_def bit_eq_iff[of "_ XOR _"] bit_eq_iff[of "drop_bit _ a"] bit_simps)
  also have "\<dots> \<longleftrightarrow> unat (drop_bit (host_bits p) a) = unat (drop_bit (host_bits p) (p_addr p))"
    by (simp add: word_unat_eq_iff)
  finally show ?thesis by (simp only: unat_drop_bit_eq) (simp only: drop_bit_eq_div)
qed

lemma div_block_iff:
  fixes n m k :: nat
  assumes "0 < k"
  shows "n div k = m div k \<longleftrightarrow> m div k * k \<le> n \<and> n \<le> m div k * k + (k - 1)"
proof
  assume "n div k = m div k"
  then show "m div k * k \<le> n \<and> n \<le> m div k * k + (k - 1)"
    using assms div_mult_mod_eq[of n k] mod_less_divisor[of k n] by (metis Suc_pred' add_le_cancel_left le_add1 less_Suc_eq_le)
next
  assume "m div k * k \<le> n \<and> n \<le> m div k * k + (k - 1)"
  with assms show "n div k = m div k" by (intro div_nat_eqI) (auto simp: mult.commute)
qed

text \<open>A prefix is the closed interval from its network address to its last address.\<close>

lemma contains_interval: "contains p a \<longleftrightarrow> masked_addr p \<le> a \<and> a \<le> Last p"
  by (simp add: contains_div word_le_nat_alt unat_Last unat_masked div_block_iff)

lemma contains_masked [simp]: "contains p (masked_addr p)"
  by (simp add: contains_div unat_masked)

lemma contains_Last [simp]: "contains p (Last p)"
  using contains_interval contains_masked by blast

lemma p_addr_contained [simp]: "contains p (p_addr p)"
  by (simp add: contains_div)

lemma unat_block_pow: "unat (w :: addr) div 2 ^ h = unat w div 2 ^ k div 2 ^ (h - k)" if "k \<le> h"
  using that by (simp flip: power_add add: div_mult2_eq[symmetric])

lemma masked_eq_div:
  "p_bits p = p_bits q \<Longrightarrow> masked_addr p = masked_addr q \<longleftrightarrow>
     unat (p_addr p) div 2 ^ host_bits p = unat (p_addr q) div 2 ^ host_bits q"
  by (simp add: word_unat_eq_iff unat_masked host_bits_def)

lemma overlaps_div:
  assumes "h = max (host_bits p) (host_bits q)"
  shows "overlaps p q \<longleftrightarrow> unat (p_addr p) div 2 ^ h = unat (p_addr q) div 2 ^ h"
proof -
  have "h = 32 - min (p_bits p) (p_bits q)"
    using assms by (simp add: host_bits_def)
  then show ?thesis
    unfolding overlaps_def Let_def by (subst masked_eq_div) (simp_all add: host_bits_def)
qed

text \<open>\<open>Overlaps\<close>, computed on the shorter prefix length, is the existence of a common address.\<close>

lemma overlaps_iff_common: "overlaps p q \<longleftrightarrow> (\<exists>a. contains p a \<and> contains q a)"
proof -
  define h where "h = max (host_bits p) (host_bits q)"
  note ov = overlaps_div[OF h_def]
  show ?thesis
  proof
    assume *: "overlaps p q"
    show "\<exists>a. contains p a \<and> contains q a"
    proof (cases "host_bits p \<le> host_bits q")
      case True
      with * have "contains q (p_addr p)" by (simp add: ov h_def contains_div max_def)
      then show ?thesis by (intro exI[of _ "p_addr p"]) simp
    next
      case False
      with * have "contains p (p_addr q)" by (simp add: ov h_def contains_div max_def)
      then show ?thesis by (intro exI[of _ "p_addr q"]) simp
    qed
  next
    assume "\<exists>a. contains p a \<and> contains q a"
    then obtain a where a: "contains p a" "contains q a" by blast
    have "unat a div 2 ^ h = unat (p_addr p) div 2 ^ h"
      using a(1) unat_block_pow[of "host_bits p" h] by (simp add: contains_div h_def)
    moreover have "unat a div 2 ^ h = unat (p_addr q) div 2 ^ h"
      using a(2) unat_block_pow[of "host_bits q" h] by (simp add: contains_div h_def)
    ultimately show "overlaps p q" by (simp add: ov)
  qed
qed

section \<open>Private address space\<close>

definition private_range :: "nat \<Rightarrow> bool" where
  "private_range n \<longleftrightarrow> (167772160 \<le> n \<and> n < 184549376) \<or> (2886729728 \<le> n \<and> n < 2887778304)
     \<or> (3232235520 \<le> n \<and> n < 3232301056)"

lemma div_range: "0 < k \<Longrightarrow> (n::nat) div k = c \<longleftrightarrow> c * k \<le> n \<and> n < Suc c * k"
  by (auto simp: div_nat_eqI mult.commute dividend_less_times_div div_times_less_eq_dividend)

lemma mod_256_div_16: "(x::nat) mod 256 div 16 = x div 16 mod 16"
  using mod_mult2_eq[of x 16 16] by simp

lemma div_mod_unique: "d < k \<Longrightarrow> (m::nat) div k = c \<and> m mod k = d \<longleftrightarrow> m = c * k + d"
  using div_mult_mod_eq[of m k] by auto

lemma is_private_ranges: "is_private a \<longleftrightarrow> private_range (unat a)"
proof -
  let ?m = "unat a div 2 ^ 20"
  have o: "octet 24 a = unat a div 2 ^ 24"
    using unat_less_32[of a] by (simp add: octet_def)
  have o16: "octet 16 a = unat a div 2 ^ 16 mod 256" by (simp add: octet_def)
  have d: "unat a div 2 ^ 24 = ?m div 16" "unat a div 2 ^ 16 div 16 = ?m"
    by (simp_all add: div_mult2_eq[symmetric])
  have "unat a div 2 ^ 16 mod 256 div 16 = ?m mod 16"
    unfolding d(2)[symmetric] by (rule mod_256_div_16)
  moreover have "?m div 16 = 172 \<and> ?m mod 16 = 1 \<longleftrightarrow> ?m = 2753"
    by (subst div_mod_unique) simp_all
  ultimately have 1: "octet 24 a = 172 \<and> octet 16 a div 16 = 1 \<longleftrightarrow> ?m = 2753"
    by (simp only: o d(1)) (simp only: octet_def)
  have "unat a div 2 ^ 24 = unat a div 2 ^ 16 div 256"
    by (simp add: div_mult2_eq[symmetric])
  then have 2: "octet 24 a = 192 \<and> octet 16 a = 168 \<longleftrightarrow> unat a div 2 ^ 16 = 49320"
    unfolding o o16 using div_mod_unique[of 168 256 "unat a div 2 ^ 16" 192] by simp
  have "is_private a \<longleftrightarrow> octet 24 a = 10 \<or> ?m = 2753 \<or> unat a div 2 ^ 16 = 49320"
    unfolding is_private_def using 1 2 by blast
  then show ?thesis
    unfolding o private_range_def by (simp add: div_range)
qed

lemma aligned_block_private:
  fixes lo h :: nat
  assumes lo: "lo = k * 2 ^ h" and h: "h \<le> 32"
    and a: "lo \<le> x" "x \<le> lo + (2 ^ h - 1)"
    and plo: "private_range lo" and phi: "private_range (lo + (2 ^ h - 1))"
  shows "private_range x"
proof (cases "h \<le> 28")
  case True
  then have "(2::nat) ^ h \<le> 2 ^ 28" by (intro power_increasing) auto
  then have "lo + (2 ^ h - 1) < lo + 268435456" by simp
  with a plo phi show ?thesis unfolding private_range_def by linarith
next
  case False
  with h have "h = 29 \<or> h = 30 \<or> h = 31 \<or> h = 32" by linarith
  then have "\<exists>j. lo = j * 536870912"
    by (elim disjE) (auto simp: lo intro: exI[of _ "k * 2"] exI[of _ "k * 4"] exI[of _ "k * 8"])
  then obtain j where j: "lo = j * 536870912" ..
  have "j = 0 \<or> (1 \<le> j \<and> j \<le> 5) \<or> j = 6 \<or> 7 \<le> j" by linarith
  with plo j show ?thesis unfolding private_range_def by (elim disjE conjE) linarith+
qed

lemma contained_private:
  assumes "is_private (masked_addr p)" "is_private (Last p)" "contains p a"
  shows "is_private a"
  unfolding is_private_ranges
proof (rule aligned_block_private)
  show "unat (masked_addr p) = unat (p_addr p) div 2 ^ host_bits p * 2 ^ host_bits p"
    by (rule unat_masked)
  show "unat (masked_addr p) \<le> unat a" "unat a \<le> unat (masked_addr p) + (2 ^ host_bits p - 1)"
    using assms(3) by (simp_all add: contains_interval word_le_nat_alt unat_Last)
  show "private_range (unat (masked_addr p))"
    using assms(1) by (simp add: is_private_ranges)
  show "private_range (unat (masked_addr p) + (2 ^ host_bits p - 1))"
    using assms(2) by (simp only: is_private_ranges unat_Last)
qed (rule host_bits_le)

section \<open>What an accepted pool list guarantees\<close>

lemma Parse_ok:
  assumes "Parse cidr = Inr p"
  shows "p_bits p \<le> 29" "p_addr p = masked_addr p" "\<forall>a. contains p a \<longrightarrow> is_private a"
    "parse_prefix cidr = Some p"
proof -
  from assms have *: "p = masked p" "p_bits p \<le> 29" "is_private (p_addr p)" "is_private (Last p)"
    "parse_prefix cidr = Some p"
    by (auto simp: Parse_def tx_simps)
  then show eq: "p_addr p = masked_addr p" by (metis masked_def prefix.select_convs(1))
  show "p_bits p \<le> 29" "parse_prefix cidr = Some p" by fact+
  show "\<forall>a. contains p a \<longrightarrow> is_private a"
    using contained_private[of p] * eq by auto
qed

lemma validate_loop_ok:
  "validate_loop prefixes pools = Inr () \<Longrightarrow>
     \<exists>ps. map Parse pools = map Inr ps \<and> sorted_wrt (\<lambda>p q. \<not> overlaps q p) (prefixes @ ps)
       \<or> \<not> sorted_wrt (\<lambda>p q. \<not> overlaps q p) prefixes"
proof (induction prefixes pools rule: validate_loop.induct)
  case (1 prefixes)
  then show ?case by (intro exI[of _ "[]"]) simp
next
  case (2 prefixes cidr rest)
  from "2.prems" obtain p where p: "Parse cidr = Inr p"
    and fresh: "\<forall>q \<in> set prefixes. \<not> overlaps p q"
    and rec: "validate_loop (prefixes @ [p]) rest = Inr ()"
    by (auto simp: tx_simps)
  show ?case
  proof (cases "sorted_wrt (\<lambda>p q. \<not> overlaps q p) prefixes")
    case True
    with fresh have "sorted_wrt (\<lambda>p q. \<not> overlaps q p) (prefixes @ [p])"
      by (simp add: sorted_wrt_append)
    with "2.IH"[OF _ rec] fresh obtain ps where "map Parse rest = map Inr ps"
      "sorted_wrt (\<lambda>p q. \<not> overlaps q p) ((prefixes @ [p]) @ ps)"
      by blast
    then show ?thesis using p by (intro exI[of _ "p # ps"]) simp
  qed simp
qed

lemma Validate_ok:
  assumes "Validate pools = Inr ()"
  obtains ps where "map Parse pools = map Inr ps" "sorted_wrt (\<lambda>p q. \<not> overlaps q p) ps"
    "1 \<le> length pools" "length pools \<le> MaxPools"
proof -
  from assms have v: "validate_loop [] pools = Inr ()"
    and l: "1 \<le> length pools" "length pools \<le> MaxPools"
    by (simp_all add: Validate_def tx_simps Suc_le_eq)
  from validate_loop_ok[OF v] l that show ?thesis by auto
qed

lemma Decode_ok:
  assumes "Decode primary extras = Inr pools"
  shows "Validate pools = Inr ()" "hd pools = primary" "pools \<noteq> []"
  using assms by (auto simp: Decode_def tx_simps split: json_field.splits)

section \<open>Counting the assignable addresses\<close>

lemma contains_image: "unat ` {a. contains p a} = {unat (masked_addr p) .. unat (Last p)}"
proof
  show "unat ` {a. contains p a} \<subseteq> {unat (masked_addr p)..unat (Last p)}"
    by (auto simp: contains_interval word_le_nat_alt)
  show "{unat (masked_addr p)..unat (Last p)} \<subseteq> unat ` {a. contains p a}"
  proof
    fix n assume n: "n \<in> {unat (masked_addr p)..unat (Last p)}"
    then have "n < 2 ^ 32" using unat_less_32[of "Last p"] by simp
    then have "unat (of_nat n :: addr) = n" by (simp add: unat_of_nat)
    then show "n \<in> unat ` {a. contains p a}"
      using n by (intro image_eqI[of _ _ "of_nat n"]) (auto simp: contains_interval word_le_nat_alt)
  qed
qed

lemma card_contains: "card {a. contains p a} = 2 ^ host_bits p"
proof -
  have "card (unat ` {a. contains p a}) = card {a. contains p a}"
    by (rule card_image) (auto intro: inj_onI simp: word_unat_eq_iff)
  then show ?thesis by (simp add: contains_image unat_Last)
qed

lemma next_masked:
  assumes "p_bits p \<le> 29"
  shows "next_addr (masked_addr p) = Some (masked_addr p + 1)"
    "unat (masked_addr p + 1) = unat (masked_addr p) + 1"
    "7 \<le> unat (Last p) - unat (masked_addr p)"
proof -
  have "(2::nat) ^ 3 \<le> 2 ^ host_bits p"
    using assms by (intro power_increasing) (auto simp: host_bits_def)
  then show 7: "7 \<le> unat (Last p) - unat (masked_addr p)" by (simp add: unat_Last)
  then have "unat (masked_addr p) + 1 < 2 ^ 32" using unat_less_32[of "Last p"] by linarith
  then show u: "unat (masked_addr p + 1) = unat (masked_addr p) + 1"
    by (subst unat_add_lem[THEN iffD1]) simp_all
  then have "masked_addr p \<noteq> - 1" by auto
  then show "next_addr (masked_addr p) = Some (masked_addr p + 1)" by (simp add: next_addr_def)
qed

lemma Assignable_iff:
  assumes "p_bits p \<le> 29"
  shows "Assignable p a \<longleftrightarrow> masked_addr p + 1 < a \<and> a < Last p"
  using next_masked[OF assms]
  by (auto simp: Assignable_def contains_interval word_less_nat_alt word_le_nat_alt word_unat_eq_iff)

lemma Assignable_image:
  assumes "p_bits p \<le> 29"
  shows "{a. Assignable p a} = {a. contains p a} - {masked_addr p, masked_addr p + 1, Last p}"
  using next_masked[OF assms] by (auto simp: Assignable_def)

lemma card_Assignable:
  assumes "p_bits p \<le> 29"
  shows "card {a. Assignable p a} = 2 ^ host_bits p - 3"
proof -
  note n = next_masked[OF assms]
  have "card {masked_addr p, masked_addr p + 1, Last p} = 3"
    using n(2,3) by (auto simp: card_insert_if word_unat_eq_iff)
  moreover have "contains p (masked_addr p + 1)"
    using n(2,3) by (simp add: contains_interval word_le_nat_alt)
  ultimately show ?thesis
    unfolding Assignable_image[OF assms]
    by (subst card_Diff_subset) (auto simp: card_contains)
qed

lemma Capacity_card:
  assumes "p_bits p \<le> 29"
  shows "Capacity p = int (card {a. Assignable p a})" "5 \<le> Capacity p"
proof -
  have lo: "(2::int) ^ 3 \<le> 2 ^ host_bits p"
    using assms by (intro power_increasing) (auto simp: host_bits_def)
  have "(2::int) ^ host_bits p \<le> 2 ^ 32" by (intro power_increasing host_bits_le) simp
  then have c: "Capacity p = 2 ^ host_bits p - 3" using lo unfolding Capacity_def by (intro u64_id) simp_all
  have "(3::nat) \<le> 2 ^ host_bits p" using lo by (simp flip: of_nat_le_iff[where 'a = int])
  then show "Capacity p = int (card {a. Assignable p a})"
    by (simp add: c card_Assignable[OF assms] of_nat_diff)
  show "5 \<le> Capacity p" using lo by (simp add: c)
qed

text \<open>
  An accepted pool list is sound: one to sixteen pools, no address in two of them, every address of
  every pool RFC 1918 private, and the advertised capacity of a pool is exactly the number of
  addresses the allocator may hand out, at least five.
\<close>

theorem validated_pools_sound:
  assumes "Validate pools = Inr ()"
  shows "\<exists>ps. map Parse pools = map Inr ps \<and> 1 \<le> length ps \<and> length ps \<le> 16
    \<and> (\<forall>i < length ps. \<forall>j < length ps. i \<noteq> j \<longrightarrow> \<not> (\<exists>a. contains (ps ! i) a \<and> contains (ps ! j) a))
    \<and> (\<forall>p \<in> set ps. (\<forall>a. contains p a \<longrightarrow> is_private a)
         \<and> Capacity p = int (card {a. Assignable p a}) \<and> 5 \<le> Capacity p)"
proof -
  obtain ps where ps: "map Parse pools = map Inr ps" "sorted_wrt (\<lambda>p q. \<not> overlaps q p) ps"
    "1 \<le> length pools" "length pools \<le> MaxPools"
    using assms by (rule Validate_ok)
  have len: "length pools = length ps" using ps(1) map_eq_imp_length_eq by blast
  have disj: "\<not> (\<exists>a. contains (ps ! i) a \<and> contains (ps ! j) a)" if "i < j" "j < length ps" for i j
    using sorted_wrt_nth_less[OF ps(2) that] by (auto simp: overlaps_iff_common)
  have "\<forall>i < length ps. \<forall>j < length ps. i \<noteq> j \<longrightarrow> \<not> (\<exists>a. contains (ps ! i) a \<and> contains (ps ! j) a)"
    using disj by (metis linorder_neqE_nat)
  moreover have "(\<forall>a. contains p a \<longrightarrow> is_private a) \<and> Capacity p = int (card {a. Assignable p a}) \<and> 5 \<le> Capacity p"
    if "p \<in> set ps" for p
  proof -
    have "Inr p \<in> set (map Parse pools)" using that ps(1) by simp
    then obtain cidr where "Parse cidr = Inr p" by auto
    from Parse_ok[OF this] Capacity_card[of p] show ?thesis by blast
  qed
  moreover have "1 \<le> length ps" "length ps \<le> 16" using ps(3,4) len by (simp_all add: MaxPools_def)
  ultimately show ?thesis using ps(1) by blast
qed

theorem validated_pools_sound_witness:
  "\<exists>pools ps. Validate pools = Inr () \<and> map Parse pools = map Inr ps \<and> map Capacity ps = [253]"
proof -
  let ?p = "\<lparr>p_addr = 0x0A080000, p_bits = 24\<rparr>" and ?pools = "[show_prefix \<lparr>p_addr = 0x0A080000, p_bits = 24\<rparr>]"
  have parse: "Parse (show_prefix ?p) = Inr ?p"
    by (simp add: Parse_def parse_show_prefix masked_def masked_addr_def host_bits_def
        is_private_def octet_def Last_def mask_eq_exp_minus_1)
  then have v: "Validate ?pools = Inr ()" by (simp add: Validate_def MaxPools_def)
  from validated_pools_sound[OF v] obtain ps where "map Parse ?pools = map Inr ps" by blast
  with parse have "map Parse ?pools = map Inr ps" "ps = [?p]" by (auto simp: map_eq_Cons_conv)
  with v show ?thesis
    by (intro exI[of _ ?pools] exI[of _ ps]) (simp add: Capacity_def host_bits_def)
qed

end
