(* ===== verification/AwgParam.thy ===== *)
theory AwgParam
  imports Domain Strconv "HOL-Library.Word"
begin

text \<open>
  Scalar-or-range parameter values (\<open>src/internal/awgparam/range.go\<close>). The two Go types differ
  only in the width of their endpoints, so the operations are defined once for a word of any
  length and named at 32 and 16 bits. The JSON codec of the ranges is not modelled.
\<close>

record 'w urange =
  r_low :: 'w
  r_high :: 'w

type_synonym u32range = "32 word urange"
type_synonym u16range = "16 word urange"

definition new_range :: "'n::len word \<Rightarrow> 'n word \<Rightarrow> 'n word urange result" where
  "new_range low high =
     (if high < low then Inl (Foreign ''range low exceeds high'')
      else Inr \<lparr>r_low = low, r_high = high\<rparr>)"

definition NewU32Range :: "32 word \<Rightarrow> 32 word \<Rightarrow> u32range result" where
  "NewU32Range = new_range"

definition NewU16Range :: "16 word \<Rightarrow> 16 word \<Rightarrow> u16range result" where
  "NewU16Range = new_range"

definition scalar :: "'w \<Rightarrow> 'w urange" where
  "scalar v = \<lparr>r_low = v, r_high = v\<rparr>"

definition ScalarU32 :: "32 word \<Rightarrow> u32range" where
  "ScalarU32 = scalar"

definition ScalarU16 :: "16 word \<Rightarrow> u16range" where
  "ScalarU16 = scalar"

section \<open>Text syntax\<close>

definition decimalDigits :: "string \<Rightarrow> bool" where
  "decimalDigits s \<longleftrightarrow> s \<noteq> [] \<and> list_all is_digit s"

text \<open>\<open>strconv.ParseUint(s, 10, bits)\<close> on a string of decimal digits.\<close>

definition parse_uint :: "nat \<Rightarrow> string \<Rightarrow> nat option" where
  "parse_uint bits s =
     (case parse_dec s of Some n \<Rightarrow> if n < 2 ^ bits then Some n else None | None \<Rightarrow> None)"

definition parseBounds :: "string \<Rightarrow> nat \<Rightarrow> (nat \<times> nat) result" where
  "parseBounds text bits =
     (if text = [] \<or> 1 < count_list text CHR ''-'' then Inl (Foreign ''range syntax'')
      else
        let lowText = takeWhile (\<lambda>c. c \<noteq> CHR ''-'') text;
            ranged = CHR ''-'' \<in> set text;
            highText = tl (dropWhile (\<lambda>c. c \<noteq> CHR ''-'') text)
        in if \<not> decimalDigits lowText \<or> (ranged \<and> \<not> decimalDigits highText)
           then Inl (Foreign ''range syntax'')
           else case parse_uint bits lowText of
                  None \<Rightarrow> Inl (Foreign ''range bound'')
                | Some low \<Rightarrow>
                    (case (if ranged then parse_uint bits highText else Some low) of
                       None \<Rightarrow> Inl (Foreign ''range bound'')
                     | Some high \<Rightarrow>
                         if high < low then Inl (Foreign ''range low exceeds high'')
                         else Inr (low, high)))"

definition parse_range :: "string \<Rightarrow> 'n::len word urange result" where
  "parse_range text =
     ebind (parseBounds text LENGTH('n)) (\<lambda>(low, high).
       Inr \<lparr>r_low = of_nat low, r_high = of_nat high\<rparr>)"

definition ParseU32Range :: "string \<Rightarrow> u32range result" where
  "ParseU32Range = parse_range"

definition ParseU16Range :: "string \<Rightarrow> u16range result" where
  "ParseU16Range = parse_range"

definition range_is_zero :: "'n::len word urange \<Rightarrow> bool" where
  "range_is_zero r \<longleftrightarrow> r_low r = 0 \<and> r_high r = 0"

definition range_overlaps :: "'n::len word urange \<Rightarrow> 'n word urange \<Rightarrow> bool" where
  "range_overlaps r s \<longleftrightarrow> r_low r \<le> r_high s \<and> r_low s \<le> r_high r"

definition show_range :: "'n::len word urange \<Rightarrow> string" where
  "show_range r =
     (if r_low r = r_high r then show_nat (unat (r_low r))
      else show_nat (unat (r_low r)) @ CHR ''-'' # show_nat (unat (r_high r)))"

section \<open>Database column\<close>

datatype sql_value = SqlNull | SqlInt int | SqlText string | SqlBlob string | SqlOther

fun scan_range :: "sql_value \<Rightarrow> 'n::len word urange result" where
  "scan_range SqlNull = Inr (scalar 0)"
| "scan_range (SqlInt v) =
     (if v < 0 \<or> 2 ^ LENGTH('n) - 1 < v then Inl (Foreign ''legacy integer'')
      else Inr (scalar (of_int v)))"
| "scan_range (SqlText s) = (if s = [] then Inr (scalar 0) else parse_range s)"
| "scan_range (SqlBlob s) = (if s = [] then Inr (scalar 0) else parse_range s)"
| "scan_range SqlOther = Inl (Foreign ''cannot scan'')"

definition scanU32 :: "sql_value \<Rightarrow> u32range result" where
  "scanU32 = scan_range"

definition scanU16 :: "sql_value \<Rightarrow> u16range result" where
  "scanU16 = scan_range"

definition range_value :: "'n::len word urange \<Rightarrow> sql_value" where
  "range_value r = SqlText (if range_is_zero r then [] else show_range r)"

section \<open>Lemmas\<close>

lemma decimalDigits_show [simp]: "decimalDigits (show_nat n)"
  by (simp add: decimalDigits_def list_all_iff show_nat_digits)

lemma parse_uint_show [simp]: "parse_uint LENGTH('n) (show_nat (unat (w :: 'n::len word))) = Some (unat w)"
  using unsigned_less[of w, where ?'a = nat] by (simp add: parse_uint_def)

lemma dash_not_digit: "CHR ''-'' \<notin> set (show_nat n)"
  using show_nat_digits[of "CHR ''-''" n] by (auto simp: is_digit_def)

lemma takeWhile_dash [simp]: "takeWhile (\<lambda>c. c \<noteq> CHR ''-'') (show_nat n @ CHR ''-'' # t) = show_nat n"
  using dash_not_digit[of n] by (simp add: takeWhile_append)

lemma takeWhile_no_dash [simp]: "takeWhile (\<lambda>c. c \<noteq> CHR ''-'') (show_nat n) = show_nat n"
  using dash_not_digit[of n] by (auto simp: takeWhile_eq_all_conv)

lemma dropWhile_dash [simp]:
  "dropWhile (\<lambda>c. c \<noteq> CHR ''-'') (show_nat n @ CHR ''-'' # t) = CHR ''-'' # t"
  using dash_not_digit[of n] by (auto simp: dropWhile_append)

lemma count_list_absent: "x \<notin> set xs \<Longrightarrow> count_list xs x = 0"
  by (simp add: count_list_0_iff)

lemma parse_show_range:
  assumes "r_low r \<le> r_high r"
  shows "parse_range (show_range r) = Inr (r :: 'n::len word urange)"
proof (cases "r_low r = r_high r")
  case True
  then show ?thesis
    by (simp add: parse_range_def show_range_def parseBounds_def dash_not_digit
        count_list_absent Let_def)
next
  case False
  moreover have "unat (r_low r) \<le> unat (r_high r)" using assms by (simp add: word_le_nat_alt)
  ultimately show ?thesis
    by (simp add: parse_range_def show_range_def parseBounds_def dash_not_digit
        count_list_absent Let_def)
qed

lemma parseBounds_ok:
  "parseBounds text bits = Inr (low, high) \<Longrightarrow> low \<le> high \<and> high < 2 ^ bits"
  by (auto simp: parseBounds_def Let_def parse_uint_def tx_simps split: if_splits option.splits)

lemma parse_range_ordered:
  assumes "parse_range text = Inr (r :: 'n::len word urange)"
  shows "r_low r \<le> r_high r"
proof -
  from assms obtain low high where b: "parseBounds text LENGTH('n) = Inr (low, high)"
    and r: "r = \<lparr>r_low = of_nat low, r_high = of_nat high\<rparr>"
    by (auto simp: parse_range_def tx_simps)
  from parseBounds_ok[OF b] show ?thesis
    by (simp add: r word_le_nat_alt unat_of_nat)
qed

lemma show_range_nonempty [simp]: "show_range r \<noteq> []"
  by (simp add: show_range_def)

text \<open>
  A stored range column reads back as the value that was written: for every 32-bit range whose
  bounds are in order, \<open>Scan\<close> after \<open>Value\<close> is the identity, the unset (zero) range included, and
  every range \<open>ParseU32Range\<close> accepts has its bounds in order, so that only such ranges are
  ever stored.
\<close>

theorem range_column_roundtrip:
  "(\<forall>r :: u32range. r_low r \<le> r_high r \<longrightarrow> scanU32 (range_value r) = Inr r)
   \<and> (\<forall>s r. ParseU32Range s = Inr r \<longrightarrow> r_low r \<le> r_high r)"
proof (intro conjI allI impI)
  fix r :: u32range
  assume "r_low r \<le> r_high r"
  then show "scanU32 (range_value r) = Inr r"
    by (cases "range_is_zero r")
      (auto simp: scanU32_def range_value_def parse_show_range scalar_def range_is_zero_def)
next
  fix s and r :: u32range
  assume "ParseU32Range s = Inr r"
  then show "r_low r \<le> r_high r"
    unfolding ParseU32Range_def by (rule parse_range_ordered)
qed

theorem range_column_roundtrip_witness:
  "scanU32 (range_value \<lparr>r_low = 5 :: 32 word, r_high = 99\<rparr>) = Inr \<lparr>r_low = 5, r_high = 99\<rparr>
   \<and> ParseU32Range ''5-42'' = Inr \<lparr>r_low = 5, r_high = 42\<rparr> \<and> (5 :: 32 word) \<le> 42"
proof -
  have "ParseU32Range ''5-42'' = Inr \<lparr>r_low = 5, r_high = 42\<rparr>"
    by (simp add: ParseU32Range_def parse_range_def parseBounds_def Let_def decimalDigits_def
        is_digit_def parse_uint_def parse_dec_def digit_val_def)
  moreover from this have "(5 :: 32 word) \<le> 42"
    using range_column_roundtrip by fastforce
  moreover have "scanU32 (range_value \<lparr>r_low = 5 :: 32 word, r_high = 99\<rparr>) =
      Inr \<lparr>r_low = 5, r_high = 99\<rparr>"
    by (rule range_column_roundtrip[THEN conjunct1, rule_format]) simp
  ultimately show ?thesis by blast
qed

end
