(* ===== verification/Store.thy ===== *)
theory Store
  imports Ipam AwgParam
begin

text \<open>
  The database: one list of rows per table the modelled services read or write, and the
  transaction wrapper (\<open>src/internal/database/database.go\<close>). A row holds the decoded column
  values; the text encodings of booleans, tags, metadata and instants round-trip and are not
  spelled out, and instants are in the years 0 to 9999 that RFC 3339 can write. Driver and disk
  failures are outside the model; constraint violations the services react to are in it.
\<close>

section \<open>Rows\<close>

record user =
  u_id :: string
  u_reseller :: "string option"
  u_username :: string
  u_display_name :: string
  u_note :: string
  u_tags :: "string list"
  u_status :: user_status
  u_reason :: "disable_reason option"
  u_limit :: "int option"
  u_used_rx :: int
  u_used_tx :: int
  u_speed_down :: "int option"
  u_speed_up :: "int option"
  u_device_limit :: "int option"
  u_template :: "string option"
  u_interface :: "string option"
  u_policy :: start_policy
  u_duration :: "int option"
  u_activated :: "time option"
  u_expires :: "time option"
  u_activity :: "time option"
  u_enabled :: bool
  u_metadata :: payload
  u_deleted :: "time option"
  u_created :: time
  u_updated :: time

record device =
  d_id :: string
  d_user :: string
  d_iface :: string
  d_name :: string
  d_ipv4 :: string
  d_pubkey :: string
  d_privkey :: string
  d_psk :: "string option"
  d_enabled :: bool
  d_handshake :: "time option"
  d_endpoint :: string
  d_rx :: int
  d_tx :: int
  d_last_rx :: int
  d_last_tx :: int
  d_created :: time
  d_updated :: time

text \<open>
  The parameter columns of \<open>tunnel_interfaces\<close> as the driver returns them: nullable integers and
  texts, and the scalar-or-range columns that scan themselves.
\<close>

record obf_columns =
  oc_jc :: "int option"
  oc_jmin :: "int option"
  oc_jmax :: "int option"
  oc_s1 :: "int option"
  oc_s2 :: "int option"
  oc_h1 :: sql_value
  oc_h2 :: sql_value
  oc_h3 :: sql_value
  oc_h4 :: sql_value
  oc_i1 :: "string option"
  oc_i2 :: "string option"
  oc_i3 :: "string option"
  oc_i4 :: "string option"
  oc_i5 :: "string option"
  oc_s3 :: int
  oc_s4 :: int
  oc_hpk :: string
  oc_padding :: sql_value
  oc_rekey_after :: sql_value
  oc_rekey_timeout :: sql_value
  oc_reject_after :: sql_value
  oc_keepalive :: sql_value
  oc_max_handshake :: sql_value
  oc_trailers :: int
  oc_no_cookies :: int

definition plain_columns :: obf_columns where
  "plain_columns = \<lparr>oc_jc = None, oc_jmin = None, oc_jmax = None, oc_s1 = None, oc_s2 = None,
     oc_h1 = SqlText [], oc_h2 = SqlText [], oc_h3 = SqlText [], oc_h4 = SqlText [],
     oc_i1 = None, oc_i2 = None, oc_i3 = None, oc_i4 = None, oc_i5 = None, oc_s3 = 0, oc_s4 = 0, oc_hpk = [],
     oc_padding = SqlText [], oc_rekey_after = SqlText [], oc_rekey_timeout = SqlText [],
     oc_reject_after = SqlText [], oc_keepalive = SqlText [], oc_max_handshake = SqlText [],
     oc_trailers = 0, oc_no_cookies = 0\<rparr>"

record iface_row =
  i_id :: string
  i_name :: string
  i_port :: int
  i_subnet :: string
  i_extras :: extras
  i_mtu :: int
  i_pubkey :: string
  i_privkey :: string
  i_cols :: obf_columns
  i_preset :: string
  i_enabled :: bool
  i_mode :: string
  i_endpoint :: string
  i_created :: time
  i_updated :: time

record endpoint =
  e_id :: string
  e_reseller :: "string option"
  e_include_reseller :: bool
  e_enabled :: bool
  e_events :: "string list"

record event =
  ev_type :: string
  ev_payload :: payload
  ev_reseller :: "string option"
  ev_created :: time

record delivery =
  dl_endpoint :: string
  dl_type :: string
  dl_payload :: payload
  dl_attempts :: nat
  dl_next_attempt :: time

record db =
  users :: "user list"
  devices :: "device list"
  ifaces :: "iface_row list"
  retired :: "(string \<times> string) list"
  templates :: "string list"
  resellers :: "string list"
  endpoints :: "endpoint list"
  events :: "event list"
  deliveries :: "delivery list"

section \<open>Transactions\<close>

text \<open>
  \<open>WithTx\<close> runs a function on the database: an error rolls back, so the caller goes on with
  the database it had.
\<close>

definition WithTx :: "'s \<Rightarrow> ('s \<Rightarrow> ('a \<times> 's) result) \<Rightarrow> 'a result \<times> 's" where
  "WithTx s fn = (case fn s of Inl e \<Rightarrow> (Inl e, s) | Inr (x, s') \<Rightarrow> (Inr x, s'))"

lemma WithTx_simps [simp]:
  "fn s = Inl e \<Longrightarrow> WithTx s fn = (Inl e, s)"
  "fn s = Inr (x, s') \<Longrightarrow> WithTx s fn = (Inr x, s')"
  by (simp_all add: WithTx_def)

lemma WithTx_Inr [tx_simps]: "WithTx s fn = (Inr x, s') \<longleftrightarrow> fn s = Inr (x, s')"
  by (auto simp: WithTx_def split: sum.splits)

lemma WithTx_Inl: "WithTx s fn = (Inl e, s') \<longleftrightarrow> fn s = Inl e \<and> s' = s"
  by (auto simp: WithTx_def split: sum.splits)

section \<open>Optional columns\<close>

text \<open>\<open>nullText\<close>: the empty string is stored as NULL.\<close>

definition nullText :: "string option \<Rightarrow> string option" where
  "nullText s = (case s of None \<Rightarrow> None | Some t \<Rightarrow> if t = [] then None else Some t)"

lemma nullText_simps [simp]: "nullText None = None" "nullText (nullText s) = nullText s"
  by (auto simp: nullText_def split: option.splits)

text \<open>\<open>INSERT OR IGNORE INTO retired_peer_keys\<close>.\<close>

definition retire_keys :: "(string \<times> string) list \<Rightarrow> (string \<times> string) list \<Rightarrow> (string \<times> string) list" where
  "retire_keys new old = fold (\<lambda>k acc. if k \<in> set acc then acc else acc @ [k]) new old"

lemma set_retire_keys [simp]: "set (retire_keys new old) = set old \<union> set new"
  unfolding retire_keys_def by (induction new arbitrary: old) auto

lemma distinct_retire_keys: "distinct old \<Longrightarrow> distinct (retire_keys new old)"
  unfolding retire_keys_def by (induction new arbitrary: old) auto

section \<open>The event recorder seam\<close>

text \<open>
  The services hold an optional \<open>EventRecorder\<close>; \<open>None\<close> is the nil recorder that skips
  emission. What they rely on is that recording an event inside their transaction leaves the
  tables of the domain alone.
\<close>

type_synonym recorder = "db \<Rightarrow> string \<Rightarrow> payload \<Rightarrow> db result"

definition record_opt :: "recorder option \<Rightarrow> db \<Rightarrow> string \<Rightarrow> payload \<Rightarrow> db result" where
  "record_opt rc s ev data = (case rc of None \<Rightarrow> Inr s | Some r \<Rightarrow> r s ev data)"

definition same_domain :: "db \<Rightarrow> db \<Rightarrow> bool" where
  "same_domain s t \<longleftrightarrow> users t = users s \<and> devices t = devices s \<and> ifaces t = ifaces s
     \<and> retired t = retired s \<and> templates t = templates s \<and> resellers t = resellers s"

locale event_recorder =
  fixes rc :: "recorder option"
  assumes frame: "record_opt rc s ev data = Inr s' \<Longrightarrow> same_domain s s'"
begin

lemma rc_users: "record_opt rc s ev data = Inr s' \<Longrightarrow> users s' = users s"
  and rc_devices: "record_opt rc s ev data = Inr s' \<Longrightarrow> devices s' = devices s"
  and rc_ifaces: "record_opt rc s ev data = Inr s' \<Longrightarrow> ifaces s' = ifaces s"
  and rc_retired: "record_opt rc s ev data = Inr s' \<Longrightarrow> retired s' = retired s"
  using frame by (auto simp: same_domain_def)

end

end
