(* ===== verification/Webhook.thy ===== *)
theory Webhook
  imports Store
begin

text \<open>
  The durable event recorder (\<open>RecordTx\<close> of \<open>src/internal/webhook/webhook.go\<close>): one event row and
  one pending delivery per enabled, subscribed endpoint that may see the event's tenant, all in
  the caller's transaction. Event and delivery identifiers are random and not modelled.
\<close>

section \<open>Catalog\<close>

definition Catalog :: "string list" where
  "Catalog = [''user.created'', ''user.updated'', ''user.enabled'', ''user.disabled'',
     ''user.expired'', ''user.traffic_exceeded'', ''user.first_connected'',
     ''device.created'', ''device.deleted'', ''node.started'']"

definition ValidEvent :: "string \<Rightarrow> bool" where
  "ValidEvent e \<longleftrightarrow> e \<in> set Catalog"

section \<open>Recording\<close>

text \<open>The tenant of an event is read from the stored user, never from the payload.\<close>

definition event_owner :: "db \<Rightarrow> string \<Rightarrow> payload \<Rightarrow> string option" where
  "event_owner s ev data =
     (if ev = ''node.started'' then None
      else case map_of data ''user_id'' of
             Some (JStr uid) \<Rightarrow>
               if uid = [] then None
               else (case find_row u_id uid (users s) of None \<Rightarrow> None | Some u \<Rightarrow> u_reseller u)
           | _ \<Rightarrow> None)"

definition endpoint_sees :: "string option \<Rightarrow> endpoint \<Rightarrow> bool" where
  "endpoint_sees owner e \<longleftrightarrow> e_enabled e \<and>
     ((e_reseller e = None \<and> (owner = None \<or> e_include_reseller e))
      \<or> (e_reseller e \<noteq> None \<and> e_reseller e = owner))"

definition RecordTx :: "time \<Rightarrow> recorder" where
  "RecordTx now s ev data =
     (if \<not> ValidEvent ev then E CodeInvalidRequest
      else
        let owner = event_owner s ev data;
            subs = filter (\<lambda>e. endpoint_sees owner e \<and> ev \<in> set (e_events e)) (endpoints s)
        in Inr (s\<lparr>events := events s @ [\<lparr>ev_type = ev, ev_payload = data, ev_reseller = owner,
                    ev_created = now\<rparr>],
                  deliveries := deliveries s @ map (\<lambda>e. \<lparr>dl_endpoint = e_id e, dl_type = ev,
                    dl_payload = data, dl_attempts = 0, dl_next_attempt = now\<rparr>) subs\<rparr>))"

lemma RecordTx_frame: "RecordTx now s ev data = Inr s' \<Longrightarrow> same_domain s s'"
  by (auto simp: RecordTx_def Let_def same_domain_def tx_simps)

text \<open>The webhook recorder, and the nil recorder, keep the contract the services rely on.\<close>

interpretation webhook_rc: event_recorder "Some (RecordTx now)"
  by unfold_locales (simp add: record_opt_def RecordTx_frame)

interpretation nil_rc: event_recorder None
  by unfold_locales (simp add: record_opt_def same_domain_def)

lemma RecordTx_total: "ValidEvent ev \<Longrightarrow> \<exists>s'. RecordTx now s ev data = Inr s'"
  by (simp add: RecordTx_def Let_def)



end
