(* ===== verification/Users.thy ===== *)
theory Users
  imports Webhook
begin

text \<open>
  The subscription-owner service (\<open>src/internal/user/user.go\<close>, \<open>delete.go\<close>). An operation takes
  the service (its clock reading and its recorder), the database and its arguments, and returns
  the result with the database after it. Identifiers drawn by \<open>domain.NewID\<close> are arguments, the
  clock is read once per operation.

  \<open>Update\<close>, \<open>SetStatus\<close>, \<open>Renew\<close> and \<open>SoftDelete\<close> read the row before their transaction starts;
  each is split into the read and the part that works on that snapshot, so that steps of other
  requests can come between the two.
\<close>

record user_service =
  us_now :: time
  us_recorder :: "recorder option"

section \<open>Input\<close>

definition name_char :: "char \<Rightarrow> bool" where
  "name_char c \<longleftrightarrow> (let n = of_char c :: nat in
     (97 \<le> n \<and> n \<le> 122) \<or> (65 \<le> n \<and> n \<le> 90) \<or> (48 \<le> n \<and> n \<le> 57) \<or> n = 95 \<or> n = 45)"

definition usernameRe :: "string \<Rightarrow> bool" where
  "usernameRe s \<longleftrightarrow> 3 \<le> length s \<and> length s \<le> 32 \<and> list_all name_char s"

definition prefixRe :: "string \<Rightarrow> bool" where
  "prefixRe s \<longleftrightarrow> list_all name_char s"

record user_input =
  in_username :: string
  in_reseller :: "string option"
  in_display_name :: "string option"
  in_note :: "string option"
  in_tags :: "string list option"
  in_limit :: "int opt"
  in_speed_down :: "int opt"
  in_speed_up :: "int opt"
  in_device_limit :: "int opt"
  in_template :: "string opt"
  in_interface :: "string opt"
  in_policy :: start_policy
  in_duration :: "int option"
  in_expires :: "time option"
  in_enabled :: "bool option"
  in_metadata :: payload

definition validateLimits :: "user_input \<Rightarrow> unit result" where
  "validateLimits inp =
     (if \<exists>v \<in> set_option (opt_given (in_limit inp)). v < 0 then E CodeInvalidRequest
      else if \<exists>o1 \<in> set [in_speed_down inp, in_speed_up inp, in_device_limit inp].
                \<exists>v \<in> set_option (opt_given o1). v \<le> 0 then E CodeInvalidRequest
      else if \<exists>v \<in> set_option (in_duration inp). v \<le> 0 then E CodeInvalidRequest
      else if in_policy inp \<noteq> PolicyUnset \<and> \<not> policy_valid (in_policy inp) then E CodeInvalidRequest
      else Inr ())"

section \<open>Creation\<close>

definition buildCreate :: "time \<Rightarrow> string \<Rightarrow> user_input \<Rightarrow> user" where
  "buildCreate now new_id inp =
     (let policy = (if in_policy inp = PolicyUnset then StartImmediate else in_policy inp);
          waiting = (policy = StartFirstConnection)
      in \<lparr>u_id = new_id, u_reseller = in_reseller inp, u_username = in_username inp,
          u_display_name = (case in_display_name inp of None \<Rightarrow> [] | Some d \<Rightarrow> d),
          u_note = (case in_note inp of None \<Rightarrow> [] | Some n \<Rightarrow> n),
          u_tags = (case in_tags inp of None \<Rightarrow> [] | Some t \<Rightarrow> t),
          u_status = (if waiting then UserWaitingFirstConnection else UserActive),
          u_reason = None,
          u_limit = opt_given (in_limit inp), u_used_rx = 0, u_used_tx = 0,
          u_speed_down = opt_given (in_speed_down inp), u_speed_up = opt_given (in_speed_up inp),
          u_device_limit = opt_resolve (in_device_limit inp) None,
          u_template = opt_resolve (in_template inp) None,
          u_interface = opt_resolve (in_interface inp) None,
          u_policy = policy, u_duration = in_duration inp,
          u_activated = (if waiting then None else Some now),
          u_expires = (if waiting then in_expires inp
             else case in_expires inp of
                    Some e \<Rightarrow> Some e
                  | None \<Rightarrow> (case in_duration inp of
                        Some d \<Rightarrow> Some (now + go_seconds d) | None \<Rightarrow> None)),
          u_activity = None, u_enabled = True, u_metadata = in_metadata inp,
          u_deleted = None, u_created = now, u_updated = now\<rparr>)"

text \<open>The row \<open>INSERT INTO users\<close> stores: text references are NULL when empty.\<close>

definition stored_user :: "user \<Rightarrow> user" where
  "stored_user u = u\<lparr>u_reseller := nullText (u_reseller u), u_template := nullText (u_template u),
     u_interface := nullText (u_interface u), u_used_rx := 0, u_used_tx := 0, u_activity := None,
     u_deleted := None, u_updated := u_created u\<rparr>"

text \<open>The foreign keys and the check constraint of the \<open>users\<close> table.\<close>

definition refs_ok :: "db \<Rightarrow> user \<Rightarrow> bool" where
  "refs_ok s u \<longleftrightarrow>
     (case nullText (u_template u) of None \<Rightarrow> True | Some t \<Rightarrow> t \<in> set (templates s))
   \<and> (case nullText (u_interface u) of None \<Rightarrow> True | Some i \<Rightarrow> i \<in> i_id ` set (ifaces s))
   \<and> policy_valid (u_policy u)"

definition insert_user :: "user \<Rightarrow> db \<Rightarrow> db result" where
  "insert_user u s =
     (if u_id u \<in> u_id ` set (users s) \<or> u_username u \<in> u_username ` set (users s)
      then E CodeUsernameExists
      else if \<not> refs_ok s u \<or>
              (\<exists>r \<in> set_option (nullText (u_reseller u)). r \<notin> set (resellers s))
      then Inl (Foreign ''user: insert'')
      else Inr (s\<lparr>users := users s @ [stored_user u]\<rparr>))"

definition created_event :: "user \<Rightarrow> payload" where
  "created_event u = [(''user_id'', JStr (u_id u)), (''username'', JStr (u_username u)),
     (''status'', JStr (if u_status u = UserActive then ''active'' else ''waiting_first_connection''))]"

definition user_event :: "user \<Rightarrow> payload" where
  "user_event u = [(''user_id'', JStr (u_id u)), (''username'', JStr (u_username u))]"

definition CreateTx :: "user_service \<Rightarrow> db \<Rightarrow> string \<Rightarrow> user_input \<Rightarrow> (user \<times> db) result" where
  "CreateTx svc s new_id inp =
     (if \<not> usernameRe (in_username inp) then E CodeInvalidRequest
      else ebind (validateLimits inp) (\<lambda>_.
        let u = buildCreate (us_now svc) new_id inp
        in ebind (insert_user u s) (\<lambda>s1.
             ebind (record_opt (us_recorder svc) s1 ''user.created'' (created_event u)) (\<lambda>s2.
               Inr (u, s2)))))"

definition Create :: "user_service \<Rightarrow> db \<Rightarrow> string \<Rightarrow> user_input \<Rightarrow> user result \<times> db" where
  "Create svc s new_id inp = WithTx s (\<lambda>s. CreateTx svc s new_id inp)"

section \<open>Bulk creation\<close>

record bulk_state =
  b_users :: "user list"
  b_skipped :: nat
  b_db :: db

definition show_padded :: "nat \<Rightarrow> int \<Rightarrow> string" where
  "show_padded width i =
     (let ds = show_nat (nat \<bar>i\<bar>);
          w = (if i < 0 then width - 1 else width);
          body = replicate (w - length ds) CHR ''0'' @ ds
      in if i < 0 then CHR ''-'' # body else body)"

definition bulk_step ::
  "user_service \<Rightarrow> (int \<Rightarrow> string) \<Rightarrow> string \<Rightarrow> nat \<Rightarrow> user_input \<Rightarrow> int \<Rightarrow> bulk_state \<Rightarrow> bulk_state result" where
  "bulk_step svc ids prefix width inp i st =
     (let u = (buildCreate (us_now svc) (ids i) inp)\<lparr>u_username := prefix @ show_padded width i\<rparr>
      in if \<not> usernameRe (u_username u) then Inr (st\<lparr>b_skipped := Suc (b_skipped st)\<rparr>)
         else case insert_user u (b_db st) of
                Inl e \<Rightarrow>
                  if CodeOf e = CodeUsernameExists then Inr (st\<lparr>b_skipped := Suc (b_skipped st)\<rparr>)
                  else Inl e
              | Inr s1 \<Rightarrow>
                  ebind (record_opt (us_recorder svc) s1 ''user.created'' (created_event u)) (\<lambda>s2.
                    Inr (st\<lparr>b_users := b_users st @ [u], b_db := s2\<rparr>)))"

text \<open>
  \<open>for i := startIndex; i <= last; i++\<close> with the increment of a 64-bit \<open>int\<close>; \<open>None\<close> when the
  fuel runs out first.
\<close>

fun bulk_loop ::
  "nat \<Rightarrow> user_service \<Rightarrow> (int \<Rightarrow> string) \<Rightarrow> string \<Rightarrow> nat \<Rightarrow> user_input \<Rightarrow> int \<Rightarrow> int \<Rightarrow> bulk_state
     \<Rightarrow> bulk_state result option" where
  "bulk_loop 0 svc ids prefix width inp i lastIx st = None"
| "bulk_loop (Suc fuel) svc ids prefix width inp i lastIx st =
     (if i \<le> lastIx then
        case bulk_step svc ids prefix width inp i st of
          Inl e \<Rightarrow> Some (Inl e)
        | Inr st' \<Rightarrow> bulk_loop fuel svc ids prefix width inp (i64 (i + 1)) lastIx st'
      else Some (Inr st))"

definition CreateBulk ::
  "nat \<Rightarrow> user_service \<Rightarrow> db \<Rightarrow> (int \<Rightarrow> string) \<Rightarrow> string \<Rightarrow> int \<Rightarrow> int \<Rightarrow> int \<Rightarrow> user_input
     \<Rightarrow> ((user list \<times> nat) result \<times> db) option" where
  "CreateBulk fuel svc s ids prefix0 count startIndex width0 inp =
     (let width = (if width0 < 1 then 3 else width0);
          prefix = trim_space prefix0;
          lastIx = i64 (startIndex + count - 1)
      in if count < 1 \<or> 500 < count then Some (E CodeInvalidRequest, s)
         else if startIndex < 0 then Some (E CodeInvalidRequest, s)
         else if 10 < width then Some (E CodeInvalidRequest, s)
         else if \<not> prefixRe prefix then Some (E CodeInvalidRequest, s)
         else if 32 < int (length prefix) + int (length (show_int lastIx)) + 1
              \<or> 32 < int (length prefix) + width then Some (E CodeInvalidRequest, s)
         else case validateLimits inp of
                Inl e \<Rightarrow> Some (Inl e, s)
              | Inr _ \<Rightarrow>
                  (case bulk_loop fuel svc ids prefix (nat width) inp startIndex lastIx
                          \<lparr>b_users = [], b_skipped = 0, b_db = s\<rparr> of
                     None \<Rightarrow> None
                   | Some (Inl e) \<Rightarrow> Some (Inl e, s)
                   | Some (Inr st) \<Rightarrow> Some (Inr (b_users st, b_skipped st), b_db st)))"

section \<open>Reading\<close>

definition getRaw :: "db \<Rightarrow> string \<Rightarrow> user result" where
  "getRaw s uid = (case find_row u_id uid (users s) of None \<Rightarrow> E CodeUserNotFound | Some u \<Rightarrow> Inr u)"

definition Get :: "db \<Rightarrow> string \<Rightarrow> user result" where
  "Get s uid = ebind (getRaw s uid) (\<lambda>u. if u_deleted u \<noteq> None then E CodeUserNotFound else Inr u)"

definition GetByUsername :: "db \<Rightarrow> string \<Rightarrow> user result" where
  "GetByUsername s name =
     (case find (\<lambda>u. u_username u = name \<and> u_deleted u = None) (users s) of
        None \<Rightarrow> E CodeUserNotFound
      | Some u \<Rightarrow> Get s (u_id u))"

section \<open>Writing a row back\<close>

text \<open>
  The columns \<open>UPDATE users SET ..\<close> of \<open>save\<close> writes. Username, reseller, creation time, the
  charged counters and the last activity are not among them.
\<close>

definition save_columns :: "time \<Rightarrow> user \<Rightarrow> user \<Rightarrow> user" where
  "save_columns now u r = r\<lparr>u_display_name := u_display_name u, u_note := u_note u,
     u_tags := u_tags u, u_status := u_status u, u_reason := u_reason u, u_limit := u_limit u,
     u_speed_down := u_speed_down u, u_speed_up := u_speed_up u,
     u_device_limit := u_device_limit u, u_template := nullText (u_template u),
     u_interface := nullText (u_interface u), u_policy := u_policy u, u_duration := u_duration u,
     u_activated := u_activated u, u_expires := u_expires u, u_enabled := u_enabled u,
     u_metadata := u_metadata u, u_deleted := u_deleted u, u_updated := now\<rparr>"

definition save :: "time \<Rightarrow> user \<Rightarrow> db \<Rightarrow> db result" where
  "save now u s =
     (if u_id u \<in> u_id ` set (users s) \<and> \<not> refs_ok s u then Inl (Foreign ''user: save'')
      else Inr (s\<lparr>users := update_rows (\<lambda>r. u_id r = u_id u) (save_columns now u) (users s)\<rparr>))"

fun record_all :: "recorder option \<Rightarrow> (string \<times> payload) list \<Rightarrow> db \<Rightarrow> db result" where
  "record_all rc [] s = Inr s"
| "record_all rc ((ev, data) # evs) s = ebind (record_opt rc s ev data) (record_all rc evs)"

text \<open>The shared tail of the updating operations: save the row and record its events in one transaction.\<close>

definition commit_user ::
  "user_service \<Rightarrow> db \<Rightarrow> user \<Rightarrow> (string \<times> payload) list \<Rightarrow> user result \<times> db" where
  "commit_user svc s u evs =
     WithTx s (\<lambda>s. ebind (save (us_now svc) u s) (\<lambda>s1.
       ebind (record_all (us_recorder svc) evs s1) (\<lambda>s2.
         Inr (u\<lparr>u_updated := us_now svc\<rparr>, s2))))"

section \<open>Update\<close>

definition apply_input :: "user_input \<Rightarrow> user \<Rightarrow> user" where
  "apply_input inp u = u\<lparr>
     u_display_name := (case in_display_name inp of None \<Rightarrow> u_display_name u | Some d \<Rightarrow> d),
     u_note := (case in_note inp of None \<Rightarrow> u_note u | Some n \<Rightarrow> n),
     u_tags := (case in_tags inp of None \<Rightarrow> u_tags u | Some t \<Rightarrow> t),
     u_limit := opt_resolve (in_limit inp) (u_limit u),
     u_speed_down := opt_resolve (in_speed_down inp) (u_speed_down u),
     u_speed_up := opt_resolve (in_speed_up inp) (u_speed_up u),
     u_device_limit := opt_resolve (in_device_limit inp) (u_device_limit u),
     u_template := opt_resolve (in_template inp) (u_template u),
     u_interface := opt_resolve (in_interface inp) (u_interface u),
     u_duration := (case in_duration inp of None \<Rightarrow> u_duration u | Some d \<Rightarrow> Some d),
     u_enabled := (case in_enabled inp of None \<Rightarrow> u_enabled u | Some b \<Rightarrow> b)\<rparr>"

definition Update_from :: "user_service \<Rightarrow> db \<Rightarrow> user \<Rightarrow> user_input \<Rightarrow> user result \<times> db" where
  "Update_from svc s u0 inp =
     (let u = apply_input inp u0
      in case validateLimits inp of
           Inl e \<Rightarrow> (Inl e, s)
         | Inr _ \<Rightarrow> commit_user svc s u
             ((if u_enabled u0 \<noteq> u_enabled u
               then [(if u_enabled u then ''user.enabled'' else ''user.disabled'', user_event u)]
               else []) @ [(''user.updated'', user_event u)]))"

definition Update :: "user_service \<Rightarrow> db \<Rightarrow> string \<Rightarrow> user_input \<Rightarrow> user result \<times> db" where
  "Update svc s uid inp = (case Get s uid of Inl e \<Rightarrow> (Inl e, s) | Inr u \<Rightarrow> Update_from svc s u inp)"

section \<open>Lifecycle\<close>

definition apply_status :: "user_status \<Rightarrow> disable_reason \<Rightarrow> user \<Rightarrow> user" where
  "apply_status st reason u =
     (let needs = (st = UserDisabled \<or> st = UserSuspended);
          u1 = u\<lparr>u_status := st, u_reason := (if needs then Some reason else None)\<rparr>;
          u2 = (if st \<in> {UserDisabled, UserSuspended, UserExpired, UserTrafficExceeded}
                then u1\<lparr>u_enabled := False\<rparr>
                else if st \<in> {UserActive, UserWaitingFirstConnection} then u1\<lparr>u_enabled := True\<rparr>
                else u1)
      in if st = UserActive \<and> u_activated u2 = None \<and> u_policy u2 = StartFirstConnection
         then u2\<lparr>u_status := UserWaitingFirstConnection\<rparr> else u2)"

fun reason_text :: "disable_reason \<Rightarrow> string" where
  "reason_text DisableManual = ''manual''"
| "reason_text DisableExpired = ''expired''"
| "reason_text DisableTrafficLimit = ''traffic_limit''"
| "reason_text DisableAdminAction = ''admin_action''"
| "reason_text (ReasonOther s) = s"

definition status_events :: "user \<Rightarrow> (string \<times> payload) list" where
  "status_events u =
     (let data = user_event u @ (case u_reason u of None \<Rightarrow> []
                    | Some r \<Rightarrow> [(''reason'', JStr (reason_text r))])
      in if u_status u = UserActive then [(''user.enabled'', data)]
         else if u_status u \<in> {UserDisabled, UserSuspended} then [(''user.disabled'', data)]
         else [])"

definition SetStatus_from ::
  "user_service \<Rightarrow> db \<Rightarrow> user \<Rightarrow> user_status \<Rightarrow> disable_reason \<Rightarrow> user result \<times> db" where
  "SetStatus_from svc s u0 st reason =
     (if \<not> status_valid st then (E CodeInvalidRequest, s)
      else if (st = UserDisabled \<or> st = UserSuspended) \<and> \<not> reason_valid reason
      then (E CodeInvalidRequest, s)
      else let u = apply_status st reason u0 in commit_user svc s u (status_events u))"

definition SetStatus ::
  "user_service \<Rightarrow> db \<Rightarrow> string \<Rightarrow> user_status \<Rightarrow> disable_reason \<Rightarrow> user result \<times> db" where
  "SetStatus svc s uid st reason =
     (case Get s uid of Inl e \<Rightarrow> (Inl e, s) | Inr u \<Rightarrow> SetStatus_from svc s u st reason)"

definition SetEnabledStatus ::
  "user_service \<Rightarrow> db \<Rightarrow> string \<Rightarrow> bool \<Rightarrow> disable_reason \<Rightarrow> user result \<times> db" where
  "SetEnabledStatus svc s uid enable reason =
     (if enable then SetStatus svc s uid UserActive (ReasonOther [])
      else SetStatus svc s uid UserDisabled (if reason_valid reason then reason else DisableManual))"

datatype renew_mode = FromExpiration | FromNow | Exact | ModeOther string

definition renew_expiry ::
  "time \<Rightarrow> user \<Rightarrow> renew_mode \<Rightarrow> int option \<Rightarrow> time option \<Rightarrow> time option result" where
  "renew_expiry now u mode duration exact =
     (if \<exists>d \<in> set_option duration. d \<le> 0 then E CodeInvalidRequest
      else
        let dur = (case duration of None \<Rightarrow> u_duration u | Some d \<Rightarrow> Some d)
        in case mode of
             FromExpiration \<Rightarrow>
               (case dur of
                  None \<Rightarrow> E CodeInvalidRequest
                | Some d \<Rightarrow>
                    let base = (case u_expires u of Some e \<Rightarrow> if now < e then e else now | None \<Rightarrow> now)
                    in Inr (Some (base + go_seconds d)))
           | FromNow \<Rightarrow>
               (case dur of
                  None \<Rightarrow> E CodeInvalidRequest
                | Some d \<Rightarrow> Inr (Some (now + go_seconds d)))
           | Exact \<Rightarrow> (case exact of None \<Rightarrow> E CodeInvalidRequest | Some e \<Rightarrow> Inr (Some e))
           | ModeOther _ \<Rightarrow> E CodeInvalidRequest)"

definition apply_renewal :: "time option \<Rightarrow> user \<Rightarrow> user" where
  "apply_renewal e u =
     (let u1 = u\<lparr>u_expires := e\<rparr>
      in if u_status u1 = UserExpired then u1\<lparr>u_status := UserActive, u_reason := None\<rparr> else u1)"

definition Renew_from ::
  "user_service \<Rightarrow> db \<Rightarrow> user \<Rightarrow> renew_mode \<Rightarrow> int option \<Rightarrow> time option \<Rightarrow> user result \<times> db" where
  "Renew_from svc s u0 mode duration exact =
     (case renew_expiry (us_now svc) u0 mode duration exact of
        Inl e \<Rightarrow> (Inl e, s)
      | Inr e \<Rightarrow> let u = apply_renewal e u0 in commit_user svc s u [(''user.updated'', user_event u)])"

definition Renew ::
  "user_service \<Rightarrow> db \<Rightarrow> string \<Rightarrow> renew_mode \<Rightarrow> int option \<Rightarrow> time option \<Rightarrow> user result \<times> db" where
  "Renew svc s uid mode duration exact =
     (case Get s uid of Inl e \<Rightarrow> (Inl e, s) | Inr u \<Rightarrow> Renew_from svc s u mode duration exact)"

section \<open>Deletion\<close>

definition discard :: "'a result \<times> db \<Rightarrow> unit result \<times> db" where
  "discard r = (case r of (Inl e, s) \<Rightarrow> (Inl e, s) | (Inr _, s) \<Rightarrow> (Inr (), s))"

definition SoftDelete_from :: "user_service \<Rightarrow> db \<Rightarrow> user \<Rightarrow> unit result \<times> db" where
  "SoftDelete_from svc s u0 =
     (let u = u0\<lparr>u_deleted := Some (us_now svc), u_enabled := False\<rparr>
      in discard (commit_user svc s u [(''user.updated'', user_event u @ [(''deleted'', JBool True)])]))"

definition SoftDelete :: "user_service \<Rightarrow> db \<Rightarrow> string \<Rightarrow> unit result \<times> db" where
  "SoftDelete svc s uid = (case Get s uid of Inl e \<Rightarrow> (Inl e, s) | Inr u \<Rightarrow> SoftDelete_from svc s u)"

definition Restore_from :: "user_service \<Rightarrow> db \<Rightarrow> user \<Rightarrow> user result \<times> db" where
  "Restore_from svc s u0 =
     (if u_deleted u0 = None then (E CodeInvalidRequest, s)
      else let u = u0\<lparr>u_deleted := None, u_status := UserActive, u_reason := None, u_enabled := True\<rparr>
           in commit_user svc s u [(''user.updated'', user_event u @ [(''deleted'', JBool False)])])"

definition Restore :: "user_service \<Rightarrow> db \<Rightarrow> string \<Rightarrow> user result \<times> db" where
  "Restore svc s uid = (case getRaw s uid of Inl e \<Rightarrow> (Inl e, s) | Inr u \<Rightarrow> Restore_from svc s u)"

text \<open>
  \<open>DeleteTx\<close> retires the public keys of the account's devices, records the event while the row
  still exists, and deletes the row; the devices follow by the foreign key's cascade.
\<close>

definition DeleteTx :: "user_service \<Rightarrow> db \<Rightarrow> string \<Rightarrow> (unit \<times> db) result" where
  "DeleteTx svc s uid =
     (case find_row u_id uid (users s) of
        None \<Rightarrow> E CodeUserNotFound
      | Some u \<Rightarrow>
          let s1 = s\<lparr>retired := retire_keys
                (map (\<lambda>d. (d_iface d, d_pubkey d)) (filter (\<lambda>d. d_user d = uid) (devices s)))
                (retired s)\<rparr>
          in ebind (record_opt (us_recorder svc) s1 ''user.updated''
               [(''user_id'', JStr uid), (''username'', JStr (u_username u)),
                (''deleted'', JBool True), (''permanent'', JBool True)]) (\<lambda>s2.
             Inr ((), s2\<lparr>users := delete_rows (\<lambda>r. u_id r = uid) (users s2),
                         devices := delete_rows (\<lambda>d. d_user d = uid) (devices s2)\<rparr>)))"

definition Delete :: "user_service \<Rightarrow> db \<Rightarrow> string \<Rightarrow> unit result \<times> db" where
  "Delete svc s uid = WithTx s (\<lambda>s. DeleteTx svc s uid)"

text \<open>Live users per plan, for the plans asked about (\<open>CountForPlans\<close>).\<close>

definition CountForPlans :: "db \<Rightarrow> string list \<Rightarrow> (string \<times> nat) list" where
  "CountForPlans s planIDs =
     map (\<lambda>t. (t, length (filter (\<lambda>u. u_deleted u = None \<and> u_template u = Some t) (users s))))
       (filter (\<lambda>t. \<exists>u \<in> set (users s). u_deleted u = None \<and> u_template u = Some t) (remdups planIDs))"

section \<open>Well-formed users\<close>

definition positive :: "int option \<Rightarrow> bool" where
  "positive l \<longleftrightarrow> (\<forall>v \<in> set_option l. 0 < v)"

definition row_ok :: "user \<Rightarrow> bool" where
  "row_ok u \<longleftrightarrow> status_valid (u_status u) \<and> policy_valid (u_policy u)
     \<and> (\<forall>r \<in> set_option (u_reason u). reason_valid r)
     \<and> (\<forall>v \<in> set_option (u_limit u). 0 \<le> v)
     \<and> positive (u_speed_down u) \<and> positive (u_speed_up u) \<and> positive (u_device_limit u)
     \<and> positive (u_duration u)"

definition users_inv :: "db \<Rightarrow> bool" where
  "users_inv s \<longleftrightarrow> unique_on u_id (users s) \<and> unique_on u_username (users s)
     \<and> (\<forall>u \<in> set (users s). usernameRe (u_username u) \<and> row_ok u)"

lemma positive_simps [simp]: "positive None" "positive (Some v) \<longleftrightarrow> 0 < v"
  by (auto simp: positive_def)

lemma row_ok_intro_fields:
  assumes "row_ok u" "u_status v = u_status u" "u_policy v = u_policy u" "u_reason v = u_reason u"
    "u_limit v = u_limit u" "u_speed_down v = u_speed_down u" "u_speed_up v = u_speed_up u"
    "u_device_limit v = u_device_limit u" "u_duration v = u_duration u"
  shows "row_ok v"
  using assms by (simp add: row_ok_def)

lemma row_ok_save [simp]: "row_ok (save_columns now u r) \<longleftrightarrow> row_ok u"
  by (simp add: row_ok_def save_columns_def)

lemma validateLimits_ok:
  assumes "validateLimits inp = Inr ()"
  shows "opt_given (in_limit inp) = Some v \<Longrightarrow> 0 \<le> v"
    "positive (opt_given (in_speed_down inp))" "positive (opt_given (in_speed_up inp))"
    "positive (opt_given (in_device_limit inp))" "positive (in_duration inp)"
    "in_policy inp = PolicyUnset \<or> policy_valid (in_policy inp)"
  using assms
  by (auto simp: validateLimits_def positive_def tx_simps split: if_splits)

lemma row_ok_buildCreate:
  "validateLimits inp = Inr () \<Longrightarrow> row_ok (buildCreate now new_id inp)"
  using validateLimits_ok[of inp]
  by (auto simp: row_ok_def buildCreate_def Let_def opt_resolve_None)

lemma positive_resolve:
  "positive (opt_given o1) \<Longrightarrow> positive c \<Longrightarrow> positive (opt_resolve o1 c)"
  by (auto simp: opt_resolve_def opt_given_def split: if_splits)

lemma row_ok_apply_input:
  assumes "validateLimits inp = Inr ()" "row_ok u"
  shows "row_ok (apply_input inp u)"
proof -
  note v = validateLimits_ok[OF assms(1)]
  have "\<forall>v. opt_resolve (in_limit inp) (u_limit u) = Some v \<longrightarrow> 0 \<le> v"
    using v(1) assms(2) by (auto simp: opt_resolve_def opt_given_def row_ok_def split: if_splits)
  then show ?thesis
    using assms(2) v(2-5)
    by (auto simp: row_ok_def apply_input_def positive_resolve split: option.splits)
qed

lemma row_ok_apply_status:
  "status_valid st \<Longrightarrow> (st = UserDisabled \<or> st = UserSuspended \<longrightarrow> reason_valid reason) \<Longrightarrow>
     row_ok u \<Longrightarrow> row_ok (apply_status st reason u)"
  by (auto simp: row_ok_def apply_status_def Let_def)

lemma row_ok_apply_renewal: "row_ok u \<Longrightarrow> row_ok (apply_renewal e u)"
  by (auto simp: row_ok_def apply_renewal_def Let_def)

section \<open>Saving a row\<close>

interpretation save_id: row_update u_id "save_columns now u"
  by unfold_locales (simp add: save_columns_def)

interpretation save_name: row_update u_username "save_columns now u"
  by unfold_locales (simp add: save_columns_def)

lemma saved_rows_inv:
  assumes "users_inv s" "row_ok u"
    and s': "users s' = update_rows (\<lambda>r. u_id r = u_id u) (save_columns now u) (users s)"
  shows "users_inv s'"
proof -
  have "\<forall>r \<in> set (users s'). usernameRe (u_username r) \<and> row_ok r"
    using assms(1,2) by (auto simp: s' set_update_rows users_inv_def save_name.keeps_key)
  with assms(1) show ?thesis
    by (simp add: users_inv_def s' save_id.unique_update save_name.unique_update)
qed

lemma same_domain_users_inv: "same_domain s t \<Longrightarrow> users_inv t \<longleftrightarrow> users_inv s"
  by (simp add: same_domain_def users_inv_def)

lemma same_domain_trans: "same_domain s t \<Longrightarrow> same_domain t w \<Longrightarrow> same_domain s w"
  by (simp add: same_domain_def)

lemma same_domain_refl [simp]: "same_domain s s"
  by (simp add: same_domain_def)

section \<open>What the service guarantees over any well-behaved recorder\<close>

context event_recorder
begin

lemma record_all_frame: "record_all rc evs s = Inr s' \<Longrightarrow> same_domain s s'"
proof (induction evs arbitrary: s)
  case Nil
  then show ?case by simp
next
  case (Cons e evs)
  obtain ev data where e: "e = (ev, data)" by (cases e)
  with Cons.prems obtain t where "record_opt rc s ev data = Inr t"
    "record_all rc evs t = Inr s'"
    by (auto simp: tx_simps)
  with frame Cons.IH show ?case by (blast intro: same_domain_trans)
qed

end

locale user_svc = event_recorder "us_recorder svc" for svc :: user_service
begin

lemma commit_user_ok:
  assumes "commit_user svc s u evs = (Inr u', s')"
  shows "u' = u\<lparr>u_updated := us_now svc\<rparr>"
    "users s' = update_rows (\<lambda>r. u_id r = u_id u) (save_columns (us_now svc) u) (users s)"
    "devices s' = devices s" "ifaces s' = ifaces s" "retired s' = retired s"
proof -
  from assms obtain t where t: "save (us_now svc) u s = Inr t"
    "record_all (us_recorder svc) evs t = Inr s'" and u': "u' = u\<lparr>u_updated := us_now svc\<rparr>"
    by (auto simp: commit_user_def tx_simps)
  have t': "t = s\<lparr>users := update_rows (\<lambda>r. u_id r = u_id u) (save_columns (us_now svc) u) (users s)\<rparr>"
    using t(1) by (auto simp: save_def tx_simps)
  from record_all_frame[OF t(2)] t' u' show "u' = u\<lparr>u_updated := us_now svc\<rparr>"
    "users s' = update_rows (\<lambda>r. u_id r = u_id u) (save_columns (us_now svc) u) (users s)"
    "devices s' = devices s" "ifaces s' = ifaces s" "retired s' = retired s"
    by (simp_all add: same_domain_def)
qed

lemma commit_user_err: "commit_user svc s u evs = (Inl e, s') \<Longrightarrow> s' = s"
  by (simp add: commit_user_def WithTx_Inl)

lemma commit_user_inv:
  assumes "users_inv s" "row_ok u"
  shows "users_inv (snd (commit_user svc s u evs))"
proof (cases "commit_user svc s u evs")
  case (Pair r s')
  show ?thesis
  proof (cases r)
    case (Inl e)
    with Pair commit_user_err[of s u evs e s'] assms show ?thesis by simp
  next
    case (Inr u')
    from saved_rows_inv[OF assms commit_user_ok(2)[OF Pair[unfolded Inr]]] Pair
    show ?thesis by simp
  qed
qed

lemma Update_from_inv: "users_inv s \<Longrightarrow> row_ok u \<Longrightarrow> users_inv (snd (Update_from svc s u inp))"
  by (auto simp: Update_from_def Let_def row_ok_apply_input intro!: commit_user_inv split: sum.splits)

lemma SetStatus_from_inv:
  "users_inv s \<Longrightarrow> row_ok u \<Longrightarrow> users_inv (snd (SetStatus_from svc s u st reason))"
  by (auto simp: SetStatus_from_def Let_def row_ok_apply_status intro!: commit_user_inv)

lemma Renew_from_inv:
  "users_inv s \<Longrightarrow> row_ok u \<Longrightarrow> users_inv (snd (Renew_from svc s u mode duration exact))"
  by (auto simp: Renew_from_def Let_def row_ok_apply_renewal intro!: commit_user_inv split: sum.splits)

lemma SoftDelete_from_inv:
  "users_inv s \<Longrightarrow> row_ok u \<Longrightarrow> users_inv (snd (SoftDelete_from svc s u))"
proof -
  assume a: "users_inv s" "row_ok u"
  have "snd (discard r) = snd r" for r :: "user result \<times> db"
    by (auto simp: discard_def split: prod.splits sum.splits)
  with a show ?thesis
    by (auto simp: SoftDelete_from_def Let_def row_ok_def intro!: commit_user_inv)
qed

lemma Restore_from_inv:
  "users_inv s \<Longrightarrow> row_ok u \<Longrightarrow> users_inv (snd (Restore_from svc s u))"
  by (auto simp: Restore_from_def Let_def row_ok_def intro!: commit_user_inv)

lemma CreateTx_ok:
  assumes "CreateTx svc s new_id inp = Inr (u, s')"
  shows "u = buildCreate (us_now svc) new_id inp" "users s' = users s @ [stored_user u]"
    "devices s' = devices s" "ifaces s' = ifaces s" "retired s' = retired s"
    "usernameRe (in_username inp)" "validateLimits inp = Inr ()"
    "new_id \<notin> u_id ` set (users s)" "in_username inp \<notin> u_username ` set (users s)"
proof -
  let ?u = "buildCreate (us_now svc) new_id inp"
  from assms obtain t where ok: "usernameRe (in_username inp)" "validateLimits inp = Inr ()"
    "insert_user ?u s = Inr t"
    "record_opt (us_recorder svc) t ''user.created'' (created_event ?u) = Inr s'" "u = ?u"
    by (auto simp: CreateTx_def Let_def tx_simps)
  have t: "t = s\<lparr>users := users s @ [stored_user ?u]\<rparr>" "u_id ?u \<notin> u_id ` set (users s)"
    "u_username ?u \<notin> u_username ` set (users s)"
    using ok(3) by (auto simp: insert_user_def tx_simps)
  have "u_id ?u = new_id" "u_username ?u = in_username inp"
    by (simp_all add: buildCreate_def Let_def)
  with t ok frame[OF ok(4)] show "u = ?u" "users s' = users s @ [stored_user u]"
    "devices s' = devices s" "ifaces s' = ifaces s" "retired s' = retired s"
    "usernameRe (in_username inp)" "validateLimits inp = Inr ()"
    "new_id \<notin> u_id ` set (users s)" "in_username inp \<notin> u_username ` set (users s)"
    by (simp_all add: same_domain_def)
qed

lemma CreateTx_inv:
  assumes "users_inv s" "CreateTx svc s new_id inp = Inr (u, s')"
  shows "users_inv s'"
proof -
  note ok = CreateTx_ok[OF assms(2)]
  have r: "u_id (stored_user u) = new_id" "u_username (stored_user u) = in_username inp"
    using ok(1) by (simp_all add: stored_user_def buildCreate_def Let_def)
  have "row_ok (stored_user u)"
    using row_ok_buildCreate[OF ok(7), of "us_now svc" new_id] ok(1)
    by (simp add: row_ok_def stored_user_def)
  with assms(1) r ok show ?thesis
    by (simp add: users_inv_def unique_on_append_one)
qed

lemma Create_inv: "users_inv s \<Longrightarrow> users_inv (snd (Create svc s new_id inp))"
  using CreateTx_inv[of s new_id inp] by (auto simp: Create_def WithTx_def split: sum.splits)

lemma bulk_step_ok:
  assumes "bulk_step svc ids prefix width inp i st = Inr st'"
  shows "(st' = st\<lparr>b_skipped := Suc (b_skipped st)\<rparr>) \<or>
    (\<exists>u. u = (buildCreate (us_now svc) (ids i) inp)\<lparr>u_username := prefix @ show_padded width i\<rparr>
       \<and> usernameRe (u_username u) \<and> u_id u \<notin> u_id ` set (users (b_db st))
       \<and> u_username u \<notin> u_username ` set (users (b_db st))
       \<and> b_users st' = b_users st @ [u] \<and> b_skipped st' = b_skipped st
       \<and> users (b_db st') = users (b_db st) @ [stored_user u]
       \<and> devices (b_db st') = devices (b_db st) \<and> ifaces (b_db st') = ifaces (b_db st)
       \<and> retired (b_db st') = retired (b_db st))"
proof -
  define u where "u = (buildCreate (us_now svc) (ids i) inp)\<lparr>u_username := prefix @ show_padded width i\<rparr>"
  consider "st' = st\<lparr>b_skipped := Suc (b_skipped st)\<rparr>"
    | t s2 where "usernameRe (u_username u)" "insert_user u (b_db st) = Inr t"
      "record_opt (us_recorder svc) t ''user.created'' (created_event u) = Inr s2"
      "st' = st\<lparr>b_users := b_users st @ [u], b_db := s2\<rparr>"
    using assms unfolding bulk_step_def u_def[symmetric] Let_def
    by (auto simp: tx_simps split: if_splits sum.splits)
  then show ?thesis
  proof cases
    case 2
    have "t = (b_db st)\<lparr>users := users (b_db st) @ [stored_user u]\<rparr>"
      "u_id u \<notin> u_id ` set (users (b_db st))" "u_username u \<notin> u_username ` set (users (b_db st))"
      using 2(2) by (auto simp: insert_user_def tx_simps)
    with 2 frame[OF 2(3)] show ?thesis
      unfolding u_def[symmetric] by (simp add: same_domain_def)
  qed simp
qed

lemma bulk_step_inv:
  assumes "bulk_step svc ids prefix width inp i st = Inr st'" "validateLimits inp = Inr ()"
    "users_inv (b_db st)"
  shows "users_inv (b_db st')"
proof (cases "st' = st\<lparr>b_skipped := Suc (b_skipped st)\<rparr>")
  case False
  with bulk_step_ok[OF assms(1)] obtain u where
    u: "u = (buildCreate (us_now svc) (ids i) inp)\<lparr>u_username := prefix @ show_padded width i\<rparr>"
    and new: "usernameRe (u_username u)" "u_id u \<notin> u_id ` set (users (b_db st))"
      "u_username u \<notin> u_username ` set (users (b_db st))"
      "users (b_db st') = users (b_db st) @ [stored_user u]"
    by blast
  have "row_ok (stored_user u)"
    using row_ok_buildCreate[OF assms(2), of "us_now svc" "ids i"] u
    by (simp add: row_ok_def stored_user_def)
  moreover have "u_id (stored_user u) = u_id u" "u_username (stored_user u) = u_username u"
    by (simp_all add: stored_user_def)
  ultimately show ?thesis
    using assms(3) new by (simp add: users_inv_def unique_on_append_one)
qed (use assms in simp)

text \<open>The loop over indices below the largest \<open>int\<close> is the fold over the index range.\<close>

lemma bulk_loop_fold:
  "nat (lastIx + 1 - i) < fuel \<Longrightarrow> 0 \<le> i \<Longrightarrow> lastIx < MaxInt64 \<Longrightarrow>
     bulk_loop fuel svc ids prefix width inp i lastIx st =
       Some (efold (bulk_step svc ids prefix width inp) [i..lastIx] st)"
proof (induction fuel arbitrary: i st)
  case 0
  then show ?case by simp
next
  case (Suc fuel)
  show ?case
  proof (cases "i \<le> lastIx")
    case True
    then have "i64 (i + 1) = i + 1" using Suc.prems by (simp add: is_i64_def)
    moreover have "[i..lastIx] = i # [i + 1..lastIx]" using True by (rule upto_rec1)
    moreover have "nat (lastIx + 1 - (i + 1)) < fuel" using Suc.prems True by linarith
    ultimately show ?thesis
      using True Suc.prems Suc.IH[of "i + 1"]
      by (cases "bulk_step svc ids prefix width inp i st") simp_all
  next
    case False
    then show ?thesis by simp
  qed
qed

lemma bulk_fold_ok:
  assumes "efold (bulk_step svc ids prefix width inp) ixs st = Inr st'"
  shows "\<exists>new. b_users st' = b_users st @ new
     \<and> users (b_db st') = users (b_db st) @ map stored_user new
     \<and> b_skipped st' + length new = b_skipped st + length ixs
     \<and> devices (b_db st') = devices (b_db st)
     \<and> (\<forall>u \<in> set new. usernameRe (u_username u) \<and>
          (\<exists>i \<in> set ixs. u = (buildCreate (us_now svc) (ids i) inp)\<lparr>u_username := prefix @ show_padded width i\<rparr>))"
  using assms
proof (induction ixs arbitrary: st)
  case Nil
  then show ?case by simp
next
  case (Cons i ixs)
  from Cons.prems obtain t where t: "bulk_step svc ids prefix width inp i st = Inr t"
    "efold (bulk_step svc ids prefix width inp) ixs t = Inr st'"
    by (auto simp: tx_simps)
  from Cons.IH[OF t(2)] obtain new where new: "b_users st' = b_users t @ new"
    "users (b_db st') = users (b_db t) @ map stored_user new"
    "b_skipped st' + length new = b_skipped t + length ixs"
    "devices (b_db st') = devices (b_db t)"
    "\<forall>u \<in> set new. usernameRe (u_username u) \<and> (\<exists>i \<in> set ixs.
       u = (buildCreate (us_now svc) (ids i) inp)\<lparr>u_username := prefix @ show_padded width i\<rparr>)"
    by blast
  from bulk_step_ok[OF t(1)] show ?case
  proof (elim disjE exE)
    assume "t = st\<lparr>b_skipped := Suc (b_skipped st)\<rparr>"
    with new show ?thesis by (intro exI[of _ new]) auto
  next
    fix u
    assume "u = (buildCreate (us_now svc) (ids i) inp)\<lparr>u_username := prefix @ show_padded width i\<rparr>
       \<and> usernameRe (u_username u) \<and> u_id u \<notin> u_id ` set (users (b_db st))
       \<and> u_username u \<notin> u_username ` set (users (b_db st))
       \<and> b_users t = b_users st @ [u] \<and> b_skipped t = b_skipped st
       \<and> users (b_db t) = users (b_db st) @ [stored_user u]
       \<and> devices (b_db t) = devices (b_db st) \<and> ifaces (b_db t) = ifaces (b_db st)
       \<and> retired (b_db t) = retired (b_db st)"
    with new show ?thesis by (intro exI[of _ "u # new"]) auto
  qed
qed

lemma DeleteTx_ok:
  assumes "DeleteTx svc s uid = Inr (x, s')"
  shows "users s' = delete_rows (\<lambda>r. u_id r = uid) (users s)"
    "devices s' = delete_rows (\<lambda>d. d_user d = uid) (devices s)"
    "set (retired s') = set (retired s) \<union> {(d_iface d, d_pubkey d) | d. d \<in> set (devices s) \<and> d_user d = uid}"
    "ifaces s' = ifaces s" "uid \<in> u_id ` set (users s)"
proof -
  let ?s1 = "s\<lparr>retired := retire_keys
     (map (\<lambda>d. (d_iface d, d_pubkey d)) (filter (\<lambda>d. d_user d = uid) (devices s))) (retired s)\<rparr>"
  from assms obtain u data s2 where u: "find_row u_id uid (users s) = Some u"
    and r: "record_opt (us_recorder svc) ?s1 ''user.updated'' data = Inr s2"
    and s': "s' = s2\<lparr>users := delete_rows (\<lambda>r. u_id r = uid) (users s2),
       devices := delete_rows (\<lambda>d. d_user d = uid) (devices s2)\<rparr>"
    by (auto simp: DeleteTx_def Let_def tx_simps)
  from frame[OF r] s' u
  show "users s' = delete_rows (\<lambda>r. u_id r = uid) (users s)"
    "devices s' = delete_rows (\<lambda>d. d_user d = uid) (devices s)"
    "set (retired s') = set (retired s) \<union> {(d_iface d, d_pubkey d) | d. d \<in> set (devices s) \<and> d_user d = uid}"
    "ifaces s' = ifaces s" "uid \<in> u_id ` set (users s)"
    by (auto simp: same_domain_def)
qed

lemma Delete_inv: "users_inv s \<Longrightarrow> users_inv (snd (Delete svc s uid))"
proof (cases "DeleteTx svc s uid")
  case (Inl e)
  moreover assume "users_inv s"
  ultimately show ?thesis by (simp add: Delete_def)
next
  case (Inr p)
  then obtain x s' where p: "DeleteTx svc s uid = Inr (x, s')" by (cases p) simp
  moreover assume "users_inv s"
  ultimately have "users_inv s'"
    using DeleteTx_ok(1)[OF p] by (simp add: users_inv_def unique_on_delete)
  with p show ?thesis by (simp add: Delete_def)
qed

end

text \<open>The service as \<open>serve\<close> wires it: the webhook recorder is injected.\<close>

definition wired_users :: "time \<Rightarrow> user_service" where
  "wired_users now = \<lparr>us_now = now, us_recorder = Some (RecordTx now)\<rparr>"

lemma wired_users_simps [simp]:
  "us_now (wired_users now) = now" "us_recorder (wired_users now) = Some (RecordTx now)"
  by (simp_all add: wired_users_def)

interpretation wired: user_svc "wired_users now"
  by unfold_locales (simp add: webhook_rc.frame)

section \<open>Example data\<close>

definition empty_db :: db where
  "empty_db = \<lparr>users = [], devices = [], ifaces = [], retired = [], templates = [], resellers = [],
     endpoints = [], events = [], deliveries = []\<rparr>"

definition plain_input :: "string \<Rightarrow> user_input" where
  "plain_input name = \<lparr>in_username = name, in_reseller = None, in_display_name = None,
     in_note = None, in_tags = None, in_limit = opt_absent 0, in_speed_down = opt_absent 0,
     in_speed_up = opt_absent 0, in_device_limit = opt_absent 0, in_template = opt_absent [],
     in_interface = opt_absent [], in_policy = PolicyUnset, in_duration = None,
     in_expires = None, in_enabled = None, in_metadata = []\<rparr>"

lemmas user_op_defs = Create_def CreateTx_def validateLimits_def insert_user_def
  record_opt_def RecordTx_def ValidEvent_def Catalog_def event_owner_def buildCreate_def
  stored_user_def refs_ok_def created_event_def Let_def

lemmas user_example_simps = empty_db_def plain_input_def opt_given_def opt_absent_def
  opt_resolve_def usernameRe_def name_char_def

section \<open>Properties\<close>

text \<open>
  Creating an account. On success the account is the newest row, can be read back under its
  identifier, is enabled and entitled to peers; a first-connection account waits unactivated with
  only the given expiry, any other account is active from now and expires at the given instant,
  else after its duration, else never; no other table changes. On any error the database is
  exactly what it was, and a username that is taken (even by a soft-deleted account) is refused
  with the code for that.
\<close>

theorem create_user_correct:
  "(\<forall>u s'. Create (wired_users now) s new_id inp = (Inr u, s') \<longrightarrow>
      users s' = users s @ [stored_user u] \<and> Get s' new_id = Inr (stored_user u)
      \<and> devices s' = devices s \<and> retired s' = retired s
      \<and> u_enabled u \<and> PeerWanted (u_status u) \<and> u_reason u = None \<and> usernameRe (u_username u)
      \<and> (if in_policy inp = StartFirstConnection
         then u_status u = UserWaitingFirstConnection \<and> u_activated u = None
           \<and> u_expires u = in_expires inp
         else u_status u = UserActive \<and> u_activated u = Some now
           \<and> u_expires u = (case in_expires inp of Some e \<Rightarrow> Some e
                | None \<Rightarrow> map_option (\<lambda>d. now + go_seconds d) (in_duration inp))))
   \<and> (\<forall>e s'. Create (wired_users now) s new_id inp = (Inl e, s') \<longrightarrow> s' = s)
   \<and> (usernameRe (in_username inp) \<and> validateLimits inp = Inr ()
        \<and> in_username inp \<in> u_username ` set (users s)
      \<longrightarrow> Create (wired_users now) s new_id inp = (E CodeUsernameExists, s))"
proof (intro conjI allI impI)
  fix u s'
  assume "Create (wired_users now) s new_id inp = (Inr u, s')"
  then have c: "CreateTx (wired_users now) s new_id inp = Inr (u, s')"
    by (simp add: Create_def tx_simps)
  note ok = wired.CreateTx_ok[OF c]
  have id: "u_id (stored_user u) = new_id" "u_deleted (stored_user u) = None"
    using ok(1) by (simp_all add: stored_user_def buildCreate_def Let_def)
  show "users s' = users s @ [stored_user u]" "devices s' = devices s" "retired s' = retired s"
    by (fact ok)+
  have "find_row u_id new_id (users s) = None" using ok(8) by (simp add: find_row_None_iff)
  then show "Get s' new_id = Inr (stored_user u)"
    using id by (simp add: Get_def getRaw_def ok(2) row_simps find_row_Cons)
  show "u_enabled u" "PeerWanted (u_status u)" "u_reason u = None" "usernameRe (u_username u)"
    using ok(1,6) by (simp_all add: buildCreate_def Let_def)
  show "if in_policy inp = StartFirstConnection
         then u_status u = UserWaitingFirstConnection \<and> u_activated u = None
           \<and> u_expires u = in_expires inp
         else u_status u = UserActive \<and> u_activated u = Some now
           \<and> u_expires u = (case in_expires inp of Some e \<Rightarrow> Some e
                | None \<Rightarrow> map_option (\<lambda>d. now + go_seconds d) (in_duration inp))"
    using ok(1) by (auto simp: buildCreate_def Let_def split: option.splits)
next
  fix e s'
  assume "Create (wired_users now) s new_id inp = (Inl e, s')"
  then show "s' = s" by (simp add: Create_def WithTx_Inl)
next
  assume "usernameRe (in_username inp) \<and> validateLimits inp = Inr ()
        \<and> in_username inp \<in> u_username ` set (users s)"
  then show "Create (wired_users now) s new_id inp = (E CodeUsernameExists, s)"
    by (simp add: Create_def CreateTx_def Let_def insert_user_def buildCreate_def)
qed

theorem create_user_correct_witness:
  "\<exists>u s'. Create (wired_users 7) empty_db ''id-1'' ((plain_input ''alice'')\<lparr>in_duration := Some 60\<rparr>) = (Inr u, s')
     \<and> u_expires u = Some 60000000007"
proof -
  let ?inp = "(plain_input ''alice'')\<lparr>in_duration := Some 60\<rparr>"
  obtain u s' where c: "Create (wired_users 7) empty_db ''id-1'' ?inp = (Inr u, s')"
    by (simp add: user_op_defs user_example_simps)
  have "u_expires u = map_option (\<lambda>d. 7 + go_seconds d) (in_duration ?inp)"
    using create_user_correct[THEN conjunct1, rule_format, OF c]
    by (simp add: plain_input_def)
  with c show ?thesis by (simp add: go_seconds_def is_i64_def)
qed

lemma found_after_commit:
  assumes "commit_user (wired_users now) s u evs = (Inr u', s')" "find_row u_id (u_id u) (users s) = Some r"
  shows "find_row u_id (u_id u) (users s') = Some (save_columns now u r)"
    "k \<noteq> u_id u \<Longrightarrow> find_row u_id k (users s') = find_row u_id k (users s)"
  using assms(2) wired.commit_user_ok(2)[OF assms(1)]
  by (simp_all add: save_id.find_update_self save_id.find_update_other)

lemma Get_Inr: "Get s uid = Inr u \<longleftrightarrow> find_row u_id uid (users s) = Some u \<and> u_deleted u = None"
  by (auto simp: Get_def getRaw_def tx_simps)

text \<open>
  A lifecycle transition keeps the row consistent: after \<open>SetStatus\<close> the account is enabled
  exactly when its status wants peers, it has a disable reason exactly when it is disabled or
  suspended, the status is the requested one except that a never-activated first-connection account
  asked to be active goes back to waiting, and the charged counters, the last activity, the username
  and every other account are untouched.
\<close>

theorem set_status_correct:
  assumes "SetStatus (wired_users now) s uid st reason = (Inr u, s')"
  shows "\<exists>r0 r. find_row u_id uid (users s) = Some r0 \<and> find_row u_id uid (users s') = Some r
    \<and> (u_enabled r \<longleftrightarrow> PeerWanted (u_status r))
    \<and> (u_reason r \<noteq> None \<longleftrightarrow> u_status r \<in> {UserDisabled, UserSuspended})
    \<and> u_status r = (if st = UserActive \<and> u_activated r0 = None \<and> u_policy r0 = StartFirstConnection
                    then UserWaitingFirstConnection else st)
    \<and> u_used_rx r = u_used_rx r0 \<and> u_used_tx r = u_used_tx r0 \<and> u_activity r = u_activity r0
    \<and> u_username r = u_username r0
    \<and> (\<forall>k. k \<noteq> uid \<longrightarrow> find_row u_id k (users s') = find_row u_id k (users s))"
proof -
  from assms obtain r0 where r0: "Get s uid = Inr r0"
    "SetStatus_from (wired_users now) s r0 st reason = (Inr u, s')"
    by (auto simp: SetStatus_def split: sum.splits)
  let ?u = "apply_status st reason r0"
  from r0(2) have v: "status_valid st"
    and c: "commit_user (wired_users now) s ?u (status_events ?u) = (Inr u, s')"
    by (auto simp: SetStatus_from_def Let_def split: if_splits)
  have f: "find_row u_id uid (users s) = Some r0" and id: "u_id r0 = uid" "u_id ?u = uid"
    using r0(1) by (auto simp: Get_Inr apply_status_def Let_def)
  note row = found_after_commit[OF c, unfolded id(2), OF f]
  have "status_valid st \<Longrightarrow> (u_enabled (save_columns now ?u r0) \<longleftrightarrow> PeerWanted (u_status (save_columns now ?u r0)))
     \<and> (u_reason (save_columns now ?u r0) \<noteq> None \<longleftrightarrow> u_status (save_columns now ?u r0) \<in> {UserDisabled, UserSuspended})
     \<and> u_status (save_columns now ?u r0) = (if st = UserActive \<and> u_activated r0 = None \<and> u_policy r0 = StartFirstConnection
                    then UserWaitingFirstConnection else st)"
    by (cases st) (simp_all add: save_columns_def apply_status_def Let_def)
  then show ?thesis
    using v f row by (intro exI[of _ r0] exI[of _ "save_columns now ?u r0"])
      (simp_all add: save_columns_def)
qed

theorem set_status_correct_witness:
  "\<exists>s u s' r. SetStatus (wired_users 9) s ''id-1'' UserSuspended DisableManual = (Inr u, s')
     \<and> find_row u_id ''id-1'' (users s') = Some r \<and> \<not> u_enabled r"
proof -
  let ?s = "snd (Create (wired_users 7) empty_db ''id-1'' (plain_input ''alice''))"
  obtain u s' where c: "SetStatus (wired_users 9) ?s ''id-1'' UserSuspended DisableManual = (Inr u, s')"
    by (simp add: user_op_defs user_example_simps SetStatus_def SetStatus_from_def Get_def getRaw_def
        find_row_Cons apply_status_def status_events_def commit_user_def save_def user_event_def WithTx_def)
  from set_status_correct[OF c] obtain r where "find_row u_id ''id-1'' (users s') = Some r"
    "u_enabled r \<longleftrightarrow> PeerWanted (u_status r)" "u_status r = UserSuspended" by auto
  with c show ?thesis by auto
qed

text \<open>
  C34. Renewal. The new expiry is the given instant, or the effective duration counted from now, or
  from the current expiry when that still lies ahead; an expired account becomes active again with its
  reason cleared, every other status (a quota block in particular) is kept. A positive duration of
  at most 9223372036 seconds (about 292 years) always moves the expiry to that much after now or
  later, and never shortens a running subscription.
\<close>

theorem renew_correct:
  assumes "Renew (wired_users now) s uid mode duration exact = (Inr u, s')"
  shows "\<exists>r0 r. find_row u_id uid (users s) = Some r0 \<and> find_row u_id uid (users s') = Some r
    \<and> (u_status r0 = UserExpired \<longrightarrow> u_status r = UserActive \<and> u_reason r = None)
    \<and> (u_status r0 \<noteq> UserExpired \<longrightarrow> u_status r = u_status r0 \<and> u_reason r = u_reason r0)
    \<and> u_enabled r = u_enabled r0 \<and> u_limit r = u_limit r0
    \<and> (mode = Exact \<longrightarrow> u_expires r = exact \<and> exact \<noteq> None)
    \<and> (mode \<noteq> Exact \<longrightarrow> (\<exists>d. (case duration of None \<Rightarrow> u_duration r0 | Some x \<Rightarrow> Some x) = Some d
         \<and> u_expires r = Some ((if mode = FromNow then now
               else max now (case u_expires r0 of None \<Rightarrow> now | Some e \<Rightarrow> e)) + go_seconds d)
         \<and> (0 < d \<and> d \<le> 9223372036 \<longrightarrow>
              (\<exists>e. u_expires r = Some e \<and> now + d * 1000000000 \<le> e
                 \<and> (mode = FromExpiration \<longrightarrow> (\<forall>e0. u_expires r0 = Some e0 \<longrightarrow> e0 + d * 1000000000 \<le> e))))))"
proof -
  from assms obtain r0 where r0: "Get s uid = Inr r0"
    "Renew_from (wired_users now) s r0 mode duration exact = (Inr u, s')"
    by (auto simp: Renew_def split: sum.splits)
  then obtain e where e: "renew_expiry now r0 mode duration exact = Inr e"
    and c: "commit_user (wired_users now) s (apply_renewal e r0)
              [(''user.updated'', user_event (apply_renewal e r0))] = (Inr u, s')"
    by (auto simp: Renew_from_def Let_def split: sum.splits)
  let ?u = "apply_renewal e r0"
  have f: "find_row u_id uid (users s) = Some r0" and id: "u_id ?u = uid"
    using r0(1) by (auto simp: Get_Inr apply_renewal_def Let_def)
  let ?r = "save_columns now ?u r0"
  have row: "find_row u_id uid (users s') = Some ?r"
    using found_after_commit(1)[OF c] f id by simp
  have exp: "u_expires ?r = e" by (simp add: save_columns_def apply_renewal_def Let_def)
  have exact: "mode = Exact \<longrightarrow> e = exact \<and> exact \<noteq> None"
    using e by (auto simp: renew_expiry_def Let_def tx_simps)
  have rel: "mode \<noteq> Exact \<longrightarrow> (\<exists>d. (case duration of None \<Rightarrow> u_duration r0 | Some x \<Rightarrow> Some x) = Some d
     \<and> e = Some ((if mode = FromNow then now
               else max now (case u_expires r0 of None \<Rightarrow> now | Some e \<Rightarrow> e)) + go_seconds d))"
    using e by (cases mode) (auto simp: renew_expiry_def Let_def tx_simps split: option.splits)
  have bound: "go_seconds d = d * 1000000000" if "0 < d \<and> d \<le> 9223372036" for d
    using that by (simp add: go_seconds_id)
  have rel': "mode \<noteq> Exact \<longrightarrow> (\<exists>d. (case duration of None \<Rightarrow> u_duration r0 | Some x \<Rightarrow> Some x) = Some d
         \<and> e = Some ((if mode = FromNow then now
               else max now (case u_expires r0 of None \<Rightarrow> now | Some e \<Rightarrow> e)) + go_seconds d)
         \<and> (0 < d \<and> d \<le> 9223372036 \<longrightarrow>
              (\<exists>x. e = Some x \<and> now + d * 1000000000 \<le> x
                 \<and> (mode = FromExpiration \<longrightarrow> (\<forall>e0. u_expires r0 = Some e0 \<longrightarrow> e0 + d * 1000000000 \<le> x)))))"
    using rel by (auto simp: bound)
  have st: "(u_status r0 = UserExpired \<longrightarrow> u_status ?r = UserActive \<and> u_reason ?r = None)
    \<and> (u_status r0 \<noteq> UserExpired \<longrightarrow> u_status ?r = u_status r0 \<and> u_reason ?r = u_reason r0)
    \<and> u_enabled ?r = u_enabled r0 \<and> u_limit ?r = u_limit r0"
    by (simp add: save_columns_def apply_renewal_def Let_def)
  show ?thesis
    by (rule exI[of _ r0], rule exI[of _ ?r], unfold exp, use f row st exact rel' in blast)
qed

theorem renew_correct_witness:
  "\<exists>s u s' r. Renew (wired_users 9) s ''id-1'' FromNow (Some 60) None = (Inr u, s')
     \<and> find_row u_id ''id-1'' (users s') = Some r \<and> u_expires r = Some 60000000009"
proof -
  let ?s = "snd (Create (wired_users 7) empty_db ''id-1'' (plain_input ''alice''))"
  obtain u s' where c: "Renew (wired_users 9) ?s ''id-1'' FromNow (Some 60) None = (Inr u, s')"
    by (simp add: user_op_defs user_example_simps Renew_def Renew_from_def renew_expiry_def Get_def getRaw_def
        find_row_Cons apply_renewal_def commit_user_def save_def user_event_def WithTx_def)
  from renew_correct[OF c] obtain r where "find_row u_id ''id-1'' (users s') = Some r"
    "u_expires r = Some (9 + go_seconds 60)" by auto
  with c show ?thesis by (auto simp: go_seconds_def is_i64_def)
qed

text \<open>
  An unbounded duration overflows: for a duration of 9223372037 seconds the 64-bit nanosecond
  product wraps to a negative one, so both creating an account with it and renewing by it put the
  expiry before the current instant, although the validation accepts the duration.
\<close>

theorem duration_overflow_expires_at_once:
  "(\<exists>u s'. Create (wired_users now) empty_db ''id-1''
        ((plain_input ''alice'')\<lparr>in_duration := Some 9223372037\<rparr>) = (Inr u, s')
      \<and> (\<exists>e. u_expires u = Some e \<and> e < now))
   \<and> validateLimits ((plain_input ''alice'')\<lparr>in_duration := Some 9223372037\<rparr>) = Inr ()
   \<and> renew_expiry now u0 FromNow (Some 9223372037) None = Inr (Some (now - 9223372036709551616))"
  by (simp add: user_op_defs user_example_simps renew_expiry_def go_seconds_def i64_def)

text \<open>
  A write based on an earlier read. \<open>Update\<close> reads the row before its transaction; whatever
  other requests have done to the row in between, committing the edit keeps the charged counters
  and the last activity of the current row, but every entitlement column that the edit does not
  mention (traffic limit, status, reason, expiry, activation) goes back to the value of the snapshot, so
  that a quota increase or an enforcement transition committed in between is lost.
\<close>

theorem update_overwrites_from_snapshot:
  assumes "Get s uid = Inr u0" "find_row u_id uid (users t) = Some r"
    and "Update_from (wired_users now) t u0 inp = (Inr u, t')"
    and "\<not> opt_set (in_limit inp)"
  shows "\<exists>r'. find_row u_id uid (users t') = Some r'
    \<and> u_used_rx r' = u_used_rx r \<and> u_used_tx r' = u_used_tx r \<and> u_activity r' = u_activity r
    \<and> u_limit r' = u_limit u0 \<and> u_status r' = u_status u0 \<and> u_reason r' = u_reason u0
    \<and> u_expires r' = u_expires u0 \<and> u_activated r' = u_activated u0"
proof -
  let ?u = "apply_input inp u0"
  from assms(3) obtain evs where c: "commit_user (wired_users now) t ?u evs = (Inr u, t')"
    by (auto simp: Update_from_def Let_def split: sum.splits)
  have "u_id ?u = uid" using assms(1) by (auto simp: Get_Inr apply_input_def)
  with found_after_commit(1)[OF c] assms(2)
  have "find_row u_id uid (users t') = Some (save_columns now ?u r)" by simp
  with assms(4) show ?thesis
    by (simp add: save_columns_def apply_input_def opt_resolve_def)
qed

theorem update_overwrites_from_snapshot_witness:
  "\<exists>s t u0 u t' r'. Get s ''id-1'' = Inr u0
     \<and> t = s\<lparr>users := update_rows (\<lambda>r. True) (\<lambda>r. r\<lparr>u_limit := Some 500, u_used_rx := 42\<rparr>) (users s)\<rparr>
     \<and> Update_from (wired_users 9) t u0 ((plain_input [])\<lparr>in_note := Some ''vip''\<rparr>) = (Inr u, t')
     \<and> find_row u_id ''id-1'' (users t') = Some r' \<and> u_limit r' = None \<and> u_used_rx r' = 42"
proof -
  let ?s = "snd (Create (wired_users 7) empty_db ''id-1'' (plain_input ''alice''))"
  let ?t = "?s\<lparr>users := update_rows (\<lambda>r. True) (\<lambda>r. r\<lparr>u_limit := Some 500, u_used_rx := 42\<rparr>) (users ?s)\<rparr>"
  obtain u0 where u0: "Get ?s ''id-1'' = Inr u0" "u_limit u0 = None" "u_id u0 = ''id-1''"
      "u_policy u0 = StartImmediate" "u_template u0 = None" "u_interface u0 = None"
    by (simp add: user_op_defs user_example_simps Get_def getRaw_def find_row_Cons)
  obtain r where r: "find_row u_id ''id-1'' (users ?t) = Some r" "u_used_rx r = 42"
    by (simp add: user_op_defs user_example_simps find_row_Cons update_rows_def)
  obtain u t' where c: "Update_from (wired_users 9) ?t u0 ((plain_input [])\<lparr>in_note := Some ''vip''\<rparr>) = (Inr u, t')"
    using u0 by (simp add: user_op_defs user_example_simps Update_from_def apply_input_def
        commit_user_def save_def user_event_def WithTx_def)
  have "\<not> opt_set (in_limit ((plain_input [])\<lparr>in_note := Some ''vip''\<rparr>))"
    by (simp add: plain_input_def opt_absent_def)
  from update_overwrites_from_snapshot[OF u0(1) r(1) c this] u0(2) r(2)
  obtain r' where "find_row u_id ''id-1'' (users t') = Some r'" "u_limit r' = None" "u_used_rx r' = 42"
    by auto
  with u0(1) c show ?thesis by blast
qed

text \<open>
  C36. Bulk creation. With indices below the largest \<open>int\<close> and any fuel above the count the call
  returns; on success every index is either created or counted as skipped, the created accounts
  are exactly the new rows, in order, each with the prefix and its zero-padded index as a valid
  username and a fresh identifier, and the table stays well-formed; on an error nothing is created.
\<close>

theorem create_bulk_correct:
  assumes "count < int fuel" "startIndex + count \<le> MaxInt64"
  shows "\<exists>r s'. CreateBulk fuel (wired_users now) s ids prefix count startIndex width inp = Some (r, s')
    \<and> (\<forall>e. r = Inl e \<longrightarrow> s' = s)
    \<and> (\<forall>us skipped. r = Inr (us, skipped) \<longrightarrow>
         int (length us + skipped) = count
         \<and> users s' = users s @ map stored_user us \<and> devices s' = devices s
         \<and> (users_inv s \<longrightarrow> users_inv s')
         \<and> (\<forall>u \<in> set us. usernameRe (u_username u) \<and> (\<exists>i. startIndex \<le> i \<and> i < startIndex + count
              \<and> u_id u = ids i
              \<and> u_username u = trim_space prefix @ show_padded (nat (if width < 1 then 3 else width)) i)))"
proof (cases "1 \<le> count \<and> count \<le> 500 \<and> 0 \<le> startIndex \<and> validateLimits inp = Inr ()")
  case False
  then consider "count < 1 \<or> 500 < count" | "startIndex < 0" | e where "validateLimits inp = Inl e"
    by (cases "validateLimits inp") force+
  then show ?thesis by cases (simp_all add: CreateBulk_def Let_def)
next
  case True
  let ?w = "nat (if width < 1 then 3 else width)" and ?p = "trim_space prefix"
  let ?last = "startIndex + count - 1" and ?st = "\<lparr>b_users = [], b_skipped = 0, b_db = s\<rparr>"
  have last: "i64 ?last = ?last" using True assms(2) by (simp add: is_i64_def)
  let ?fold = "efold (bulk_step (wired_users now) ids ?p ?w inp) [startIndex..?last] ?st"
  have loop: "bulk_loop fuel (wired_users now) ids ?p ?w inp startIndex ?last ?st = Some ?fold"
    using True assms by (intro wired.bulk_loop_fold) linarith+
  show ?thesis
  proof (cases "CreateBulk fuel (wired_users now) s ids prefix count startIndex width inp
      = Some (E CodeInvalidRequest, s)")
    case bad: False
    then have run: "CreateBulk fuel (wired_users now) s ids prefix count startIndex width inp =
        Some (case ?fold of Inl e \<Rightarrow> (Inl e, s) | Inr st \<Rightarrow> (Inr (b_users st, b_skipped st), b_db st))"
      using True loop last by (auto simp: CreateBulk_def Let_def split: if_splits sum.splits)
    show ?thesis
    proof (cases ?fold)
      case (Inr st)
      from wired.bulk_fold_ok[OF Inr] obtain new where new: "b_users st = new"
        "users (b_db st) = users s @ map stored_user new"
        "b_skipped st + length new = length [startIndex..?last]" "devices (b_db st) = devices s"
        "\<forall>u \<in> set new. usernameRe (u_username u) \<and> (\<exists>i \<in> set [startIndex..?last].
          u = (buildCreate now (ids i) inp)\<lparr>u_username := ?p @ show_padded ?w i\<rparr>)"
        by auto
      have "users_inv s \<Longrightarrow> users_inv (b_db st)"
        by (rule efold_inv[OF Inr, where P = "\<lambda>st. users_inv (b_db st)"])
          (use True wired.bulk_step_inv in auto)
      moreover have "int (length new + b_skipped st) = count"
        using new(3) True by (simp add: nat_eq_iff2 add.commute flip: of_nat_add)
      moreover have "\<forall>u \<in> set new. usernameRe (u_username u) \<and> (\<exists>i. startIndex \<le> i \<and> i < startIndex + count
          \<and> u_id u = ids i \<and> u_username u = ?p @ show_padded ?w i)"
        using new(5) by (fastforce simp: buildCreate_def Let_def)
      ultimately show ?thesis using run Inr new by simp
    qed (use run in simp)
  qed simp
qed

theorem create_bulk_correct_witness:
  "\<exists>us s'. CreateBulk 3 (wired_users 7) empty_db show_int ''bob-'' 2 1 3 (plain_input []) = Some (Inr (us, 0), s')
     \<and> length us = 2 \<and> users_inv s'"
proof -
  let ?call = "CreateBulk 3 (wired_users 7) empty_db show_int ''bob-'' 2 1 3 (plain_input [])"
  have c: "\<exists>us s'. ?call = Some (Inr (us, 0), s')"
    by (simp add: CreateBulk_def user_op_defs user_example_simps numeral_3_eq_3 bulk_step_def prefixRe_def
        show_padded_def show_int_def show_nat.simps trim_space_def is_space_def i64_def digit_def)
  then obtain us s' where c: "?call = Some (Inr (us, 0), s')" by blast
  moreover have "users_inv empty_db" by (simp add: users_inv_def unique_on_def empty_db_def)
  ultimately show ?thesis
    using create_bulk_correct[of 2 3 1 7 empty_db show_int "''bob-''" 3 "plain_input []"] by auto
qed

lemma bulk_loop_max:
  assumes "\<And>i st. \<exists>st'. bulk_step svc ids prefix width inp i st = Inr st'" "is_i64 i"
  shows "bulk_loop fuel svc ids prefix width inp i MaxInt64 st = None"
  using assms(2)
proof (induction fuel arbitrary: i st)
  case (Suc fuel)
  obtain st' where "bulk_step svc ids prefix width inp i st = Inr st'" using assms(1) by blast
  moreover have "i \<le> MaxInt64" using Suc.prems by (simp add: is_i64_def)
  ultimately show ?case using Suc.IH by simp
qed simp

lemma bulk_step_plain_total:
  "\<exists>st'. bulk_step (wired_users now) ids prefix width (plain_input []) i st = Inr st'"
  by (auto simp: bulk_step_def insert_user_def refs_ok_def buildCreate_def Let_def
      record_opt_def RecordTx_def ValidEvent_def Catalog_def
      plain_input_def opt_absent_def opt_given_def opt_resolve_def)

text \<open>
  Bulk creation does not end when its last index is the largest \<open>int\<close>: the increment wraps
  around to the smallest one, the loop condition holds for every index, and each index past the
  first is skipped or inserted; for this input, which the validation accepts, no amount of fuel
  makes the call return.
\<close>

theorem create_bulk_diverges:
  "CreateBulk fuel (wired_users now) s ids ''bob-'' 1 MaxInt64 3 (plain_input []) = None"
proof -
  have "bulk_loop fuel (wired_users now) ids ''bob-'' 3 (plain_input []) MaxInt64 MaxInt64 st = None" for st
    by (rule bulk_loop_max[OF bulk_step_plain_total]) (simp add: is_i64_def)
  then show ?thesis
    by (simp add: CreateBulk_def Let_def prefixRe_def name_char_def trim_space_def is_space_def show_int_def
        show_nat.simps validateLimits_def plain_input_def opt_absent_def opt_given_def is_i64_def)
qed



text \<open>
  Restoring a soft-deleted account always makes it active and enabled with no reason, whatever its
  status was and without looking at its expiry or quota: a first-connection account that was
  never activated comes back active with no activation time and no expiry, where
  the status service would have put it back to waiting.
\<close>

theorem restore_skips_first_connection:
  assumes "Restore (wired_users now) s uid = (Inr u, s')" "find_row u_id uid (users s) = Some r0"
  shows "\<exists>r. find_row u_id uid (users s') = Some r \<and> u_deleted r = None \<and> u_deleted r0 \<noteq> None
     \<and> u_status r = UserActive \<and> u_enabled r \<and> u_reason r = None
     \<and> u_activated r = u_activated r0 \<and> u_expires r = u_expires r0
     \<and> (u_policy r0 = StartFirstConnection \<and> u_activated r0 = None \<longrightarrow>
          u_status (apply_status UserActive reason r) = UserWaitingFirstConnection
          \<and> u_status r \<noteq> UserWaitingFirstConnection)"
proof -
  let ?u = "r0\<lparr>u_deleted := None, u_status := UserActive, u_reason := None, u_enabled := True\<rparr>"
  from assms obtain evs where c: "commit_user (wired_users now) s ?u evs = (Inr u, s')"
    and del: "u_deleted r0 \<noteq> None"
    by (auto simp: Restore_def getRaw_def Restore_from_def Let_def split: if_splits)
  have "u_id ?u = uid" using assms(2) by auto
  with found_after_commit(1)[OF c] assms(2)
  have "find_row u_id uid (users s') = Some (save_columns now ?u r0)" by simp
  with del show ?thesis by (simp add: save_columns_def apply_status_def Let_def)
qed

theorem restore_skips_first_connection_witness:
  "\<exists>s u s' r. Restore (wired_users 9) s ''id-1'' = (Inr u, s')
     \<and> find_row u_id ''id-1'' (users s') = Some r \<and> u_status r = UserActive \<and> u_activated r = None"
proof -
  let ?s0 = "snd (Create (wired_users 7) empty_db ''id-1'' ((plain_input ''alice'')\<lparr>in_policy := StartFirstConnection\<rparr>))"
  let ?s = "snd (SoftDelete (wired_users 8) ?s0 ''id-1'')"
  obtain r0 where r0: "find_row u_id ''id-1'' (users ?s) = Some r0" "u_activated r0 = None"
    by (simp add: user_op_defs user_example_simps SoftDelete_def SoftDelete_from_def Get_def getRaw_def
        find_row_Cons commit_user_def save_def save_columns_def user_event_def WithTx_def discard_def update_rows_def)
  obtain u s' where c: "Restore (wired_users 9) ?s ''id-1'' = (Inr u, s')"
    by (simp add: user_op_defs user_example_simps SoftDelete_def SoftDelete_from_def Get_def getRaw_def
        find_row_Cons commit_user_def save_def save_columns_def user_event_def WithTx_def discard_def update_rows_def
        Restore_def Restore_from_def)
  from restore_skips_first_connection[OF c r0(1)] r0(2) c show ?thesis by force
qed

end
