(* ===== verification/Keys.thy ===== *)
theory Keys
  imports Domain "HOL-Library.Word"
begin

text \<open>
  Key texts (\<open>src/internal/tunnel/keys.go\<close>): the base64 form of 32-byte keys. \<open>b64_decode\<close> and
  \<open>b64_encode\<close> are Go's \<open>base64.StdEncoding\<close>: padding is required, carriage returns and newlines are
  skipped, and the unused low bits of the last character are not checked when decoding.
\<close>

type_synonym byte = "8 word"

section \<open>Standard base64\<close>

definition b64_char :: "nat \<Rightarrow> char" where
  "b64_char v = char_of (if v < 26 then v + 65 else if v < 52 then v + 71
     else if v < 62 then v - 4 else if v = 62 then 43 else 47)"

definition b64_value :: "char \<Rightarrow> nat option" where
  "b64_value c = (let n = of_char c in
     if 65 \<le> n \<and> n \<le> 90 then Some (n - 65) else if 97 \<le> n \<and> n \<le> 122 then Some (n - 71)
     else if 48 \<le> n \<and> n \<le> 57 then Some (n + 4) else if n = 43 then Some 62
     else if n = 47 then Some 63 else None)"

text \<open>The 24 bits of a quantum, most significant sextet or byte first.\<close>

definition quantum_char :: "nat \<Rightarrow> nat \<Rightarrow> char" where
  "quantum_char n k = b64_char (n div 64 ^ (3 - k) mod 64)"

definition quantum_byte :: "nat \<Rightarrow> nat \<Rightarrow> byte" where
  "quantum_byte n k = of_nat (n div 256 ^ (2 - k))"

fun b64_encode :: "byte list \<Rightarrow> string" where
  "b64_encode [] = []"
| "b64_encode [x] = (let n = unat x * 65536
     in [quantum_char n 0, quantum_char n 1, CHR ''='', CHR ''=''])"
| "b64_encode [x, y] = (let n = unat x * 65536 + unat y * 256
     in [quantum_char n 0, quantum_char n 1, quantum_char n 2, CHR ''=''])"
| "b64_encode (x # y # z # rest) = (let n = unat x * 65536 + unat y * 256 + unat z
     in [quantum_char n 0, quantum_char n 1, quantum_char n 2, quantum_char n 3] @ b64_encode rest)"

definition quantum :: "char \<Rightarrow> char \<Rightarrow> char \<Rightarrow> char \<Rightarrow> nat option" where
  "quantum a b c d = (case (b64_value a, b64_value b, b64_value c, b64_value d) of
     (Some p, Some q, Some r, Some t) \<Rightarrow> Some (p * 262144 + q * 4096 + r * 64 + t) | _ \<Rightarrow> None)"

fun b64_quanta :: "string \<Rightarrow> byte list option" where
  "b64_quanta [] = Some []"
| "b64_quanta (a # b # c # d # rest) =
     (if rest = [] \<and> c = CHR ''='' \<and> d = CHR ''='' then
        (case quantum a b CHR ''A'' CHR ''A'' of None \<Rightarrow> None | Some n \<Rightarrow> Some [quantum_byte n 0])
      else if rest = [] \<and> d = CHR ''='' then
        (case quantum a b c CHR ''A'' of None \<Rightarrow> None
         | Some n \<Rightarrow> Some [quantum_byte n 0, quantum_byte n 1])
      else
        (case quantum a b c d of None \<Rightarrow> None
         | Some n \<Rightarrow> (case b64_quanta rest of None \<Rightarrow> None
             | Some bs \<Rightarrow> Some ([quantum_byte n 0, quantum_byte n 1, quantum_byte n 2] @ bs))))"
| "b64_quanta _ = None"

definition b64_decode :: "string \<Rightarrow> byte list option" where
  "b64_decode s = b64_quanta (filter (\<lambda>c. (of_char c :: nat) \<noteq> 10 \<and> (of_char c :: nat) \<noteq> 13) s)"

section \<open>Key checks\<close>

definition ValidatePublicKey :: "string \<Rightarrow> unit result" where
  "ValidatePublicKey b64 = (case b64_decode b64 of
     None \<Rightarrow> Inl (Foreign ''public key is not valid base64'')
   | Some raw \<Rightarrow> if length raw \<noteq> 32 then Inl (Foreign ''public key must decode to 32 bytes'') else Inr ())"

definition ValidatePrivateKey :: "string \<Rightarrow> unit result" where
  "ValidatePrivateKey b64 = (case b64_decode b64 of
     None \<Rightarrow> Inl (Foreign ''private key is not valid base64'')
   | Some raw \<Rightarrow> if length raw \<noteq> 32 then Inl (Foreign ''private key must decode to 32 bytes'') else Inr ())"

definition ValidateEncodedKey :: "string \<Rightarrow> unit result" where
  "ValidateEncodedKey value = (case b64_decode value of
     None \<Rightarrow> Inl (Foreign ''key must use canonical 32-byte base64 encoding'')
   | Some raw \<Rightarrow> if length raw \<noteq> 32 \<or> b64_encode raw \<noteq> value
       then Inl (Foreign ''key must use canonical 32-byte base64 encoding'') else Inr ())"

text \<open>
  \<open>x25519\<close> is the curve's base-point multiplication (\<open>crypto/ecdh\<close>), \<open>None\<close> when the library
  refuses the private key.
\<close>

definition PublicKeyFromPrivate :: "(byte list \<Rightarrow> byte list option) \<Rightarrow> string \<Rightarrow> string result" where
  "PublicKeyFromPrivate x25519 b64 = (case b64_decode b64 of
     None \<Rightarrow> Inl (Foreign ''private key must be 32 base64 bytes'')
   | Some raw \<Rightarrow> if length raw \<noteq> 32 then Inl (Foreign ''private key must be 32 base64 bytes'')
       else (case x25519 raw of None \<Rightarrow> Inl (Foreign ''tunnel: private key'')
             | Some pub \<Rightarrow> Inr (b64_encode pub)))"

definition ValidateKeyPair :: "(byte list \<Rightarrow> byte list option) \<Rightarrow> string \<Rightarrow> string \<Rightarrow> unit result" where
  "ValidateKeyPair x25519 priv pub =
     ebind (ValidateEncodedKey priv) (\<lambda>_.
       case PublicKeyFromPrivate x25519 priv of
         Inl e \<Rightarrow> Inl (Foreign ''stored key pair does not match'')
       | Inr derived \<Rightarrow> if derived \<noteq> pub then Inl (Foreign ''stored key pair does not match'') else Inr ())"

section \<open>The codec round-trips\<close>

lemma b64_value_char [simp]: "v < 64 \<Longrightarrow> b64_value (b64_char v) = Some v"
  by (auto simp: b64_value_def b64_char_def Let_def)

lemma b64_char_plain:
  assumes "v < 64"
  shows "b64_char v \<noteq> CHR ''=''" "(of_char (b64_char v) :: nat) \<noteq> 10" "(of_char (b64_char v) :: nat) \<noteq> 13"
proof -
  have "b64_value CHR ''='' = None" by (simp add: b64_value_def)
  with b64_value_char[OF assms] show "b64_char v \<noteq> CHR ''=''" by auto
  show "(of_char (b64_char v) :: nat) \<noteq> 10" "(of_char (b64_char v) :: nat) \<noteq> 13"
    using assms by (auto simp: b64_char_def)
qed

lemma b64_char_0 [simp]: "b64_char 0 = CHR ''A''"
  by code_simp

lemma quantum_char_plain [simp]:
  "quantum_char n k \<noteq> CHR ''=''" "(of_char (quantum_char n k) :: nat) \<noteq> 10"
  "(of_char (quantum_char n k) :: nat) \<noteq> 13"
  using b64_char_plain[of "n div 64 ^ (3 - k) mod 64"] by (simp_all add: quantum_char_def)

lemma quantum_chars:
  assumes "n < 16777216"
  shows "quantum (quantum_char n 0) (quantum_char n 1) (quantum_char n 2) (quantum_char n 3) = Some n"
proof -
  have d: "n div 4096 = n div 64 div 64" "n div 262144 = n div 64 div 64 div 64"
    by (simp_all flip: div_mult2_eq)
  have lt: "n div 64 div 64 div 64 < 64" using assms by (simp add: less_mult_imp_div_less flip: div_mult2_eq)
  then have "n div 262144 * 262144 + n div 4096 mod 64 * 4096 + n div 64 mod 64 * 64 + n mod 64 = n"
    using mult_div_mod_eq[of 64 n] mult_div_mod_eq[of 64 "n div 64"] mult_div_mod_eq[of 64 "n div 64 div 64"]
    unfolding d by linarith
  moreover have "b64_value (b64_char (n div 262144)) = Some (n div 262144)" "n div 262144 mod 64 = n div 262144"
    using lt d by simp_all
  ultimately show ?thesis by (simp add: quantum_def quantum_char_def)
qed

lemma quantum_char_zero: "quantum_char (m * 64) 3 = CHR ''A''" "quantum_char (m * 4096) 2 = CHR ''A''"
proof -
  have "m * 4096 div 64 = m * 64" by linarith
  then show "quantum_char (m * 64) 3 = CHR ''A''" "quantum_char (m * 4096) 2 = CHR ''A''"
    by (simp_all add: quantum_char_def)
qed

lemma unat_byte: "unat (x :: byte) < 256"
  using unsigned_less[of x, where ?'a = nat] by simp

lemma quantum_bytes:
  fixes x y z :: byte
  defines "n \<equiv> unat x * 65536 + unat y * 256 + unat z"
  shows "n < 16777216" "quantum_byte n 0 = x" "quantum_byte n 1 = y" "quantum_byte n 2 = z"
proof -
  note b = unat_byte[of x] unat_byte[of y] unat_byte[of z]
  then show "n < 16777216" unfolding n_def by linarith
  have d: "n div 256 = unat x * 256 + unat y" using b unfolding n_def by linarith
  have "n div 65536 = n div 256 div 256" by (simp flip: div_mult2_eq)
  also have "\<dots> = unat x" unfolding d using b by linarith
  finally show "quantum_byte n 0 = x" by (simp add: quantum_byte_def)
  have z: "(256 :: byte) = 0" "(65536 :: byte) = 0" by simp_all
  have "quantum_byte n 1 = x * 256 + y" by (simp add: quantum_byte_def d)
  then show "quantum_byte n 1 = y" by (simp only: z mult_zero_right add_0)
  have "quantum_byte n 2 = x * 65536 + y * 256 + z" by (simp add: quantum_byte_def n_def)
  then show "quantum_byte n 2 = z" by (simp only: z mult_zero_right add_0)
qed

lemma b64_quanta_encode: "b64_quanta (b64_encode bs) = Some bs"
proof (induction bs rule: b64_encode.induct)
  case (2 x)
  let ?n = "unat x * 65536"
  have z: "quantum_char ?n 2 = CHR ''A''" "quantum_char ?n 3 = CHR ''A''"
    using quantum_char_zero(2)[of "unat x * 16"] quantum_char_zero(1)[of "unat x * 1024"]
    by (simp_all add: mult.assoc)
  show ?case using quantum_bytes[of x 0 0] quantum_chars[of ?n] by (simp add: z Let_def)
next
  case (3 x y)
  let ?n = "unat x * 65536 + unat y * 256"
  have z: "quantum_char ?n 3 = CHR ''A''"
    using quantum_char_zero(1)[of "unat x * 1024 + unat y * 4"] by (simp add: algebra_simps)
  show ?case using quantum_bytes[of x y 0] quantum_chars[of ?n] by (simp add: z Let_def)
next
  case (4 x y z rest)
  then show ?case
    using quantum_bytes[of x y z] quantum_chars[of "unat x * 65536 + unat y * 256 + unat z"]
    by (simp add: Let_def)
qed simp

lemma b64_encode_plain: "c \<in> set (b64_encode bs) \<Longrightarrow> (of_char c :: nat) \<noteq> 10 \<and> (of_char c :: nat) \<noteq> 13"
  by (induction bs rule: b64_encode.induct) (auto simp: Let_def)

lemma b64_decode_encode: "b64_decode (b64_encode bs) = Some bs"
proof -
  have "filter (\<lambda>c. (of_char c :: nat) \<noteq> 10 \<and> (of_char c :: nat) \<noteq> 13) (b64_encode bs) = b64_encode bs"
    using b64_encode_plain by (intro filter_True) blast
  then show ?thesis by (simp add: b64_decode_def b64_quanta_encode)
qed

lemma length_b64_encode: "length (b64_encode bs) = (length bs + 2) div 3 * 4"
proof (induction bs rule: b64_encode.induct)
  case (4 x y z rest)
  have "(length (x # y # z # rest) + 2) div 3 = Suc ((length rest + 2) div 3)" by simp
  with 4 show ?case by (simp add: Let_def)
qed (simp_all add: Let_def)

text \<open>
  The canonical form: the texts the strict check accepts are exactly the encodings of 32 raw
  bytes, one per key, all 44 characters long, and each passes the lenient public and private key
  checks too. The lenient check admits other texts of the same key.
\<close>

theorem encoded_key_canonical:
  "(ValidateEncodedKey v = Inr () \<longleftrightarrow> (\<exists>raw. length raw = 32 \<and> v = b64_encode raw))
   \<and> (ValidateEncodedKey v = Inr () \<longrightarrow> length v = 44 \<and> ValidatePublicKey v = Inr () \<and> ValidatePrivateKey v = Inr ())
   \<and> (ValidateEncodedKey v = Inr () \<and> ValidateEncodedKey w = Inr () \<and> b64_decode v = b64_decode w \<longrightarrow> v = w)
   \<and> (\<exists>k k'. k \<noteq> k' \<and> ValidatePublicKey k = Inr () \<and> ValidatePublicKey k' = Inr () \<and> b64_decode k = b64_decode k')"
proof (intro conjI)
  show iff: "ValidateEncodedKey v = Inr () \<longleftrightarrow> (\<exists>raw. length raw = 32 \<and> v = b64_encode raw)" for v
    by (auto simp: ValidateEncodedKey_def b64_decode_encode split: option.splits)
  show "ValidateEncodedKey v = Inr () \<longrightarrow> length v = 44 \<and> ValidatePublicKey v = Inr () \<and> ValidatePrivateKey v = Inr ()"
    unfolding iff by (auto simp: ValidatePublicKey_def ValidatePrivateKey_def b64_decode_encode length_b64_encode)
  show "ValidateEncodedKey v = Inr () \<and> ValidateEncodedKey w = Inr () \<and> b64_decode v = b64_decode w \<longrightarrow> v = w"
    unfolding iff by (auto simp: b64_decode_encode)
  let ?k = "b64_encode (replicate 32 0)"
  have "b64_decode (CHR 0x0A # ?k) = b64_decode ?k" by (simp add: b64_decode_def)
  then show "\<exists>k k'. k \<noteq> k' \<and> ValidatePublicKey k = Inr () \<and> ValidatePublicKey k' = Inr () \<and> b64_decode k = b64_decode k'"
    by (intro exI[of _ ?k] exI[of _ "CHR 0x0A # ?k"]) (simp add: ValidatePublicKey_def b64_decode_encode)
qed

theorem encoded_key_canonical_witness:
  "\<exists>v. ValidateEncodedKey v = Inr () \<and> length v = 44"
proof -
  define v where "v = b64_encode (replicate 32 7)"
  have "ValidateEncodedKey v = Inr ()"
    by (rule encoded_key_canonical[THEN conjunct1, THEN iffD2])
      (rule exI[of _ "replicate 32 7"], rule conjI[OF length_replicate v_def])
  with encoded_key_canonical[of v] show ?thesis by blast
qed

end
