(* ===== verification/Instants.thy ===== *)
theory Instants
  imports Strconv "HOL-Library.List_Lexorder" "HOL-Library.Char_ord" "HOL-Library.Product_Lexorder"
begin

text \<open>
  Instants as the database stores and compares them: RFC 3339 text with nanoseconds, in UTC
  (\<open>time.RFC3339Nano\<close>). The layout writes a second-exact prefix of fixed width, which orders like the
  second it denotes, and then the fraction without trailing zeros, if any, and \<open>Z\<close>. \<open>text_key\<close>
  is the prefix's second paired with the rest of the text; SQLite's comparison of two such texts is
  the lexicographic order of these pairs. (Years 0 to 9999, which is what the layout can write.)
\<close>

definition frac_digits :: "nat \<Rightarrow> string" where
  "frac_digits n = (let ds = show_nat n in replicate (9 - length ds) CHR ''0'' @ ds)"

definition frac_text :: "nat \<Rightarrow> string" where
  "frac_text n = (if n = 0 then ''Z''
     else CHR ''.'' # rev (dropWhile (\<lambda>c. c = CHR ''0'') (rev (frac_digits n))) @ ''Z'')"

definition text_key :: "time \<Rightarrow> int \<times> string" where
  "text_key t = (t div 1000000000, frac_text (nat (t mod 1000000000)))"

lemma text_key_less_sec: "a div 1000000000 < b div 1000000000 \<Longrightarrow> text_key a < text_key b"
  by (simp add: text_key_def less_prod_simp)

text \<open>The order of texts and the order of instants agree up to one second.\<close>

lemma text_key_le_imp: "text_key a \<le> text_key b \<Longrightarrow> a < b + 1000000000"
proof -
  assume "text_key a \<le> text_key b"
  then have "a div 1000000000 \<le> b div 1000000000"
    by (auto simp: text_key_def less_eq_prod_simp)
  then show ?thesis
    using div_mult_mod_eq[of a 1000000000] div_mult_mod_eq[of b 1000000000]
      pos_mod_bound[of 1000000000 a] pos_mod_sign[of 1000000000 b]
    by linarith
qed

lemma text_key_le_if: "a + 1000000000 \<le> b \<Longrightarrow> text_key a < text_key b"
proof -
  assume "a + 1000000000 \<le> b"
  then have "a div 1000000000 < b div 1000000000"
    using zdiv_mono1[of "a + 1000000000" b 1000000000] by simp
  then show ?thesis by (rule text_key_less_sec)
qed

end
