(* ===== verification/Devices.thy ===== *)
theory Devices
  imports Users Keys Instants
begin

text \<open>
  The peer service (\<open>src/internal/device/device.go\<close>): provisioning with the per-user limit and the
  unique address allocation, key replacement, and deletion. Key material arrives encrypted; the
  envelope is opaque. An operation that is one SQL statement outside a transaction is one step.
\<close>

record key_material =
  k_public :: string
  k_private :: string
  k_psk :: "string option"

record device_service =
  ds_now :: time
  ds_recorder :: "recorder option"

section \<open>Address allocation\<close>

definition broadcastOf :: "prefix \<Rightarrow> addr" where
  "broadcastOf p =
     (let raw = masked_addr p;
          hostMask = NOT (push_bit (host_bits p) 1 - 1 :: 32 word);
          base = addr_of (octet 24 raw) (octet 16 raw) (octet 8 raw) (octet 0 raw)
      in base OR NOT hostMask)"

lemma next_addr_unat: "next_addr a = Some b \<longleftrightarrow> b = a + 1 \<and> unat b = Suc (unat a)"
proof (cases "a = - 1")
  case True
  then show ?thesis by (simp add: next_addr_def)
next
  case False
  then have "1 + a \<noteq> 0" by (metis add.commute add_eq_0_iff)
  then have "unat (a + 1) = Suc (unat a)" using unatSuc[of a] by (simp add: add.commute)
  with False show ?thesis by (auto simp: next_addr_def)
qed

lemma addr_measure: "4294967295 - unat a < 4294967296 - unat (a :: addr)"
  using unat_less_32[of a] by simp

text \<open>\<open>for a := gateway; prefix.Contains(a); a = a.Next()\<close>; the invalid address is in no prefix.\<close>

function alloc_scan :: "prefix \<Rightarrow> addr option \<Rightarrow> addr \<Rightarrow> string list \<Rightarrow> addr option \<Rightarrow> string option" where
  "alloc_scan prefix gateway bcast used None = None"
| "alloc_scan prefix gateway bcast used (Some a) =
     (if \<not> contains prefix a then None
      else if Some a = gateway \<or> a = bcast then alloc_scan prefix gateway bcast used (next_addr a)
      else if show_addr a \<notin> set used then Some (show_addr a @ ''/32'')
      else alloc_scan prefix gateway bcast used (next_addr a))"
  by pat_completeness auto

termination
  by (relation "measure (\<lambda>(prefix, gateway, bcast, used, a). case a of None \<Rightarrow> 0
        | Some a \<Rightarrow> Suc (2 ^ 32 - unat a))")
    (auto simp: next_addr_unat addr_measure split: option.splits)

fun alloc_pools :: "string list \<Rightarrow> string list \<Rightarrow> string option result" where
  "alloc_pools used [] = Inr None"
| "alloc_pools used (subnet # pools) =
     (case parse_prefix subnet of
        None \<Rightarrow> Inl (Foreign ''panic: netip.ParsePrefix'')
      | Some prefix \<Rightarrow>
          let gateway = next_addr (masked_addr prefix)
          in case alloc_scan prefix gateway (broadcastOf prefix) used gateway of
               Some ip \<Rightarrow> Inr (Some ip)
             | None \<Rightarrow> alloc_pools used pools)"

definition used_addrs :: "db \<Rightarrow> string \<Rightarrow> string list" where
  "used_addrs s ifcID = concat (map (\<lambda>d. case parse_prefix (d_ipv4 d) of
       None \<Rightarrow> [] | Some p \<Rightarrow> [show_addr (p_addr p)])
     (filter (\<lambda>d. d_iface d = ifcID) (devices s)))"

definition allocateIP :: "db \<Rightarrow> string \<Rightarrow> string list \<Rightarrow> string result" where
  "allocateIP s interfaceID pools =
     ebind (alloc_pools (used_addrs s interfaceID) pools) (\<lambda>r.
       case r of Some ip \<Rightarrow> Inr ip | None \<Rightarrow> E CodeDevicePoolExhausted)"

section \<open>Provisioning\<close>

definition first_enabled_iface :: "db \<Rightarrow> string option" where
  "first_enabled_iface s =
     (case sort_key i_name (filter i_enabled (ifaces s)) of [] \<Rightarrow> None | i # _ \<Rightarrow> Some (i_id i))"

definition choose_iface :: "db \<Rightarrow> user \<Rightarrow> string \<Rightarrow> string result" where
  "choose_iface s u interfaceID =
     (if interfaceID \<noteq> [] then Inr interfaceID
      else case (case u_interface u of Some i \<Rightarrow> Some i | None \<Rightarrow> first_enabled_iface s) of
             None \<Rightarrow> E CodeInterfaceNotFound
           | Some i \<Rightarrow> if i = [] then E CodeInterfaceNotFound else Inr i)"

definition device_count :: "db \<Rightarrow> string \<Rightarrow> nat" where
  "device_count s uid = length (filter (\<lambda>d. d_user d = uid) (devices s))"

text \<open>The row \<open>INSERT INTO devices\<close> stores, and the table's constraints in the order they are checked.\<close>

definition insertDevice :: "device \<Rightarrow> db \<Rightarrow> db result" where
  "insertDevice d s =
     (if \<exists>r \<in> set (devices s). d_id r = d_id d \<or> d_pubkey r = d_pubkey d then E CodeDeviceKeyExists
      else if \<exists>r \<in> set (devices s). d_iface r = d_iface d \<and> d_ipv4 r = d_ipv4 d
      then E CodeDevicePoolExhausted
      else if \<exists>r \<in> set (devices s). d_user r = d_user d \<and> d_name r = d_name d
      then E CodeDeviceKeyExists
      else if d_user d \<notin> u_id ` set (users s) \<or> d_iface d \<notin> i_id ` set (ifaces s)
      then Inl (Foreign ''device: insert'')
      else Inr (s\<lparr>devices := devices s @ [d\<lparr>d_handshake := None, d_endpoint := [], d_rx := 0,
             d_tx := 0, d_last_rx := 0, d_last_tx := 0\<rparr>]\<rparr>))"

definition new_device ::
  "time \<Rightarrow> string \<Rightarrow> string \<Rightarrow> string \<Rightarrow> key_material \<Rightarrow> string \<Rightarrow> string \<Rightarrow> device" where
  "new_device now new_id uid name keys ifcID ip =
     \<lparr>d_id = new_id, d_user = uid, d_iface = ifcID, d_name = name, d_ipv4 = ip,
      d_pubkey = k_public keys, d_privkey = k_private keys, d_psk = k_psk keys, d_enabled = True,
      d_handshake = None, d_endpoint = [], d_rx = 0, d_tx = 0, d_last_rx = 0, d_last_tx = 0,
      d_created = now, d_updated = now\<rparr>"

definition device_event :: "device \<Rightarrow> payload" where
  "device_event d = [(''device_id'', JStr (d_id d)), (''user_id'', JStr (d_user d)),
     (''name'', JStr (d_name d)), (''ipv4'', JStr (d_ipv4 d))]"

definition Device_CreateTx ::
  "device_service \<Rightarrow> db \<Rightarrow> string \<Rightarrow> string \<Rightarrow> string \<Rightarrow> key_material \<Rightarrow> string \<Rightarrow> (device \<times> db) result" where
  "Device_CreateTx svc s new_id uid name0 keys interfaceID =
     (let name = trim_space name0 in
      if name = [] \<or> 64 < length name then E CodeInvalidRequest
      else if ValidatePublicKey (k_public keys) \<noteq> Inr () then E CodeInvalidRequest
      else if k_private keys = [] then E CodeInvalidRequest
      else case find (\<lambda>u. u_id u = uid \<and> u_deleted u = None) (users s) of
        None \<Rightarrow> E CodeUserNotFound
      | Some u \<Rightarrow>
          if \<not> u_enabled u then E CodeForbidden
          else if \<not> PeerWanted (u_status u) then E CodeForbidden
          else ebind (choose_iface s u interfaceID) (\<lambda>ifcID.
            case find (\<lambda>i. i_id i = ifcID \<and> i_enabled i) (ifaces s) of
              None \<Rightarrow> E CodeInterfaceNotFound
            | Some i \<Rightarrow>
                if \<exists>l \<in> set_option (u_device_limit u). l \<le> int (device_count s uid)
                then E CodeDeviceLimitReached
                else if k_public keys \<in> d_pubkey ` set (devices s) then E CodeDeviceKeyExists
                else ebind (Decode (i_subnet i) (i_extras i)) (\<lambda>pools.
                  ebind (allocateIP s ifcID pools) (\<lambda>ip.
                    if \<exists>r \<in> set (devices s). d_user r = uid \<and> d_name r = name then E CodeInvalidRequest
                    else
                      let d = new_device (ds_now svc) new_id uid name keys ifcID ip
                      in ebind (insertDevice d s) (\<lambda>s1.
                           ebind (record_opt (ds_recorder svc) s1 ''device.created'' (device_event d)) (\<lambda>s2.
                             Inr (d, s2)))))))"

definition Device_Create ::
  "device_service \<Rightarrow> db \<Rightarrow> string \<Rightarrow> string \<Rightarrow> string \<Rightarrow> key_material \<Rightarrow> string \<Rightarrow> device result \<times> db" where
  "Device_Create svc s new_id uid name keys interfaceID =
     WithTx s (\<lambda>s. Device_CreateTx svc s new_id uid name keys interfaceID)"

section \<open>Reading\<close>

text \<open>The counters are scanned into unsigned integers: a negative column value is a scan error.\<close>

definition scanDevice :: "device \<Rightarrow> device result" where
  "scanDevice d = (if d_rx d < 0 \<or> d_tx d < 0 \<or> d_last_rx d < 0 \<or> d_last_tx d < 0
     then Inl (Foreign ''device: scan'') else Inr d)"

definition Device_Get :: "db \<Rightarrow> string \<Rightarrow> device result" where
  "Device_Get s did = (case find_row d_id did (devices s) of
     None \<Rightarrow> E CodeDeviceNotFound | Some d \<Rightarrow> scanDevice d)"

text \<open>\<open>ORDER BY created_at DESC, id DESC\<close>, on the stored text.\<close>

definition newest_first :: "device list \<Rightarrow> device list" where
  "newest_first ds = rev (sort_key (\<lambda>d. (text_key (d_created d), d_id d)) ds)"

fun scan_all :: "device list \<Rightarrow> device list result" where
  "scan_all [] = Inr []"
| "scan_all (d # ds) = ebind (scanDevice d) (\<lambda>x. ebind (scan_all ds) (\<lambda>xs. Inr (x # xs)))"

definition ListForUser :: "db \<Rightarrow> string \<Rightarrow> device list result" where
  "ListForUser s uid = scan_all (newest_first (filter (\<lambda>d. d_user d = uid) (devices s)))"

definition ListForUsers :: "db \<Rightarrow> string list \<Rightarrow> (string \<Rightarrow> device list) result" where
  "ListForUsers s uids =
     ebind (scan_all (newest_first (filter (\<lambda>d. d_user d \<in> set uids) (devices s)))) (\<lambda>ds.
       Inr (\<lambda>uid. filter (\<lambda>d. d_user d = uid) ds))"

definition CountForUser :: "db \<Rightarrow> string \<Rightarrow> nat" where
  "CountForUser s uid = length (filter (\<lambda>d. d_user d = uid) (devices s))"

definition CountForUsers :: "db \<Rightarrow> string list \<Rightarrow> string \<Rightarrow> nat" where
  "CountForUsers s uids uid =
     length (filter (\<lambda>d. d_user d = uid) (filter (\<lambda>d. d_user d \<in> set uids) (devices s)))"

definition CountForIfaces :: "db \<Rightarrow> string list \<Rightarrow> string \<Rightarrow> nat" where
  "CountForIfaces s ids ifcID =
     length (filter (\<lambda>d. d_iface d = ifcID) (filter (\<lambda>d. d_iface d \<in> set ids) (devices s)))"

section \<open>Changing a device\<close>

definition Device_SetEnabled :: "device_service \<Rightarrow> db \<Rightarrow> string \<Rightarrow> bool \<Rightarrow> unit result \<times> db" where
  "Device_SetEnabled svc s did enabled =
     (if did \<notin> d_id ` set (devices s) then (E CodeDeviceNotFound, s)
      else (Inr (), s\<lparr>devices := update_rows (\<lambda>d. d_id d = did)
              (\<lambda>d. d\<lparr>d_enabled := enabled, d_updated := ds_now svc\<rparr>) (devices s)\<rparr>))"

text \<open>
  \<open>Rename\<close> is three statements; the update's unique index is the backstop for a name taken between
  the check and the write, and a device deleted meanwhile is silently not updated.
\<close>

definition rename_write :: "device_service \<Rightarrow> db \<Rightarrow> device \<Rightarrow> string \<Rightarrow> device result \<times> db" where
  "rename_write svc s d name =
     (if d_id d \<in> d_id ` set (devices s) \<and>
         (\<exists>r \<in> set (devices s). d_user r = d_user d \<and> d_name r = name \<and> d_id r \<noteq> d_id d)
      then (Inl (Foreign ''device: rename''), s)
      else (Inr (d\<lparr>d_name := name, d_updated := ds_now svc\<rparr>),
            s\<lparr>devices := update_rows (\<lambda>r. d_id r = d_id d)
                (\<lambda>r. r\<lparr>d_name := name, d_updated := ds_now svc\<rparr>) (devices s)\<rparr>))"

definition Rename :: "device_service \<Rightarrow> db \<Rightarrow> string \<Rightarrow> string \<Rightarrow> device result \<times> db" where
  "Rename svc s did name0 =
     (let name = trim_space name0 in
      if name = [] \<or> 64 < length name then (E CodeInvalidRequest, s)
      else case Device_Get s did of
             Inl e \<Rightarrow> (Inl e, s)
           | Inr d \<Rightarrow>
               if \<exists>r \<in> set (devices s). d_user r = d_user d \<and> d_name r = name \<and> d_id r \<noteq> did
               then (E CodeInvalidRequest, s)
               else rename_write svc s d name)"

section \<open>Key replacement\<close>

definition new_keys :: "time \<Rightarrow> key_material \<Rightarrow> device \<Rightarrow> device" where
  "new_keys now keys d = d\<lparr>d_pubkey := k_public keys, d_privkey := k_private keys,
     d_psk := k_psk keys, d_handshake := None, d_endpoint := [], d_last_rx := 0, d_last_tx := 0,
     d_updated := now\<rparr>"

definition retire_one :: "device \<Rightarrow> db \<Rightarrow> db" where
  "retire_one d s = s\<lparr>retired := retire_keys [(d_iface d, d_pubkey d)] (retired s)\<rparr>"

text \<open>\<open>UPDATE devices SET public_key ..\<close>: the unique index refuses a key of another device.\<close>

definition replace_keys :: "time \<Rightarrow> key_material \<Rightarrow> string \<Rightarrow> db \<Rightarrow> db result" where
  "replace_keys now keys did s =
     (if did \<in> d_id ` set (devices s)
         \<and> (\<exists>r \<in> set (devices s). d_id r \<noteq> did \<and> d_pubkey r = k_public keys) then E CodeDeviceKeyExists
      else Inr (s\<lparr>devices := update_rows (\<lambda>d. d_id d = did) (new_keys now keys) (devices s)\<rparr>))"

definition Regenerate :: "device_service \<Rightarrow> db \<Rightarrow> string \<Rightarrow> key_material \<Rightarrow> unit result \<times> db" where
  "Regenerate svc s did keys =
     (if ValidatePublicKey (k_public keys) \<noteq> Inr () then (E CodeInvalidRequest, s)
      else if k_private keys = [] then (E CodeInvalidRequest, s)
      else WithTx s (\<lambda>s.
        case find_row d_id did (devices s) of
          None \<Rightarrow> E CodeDeviceNotFound
        | Some d \<Rightarrow>
            if d_pubkey d = k_public keys then E CodeInvalidRequest
            else ebind (replace_keys (ds_now svc) keys did (retire_one d s)) (\<lambda>s1. Inr ((), s1))))"

type_synonym rotation = "string \<times> key_material"

fun check_rotations :: "(string \<times> key_material) list \<Rightarrow> rotation list \<Rightarrow> (string \<times> key_material) list result" where
  "check_rotations wanted [] = Inr wanted"
| "check_rotations wanted ((did, keys) # rest) =
     (if did = [] then E CodeInvalidRequest
      else if did \<in> fst ` set wanted then E CodeInvalidRequest
      else if ValidatePublicKey (k_public keys) \<noteq> Inr () then E CodeInvalidRequest
      else if k_private keys = [] then E CodeInvalidRequest
      else check_rotations (wanted @ [(did, keys)]) rest)"

definition rotate_one ::
  "time \<Rightarrow> (string \<times> key_material) list \<Rightarrow> device \<Rightarrow> db \<Rightarrow> db result" where
  "rotate_one now wanted d s =
     (case map_of wanted (d_id d) of
        None \<Rightarrow> E CodeInvalidRequest
      | Some keys \<Rightarrow> replace_keys now keys (d_id d) (retire_one d s))"

definition ReplaceUserCredentialsTx ::
  "device_service \<Rightarrow> db \<Rightarrow> string \<Rightarrow> rotation list \<Rightarrow> (unit \<times> db) result" where
  "ReplaceUserCredentialsTx svc s uid rotations =
     ebind (check_rotations [] rotations) (\<lambda>wanted.
       let stored = filter (\<lambda>d. d_user d = uid) (devices s)
       in if length stored \<noteq> length wanted then E CodeInvalidRequest
          else if \<exists>d \<in> set stored. case map_of wanted (d_id d) of
                    None \<Rightarrow> True | Some keys \<Rightarrow> k_public keys = d_pubkey d then E CodeInvalidRequest
          else ebind (efold (rotate_one (ds_now svc) wanted) stored s) (\<lambda>s1. Inr ((), s1)))"

section \<open>Deletion\<close>

definition Device_Delete :: "device_service \<Rightarrow> db \<Rightarrow> string \<Rightarrow> unit result \<times> db" where
  "Device_Delete svc s did = WithTx s (\<lambda>s.
     case find_row d_id did (devices s) of
       None \<Rightarrow> E CodeDeviceNotFound
     | Some d \<Rightarrow>
         let s1 = retire_one d s;
             s2 = s1\<lparr>devices := delete_rows (\<lambda>r. d_id r = did) (devices s1)\<rparr>
         in ebind (record_opt (ds_recorder svc) s2 ''device.deleted'' (device_event d)) (\<lambda>s3. Inr ((), s3)))"

text \<open>Decryption of the stored envelopes; \<open>decrypt\<close> is the key ring's.\<close>

definition PrivateKey :: "(string \<Rightarrow> string result) \<Rightarrow> device \<Rightarrow> string result" where
  "PrivateKey decrypt d = decrypt (d_privkey d)"

definition PresharedKey :: "(string \<Rightarrow> string result) \<Rightarrow> device \<Rightarrow> string result" where
  "PresharedKey decrypt d = (case d_psk d of None \<Rightarrow> Inr [] | Some c \<Rightarrow> decrypt c)"

section \<open>The allocator\<close>

lemma broadcastOf_Last: "broadcastOf p = Last p"
  by (simp add: broadcastOf_def Last_def addr_of_octets Let_def mask_eq_exp_minus_1 push_bit_of_1)

text \<open>What a scan starting at \<open>a\<close> has established when it stops.\<close>

definition free_at :: "addr option \<Rightarrow> addr \<Rightarrow> string list \<Rightarrow> addr \<Rightarrow> bool" where
  "free_at gateway bcast used b \<longleftrightarrow> Some b \<noteq> gateway \<and> b \<noteq> bcast \<and> show_addr b \<notin> set used"

lemma next_addr_None: "next_addr a = None \<longleftrightarrow> a = - 1"
  by (simp add: next_addr_def)

lemma above_next: "next_addr a = Some b \<Longrightarrow> a \<le> c \<longleftrightarrow> c = a \<or> b \<le> c"
  by (auto simp: next_addr_unat word_le_nat_alt word_unat_eq_iff)

lemma alloc_scan_Some:
  "alloc_scan p gw bc used (Some a) = Some ip \<Longrightarrow>
     \<exists>b. a \<le> b \<and> contains p b \<and> free_at gw bc used b \<and> ip = show_addr b @ ''/32''
       \<and> (\<forall>c. a \<le> c \<and> c < b \<longrightarrow> \<not> free_at gw bc used c)"
proof (induction p gw bc used "Some a" arbitrary: a rule: alloc_scan.induct)
  case (2 p gw bc used a)
  show ?case
  proof (cases "free_at gw bc used a")
    case True
    with "2.prems" show ?thesis by (auto simp: free_at_def split: if_splits)
  next
    case False
    then have rec: "alloc_scan p gw bc used (next_addr a) = Some ip"
      using "2.prems" by (auto simp: free_at_def split: if_splits)
    then obtain b where b: "next_addr a = Some b" by (cases "next_addr a") auto
    have "\<exists>d. b \<le> d \<and> contains p d \<and> free_at gw bc used d \<and> ip = show_addr d @ ''/32''
        \<and> (\<forall>c. b \<le> c \<and> c < d \<longrightarrow> \<not> free_at gw bc used c)"
      using "2.hyps" "2.prems" b rec False by (auto simp: free_at_def split: if_splits)
    then obtain d where "b \<le> d" "contains p d" "free_at gw bc used d" "ip = show_addr d @ ''/32''"
        "\<forall>c. b \<le> c \<and> c < d \<longrightarrow> \<not> free_at gw bc used c" by blast
    then show ?thesis using False by (intro exI[of _ d]) (auto simp: above_next[OF b])
  qed
qed

lemma alloc_scan_None:
  "alloc_scan p gw bc used (Some a) = None \<Longrightarrow> masked_addr p \<le> a \<Longrightarrow>
     \<forall>c. a \<le> c \<and> contains p c \<longrightarrow> \<not> free_at gw bc used c"
proof (induction p gw bc used "Some a" arbitrary: a rule: alloc_scan.induct)
  case (2 p gw bc used a)
  show ?case
  proof (cases "contains p a")
    case False
    with "2.prems"(2) show ?thesis by (auto simp: contains_interval)
  next
    case True
    then have busy: "\<not> free_at gw bc used a" and rec: "alloc_scan p gw bc used (next_addr a) = None"
      using "2.prems"(1) by (auto simp: free_at_def split: if_splits)
    show ?thesis
    proof (cases "next_addr a")
      case None
      then have "c = a" if "a \<le> c" for c using that by (simp add: next_addr_None word_order.extremum_unique)
      with busy show ?thesis by blast
    next
      case (Some b)
      then have "masked_addr p \<le> b" using "2.prems"(2) by (auto simp: next_addr_unat word_le_nat_alt)
      then have "\<forall>c. b \<le> c \<and> contains p c \<longrightarrow> \<not> free_at gw bc used c"
        using "2.hyps" "2.prems" Some rec True busy by (auto simp: free_at_def split: if_splits)
      then show ?thesis using busy by (auto simp: above_next[OF Some])
    qed
  qed
qed

lemma free_at_Assignable:
  assumes "p_bits p \<le> 29" "masked_addr p + 1 \<le> b"
  shows "contains p b \<and> free_at (next_addr (masked_addr p)) (broadcastOf p) used b \<longleftrightarrow>
    Assignable p b \<and> show_addr b \<notin> set used"
  using assms next_masked[OF assms(1)]
  by (auto simp: free_at_def broadcastOf_Last Assignable_def word_le_nat_alt)

text \<open>One pool: the scan returns the lowest free assignable address, or there is none.\<close>

definition pool_scan :: "prefix \<Rightarrow> string list \<Rightarrow> string option" where
  "pool_scan p used = (let g = next_addr (masked_addr p) in alloc_scan p g (broadcastOf p) used g)"

lemma pool_scan_Some:
  assumes "p_bits p \<le> 29" "pool_scan p used = Some ip"
  shows "\<exists>b. Assignable p b \<and> show_addr b \<notin> set used \<and> ip = show_addr b @ ''/32''
     \<and> (\<forall>c. Assignable p c \<and> c < b \<longrightarrow> show_addr c \<in> set used)"
proof -
  let ?g = "masked_addr p + 1" and ?gw = "next_addr (masked_addr p)"
  have gw: "?gw = Some ?g" by (rule next_masked(1)[OF assms(1)])
  from alloc_scan_Some[of p ?gw "broadcastOf p" used ?g ip] assms(2) gw
  obtain b where b: "?g \<le> b" "contains p b" "free_at ?gw (broadcastOf p) used b" "ip = show_addr b @ ''/32''"
    "\<forall>c. ?g \<le> c \<and> c < b \<longrightarrow> \<not> free_at ?gw (broadcastOf p) used c"
    by (auto simp: pool_scan_def Let_def)
  have "show_addr c \<in> set used" if "Assignable p c" "c < b" for c
  proof -
    have "?g \<le> c" using that(1) Assignable_iff[OF assms(1), of c] by (blast intro: less_imp_le)
    with b(5) that free_at_Assignable[OF assms(1), of c used] show ?thesis by blast
  qed
  with b free_at_Assignable[OF assms(1), of b used] show ?thesis by blast
qed

lemma pool_scan_None:
  assumes "p_bits p \<le> 29" "pool_scan p used = None" "Assignable p c"
  shows "show_addr c \<in> set used"
proof -
  let ?g = "masked_addr p + 1"
  have gw: "next_addr (masked_addr p) = Some ?g" by (rule next_masked(1)[OF assms(1)])
  have g: "masked_addr p \<le> ?g" using next_masked(2)[OF assms(1)] by (simp add: word_le_nat_alt)
  have "?g \<le> c" using assms(3) Assignable_iff[OF assms(1), of c] by (blast intro: less_imp_le)
  moreover have "contains p c" using assms(3) by (simp add: Assignable_def)
  moreover have "\<forall>c. ?g \<le> c \<and> contains p c \<longrightarrow> \<not> free_at (next_addr (masked_addr p)) (broadcastOf p) used c"
    using assms(2) gw by (intro alloc_scan_None g) (simp add: pool_scan_def Let_def)
  ultimately show ?thesis
    using assms(3) free_at_Assignable[OF assms(1), of c used] by blast
qed

text \<open>The first free address: lowest in the first pool that has one.\<close>

definition first_free :: "prefix list \<Rightarrow> string list \<Rightarrow> nat \<Rightarrow> addr \<Rightarrow> bool" where
  "first_free ps used i b \<longleftrightarrow> i < length ps \<and> Assignable (ps ! i) b \<and> show_addr b \<notin> set used
     \<and> (\<forall>c. Assignable (ps ! i) c \<and> c < b \<longrightarrow> show_addr c \<in> set used)
     \<and> (\<forall>j < i. \<forall>c. Assignable (ps ! j) c \<longrightarrow> show_addr c \<in> set used)"

lemma first_free_Cons:
  "first_free (p # ps) used 0 b \<longleftrightarrow> Assignable p b \<and> show_addr b \<notin> set used
     \<and> (\<forall>c. Assignable p c \<and> c < b \<longrightarrow> show_addr c \<in> set used)"
  "first_free (p # ps) used (Suc i) b \<longleftrightarrow>
     first_free ps used i b \<and> (\<forall>c. Assignable p c \<longrightarrow> show_addr c \<in> set used)"
  by (auto simp: first_free_def less_Suc_eq_0_disj)

lemma alloc_pools_ok:
  assumes "map Parse pools = map Inr ps"
  shows "(\<exists>i b. alloc_pools used pools = Inr (Some (show_addr b @ ''/32'')) \<and> first_free ps used i b)
       \<or> (alloc_pools used pools = Inr None \<and> (\<forall>p \<in> set ps. \<forall>c. Assignable p c \<longrightarrow> show_addr c \<in> set used))"
  using assms
proof (induction pools arbitrary: ps)
  case Nil
  then show ?case by simp
next
  case (Cons subnet pools)
  then obtain p qs where ps: "ps = p # qs" "Parse subnet = Inr p" "map Parse pools = map Inr qs"
    by (cases ps) auto
  note P = Parse_ok[OF ps(2)]
  have step: "alloc_pools used (subnet # pools) = (case pool_scan p used of
      Some ip \<Rightarrow> Inr (Some ip) | None \<Rightarrow> alloc_pools used pools)"
    using P(4) by (simp add: pool_scan_def Let_def)
  show ?case
  proof (cases "pool_scan p used")
    case (Some ip)
    from pool_scan_Some[OF P(1) Some] obtain b where "first_free ps used 0 b" "ip = show_addr b @ ''/32''"
      by (auto simp: ps(1) first_free_Cons)
    with step Some show ?thesis by auto
  next
    case None
    note busy = pool_scan_None[OF P(1) None]
    from Cons.IH[OF ps(3)] show ?thesis
    proof (elim disjE exE conjE)
      fix i b
      assume "alloc_pools used pools = Inr (Some (show_addr b @ ''/32''))" "first_free qs used i b"
      moreover have "first_free ps used (Suc i) b"
        using busy \<open>first_free qs used i b\<close> by (simp add: ps(1) first_free_Cons)
      ultimately show ?thesis using step None by auto
    qed (use step None busy in \<open>auto simp: ps(1)\<close>)
  qed
qed

lemma used_addrs_iff:
  "x \<in> set (used_addrs s ifc) \<longleftrightarrow>
     (\<exists>d p. d \<in> set (devices s) \<and> d_iface d = ifc \<and> parse_prefix (d_ipv4 d) = Some p \<and> x = show_addr (p_addr p))"
proof
  assume "x \<in> set (used_addrs s ifc)"
  then obtain d where "d \<in> set (devices s)" "d_iface d = ifc"
    "x \<in> set (case parse_prefix (d_ipv4 d) of None \<Rightarrow> [] | Some p \<Rightarrow> [show_addr (p_addr p)])"
    by (auto simp: used_addrs_def)
  then show "\<exists>d p. d \<in> set (devices s) \<and> d_iface d = ifc \<and> parse_prefix (d_ipv4 d) = Some p
      \<and> x = show_addr (p_addr p)"
    by (cases "parse_prefix (d_ipv4 d)") auto
qed (auto simp: used_addrs_def intro!: bexI)

text \<open>
  C32. Address allocation. For a stored pool list that decodes, \<open>allocateIP\<close> returns the first free
  host address: lowest in the first pool that has one, never the network, gateway or broadcast
  address of its pool, always private, and held by no device of the interface; and it reports
  exhaustion exactly when every assignable address of every pool is held by some device.
\<close>

theorem allocateIP_correct:
  assumes "Decode subnet extras = Inr pools"
  shows "\<exists>ps. map Parse pools = map Inr ps
    \<and> ((\<exists>i b. allocateIP s ifc pools = Inr (show_addr b @ ''/32'') \<and> first_free ps (used_addrs s ifc) i b
          \<and> is_private b
          \<and> (\<forall>d \<in> set (devices s). \<forall>p. d_iface d = ifc \<longrightarrow> parse_prefix (d_ipv4 d) = Some p \<longrightarrow> p_addr p \<noteq> b))
       \<or> (allocateIP s ifc pools = E CodeDevicePoolExhausted
          \<and> (\<forall>p \<in> set ps. \<forall>b. Assignable p b \<longrightarrow>
               (\<exists>d q. d \<in> set (devices s) \<and> d_iface d = ifc \<and> parse_prefix (d_ipv4 d) = Some q \<and> p_addr q = b))))"
proof -
  from Validate_ok[OF Decode_ok(1)[OF assms]] obtain ps where ps: "map Parse pools = map Inr ps" .
  show ?thesis
    using alloc_pools_ok[OF ps, of "used_addrs s ifc"]
  proof (elim disjE exE conjE)
    fix i b
    assume r: "alloc_pools (used_addrs s ifc) pools = Inr (Some (show_addr b @ ''/32''))"
      and f: "first_free ps (used_addrs s ifc) i b"
    then have i: "i < length pools" "Parse (pools ! i) = Inr (ps ! i)"
      using ps by (metis first_free_def length_map nth_map)+
    have "is_private b"
      using Parse_ok(3)[OF i(2)] f by (auto simp: first_free_def Assignable_def)
    moreover have "\<forall>d \<in> set (devices s). \<forall>p. d_iface d = ifc \<longrightarrow> parse_prefix (d_ipv4 d) = Some p \<longrightarrow> p_addr p \<noteq> b"
      using f by (auto simp: first_free_def used_addrs_iff)
    ultimately show ?thesis using r f ps by (auto simp: allocateIP_def)
  next
    assume "alloc_pools (used_addrs s ifc) pools = Inr None"
      and "\<forall>p \<in> set ps. \<forall>c. Assignable p c \<longrightarrow> show_addr c \<in> set (used_addrs s ifc)"
    then show ?thesis using ps
      by (intro exI[of _ ps] conjI disjI2) (fastforce simp: allocateIP_def used_addrs_iff show_addr_inj)+
  qed
qed

section \<open>Well-formed devices\<close>

lemma allocateIP_Inr:
  assumes "Decode subnet extras = Inr pools" "allocateIP s ifc pools = Inr ip"
  obtains ps k b where "map Parse pools = map Inr ps" "first_free ps (used_addrs s ifc) k b"
    "ip = show_addr b @ ''/32''"
proof -
  from Validate_ok[OF Decode_ok(1)[OF assms(1)]] obtain ps where "map Parse pools = map Inr ps" .
  from alloc_pools_ok[OF this, of "used_addrs s ifc"] this assms(2) that show ?thesis
    by (auto simp: allocateIP_def)
qed

definition device_ok :: "db \<Rightarrow> device \<Rightarrow> bool" where
  "device_ok s d \<longleftrightarrow> ValidatePublicKey (d_pubkey d) = Inr () \<and> d_privkey d \<noteq> []
     \<and> d_user d \<in> u_id ` set (users s) \<and> d_iface d \<in> i_id ` set (ifaces s)
     \<and> (\<exists>b. d_ipv4 d = show_addr b @ ''/32'')"

definition devices_inv :: "db \<Rightarrow> bool" where
  "devices_inv s \<longleftrightarrow> unique_on d_id (devices s) \<and> unique_on d_pubkey (devices s)
     \<and> unique_on (\<lambda>d. (d_iface d, d_ipv4 d)) (devices s)
     \<and> unique_on (\<lambda>d. (d_user d, d_name d)) (devices s)
     \<and> (\<forall>d \<in> set (devices s). device_ok s d)"

lemma device_ok_cong:
  "u_id ` set (users t) = u_id ` set (users s) \<Longrightarrow> ifaces t = ifaces s \<Longrightarrow> device_ok t d = device_ok s d"
  by (simp add: device_ok_def)

lemma devices_inv_cong:
  assumes "u_id ` set (users t) = u_id ` set (users s)" "ifaces t = ifaces s" "devices t = devices s"
  shows "devices_inv t \<longleftrightarrow> devices_inv s"
  using assms device_ok_cong[OF assms(1,2)] by (simp add: devices_inv_def)

lemma same_domain_devices_inv: "same_domain s t \<Longrightarrow> devices_inv t \<longleftrightarrow> devices_inv s"
  by (rule devices_inv_cong) (simp_all add: same_domain_def)

lemma find_eq_Some: "find P xs = Some x \<Longrightarrow> x \<in> set xs \<and> P x"
  by (auto simp: find_Some_iff)

lemma insertDevice_ok:
  assumes "insertDevice d s = Inr t"
  shows "\<exists>r. t = s\<lparr>devices := devices s @ [r]\<rparr> \<and> r = d\<lparr>d_handshake := None, d_endpoint := [], d_rx := 0,
      d_tx := 0, d_last_rx := 0, d_last_tx := 0\<rparr>"
    "d_id d \<notin> d_id ` set (devices s)" "d_pubkey d \<notin> d_pubkey ` set (devices s)"
    "(d_iface d, d_ipv4 d) \<notin> (\<lambda>d. (d_iface d, d_ipv4 d)) ` set (devices s)"
    "(d_user d, d_name d) \<notin> (\<lambda>d. (d_user d, d_name d)) ` set (devices s)"
    "d_user d \<in> u_id ` set (users s)" "d_iface d \<in> i_id ` set (ifaces s)"
  using assms by (auto simp: insertDevice_def tx_simps)

lemma insert_devices_inv:
  assumes "devices_inv s" "insertDevice d s = Inr t" "ValidatePublicKey (d_pubkey d) = Inr ()"
    "d_privkey d \<noteq> []" "d_ipv4 d = show_addr b @ ''/32''"
  shows "devices_inv t"
proof -
  note i = insertDevice_ok[OF assms(2)]
  from i(1) obtain r where t: "t = s\<lparr>devices := devices s @ [r]\<rparr>"
    and r: "d_id r = d_id d" "d_pubkey r = d_pubkey d" "d_iface r = d_iface d" "d_ipv4 r = d_ipv4 d"
      "d_user r = d_user d" "d_name r = d_name d" "d_privkey r = d_privkey d" by auto
  have ok: "device_ok s r" using assms(3-5) r i(6,7) by (auto simp: device_ok_def)
  have "device_ok t = device_ok s" by (rule ext) (simp add: t device_ok_def)
  with assms(1) ok i(2-5) r show ?thesis
    by (simp add: devices_inv_def t unique_on_append_one)
qed

interpretation keys_id: row_update d_id "new_keys now keys"
  by unfold_locales (simp add: new_keys_def)

interpretation keys_addr: row_update "\<lambda>d. (d_iface d, d_ipv4 d)" "new_keys now keys"
  by unfold_locales (simp add: new_keys_def)

interpretation keys_name: row_update "\<lambda>d. (d_user d, d_name d)" "new_keys now keys"
  by unfold_locales (simp add: new_keys_def)

lemma new_keys_pubkey [simp]: "d_pubkey (new_keys now keys d) = k_public keys"
  by (simp add: new_keys_def)

lemma unique_key_update:
  assumes "unique_on d_pubkey ds" "unique_on d_id ds"
    "\<forall>r \<in> set ds. d_id r \<noteq> did \<longrightarrow> d_pubkey r \<noteq> k_public keys"
  shows "unique_on d_pubkey (update_rows (\<lambda>d. d_id d = did) (new_keys now keys) ds)"
  using assms
proof (induction ds)
  case (Cons d ds)
  then have IH: "unique_on d_pubkey (update_rows (\<lambda>d. d_id d = did) (new_keys now keys) ds)"
    by (simp add: unique_on_def)
  show ?case
  proof (cases "d_id d = did")
    case True
    then have "did \<notin> d_id ` set ds" using Cons.prems(2) by (auto simp: unique_on_def)
    then have "\<forall>r \<in> set ds. d_id r \<noteq> did" by blast
    then have "update_rows (\<lambda>d. d_id d = did) (new_keys now keys) ds = ds"
      by (simp add: update_rows_def map_idI)
    moreover have "k_public keys \<notin> d_pubkey ` set ds"
      using Cons.prems(3) \<open>\<forall>r \<in> set ds. d_id r \<noteq> did\<close> by auto
    ultimately show ?thesis using True Cons.prems(1) by (simp add: update_rows_Cons unique_on_def)
  next
    case False
    with Cons.prems have "d_pubkey d \<notin> d_pubkey ` set (update_rows (\<lambda>d. d_id d = did) (new_keys now keys) ds)"
      by (auto simp: set_update_rows unique_on_def new_keys_def split: if_splits)
    with False IH show ?thesis by (simp add: update_rows_Cons unique_on_def)
  qed
qed (simp add: unique_on_def update_rows_def)

lemma replace_keys_ok:
  "replace_keys now keys did s = Inr t \<Longrightarrow>
     t = s\<lparr>devices := update_rows (\<lambda>d. d_id d = did) (new_keys now keys) (devices s)\<rparr>
     \<and> (did \<in> d_id ` set (devices s) \<longrightarrow> (\<forall>r \<in> set (devices s). d_id r \<noteq> did \<longrightarrow> d_pubkey r \<noteq> k_public keys))"
  by (auto simp: replace_keys_def tx_simps)

lemma replace_keys_inv:
  assumes "devices_inv s" "replace_keys now keys did s = Inr t" "ValidatePublicKey (k_public keys) = Inr ()"
    "k_private keys \<noteq> []"
  shows "devices_inv t"
proof (cases "did \<in> d_id ` set (devices s)")
  case False
  then have "update_rows (\<lambda>d. d_id d = did) (new_keys now keys) (devices s) = devices s"
    by (auto simp: update_rows_def intro!: map_idI)
  with assms(1) replace_keys_ok[OF assms(2)] show ?thesis by simp
next
  case True
  note r = replace_keys_ok[OF assms(2)]
  have t: "t = s\<lparr>devices := update_rows (\<lambda>d. d_id d = did) (new_keys now keys) (devices s)\<rparr>" using r by blast
  have "unique_on d_pubkey (devices t)"
    using assms(1) r True by (auto simp: t devices_inv_def intro!: unique_key_update)
  moreover have "device_ok t d" if "d \<in> set (devices t)" for d
  proof -
    from that obtain d0 where d0: "d0 \<in> set (devices s)" "d = d0 \<or> d = new_keys now keys d0"
      by (auto simp: t set_update_rows)
    then have "device_ok s d0" using assms(1) by (simp add: devices_inv_def)
    with d0(2) assms(3,4) show ?thesis by (auto simp: t device_ok_def new_keys_def)
  qed
  ultimately show ?thesis
    using assms(1) by (simp add: devices_inv_def t keys_id.unique_update keys_addr.unique_update keys_name.unique_update)
qed

lemma retire_one_simps [simp]:
  "devices (retire_one d s) = devices s" "users (retire_one d s) = users s" "ifaces (retire_one d s) = ifaces s"
  "set (retired (retire_one d s)) = insert (d_iface d, d_pubkey d) (set (retired s))"
  "devices_inv (retire_one d s) = devices_inv s"
  by (auto simp: retire_one_def devices_inv_def device_ok_def)

lemma delete_devices_inv:
  "devices_inv s \<Longrightarrow> devices t = delete_rows P (devices s) \<Longrightarrow> ifaces t = ifaces s \<Longrightarrow>
     (\<forall>d \<in> set (devices t). d_user d \<in> u_id ` set (users t)) \<Longrightarrow> devices_inv t"
  by (auto simp: devices_inv_def device_ok_def unique_on_delete)

section \<open>What the service guarantees over any well-behaved recorder\<close>

locale device_svc = event_recorder "ds_recorder svc" for svc :: device_service
begin

lemma CreateTx_ok:
  assumes "Device_CreateTx svc s new_id uid name keys ifc = Inr (d, s')"
  obtains u i pools ip t where "u \<in> set (users s)" "u_id u = uid" "u_deleted u = None" "u_enabled u"
    "PeerWanted (u_status u)" "i \<in> set (ifaces s)" "i_enabled i"
    "\<forall>l. u_device_limit u = Some l \<longrightarrow> int (device_count s uid) < l"
    "Decode (i_subnet i) (i_extras i) = Inr pools" "allocateIP s (i_id i) pools = Inr ip"
    "d = new_device (ds_now svc) new_id uid (trim_space name) keys (i_id i) ip"
    "insertDevice d s = Inr t" "same_domain t s'"
    "ValidatePublicKey (k_public keys) = Inr ()" "k_private keys \<noteq> []"
proof -
  from assms obtain u ifcID i pools ip t where
    u: "find (\<lambda>u. u_id u = uid \<and> u_deleted u = None) (users s) = Some u"
    and ok: "ValidatePublicKey (k_public keys) = Inr ()" "k_private keys \<noteq> []"
      "u_enabled u" "PeerWanted (u_status u)" "\<forall>l \<in> set_option (u_device_limit u). \<not> l \<le> int (device_count s uid)"
    and i: "find (\<lambda>i. i_id i = ifcID \<and> i_enabled i) (ifaces s) = Some i"
    and p: "Decode (i_subnet i) (i_extras i) = Inr pools" "allocateIP s ifcID pools = Inr ip"
    and d: "d = new_device (ds_now svc) new_id uid (trim_space name) keys ifcID ip"
      "insertDevice d s = Inr t" "record_opt (ds_recorder svc) t ''device.created'' (device_event d) = Inr s'"
    by (auto simp: Device_CreateTx_def Let_def tx_simps)
  from find_eq_Some[OF u] find_eq_Some[OF i] ok p d frame[OF d(3)] show ?thesis
    by (intro that[of u i pools ip t]) auto
qed

lemma CreateTx_inv:
  assumes "devices_inv s" "Device_CreateTx svc s new_id uid name keys ifc = Inr (d, s')"
  shows "devices_inv s'"
proof -
  from assms(2) obtain u i pools ip t where "u \<in> set (users s)" "u_id u = uid" "u_deleted u = None" "u_enabled u"
    "PeerWanted (u_status u)" "i \<in> set (ifaces s)" "i_enabled i"
    "\<forall>l. u_device_limit u = Some l \<longrightarrow> int (device_count s uid) < l"
    and c: "Decode (i_subnet i) (i_extras i) = Inr pools"
    "allocateIP s (i_id i) pools = Inr ip"
    "d = new_device (ds_now svc) new_id uid (trim_space name) keys (i_id i) ip"
    "insertDevice d s = Inr t" "same_domain t s'" "ValidatePublicKey (k_public keys) = Inr ()" "k_private keys \<noteq> []"
    by (rule CreateTx_ok)
  obtain ps k b where b: "ip = show_addr b @ ''/32''" by (rule allocateIP_Inr[OF c(1,2)])
  have "devices_inv t"
    by (rule insert_devices_inv[OF assms(1) c(4)]) (use c b in \<open>simp_all add: new_device_def\<close>)
  with same_domain_devices_inv[OF c(5)] show ?thesis by simp
qed

lemma Create_inv: "devices_inv s \<Longrightarrow> devices_inv (snd (Device_Create svc s new_id uid name keys ifc))"
  using CreateTx_inv[of s new_id uid name keys ifc]
  by (auto simp: Device_Create_def WithTx_def split: sum.splits)

lemma Delete_ok:
  assumes "Device_Delete svc s did = (Inr x, s')"
  shows "\<exists>d. find_row d_id did (devices s) = Some d \<and> devices s' = delete_rows (\<lambda>r. d_id r = did) (devices s)
    \<and> set (retired s') = insert (d_iface d, d_pubkey d) (set (retired s))
    \<and> users s' = users s \<and> ifaces s' = ifaces s"
proof -
  from assms obtain d t where d: "find_row d_id did (devices s) = Some d"
    "record_opt (ds_recorder svc) ((retire_one d s)\<lparr>devices := delete_rows (\<lambda>r. d_id r = did) (devices s)\<rparr>)
       ''device.deleted'' (device_event d) = Inr s'"
    by (auto simp: Device_Delete_def Let_def tx_simps)
  from frame[OF d(2)] d(1) show ?thesis by (simp add: same_domain_def)
qed

lemma Delete_inv: "devices_inv s \<Longrightarrow> devices_inv (snd (Device_Delete svc s did))"
proof (cases "Device_Delete svc s did")
  case (Pair r s')
  assume inv: "devices_inv s"
  show ?thesis
  proof (cases r)
    case (Inl e)
    with Pair inv show ?thesis by (simp add: Device_Delete_def WithTx_Inl)
  next
    case (Inr x)
    from Delete_ok[of s did x s'] Pair Inr obtain d where
      s': "devices s' = delete_rows (\<lambda>r. d_id r = did) (devices s)" "users s' = users s" "ifaces s' = ifaces s"
      by auto
    from delete_devices_inv[OF inv s'(1,3)] inv s' Pair show ?thesis
      by (auto simp: devices_inv_def device_ok_def)
  qed
qed

end

definition wired_devices :: "time \<Rightarrow> device_service" where
  "wired_devices now = \<lparr>ds_now = now, ds_recorder = Some (RecordTx now)\<rparr>"

lemma wired_devices_simps [simp]:
  "ds_now (wired_devices now) = now" "ds_recorder (wired_devices now) = Some (RecordTx now)"
  by (simp_all add: wired_devices_def)

interpretation wired_dev: device_svc "wired_devices now"
  by unfold_locales (simp add: webhook_rc.frame)

lemma Regenerate_ok:
  assumes "Regenerate svc s did keys = (Inr x, s')"
  obtains d where "find_row d_id did (devices s) = Some d" "d_pubkey d \<noteq> k_public keys"
    "replace_keys (ds_now svc) keys did (retire_one d s) = Inr s'"
    "ValidatePublicKey (k_public keys) = Inr ()" "k_private keys \<noteq> []"
  using assms by (auto simp: Regenerate_def tx_simps split: if_splits)

lemma Regenerate_inv:
  assumes "devices_inv s"
  shows "devices_inv (snd (Regenerate svc s did keys))"
proof (cases "Regenerate svc s did keys")
  case (Pair r s')
  show ?thesis
  proof (cases r)
    case (Inl e)
    with Pair have "s' = s" by (auto simp: Regenerate_def WithTx_Inl split: if_splits)
    with assms Pair show ?thesis by simp
  next
    case (Inr x)
    from Pair[unfolded Inr] obtain d where
      "replace_keys (ds_now svc) keys did (retire_one d s) = Inr s'"
      "ValidatePublicKey (k_public keys) = Inr ()" "k_private keys \<noteq> []"
      by (rule Regenerate_ok)
    with assms replace_keys_inv[of "retire_one d s"] Pair show ?thesis by simp
  qed
qed

lemma SetEnabled_dev_inv: "devices_inv s \<Longrightarrow> devices_inv (snd (Device_SetEnabled svc s did b))"
proof -
  assume inv: "devices_inv s"
  let ?f = "\<lambda>d. d\<lparr>d_enabled := b, d_updated := ds_now svc\<rparr>"
  have m: "map key (update_rows (\<lambda>d. d_id d = did) ?f (devices s)) = map key (devices s)"
    if "\<And>d. key (?f d) = key d" for key :: "device \<Rightarrow> 'k"
    using that by (simp add: update_rows_def)
  show ?thesis
    using inv by (auto simp: Device_SetEnabled_def devices_inv_def unique_on_def m device_ok_def set_update_rows)
qed

section \<open>Properties\<close>

text \<open>
  C4. Provisioning a device. A device is added only to a live, enabled, peer-eligible account that is
  below its device limit, so that the count after the insertion is at most the limit; it
  goes on an enabled interface, under the first free address of that interface's pools, with a key,
  an address and a name that no other device shares; the table stays well-formed and
  the devices that existed are unchanged. On any error the database is what it was.
\<close>

theorem device_create_correct:
  assumes "devices_inv s"
  shows "(\<forall>d s'. Device_Create (wired_devices now) s new_id uid name keys ifc = (Inr d, s') \<longrightarrow>
      devices s' = devices s @ [d] \<and> users s' = users s \<and> devices_inv s'
      \<and> (\<exists>u \<in> set (users s). u_id u = uid \<and> u_deleted u = None \<and> u_enabled u \<and> PeerWanted (u_status u)
           \<and> (\<forall>l. u_device_limit u = Some l \<longrightarrow> int (CountForUser s' uid) \<le> l))
      \<and> (\<exists>i \<in> set (ifaces s). i_id i = d_iface d \<and> i_enabled i
           \<and> (\<exists>pools ps k b. Decode (i_subnet i) (i_extras i) = Inr pools \<and> map Parse pools = map Inr ps
                \<and> first_free ps (used_addrs s (d_iface d)) k b \<and> d_ipv4 d = show_addr b @ ''/32''))
      \<and> d_pubkey d \<notin> d_pubkey ` set (devices s)
      \<and> (\<forall>r \<in> set (devices s). d_iface r = d_iface d \<longrightarrow> d_ipv4 r \<noteq> d_ipv4 d))
   \<and> (\<forall>e s'. Device_Create (wired_devices now) s new_id uid name keys ifc = (Inl e, s') \<longrightarrow> s' = s)"
proof (intro conjI allI impI)
  fix e s'
  assume "Device_Create (wired_devices now) s new_id uid name keys ifc = (Inl e, s')"
  then show "s' = s" by (simp add: Device_Create_def WithTx_Inl)
next
  fix d s'
  assume "Device_Create (wired_devices now) s new_id uid name keys ifc = (Inr d, s')"
  then have c: "Device_CreateTx (wired_devices now) s new_id uid name keys ifc = Inr (d, s')"
    by (simp add: Device_Create_def tx_simps)
  then obtain u i pools ip t where u: "u \<in> set (users s)" "u_id u = uid" "u_deleted u = None" "u_enabled u"
    "PeerWanted (u_status u)" and i: "i \<in> set (ifaces s)" "i_enabled i"
    and lim: "\<forall>l. u_device_limit u = Some l \<longrightarrow> int (device_count s uid) < l"
    and p: "Decode (i_subnet i) (i_extras i) = Inr pools" "allocateIP s (i_id i) pools = Inr ip"
    and d: "d = new_device (ds_now (wired_devices now)) new_id uid (trim_space name) keys (i_id i) ip"
    and ins: "insertDevice d s = Inr t" "same_domain t s'"
      "ValidatePublicKey (k_public keys) = Inr ()" "k_private keys \<noteq> []"
    by (rule wired_dev.CreateTx_ok)
  note ins_ok = insertDevice_ok[OF ins(1)]
  have t: "t = s\<lparr>devices := devices s @ [d]\<rparr>" using ins_ok(1) by (simp add: d new_device_def)
  show s': "devices s' = devices s @ [d]" "users s' = users s"
    using ins(2) by (simp_all add: t same_domain_def)
  show "devices_inv s'" by (rule wired_dev.CreateTx_inv[OF assms c])
  have "\<forall>l. u_device_limit u = Some l \<longrightarrow> int (CountForUser s' uid) \<le> l"
    using lim by (auto simp: CountForUser_def device_count_def s' d new_device_def)
  with u show "\<exists>u \<in> set (users s). u_id u = uid \<and> u_deleted u = None \<and> u_enabled u \<and> PeerWanted (u_status u)
      \<and> (\<forall>l. u_device_limit u = Some l \<longrightarrow> int (CountForUser s' uid) \<le> l)" by blast
  obtain ps k b where "map Parse pools = map Inr ps" "first_free ps (used_addrs s (i_id i)) k b"
    "ip = show_addr b @ ''/32''" by (rule allocateIP_Inr[OF p])
  then show "\<exists>i \<in> set (ifaces s). i_id i = d_iface d \<and> i_enabled i
      \<and> (\<exists>pools ps k b. Decode (i_subnet i) (i_extras i) = Inr pools \<and> map Parse pools = map Inr ps
           \<and> first_free ps (used_addrs s (d_iface d)) k b \<and> d_ipv4 d = show_addr b @ ''/32'')"
    using i p(1) by (intro bexI[of _ i]) (auto simp: d new_device_def)
  show "d_pubkey d \<notin> d_pubkey ` set (devices s)" by (fact ins_ok(3))
  show "\<forall>r \<in> set (devices s). d_iface r = d_iface d \<longrightarrow> d_ipv4 r \<noteq> d_ipv4 d"
    using ins_ok(4) by (simp add: image_iff) metis
qed

text \<open>
  Replacing a device's keys puts the former key of that device on the retired list of its
  interface, installs the new key, which no other device has, clears the handshake, the endpoint and the metering
  baseline but keeps the charged totals, address and owner, and touches no other device.
\<close>

theorem regenerate_retires_old_key:
  assumes "Regenerate (wired_devices now) s did keys = (Inr x, s')"
  shows "\<exists>d d'. find_row d_id did (devices s) = Some d \<and> find_row d_id did (devices s') = Some d'
    \<and> set (retired s') = insert (d_iface d, d_pubkey d) (set (retired s))
    \<and> d_pubkey d' = k_public keys \<and> d_pubkey d' \<noteq> d_pubkey d
    \<and> (\<forall>r \<in> set (devices s'). d_id r \<noteq> did \<longrightarrow> d_pubkey r \<noteq> d_pubkey d')
    \<and> d_last_rx d' = 0 \<and> d_last_tx d' = 0 \<and> d_handshake d' = None
    \<and> d_rx d' = d_rx d \<and> d_tx d' = d_tx d \<and> d_ipv4 d' = d_ipv4 d \<and> d_user d' = d_user d
    \<and> (\<forall>k. k \<noteq> did \<longrightarrow> find_row d_id k (devices s') = find_row d_id k (devices s))
    \<and> (devices_inv s \<longrightarrow> devices_inv s')"
proof -
  from assms obtain d where d: "find_row d_id did (devices s) = Some d" "d_pubkey d \<noteq> k_public keys"
    "replace_keys now keys did (retire_one d s) = Inr s'" by (auto elim: Regenerate_ok)
  have s': "s' = (retire_one d s)\<lparr>devices := update_rows (\<lambda>d. d_id d = did) (new_keys now keys) (devices s)\<rparr>"
    and free: "\<forall>r \<in> set (devices s). d_id r \<noteq> did \<longrightarrow> d_pubkey r \<noteq> k_public keys"
    using replace_keys_ok[OF d(3)] find_row_Some[OF d(1)] by auto
  have f: "find_row d_id did (devices s') = Some (new_keys now keys d)"
    "k \<noteq> did \<Longrightarrow> find_row d_id k (devices s') = find_row d_id k (devices s)" for k
    using d(1) by (simp_all add: s' keys_id.find_update_self keys_id.find_update_other)
  have "\<forall>r \<in> set (devices s'). d_id r \<noteq> did \<longrightarrow> d_pubkey r \<noteq> k_public keys"
    using free by (auto simp: s' set_update_rows new_keys_def)
  moreover have "devices_inv s \<longrightarrow> devices_inv s'"
    using Regenerate_inv[of s "wired_devices now" did keys] assms by simp
  ultimately show ?thesis
    using d f by (intro exI[of _ d] exI[of _ "new_keys now keys d"]) (simp add: s' new_keys_def)
qed

section \<open>Example data\<close>

definition example_pool :: prefix where
  "example_pool = \<lparr>p_addr = 0x0A080000, p_bits = 24\<rparr>"

definition example_keys :: "nat \<Rightarrow> key_material" where
  "example_keys n = \<lparr>k_public = b64_encode (replicate 31 0 @ [of_nat n]), k_private = ''sealed'', k_psk = None\<rparr>"

definition example_iface :: iface_row where
  "example_iface = \<lparr>i_id = ''if-1'', i_name = ''awg0'', i_port = 51820, i_subnet = show_prefix example_pool,
     i_extras = JsonNull, i_mtu = 1420, i_pubkey = [], i_privkey = ''sealed-node'', i_cols = plain_columns, i_preset = [],
     i_enabled = True, i_mode = ''kernel'', i_endpoint = [], i_created = 0, i_updated = 0\<rparr>"

lemma example_pool_Parse: "Parse (show_prefix example_pool) = Inr example_pool"
  by (simp add: Parse_def parse_show_prefix example_pool_def masked_def masked_addr_def host_bits_def
      is_private_def octet_def Last_def mask_eq_exp_minus_1)

lemma example_pool_Decode: "Decode (show_prefix example_pool) JsonNull = Inr [show_prefix example_pool]"
  by (simp add: Decode_def Validate_def MaxPools_def example_pool_Parse)

lemma example_key_ok [simp]: "ValidatePublicKey (k_public (example_keys n)) = Inr ()"
  by (simp add: example_keys_def ValidatePublicKey_def b64_decode_encode)

lemma example_key_inj: "n < 256 \<Longrightarrow> m < 256 \<Longrightarrow> k_public (example_keys n) = k_public (example_keys m) \<longleftrightarrow> n = m"
proof -
  assume "n < 256" "m < 256"
  then have "(of_nat n :: byte) = of_nat m \<longleftrightarrow> n = m" by (simp add: word_of_nat_eq_iff take_bit_nat_eq_self)
  moreover have "b64_encode x = b64_encode y \<longleftrightarrow> x = y" for x y by (metis b64_decode_encode option.inject)
  ultimately show ?thesis by (simp add: example_keys_def)
qed

lemma example_alloc: "\<exists>b. allocateIP s ifc [show_prefix example_pool] = Inr (show_addr b @ ''/32'')"
  if "devices s = []"
proof -
  have "used_addrs s ifc = []" using that by (simp add: used_addrs_def)
  moreover have "Assignable example_pool 0x0A080002"
    by (simp add: Assignable_def example_pool_def contains_def masked_addr_def host_bits_def next_addr_def Last_def mask_eq_exp_minus_1)
  ultimately show ?thesis
    using alloc_pools_ok[of "[show_prefix example_pool]" "[example_pool]" "used_addrs s ifc"]
    by (auto simp: allocateIP_def example_pool_Parse)
qed

definition example_db :: db where
  "example_db = (snd (Create (wired_users 7) (empty_db\<lparr>ifaces := [example_iface]\<rparr>) ''id-1''
     ((plain_input ''alice'')\<lparr>in_device_limit := \<lparr>opt_set = True, opt_null = False, opt_value = 2\<rparr>\<rparr>)))"

lemma example_db_fields: "devices example_db = []" "ifaces example_db = [example_iface]" "retired example_db = []"
  "\<exists>u. users example_db = [u] \<and> u_id u = ''id-1'' \<and> u_deleted u = None \<and> u_enabled u
     \<and> u_status u = UserActive \<and> u_device_limit u = Some 2 \<and> u_interface u = None"
  by (simp_all add: example_db_def user_op_defs user_example_simps)

lemma devices_inv_example: "devices_inv example_db"
  by (simp add: devices_inv_def example_db_fields unique_on_def)

text \<open>An account with a traffic limit and one device.\<close>

definition probe_device :: "string \<Rightarrow> device" where
  "probe_device i = \<lparr>d_id = i, d_user = ''id-1'', d_iface = ''if-1'', d_name = i, d_ipv4 = ''10.0.0.2/32'', d_pubkey = i,
     d_privkey = [], d_psk = None, d_enabled = True, d_handshake = None, d_endpoint = [], d_rx = 0, d_tx = 0,
     d_last_rx = 0, d_last_tx = 0, d_created = 0, d_updated = 0\<rparr>"

definition metered_db :: "int \<Rightarrow> db" where
  "metered_db limit = empty_db\<lparr>ifaces := [example_iface],
     users := [stored_user (buildCreate 0 ''id-1'' ((plain_input ''alice'')\<lparr>in_limit := \<lparr>opt_set = True, opt_null = False, opt_value = limit\<rparr>\<rparr>))],
     devices := [(probe_device ''dev-1'')\<lparr>d_pubkey := k_public (example_keys 1), d_privkey := ''sealed'',
        d_ipv4 := show_addr 0x0A080002 @ ''/32'', d_last_rx := 10\<rparr>]\<rparr>"

lemma metered_db_inv: "0 \<le> limit \<Longrightarrow> users_inv (metered_db limit)" "devices_inv (metered_db limit)"
proof -
  show "0 \<le> limit \<Longrightarrow> users_inv (metered_db limit)"
    by (simp add: users_inv_def metered_db_def unique_on_def stored_user_def buildCreate_def Let_def user_example_simps row_ok_def)
  have "ValidatePublicKey (k_public (example_keys 1)) = Inr ()" by (rule example_key_ok)
  then show "devices_inv (metered_db limit)"
    by (auto simp: devices_inv_def metered_db_def unique_on_def device_ok_def probe_device_def stored_user_def buildCreate_def
        Let_def user_example_simps example_iface_def)
qed

lemma example_create:
  obtains d s' where
    "Device_Create (wired_devices 8) example_db ''dev-1'' ''id-1'' ''phone'' (example_keys 1) [] = (Inr d, s')"
    "devices s' = [d]" "d_id d = ''dev-1''" "d_user d = ''id-1''" "d_iface d = ''if-1''"
    "d_pubkey d = k_public (example_keys 1)" "users s' = users example_db" "ifaces s' = ifaces example_db"
    "d_rx d = 0" "d_tx d = 0" "d_last_rx d = 0" "d_last_tx d = 0" "d_enabled d" "d_privkey d = ''sealed''" "retired s' = []"
proof -
  obtain u where u: "users example_db = [u]" "u_id u = ''id-1''" "u_deleted u = None" "u_enabled u"
    "u_status u = UserActive" "u_device_limit u = Some 2" "u_interface u = None"
    using example_db_fields(4) by blast
  obtain b where b: "allocateIP example_db ''if-1'' [show_prefix example_pool] = Inr (show_addr b @ ''/32'')"
    using example_alloc[OF example_db_fields(1)] by blast
  have n: "trim_space ''phone'' = ''phone''" by (simp add: trim_space_def is_space_def)
  have k: "k_private (example_keys n) \<noteq> []" for n by (simp add: example_keys_def)
  have c: "choose_iface example_db u [] = Inr ''if-1''"
    by (simp add: choose_iface_def u first_enabled_iface_def example_db_fields example_iface_def)
  let ?d = "new_device 8 ''dev-1'' ''id-1'' ''phone'' (example_keys 1) ''if-1'' (show_addr b @ ''/32'')"
  have "insertDevice ?d example_db = Inr (example_db\<lparr>devices := [?d]\<rparr>)"
    by (simp add: insertDevice_def new_device_def example_db_fields u example_iface_def)
  then obtain s' where c: "Device_CreateTx (wired_devices 8) example_db ''dev-1'' ''id-1'' ''phone'' (example_keys 1) [] = Inr (?d, s')"
    "record_opt (Some (RecordTx 8)) (example_db\<lparr>devices := [?d]\<rparr>) ''device.created'' (device_event ?d) = Inr s'"
    by (simp add: Device_CreateTx_def Let_def n k u c example_db_fields example_iface_def
        example_pool_Decode b device_count_def record_opt_def RecordTx_def
        ValidEvent_def Catalog_def)
  from webhook_rc.frame[OF c(2)] c(1) show ?thesis
    by (intro that[of ?d s']) (simp_all add: Device_Create_def same_domain_def new_device_def example_db_fields example_keys_def)
qed

theorem device_create_correct_witness:
  "\<exists>s d s'. devices_inv s \<and> Device_Create (wired_devices 8) s ''dev-1'' ''id-1'' ''phone'' (example_keys 1) [] = (Inr d, s')
     \<and> devices s' = [d] \<and> devices_inv s'"
proof -
  obtain d s' where c: "Device_Create (wired_devices 8) example_db ''dev-1'' ''id-1'' ''phone'' (example_keys 1) [] = (Inr d, s')"
    by (rule example_create)
  from device_create_correct[OF devices_inv_example, THEN conjunct1, rule_format, OF c] c devices_inv_example
  show ?thesis by (auto simp: example_db_fields)
qed

theorem allocateIP_correct_witness:
  "\<exists>b. Decode (show_prefix example_pool) JsonNull = Inr [show_prefix example_pool]
     \<and> allocateIP example_db ''if-1'' [show_prefix example_pool] = Inr (show_addr b @ ''/32'') \<and> is_private b"
proof -
  obtain b where b: "allocateIP example_db ''if-1'' [show_prefix example_pool] = Inr (show_addr b @ ''/32'')"
    using example_alloc[OF example_db_fields(1)] by blast
  from allocateIP_correct[OF example_pool_Decode, of example_db "''if-1''"] show ?thesis
    by (elim exE conjE disjE) (use b example_pool_Decode in auto)
qed

theorem regenerate_retires_old_key_witness:
  "\<exists>s s' d. find_row d_id ''dev-1'' (devices s) = Some d
     \<and> Regenerate (wired_devices 9) s ''dev-1'' (example_keys 2) = (Inr (), s')
     \<and> (d_iface d, d_pubkey d) \<in> set (retired s')"
proof -
  obtain d :: device and s :: db where s: "devices s = [d]" "d_id d = ''dev-1''" "d_pubkey d = k_public (example_keys 1)"
    by (rule example_create, blast)
  have "k_private (example_keys 2) \<noteq> []" by (simp add: example_keys_def)
  with s example_key_inj[of 1 2] obtain s' where r: "Regenerate (wired_devices 9) s ''dev-1'' (example_keys 2) = (Inr (), s')"
    by (simp add: Regenerate_def find_row_Cons replace_keys_def WithTx_def)
  have f: "find_row d_id ''dev-1'' (devices s) = Some d" using s by (simp add: find_row_Cons)
  from regenerate_retires_old_key[OF r] f r show ?thesis by force
qed

section \<open>Rotating all credentials of an account\<close>

lemma check_rotations_ok:
  "check_rotations w rs = Inr w' \<Longrightarrow> w' = w @ rs
     \<and> (\<forall>(did, keys) \<in> set rs. ValidatePublicKey (k_public keys) = Inr () \<and> k_private keys \<noteq> [])"
  by (induction w rs rule: check_rotations.induct) (auto simp: tx_simps)

lemma check_rotations_distinct:
  "check_rotations w rs = Inr w' \<Longrightarrow> distinct (map fst w) \<Longrightarrow> distinct (map fst w')"
  by (induction w rs rule: check_rotations.induct) (auto simp: tx_simps)

definition rotated_row :: "time \<Rightarrow> rotation list \<Rightarrow> string set \<Rightarrow> device \<Rightarrow> device" where
  "rotated_row now wanted ids r = (if d_id r \<in> ids then
     (case map_of wanted (d_id r) of None \<Rightarrow> r | Some keys \<Rightarrow> new_keys now keys r) else r)"

lemma rotate_one_ok:
  assumes "rotate_one now wanted d s = Inr t"
  obtains keys where "map_of wanted (d_id d) = Some keys"
    "replace_keys now keys (d_id d) (retire_one d s) = Inr t"
    "devices t = map (rotated_row now wanted {d_id d}) (devices s)"
    "users t = users s" "ifaces t = ifaces s"
    "set (retired t) = insert (d_iface d, d_pubkey d) (set (retired s))"
proof -
  from assms obtain keys where k: "map_of wanted (d_id d) = Some keys"
    "replace_keys now keys (d_id d) (retire_one d s) = Inr t"
    by (auto simp: rotate_one_def tx_simps)
  from replace_keys_ok[OF k(2)]
  have t: "t = (retire_one d s)\<lparr>devices := update_rows (\<lambda>r. d_id r = d_id d) (new_keys now keys) (devices s)\<rparr>"
    by simp
  have "devices t = map (rotated_row now wanted {d_id d}) (devices s)"
    using k(1) by (auto simp: t update_rows_def rotated_row_def)
  with k t show ?thesis by (intro that[of keys]) simp_all
qed

lemma rotated_row_id [simp]: "d_id (rotated_row now wanted ids r) = d_id r"
  by (simp add: rotated_row_def new_keys_def split: option.splits)

lemma rotated_row_insert:
  "a \<notin> ids \<Longrightarrow> rotated_row now wanted ids (rotated_row now wanted {a} r) = rotated_row now wanted (insert a ids) r"
  by (auto simp: rotated_row_def new_keys_def split: option.splits)

lemma rotate_fold_ok:
  "efold (rotate_one now wanted) ds s = Inr t \<Longrightarrow> distinct (map d_id ds) \<Longrightarrow>
     devices t = map (rotated_row now wanted (d_id ` set ds)) (devices s)
     \<and> users t = users s \<and> ifaces t = ifaces s
     \<and> set (retired t) = set (retired s) \<union> (\<lambda>d. (d_iface d, d_pubkey d)) ` set ds"
proof (induction ds arbitrary: s)
  case Nil
  then show ?case by (simp add: rotated_row_def)
next
  case (Cons d ds)
  from Cons.prems obtain m where m: "rotate_one now wanted d s = Inr m" "efold (rotate_one now wanted) ds m = Inr t"
    by (auto simp: tx_simps)
  from m(1) obtain keys where k: "map_of wanted (d_id d) = Some keys"
    "replace_keys now keys (d_id d) (retire_one d s) = Inr m"
    "devices m = map (rotated_row now wanted {d_id d}) (devices s)" "users m = users s" "ifaces m = ifaces s"
    "set (retired m) = insert (d_iface d, d_pubkey d) (set (retired s))"
    by (rule rotate_one_ok)
  have "d_id d \<notin> d_id ` set ds" using Cons.prems(2) by auto
  with Cons.IH[OF m(2)] Cons.prems(2) k show ?case by (auto simp: rotated_row_insert)
qed

lemma rotate_fold_inv:
  assumes "efold (rotate_one now wanted) ds s = Inr t" "devices_inv s"
    "\<forall>(did, keys) \<in> set wanted. ValidatePublicKey (k_public keys) = Inr () \<and> k_private keys \<noteq> []"
  shows "devices_inv t"
proof (rule efold_inv[where P = devices_inv, OF assms(1,2)])
  fix d s t
  assume inv: "devices_inv s" and r: "rotate_one now wanted d s = Inr t"
  from r obtain keys where k: "map_of wanted (d_id d) = Some keys"
    "replace_keys now keys (d_id d) (retire_one d s) = Inr t"
    by (rule rotate_one_ok, blast)
  with assms(3) inv replace_keys_inv[of "retire_one d s" now keys "d_id d" t] show "devices_inv t"
    by (auto dest!: map_of_SomeD)
qed

lemma rotation_refused:
  assumes "devices_inv s" and ne: "fst ` set rotations \<noteq> d_id ` {d \<in> set (devices s). d_user d = uid}"
  shows "ReplaceUserCredentialsTx svc s uid rotations = E CodeInvalidRequest"
proof -
  let ?stored = "filter (\<lambda>d. d_user d = uid) (devices s)"
  show ?thesis
  proof (cases "check_rotations [] rotations")
    case (Inl e)
    moreover have "check_rotations w rs = Inl e \<Longrightarrow> e = DomainError CodeInvalidRequest" for w rs e
      by (induction w rs rule: check_rotations.induct) (auto split: if_splits)
    ultimately show ?thesis by (simp add: ReplaceUserCredentialsTx_def)
  next
    case (Inr wanted)
    then have w: "wanted = rotations" "distinct (map fst wanted)"
      using check_rotations_ok[OF Inr] check_rotations_distinct[OF Inr] by auto
    show ?thesis
    proof (cases "length ?stored = length wanted \<and> d_id ` set ?stored \<subseteq> fst ` set wanted")
      case True
      have "distinct (map d_id ?stored)" using assms(1) by (simp add: devices_inv_def unique_on_def distinct_map_filter)
      then have "card (d_id ` set ?stored) = card (fst ` set wanted)"
        using True w(2) by (metis distinct_card length_map list.set_map)
      then have "d_id ` set ?stored = fst ` set wanted" using True by (intro card_subset_eq) auto
      with ne w(1) show ?thesis by simp
    next
      case False
      then have "length ?stored \<noteq> length wanted \<or> (\<exists>d \<in> set ?stored. map_of wanted (d_id d) = None)"
        by (auto simp: map_of_eq_None_iff)
      then show ?thesis using Inr by (auto simp: ReplaceUserCredentialsTx_def Let_def)
    qed
  qed
qed

text \<open>
  Rotating an account's access. When the rotation succeeds, every device of the account has exactly the
  key material given for it, every former key of the account is on the retired list, and the devices of
  all other accounts are untouched; a rotation that does not name exactly the account's current
  devices, or that repeats a current key, is refused.
\<close>

theorem rotate_credentials_correct:
  assumes "devices_inv s"
  shows "(\<forall>x s'. ReplaceUserCredentialsTx (wired_devices now) s uid rotations = Inr (x, s') \<longrightarrow>
      (\<forall>d \<in> set (devices s). d_user d = uid \<longrightarrow>
          (\<exists>keys. map_of rotations (d_id d) = Some keys \<and> k_public keys \<noteq> d_pubkey d
             \<and> find_row d_id (d_id d) (devices s') = Some (new_keys now keys d)))
      \<and> (\<forall>d \<in> set (devices s). d_user d \<noteq> uid \<longrightarrow> find_row d_id (d_id d) (devices s') = Some d)
      \<and> length rotations = CountForUser s uid
      \<and> set (retired s') = set (retired s) \<union> {(d_iface d, d_pubkey d) | d. d \<in> set (devices s) \<and> d_user d = uid}
      \<and> users s' = users s \<and> devices_inv s')
   \<and> (fst ` set rotations \<noteq> d_id ` {d \<in> set (devices s). d_user d = uid} \<longrightarrow>
        ReplaceUserCredentialsTx (wired_devices now) s uid rotations = E CodeInvalidRequest)"
proof (intro conjI allI impI)
  fix x s'
  assume "ReplaceUserCredentialsTx (wired_devices now) s uid rotations = Inr (x, s')"
  moreover define stored where "stored = filter (\<lambda>d. d_user d = uid) (devices s)"
  ultimately obtain wanted where c: "check_rotations [] rotations = Inr wanted"
    and len: "length stored = length wanted"
    and all: "\<forall>d \<in> set stored. \<exists>keys. map_of wanted (d_id d) = Some keys \<and> k_public keys \<noteq> d_pubkey d"
    and f: "efold (rotate_one now wanted) stored s = Inr s'"
    by (fastforce simp: ReplaceUserCredentialsTx_def Let_def tx_simps split: option.splits)
  have w: "wanted = rotations" "\<forall>(did, keys) \<in> set wanted. ValidatePublicKey (k_public keys) = Inr () \<and> k_private keys \<noteq> []"
    using check_rotations_ok[OF c] by auto
  have u: "unique_on d_id (devices s)" using assms by (simp add: devices_inv_def)
  then have dist: "distinct (map d_id stored)" by (simp add: stored_def unique_on_def distinct_map_filter)
  note r = rotate_fold_ok[OF f dist]
  have own: "d_id d \<in> d_id ` set stored \<longleftrightarrow> d_user d = uid" if "d \<in> set (devices s)" for d
    using that unique_on_eq[OF u] by (auto simp: stored_def)
  have row: "find_row d_id (d_id d) (devices s') = Some (rotated_row now wanted (d_id ` set stored) d)"
    if "d \<in> set (devices s)" for d
  proof -
    have "unique_on d_id (devices s')" using u r by (simp add: unique_on_def comp_def)
    moreover have "rotated_row now wanted (d_id ` set stored) d \<in> set (devices s')" using r that by simp
    ultimately show ?thesis using find_row_unique by fastforce
  qed
  show "\<forall>d \<in> set (devices s). d_user d = uid \<longrightarrow>
          (\<exists>keys. map_of rotations (d_id d) = Some keys \<and> k_public keys \<noteq> d_pubkey d
             \<and> find_row d_id (d_id d) (devices s') = Some (new_keys now keys d))"
    using row own all w(1) by (fastforce simp: rotated_row_def stored_def)
  show "\<forall>d \<in> set (devices s). d_user d \<noteq> uid \<longrightarrow> find_row d_id (d_id d) (devices s') = Some d"
    using row own by (simp add: rotated_row_def)
  show "length rotations = CountForUser s uid" using len w(1) by (simp add: CountForUser_def stored_def)
  show "set (retired s') = set (retired s) \<union> {(d_iface d, d_pubkey d) | d. d \<in> set (devices s) \<and> d_user d = uid}"
    using r by (auto simp: stored_def)
  show "users s' = users s" using r by simp
  show "devices_inv s'" by (rule rotate_fold_inv[OF f assms w(2)])
qed (rule rotation_refused[OF assms])

theorem rotate_credentials_correct_witness:
  "\<exists>s s' d. devices_inv s \<and> devices s = [d]
     \<and> ReplaceUserCredentialsTx (wired_devices 9) s ''id-1'' [(''dev-1'', example_keys 2)] = Inr ((), s')
     \<and> (d_iface d, d_pubkey d) \<in> set (retired s')"
proof -
  obtain d :: device and s :: db where
    c: "Device_Create (wired_devices 8) example_db ''dev-1'' ''id-1'' ''phone'' (example_keys 1) [] = (Inr d, s)"
    and s: "devices s = [d]" "d_id d = ''dev-1''" "d_user d = ''id-1''" "d_pubkey d = k_public (example_keys 1)"
    by (rule example_create, blast)
  have inv: "devices_inv s" using wired_dev.Create_inv[OF devices_inv_example] c by (metis snd_conv)
  have "k_private (example_keys 2) \<noteq> []" by (simp add: example_keys_def)
  with s example_key_inj[of 1 2] obtain s' where
    r: "ReplaceUserCredentialsTx (wired_devices 9) s ''id-1'' [(''dev-1'', example_keys 2)] = Inr ((), s')"
    by (simp add: ReplaceUserCredentialsTx_def rotate_one_def replace_keys_def)
  from rotate_credentials_correct[OF inv, THEN conjunct1, rule_format, OF r] inv s r show ?thesis by fastforce
qed

text \<open>
  Deleting a device removes that device only, frees its address, and retires its key on its
  interface so that the reconciler takes the peer down; an unknown device changes nothing.
\<close>

theorem device_delete_correct:
  assumes "Device_Delete (wired_devices now) s did = (r, s')"
  shows "(r = Inr () \<longrightarrow> (\<exists>d. find_row d_id did (devices s) = Some d
        \<and> (d_iface d, d_pubkey d) \<in> set (retired s') \<and> set (retired s) \<subseteq> set (retired s')
        \<and> find_row d_id did (devices s') = None
        \<and> (\<forall>k. k \<noteq> did \<longrightarrow> find_row d_id k (devices s') = find_row d_id k (devices s))
        \<and> users s' = users s \<and> (devices_inv s \<longrightarrow> devices_inv s')))
   \<and> (find_row d_id did (devices s) = None \<longrightarrow> r = E CodeDeviceNotFound \<and> s' = s)"
proof (intro conjI impI)
  assume "find_row d_id did (devices s) = None"
  with assms show "r = E CodeDeviceNotFound" "s' = s" by (simp_all add: Device_Delete_def WithTx_def)
next
  assume ok: "r = Inr ()"
  with wired_dev.Delete_ok[of now s did "()" s'] assms obtain d where
    d: "find_row d_id did (devices s) = Some d" "devices s' = delete_rows (\<lambda>r. d_id r = did) (devices s)"
    "set (retired s') = insert (d_iface d, d_pubkey d) (set (retired s))" "users s' = users s" by auto
  have "devices_inv s \<longrightarrow> devices_inv s'" using wired_dev.Delete_inv[of s now did] assms by simp
  moreover have "\<forall>k. k \<noteq> did \<longrightarrow> find_row d_id k (devices s') = find_row d_id k (devices s)"
    by (auto simp: d(2) intro!: find_row_delete_other)
  ultimately show "\<exists>d. find_row d_id did (devices s) = Some d
        \<and> (d_iface d, d_pubkey d) \<in> set (retired s') \<and> set (retired s) \<subseteq> set (retired s')
        \<and> find_row d_id did (devices s') = None
        \<and> (\<forall>k. k \<noteq> did \<longrightarrow> find_row d_id k (devices s') = find_row d_id k (devices s))
        \<and> users s' = users s \<and> (devices_inv s \<longrightarrow> devices_inv s')"
    using d by (auto simp: find_row_delete_self)
qed

theorem device_delete_correct_witness:
  "\<exists>s s'. find_row d_id ''dev-1'' (devices s) \<noteq> None
     \<and> Device_Delete (wired_devices 9) s ''dev-1'' = (Inr (), s') \<and> find_row d_id ''dev-1'' (devices s') = None"
proof -
  obtain d :: device and s :: db where s: "devices s = [d]" "d_id d = ''dev-1''"
    by (rule example_create, blast)
  then obtain s' where r: "Device_Delete (wired_devices 9) s ''dev-1'' = (Inr (), s')"
    by (simp add: Device_Delete_def find_row_Cons Let_def record_opt_def RecordTx_def ValidEvent_def Catalog_def WithTx_def)
  from device_delete_correct[OF r] r s show ?thesis
    by (intro exI[of _ s] exI[of _ s']) (auto simp: find_row_Cons)
qed

end
