(* ===== verification/Obfuscation.thy ===== *)
theory Obfuscation
  imports AwgParam Keys
begin

text \<open>
  The AmneziaWG parameter set of an interface: the record shared by \<open>iface.Obfuscation\<close> and
  \<open>tunnel.Obfuscation\<close> (one field list in both packages), its validation
  (\<open>src/internal/iface/iface.go\<close>) and the plain-WireGuard tests of \<open>src/internal/tunnel/tunnel.go\<close>.
\<close>

section \<open>UTF-8\<close>

text \<open>
  Strict decoding of UTF-8 bytes into code points, as \<open>utf8.ValidString\<close> accepts them: shortest
  forms only, no surrogates, nothing above 10FFFF.
\<close>

definition cont :: "char \<Rightarrow> nat option" where
  "cont c = (let n = of_char c in if 128 \<le> n \<and> n < 192 then Some (n - 128) else None)"

fun utf8_decode :: "string \<Rightarrow> nat list option" where
  "utf8_decode [] = Some []"
| "utf8_decode (a # s) =
     (let n = of_char a in
      if n < 128 then map_option ((#) n) (utf8_decode s)
      else if 194 \<le> n \<and> n < 224 then
        (case s of
           b # s' \<Rightarrow> (case cont b of None \<Rightarrow> None
             | Some x \<Rightarrow> map_option ((#) ((n - 192) * 64 + x)) (utf8_decode s'))
         | _ \<Rightarrow> None)
      else if 224 \<le> n \<and> n < 240 then
        (case s of
           b # c # s' \<Rightarrow> (case (cont b, cont c) of
               (Some x, Some y) \<Rightarrow>
                 (let r = (n - 224) * 4096 + x * 64 + y
                  in if r < 2048 \<or> (55296 \<le> r \<and> r < 57344) then None
                     else map_option ((#) r) (utf8_decode s'))
             | _ \<Rightarrow> None)
         | _ \<Rightarrow> None)
      else if 240 \<le> n \<and> n < 245 then
        (case s of
           b # c # d # s' \<Rightarrow> (case (cont b, cont c, cont d) of
               (Some x, Some y, Some z) \<Rightarrow>
                 (let r = (n - 240) * 262144 + x * 4096 + y * 64 + z
                  in if r < 65536 \<or> 1114111 < r then None
                     else map_option ((#) r) (utf8_decode s'))
             | _ \<Rightarrow> None)
         | _ \<Rightarrow> None)
      else None)"

text \<open>\<open>unicode.IsSpace\<close> and \<open>unicode.IsControl\<close>.\<close>

definition rune_space :: "nat \<Rightarrow> bool" where
  "rune_space r \<longleftrightarrow> r \<in> {9, 10, 11, 12, 13, 32, 133, 160, 5760, 8232, 8233, 8239, 8287, 12288}
     \<or> (8192 \<le> r \<and> r \<le> 8202)"

definition rune_control :: "nat \<Rightarrow> bool" where
  "rune_control r \<longleftrightarrow> r < 32 \<or> (127 \<le> r \<and> r < 160)"

section \<open>Parameters\<close>

record obfuscation =
  ob_enabled :: bool
  ob_jc :: int
  ob_jmin :: int
  ob_jmax :: int
  ob_s1 :: int
  ob_s2 :: int
  ob_h1 :: u32range
  ob_h2 :: u32range
  ob_h3 :: u32range
  ob_h4 :: u32range
  ob_i1 :: string
  ob_i2 :: string
  ob_i3 :: string
  ob_i4 :: string
  ob_i5 :: string
  ob_s3 :: int
  ob_s4 :: int
  ob_hpk :: string
  ob_padding :: u16range
  ob_rekey_after :: u16range
  ob_rekey_timeout :: u16range
  ob_reject_after :: u16range
  ob_keepalive :: u16range
  ob_max_handshake :: u16range
  ob_trailers :: bool
  ob_no_cookies :: bool

definition range_zero :: "'n::len word urange" where
  "range_zero = scalar 0"

definition plain_obf :: obfuscation where
  "plain_obf = \<lparr>ob_enabled = False, ob_jc = 0, ob_jmin = 0, ob_jmax = 0, ob_s1 = 0, ob_s2 = 0,
     ob_h1 = range_zero, ob_h2 = range_zero, ob_h3 = range_zero, ob_h4 = range_zero,
     ob_i1 = [], ob_i2 = [], ob_i3 = [], ob_i4 = [], ob_i5 = [], ob_s3 = 0, ob_s4 = 0, ob_hpk = [],
     ob_padding = range_zero, ob_rekey_after = range_zero, ob_rekey_timeout = range_zero,
     ob_reject_after = range_zero, ob_keepalive = range_zero, ob_max_handshake = range_zero,
     ob_trailers = False, ob_no_cookies = False\<rparr>"

section \<open>Validation\<close>

definition JcMax :: int where "JcMax = 128"
definition JmaxMax :: int where "JmaxMax = 1280"
definition S1Max :: int where "S1Max = 1132"
definition S2Max :: int where "S2Max = 1188"

definition config_text_ok :: "string \<Rightarrow> bool" where
  "config_text_ok value \<longleftrightarrow> value = [] \<or>
     (case utf8_decode value of
        None \<Rightarrow> False
      | Some rs \<Rightarrow> \<not> rune_space (hd rs) \<and> \<not> rune_space (last rs) \<and> \<not> list_ex rune_control rs)"

definition ValidateConfigText :: "obfuscation \<Rightarrow> unit result" where
  "ValidateConfigText ob =
     (if list_all config_text_ok [ob_i1 ob, ob_i2 ob, ob_i3 ob, ob_i4 ob, ob_i5 ob] then Inr ()
      else E CodeParamConstraint)"

fun headers_ok :: "u32range list \<Rightarrow> bool" where
  "headers_ok [] = True"
| "headers_ok (h # hs) = (\<not> range_is_zero h \<and> list_all (\<lambda>k. \<not> range_overlaps h k) hs \<and> headers_ok hs)"

definition params_unset :: "obfuscation \<Rightarrow> bool" where
  "params_unset ob \<longleftrightarrow> ob_jc ob = 0 \<and> ob_jmin ob = 0 \<and> ob_jmax ob = 0 \<and> ob_s1 ob = 0 \<and> ob_s2 ob = 0
     \<and> range_is_zero (ob_h1 ob) \<and> range_is_zero (ob_h2 ob) \<and> range_is_zero (ob_h3 ob) \<and> range_is_zero (ob_h4 ob)
     \<and> ob_i1 ob = [] \<and> ob_i2 ob = [] \<and> ob_i3 ob = [] \<and> ob_i4 ob = [] \<and> ob_i5 ob = []
     \<and> ob_s3 ob = 0 \<and> ob_s4 ob = 0 \<and> ob_hpk ob = []
     \<and> range_is_zero (ob_padding ob) \<and> range_is_zero (ob_rekey_after ob) \<and> range_is_zero (ob_rekey_timeout ob)
     \<and> range_is_zero (ob_reject_after ob) \<and> range_is_zero (ob_keepalive ob) \<and> range_is_zero (ob_max_handshake ob)
     \<and> \<not> ob_trailers ob \<and> \<not> ob_no_cookies ob"

definition ValidateObfuscation :: "obfuscation \<Rightarrow> unit result" where
  "ValidateObfuscation ob =
     (if \<not> ob_enabled ob then (if \<not> params_unset ob then E CodeParamConstraint else Inr ())
      else if ob_s3 ob < 0 \<or> 65535 < ob_s3 ob \<or> ob_s4 ob < 0 \<or> 65535 < ob_s4 ob then E CodeParamConstraint
      else if ob_hpk ob \<noteq> [] \<and> ValidateEncodedKey (ob_hpk ob) \<noteq> Inr () then E CodeParamConstraint
      else if ob_hpk ob \<noteq> [] \<and> (ob_s1 ob < 12 \<or> ob_s2 ob < 12 \<or> ob_s3 ob < 12 \<or> ob_s4 ob < 12)
      then E CodeParamConstraint
      else if ob_jc ob < 1 \<or> JcMax < ob_jc ob then E CodeParamConstraint
      else if ob_jmin ob < 0 \<or> ob_jmax ob < 0 then E CodeParamConstraint
      else if ob_jmax ob \<le> ob_jmin ob then E CodeParamConstraint
      else if JmaxMax < ob_jmax ob then E CodeParamConstraint
      else if ob_s1 ob < 0 \<or> S1Max < ob_s1 ob then E CodeParamConstraint
      else if ob_s2 ob < 0 \<or> S2Max < ob_s2 ob then E CodeParamConstraint
      else if ob_s1 ob + 56 = ob_s2 ob then E CodeParamConstraint
      else ebind (ValidateConfigText ob) (\<lambda>_.
        if headers_ok [ob_h1 ob, ob_h2 ob, ob_h3 ob, ob_h4 ob] then Inr () else E CodeParamConstraint))"

section \<open>Plain WireGuard\<close>

definition stockHeaders :: "u32range list" where
  "stockHeaders = [ScalarU32 1, ScalarU32 2, ScalarU32 3, ScalarU32 4]"

definition StockHeaders :: "obfuscation \<Rightarrow> bool" where
  "StockHeaders ob \<longleftrightarrow> (let hs = [ob_h1 ob, ob_h2 ob, ob_h3 ob, ob_h4 ob]
     in hs = replicate 4 range_zero \<or> hs = stockHeaders)"

definition PlainEquivalent :: "obfuscation \<Rightarrow> bool" where
  "PlainEquivalent ob \<longleftrightarrow>
     (let rest = ob\<lparr>ob_enabled := False, ob_h1 := range_zero, ob_h2 := range_zero, ob_h3 := range_zero, ob_h4 := range_zero\<rparr>;
          rest2 = (if ob_jc rest = 0 then rest\<lparr>ob_jmin := 0, ob_jmax := 0\<rparr> else rest)
      in rest2 = plain_obf \<and> StockHeaders ob)"

lemma range_is_zero_iff: "range_is_zero r \<longleftrightarrow> r = range_zero"
  by (cases r) (simp add: range_is_zero_def range_zero_def scalar_def)

lemma params_unset_iff: "params_unset ob \<and> \<not> ob_enabled ob \<longleftrightarrow> ob = plain_obf"
  by (cases ob) (auto simp: params_unset_def plain_obf_def range_is_zero_iff)

lemma common_value_overlaps:
  "r_low h \<le> v \<Longrightarrow> v \<le> r_high h \<Longrightarrow> r_low k \<le> v \<Longrightarrow> v \<le> r_high k \<Longrightarrow> range_overlaps h k"
  unfolding range_overlaps_def by (meson order_trans)

lemma range_overlaps_sym: "range_overlaps h k \<longleftrightarrow> range_overlaps k h"
  by (auto simp: range_overlaps_def)

lemma headers_ok_disjoint:
  "headers_ok hs \<Longrightarrow> i < j \<Longrightarrow> j < length hs \<Longrightarrow> \<not> range_overlaps (hs ! i) (hs ! j)"
proof (induction hs arbitrary: i j)
  case (Cons h hs)
  then obtain j' where j: "j = Suc j'" by (cases j) auto
  show ?case
  proof (cases i)
    case 0
    with Cons.prems j show ?thesis by (auto simp: list_all_length)
  next
    case (Suc i')
    with Cons j show ?thesis by simp
  qed
qed simp

lemma config_text_ok_runes:
  assumes "config_text_ok t" "utf8_decode t = Some rs" "r \<in> set rs"
  shows "32 \<le> r"
proof (cases "t = []")
  case False
  with assms(1,2) have "\<not> list_ex rune_control rs" by (simp add: config_text_ok_def)
  with assms(3) show ?thesis by (auto simp: list_ex_iff rune_control_def not_less)
qed (use assms in simp)

lemma encoded_key_length: "ValidateEncodedKey v = Inr () \<Longrightarrow> length v = 44"
  by (auto simp: ValidateEncodedKey_def length_b64_encode split: option.splits if_splits)

text \<open>
  A profile the validation accepts is either the plain profile with nothing set, or a complete
  one: junk counts and sizes within the kernel bounds with Jmin below Jmax, S1 + 56 different
  from S2, four non-zero header ranges no two of which share a value, signature texts of one
  line without control characters, and a header protection key only in canonical form with all four
  paddings at least 12. An enabled profile is never equivalent to plain WireGuard.
\<close>

theorem validated_profile_sound:
  assumes "ValidateObfuscation ob = Inr ()"
  shows "if ob_enabled ob then
     1 \<le> ob_jc ob \<and> ob_jc ob \<le> 128 \<and> 0 \<le> ob_jmin ob \<and> ob_jmin ob < ob_jmax ob \<and> ob_jmax ob \<le> 1280
     \<and> 0 \<le> ob_s1 ob \<and> ob_s1 ob \<le> 1132 \<and> 0 \<le> ob_s2 ob \<and> ob_s2 ob \<le> 1188 \<and> ob_s1 ob + 56 \<noteq> ob_s2 ob
     \<and> (\<forall>i < 4. \<forall>j < 4. i \<noteq> j \<longrightarrow>
          (let hs = [ob_h1 ob, ob_h2 ob, ob_h3 ob, ob_h4 ob] in
             \<not> (\<exists>v. r_low (hs ! i) \<le> v \<and> v \<le> r_high (hs ! i) \<and> r_low (hs ! j) \<le> v \<and> v \<le> r_high (hs ! j))))
     \<and> (\<forall>t \<in> {ob_i1 ob, ob_i2 ob, ob_i3 ob, ob_i4 ob, ob_i5 ob}. \<forall>rs. utf8_decode t = Some rs \<longrightarrow> (\<forall>r \<in> set rs. 32 \<le> r))
     \<and> (ob_hpk ob \<noteq> [] \<longrightarrow> length (ob_hpk ob) = 44 \<and> 12 \<le> ob_s1 ob \<and> 12 \<le> ob_s2 ob \<and> 12 \<le> ob_s3 ob \<and> 12 \<le> ob_s4 ob)
     \<and> \<not> PlainEquivalent ob
   else ob = plain_obf"
proof (cases "ob_enabled ob")
  case False
  with assms show ?thesis using params_unset_iff[of ob] by (auto simp: ValidateObfuscation_def tx_simps)
next
  case True
  let ?hs = "[ob_h1 ob, ob_h2 ob, ob_h3 ob, ob_h4 ob]"
  from assms True have b: "1 \<le> ob_jc ob" "ob_jc ob \<le> 128" "0 \<le> ob_jmin ob" "ob_jmin ob < ob_jmax ob"
    "ob_jmax ob \<le> 1280" "0 \<le> ob_s1 ob" "ob_s1 ob \<le> 1132" "0 \<le> ob_s2 ob" "ob_s2 ob \<le> 1188"
    "ob_s1 ob + 56 \<noteq> ob_s2 ob"
    and ct: "ValidateConfigText ob = Inr ()" and hs: "headers_ok ?hs"
    and hpk: "ob_hpk ob \<noteq> [] \<longrightarrow> ValidateEncodedKey (ob_hpk ob) = Inr () \<and> 12 \<le> ob_s1 ob \<and> 12 \<le> ob_s2 ob
      \<and> 12 \<le> ob_s3 ob \<and> 12 \<le> ob_s4 ob"
    by (auto simp: ValidateObfuscation_def tx_simps JcMax_def JmaxMax_def S1Max_def S2Max_def)
  have "\<not> (\<exists>v. r_low (?hs ! i) \<le> v \<and> v \<le> r_high (?hs ! i) \<and> r_low (?hs ! j) \<le> v \<and> v \<le> r_high (?hs ! j))"
    if "i < 4" "j < 4" "i \<noteq> j" for i j
  proof -
    have len: "i < length ?hs" "j < length ?hs" using that by simp_all
    then have "\<not> range_overlaps (?hs ! i) (?hs ! j)"
      using headers_ok_disjoint[OF hs, of i j] headers_ok_disjoint[OF hs, of j i] range_overlaps_sym that(3)
      by (metis linorder_neqE_nat)
    then show ?thesis using common_value_overlaps by blast
  qed
  moreover have "\<forall>t \<in> {ob_i1 ob, ob_i2 ob, ob_i3 ob, ob_i4 ob, ob_i5 ob}. config_text_ok t"
    using ct by (auto simp: ValidateConfigText_def split: if_splits)
  moreover have "\<not> PlainEquivalent ob"
    using b(1) by (auto simp: PlainEquivalent_def plain_obf_def Let_def dest: arg_cong[where f = ob_jc])
  ultimately show ?thesis
    using True b hpk encoded_key_length config_text_ok_runes by (auto simp: Let_def)
qed

theorem validated_profile_sound_witness:
  "\<exists>ob. ValidateObfuscation ob = Inr () \<and> ob_enabled ob \<and> \<not> PlainEquivalent ob"
proof -
  let ?ob = "plain_obf\<lparr>ob_enabled := True, ob_jc := 4, ob_jmin := 40, ob_jmax := 70, ob_s1 := 15, ob_s2 := 20,
    ob_h1 := ScalarU32 5, ob_h2 := ScalarU32 6, ob_h3 := ScalarU32 7, ob_h4 := ScalarU32 8\<rparr>"
  have v: "ValidateObfuscation ?ob = Inr ()"
    by (simp add: ValidateObfuscation_def plain_obf_def ValidateConfigText_def config_text_ok_def
        JcMax_def JmaxMax_def S1Max_def S2Max_def ScalarU32_def scalar_def range_is_zero_def range_overlaps_def)
  from validated_profile_sound[OF v] have "\<not> PlainEquivalent ?ob" by simp
  with v show ?thesis by (intro exI[of _ ?ob]) simp
qed

end
