(* ===== verification/Tunnel.thy ===== *)
theory Tunnel
  imports Obfuscation Instants
begin

text \<open>
  The tunnel backend: its data types and control surface (\<open>src/internal/tunnel/tunnel.go\<close>), the
  laws the engine relies on as a locale, and the in-memory backend
  (\<open>src/internal/tunnel/fake/fake.go\<close>), which the repository declares to model the semantics the
  real implementation is held to, as its interpretation. A Go map of peers is a list with one
  entry per key; its order stands for the arbitrary iteration order.
\<close>

section \<open>Types\<close>

definition ErrInterfaceNotFound :: error where
  "ErrInterfaceNotFound = Foreign ''tunnel: interface not found''"

record interface_spec =
  sp_name :: string
  sp_mode :: string
  sp_private :: string
  sp_port :: int
  sp_fwmark :: string
  sp_mtu :: int
  sp_address :: string
  sp_addresses :: "string list"
  sp_obf :: obfuscation

record peer_config =
  pc_key :: string
  pc_psk :: string
  pc_allowed :: "string list"
  pc_endpoint :: string
  pc_keepalive :: u16range

record interface_config =
  ic_private :: string
  ic_port :: int
  ic_fwmark :: string
  ic_obf :: obfuscation
  ic_peers :: "peer_config list"

text \<open>The zero \<open>time.Time\<close> of a peer that never shook hands is \<open>None\<close>.\<close>

record peer_state =
  ps_key :: string
  ps_psk_set :: bool
  ps_endpoint :: string
  ps_allowed :: "string list"
  ps_handshake :: "time option"
  ps_rx :: int
  ps_tx :: int
  ps_keepalive :: u16range

record interface_state =
  is_name :: string
  is_mode :: string
  is_public :: string
  is_port :: int
  is_fwmark :: int
  is_obf :: obfuscation
  is_peers :: "peer_state list"

text \<open>
  \<open>tunnel.Backend\<close>: every operation takes the backend's state; one that fails still returns the
  state it left behind. \<open>EnsureAddresses\<close> is the optional extra the engine asks for by a type
  assertion.
\<close>

record 'b backend =
  ListInterfaces :: "'b \<Rightarrow> string list result"
  CreateInterface :: "'b \<Rightarrow> interface_spec \<Rightarrow> unit result \<times> 'b"
  RemoveInterface :: "'b \<Rightarrow> string \<Rightarrow> unit result \<times> 'b"
  ApplyInterfaceConfig :: "'b \<Rightarrow> string \<Rightarrow> interface_config \<Rightarrow> unit result \<times> 'b"
  SyncPeers :: "'b \<Rightarrow> string \<Rightarrow> peer_config list \<Rightarrow> unit result \<times> 'b"
  Dump :: "'b \<Rightarrow> string \<Rightarrow> interface_state result"
  EnsureAddresses :: "('b \<Rightarrow> string \<Rightarrow> string list \<Rightarrow> unit result \<times> 'b) option"

section \<open>The contract\<close>

text \<open>The keys a successful dump shows; the allowed addresses of a key.\<close>

definition peer_keys :: "interface_state \<Rightarrow> string set" where
  "peer_keys st = ps_key ` set (is_peers st)"

text \<open>
  What the engine relies on. Each law speaks of the interface named in the call; \<open>frame\<close> laws say
  that other interfaces are left alone, whether the call succeeds or not.
\<close>

locale tunnel_backend =
  fixes bk :: "'b backend"
    and ok :: "'b \<Rightarrow> bool"
  assumes unique_peers: "ok b \<Longrightarrow> Dump bk b n = Inr st \<Longrightarrow> unique_on ps_key (is_peers st)"
    and create_ok: "ok b \<Longrightarrow> CreateInterface bk b spec = (r, b') \<Longrightarrow> ok b'"
    and remove_ok: "ok b \<Longrightarrow> RemoveInterface bk b n = (r, b') \<Longrightarrow> ok b'"
    and apply_ok: "ok b \<Longrightarrow> ApplyInterfaceConfig bk b n cfg = (r, b') \<Longrightarrow> ok b'"
    and sync_ok: "ok b \<Longrightarrow> SyncPeers bk b n ps = (r, b') \<Longrightarrow> ok b'"
    and ensure_ok: "ok b \<Longrightarrow> EnsureAddresses bk = Some f \<Longrightarrow> f b n addrs = (r, b') \<Longrightarrow> ok b'"
    and create_frame: "CreateInterface bk b spec = (r, b') \<Longrightarrow> m \<noteq> sp_name spec \<Longrightarrow> Dump bk b' m = Dump bk b m"
    and remove_frame: "RemoveInterface bk b n = (r, b') \<Longrightarrow> m \<noteq> n \<Longrightarrow> Dump bk b' m = Dump bk b m"
    and apply_frame: "ApplyInterfaceConfig bk b n cfg = (r, b') \<Longrightarrow> m \<noteq> n \<Longrightarrow> Dump bk b' m = Dump bk b m"
    and sync_frame: "SyncPeers bk b n ps = (r, b') \<Longrightarrow> m \<noteq> n \<Longrightarrow> Dump bk b' m = Dump bk b m"
    and ensure_dump: "EnsureAddresses bk = Some f \<Longrightarrow> f b n addrs = (r, b') \<Longrightarrow> Dump bk b' m = Dump bk b m"
    and create_dump: "ok b \<Longrightarrow> CreateInterface bk b spec = (Inr (), b') \<Longrightarrow>
      \<exists>st. Dump bk b' (sp_name spec) = Inr st \<and> is_peers st = [] \<and> is_port st = sp_port spec \<and> is_obf st = sp_obf spec"
    and remove_dump: "ok b \<Longrightarrow> RemoveInterface bk b n = (Inr (), b') \<Longrightarrow> Dump bk b' n = Inl ErrInterfaceNotFound"
    and remove_missing: "ok b \<Longrightarrow> RemoveInterface bk b n = (Inl ErrInterfaceNotFound, b') \<Longrightarrow>
      Dump bk b' n = Inl ErrInterfaceNotFound"
    and apply_dump: "ok b \<Longrightarrow> ApplyInterfaceConfig bk b n cfg = (Inr (), b') \<Longrightarrow>
      \<exists>st. Dump bk b' n = Inr st \<and> peer_keys st = pc_key ` set (ic_peers cfg)
        \<and> (ic_port cfg \<noteq> 0 \<longrightarrow> is_port st = ic_port cfg) \<and> is_obf st = ic_obf cfg"
    and sync_dump: "ok b \<Longrightarrow> SyncPeers bk b n ps = (Inr (), b') \<Longrightarrow> unique_on pc_key ps \<Longrightarrow> Dump bk b n = Inr st0 \<Longrightarrow>
      \<exists>st. Dump bk b' n = Inr st \<and> peer_keys st = pc_key ` set ps
        \<and> (\<forall>p \<in> set (is_peers st). \<forall>c \<in> set ps. pc_key c = ps_key p \<longrightarrow> ps_allowed p = pc_allowed c)
        \<and> is_port st = is_port st0 \<and> is_obf st = is_obf st0"

section \<open>The in-memory backend\<close>

datatype op_kind = OpCreate | OpRemove | OpApply | OpSync

record fake_interface =
  fi_spec :: interface_spec
  fi_cfg :: "interface_config option"
  fi_public :: string
  fi_peers :: "peer_state list"
  fi_fwmark :: int

record fake_state =
  fk_ifaces :: "(string \<times> fake_interface) list"
  fk_ops :: "(op_kind \<times> string) list"
  fk_fail :: "op_kind \<Rightarrow> error option"

definition fake_New :: fake_state where
  "fake_New = \<lparr>fk_ifaces = [], fk_ops = [], fk_fail = (\<lambda>_. None)\<rparr>"

text \<open>\<open>fail\<close>: an injected error fires once.\<close>

definition fake_fail :: "op_kind \<Rightarrow> fake_state \<Rightarrow> error option \<times> fake_state" where
  "fake_fail k b = (case fk_fail b k of
     Some e \<Rightarrow> (Some e, b\<lparr>fk_fail := (fk_fail b)(k := None)\<rparr>) | None \<Rightarrow> (None, b))"

definition fake_record :: "op_kind \<Rightarrow> string \<Rightarrow> fake_state \<Rightarrow> fake_state" where
  "fake_record k n b = b\<lparr>fk_ops := fk_ops b @ [(k, n)]\<rparr>"

definition fake_put :: "string \<Rightarrow> fake_interface \<Rightarrow> fake_state \<Rightarrow> fake_state" where
  "fake_put n i b = b\<lparr>fk_ifaces := map (\<lambda>(m, x). (m, if m = n then i else x)) (fk_ifaces b)\<rparr>"

definition fake_List :: "fake_state \<Rightarrow> string list result" where
  "fake_List b = Inr (sort (map fst (fk_ifaces b)))"

definition fake_Create :: "fake_state \<Rightarrow> interface_spec \<Rightarrow> unit result \<times> fake_state" where
  "fake_Create b spec = (case fake_fail OpCreate b of
     (Some e, b') \<Rightarrow> (Inl e, b')
   | (None, b') \<Rightarrow>
       if sp_name spec \<in> fst ` set (fk_ifaces b') then (Inl (Foreign ''fake: interface already exists''), b')
       else (Inr (), (fake_record OpCreate (sp_name spec) b')\<lparr>fk_ifaces := fk_ifaces b' @
              [(sp_name spec, \<lparr>fi_spec = spec, fi_cfg = None, fi_public = [], fi_peers = [], fi_fwmark = 0\<rparr>)]\<rparr>))"

definition fake_EnsureAddresses :: "fake_state \<Rightarrow> string \<Rightarrow> string list \<Rightarrow> unit result \<times> fake_state" where
  "fake_EnsureAddresses b n addresses = (case map_of (fk_ifaces b) n of
     None \<Rightarrow> (Inl ErrInterfaceNotFound, b)
   | Some i \<Rightarrow> (Inr (), fake_put n (i\<lparr>fi_spec := (fi_spec i)\<lparr>sp_addresses := addresses\<rparr>\<rparr>) b))"

definition fake_Remove :: "fake_state \<Rightarrow> string \<Rightarrow> unit result \<times> fake_state" where
  "fake_Remove b n = (case fake_fail OpRemove b of
     (Some e, b') \<Rightarrow> (Inl e, b')
   | (None, b') \<Rightarrow>
       if n \<notin> fst ` set (fk_ifaces b') then (Inl ErrInterfaceNotFound, b')
       else (Inr (), (fake_record OpRemove n b')\<lparr>fk_ifaces := filter (\<lambda>(m, _). m \<noteq> n) (fk_ifaces b')\<rparr>))"

definition peerState :: "peer_config \<Rightarrow> peer_state" where
  "peerState p = \<lparr>ps_key = pc_key p, ps_psk_set = (pc_psk p \<noteq> []), ps_endpoint = pc_endpoint p,
     ps_allowed = pc_allowed p, ps_handshake = None, ps_rx = 0, ps_tx = 0, ps_keepalive = pc_keepalive p\<rparr>"

text \<open>Assignment to a Go map entry keyed by the peer's public key.\<close>

definition put_peer :: "peer_state \<Rightarrow> peer_state list \<Rightarrow> peer_state list" where
  "put_peer st ps = (if ps_key st \<in> ps_key ` set ps
     then map (\<lambda>q. if ps_key q = ps_key st then st else q) ps else ps @ [st])"

definition carry_runtime :: "peer_state \<Rightarrow> peer_state \<Rightarrow> peer_state" where
  "carry_runtime old st = st\<lparr>ps_handshake := ps_handshake old, ps_rx := ps_rx old, ps_tx := ps_tx old\<rparr>"

definition apply_peers :: "peer_state list \<Rightarrow> peer_config list \<Rightarrow> peer_state list" where
  "apply_peers old cfg = fold (\<lambda>p acc. put_peer (case find_row ps_key (pc_key p) old of
       Some q \<Rightarrow> carry_runtime q (peerState p) | None \<Rightarrow> peerState p) acc) cfg []"

definition applied_iface :: "interface_config \<Rightarrow> fake_interface \<Rightarrow> fake_interface" where
  "applied_iface cfg i = i\<lparr>fi_cfg := Some cfg,
     fi_spec := (fi_spec i)\<lparr>sp_port := (if ic_port cfg \<noteq> 0 then ic_port cfg else sp_port (fi_spec i)),
                           sp_obf := ic_obf cfg\<rparr>,
     fi_fwmark := (if ic_fwmark cfg \<noteq> [] then
        (case parse_uint_auto 32 (ic_fwmark cfg) of Some m \<Rightarrow> int m | None \<Rightarrow> 0) else 0),
     fi_peers := apply_peers (fi_peers i) (ic_peers cfg)\<rparr>"

definition fake_Apply :: "fake_state \<Rightarrow> string \<Rightarrow> interface_config \<Rightarrow> unit result \<times> fake_state" where
  "fake_Apply b n cfg = (case fake_fail OpApply b of
     (Some e, b') \<Rightarrow> (Inl e, b')
   | (None, b') \<Rightarrow> (case map_of (fk_ifaces b') n of
         None \<Rightarrow> (Inl ErrInterfaceNotFound, b')
       | Some i \<Rightarrow> (Inr (), fake_put n (applied_iface cfg i) (fake_record OpApply n b'))))"

definition containsPeer :: "peer_config list \<Rightarrow> string \<Rightarrow> bool" where
  "containsPeer peers key \<longleftrightarrow> list_ex (\<lambda>p. pc_key p = key) peers"

definition sync_peers :: "peer_state list \<Rightarrow> peer_config list \<Rightarrow> peer_state list" where
  "sync_peers old cfg =
     fold (\<lambda>p acc. put_peer (case find_row ps_key (pc_key p) acc of
         Some q \<Rightarrow> carry_runtime q (let st = peerState p
                     in if pc_psk p = [] then st\<lparr>ps_psk_set := ps_psk_set q\<rparr> else st)
       | None \<Rightarrow> peerState p) acc) cfg (filter (\<lambda>q. containsPeer cfg (ps_key q)) old)"

definition fake_Sync :: "fake_state \<Rightarrow> string \<Rightarrow> peer_config list \<Rightarrow> unit result \<times> fake_state" where
  "fake_Sync b n peers = (case fake_fail OpSync b of
     (Some e, b') \<Rightarrow> (Inl e, b')
   | (None, b') \<Rightarrow> (case map_of (fk_ifaces b') n of
         None \<Rightarrow> (Inl ErrInterfaceNotFound, b')
       | Some i \<Rightarrow> (Inr (), fake_put n (i\<lparr>fi_peers := sync_peers (fi_peers i) peers\<rparr>) (fake_record OpSync n b'))))"

definition fake_Dump :: "fake_state \<Rightarrow> string \<Rightarrow> interface_state result" where
  "fake_Dump b n = (case map_of (fk_ifaces b) n of
     None \<Rightarrow> Inl ErrInterfaceNotFound
   | Some i \<Rightarrow> Inr \<lparr>is_name = n, is_mode = [], is_public = fi_public i, is_port = sp_port (fi_spec i),
       is_fwmark = fi_fwmark i, is_obf = sp_obf (fi_spec i), is_peers = fi_peers i\<rparr>)"

definition fake_SetPeerActivity ::
  "fake_state \<Rightarrow> string \<Rightarrow> string \<Rightarrow> time option \<Rightarrow> int \<Rightarrow> int \<Rightarrow> unit result \<times> fake_state" where
  "fake_SetPeerActivity b n key handshake rx tx = (case map_of (fk_ifaces b) n of
     None \<Rightarrow> (Inl ErrInterfaceNotFound, b)
   | Some i \<Rightarrow> (case find_row ps_key key (fi_peers i) of
         None \<Rightarrow> (Inl (Foreign ''fake: peer not on interface''), b)
       | Some st \<Rightarrow> (Inr (), fake_put n (i\<lparr>fi_peers := put_peer
             (st\<lparr>ps_handshake := handshake, ps_rx := rx, ps_tx := tx\<rparr>) (fi_peers i)\<rparr>) b)))"

definition fake_SetPublicKey :: "fake_state \<Rightarrow> string \<Rightarrow> string \<Rightarrow> unit result \<times> fake_state" where
  "fake_SetPublicKey b n key = (case map_of (fk_ifaces b) n of
     None \<Rightarrow> (Inl ErrInterfaceNotFound, b)
   | Some i \<Rightarrow> (Inr (), fake_put n (i\<lparr>fi_public := key\<rparr>) b))"

definition fake_SetObfuscation :: "fake_state \<Rightarrow> string \<Rightarrow> obfuscation \<Rightarrow> unit result \<times> fake_state" where
  "fake_SetObfuscation b n ob = (case map_of (fk_ifaces b) n of
     None \<Rightarrow> (Inl ErrInterfaceNotFound, b)
   | Some i \<Rightarrow> (Inr (), fake_put n (i\<lparr>fi_spec := (fi_spec i)\<lparr>sp_obf := ob\<rparr>\<rparr>) b))"

definition fake_backend :: "fake_state backend" where
  "fake_backend = \<lparr>ListInterfaces = fake_List, CreateInterface = fake_Create,
     RemoveInterface = fake_Remove, ApplyInterfaceConfig = fake_Apply, SyncPeers = fake_Sync,
     Dump = fake_Dump, EnsureAddresses = Some fake_EnsureAddresses\<rparr>"

section \<open>The in-memory backend keeps the contract\<close>

definition fake_ok :: "fake_state \<Rightarrow> bool" where
  "fake_ok b \<longleftrightarrow> distinct (map fst (fk_ifaces b)) \<and> (\<forall>(n, i) \<in> set (fk_ifaces b). unique_on ps_key (fi_peers i))"

lemma fake_fail_ifaces: "fake_fail k b = (r, b') \<Longrightarrow> fk_ifaces b' = fk_ifaces b"
  by (auto simp: fake_fail_def split: option.splits)

lemma fake_record_ifaces [simp]: "fk_ifaces (fake_record k n b) = fk_ifaces b"
  by (simp add: fake_record_def)

lemma map_of_replace:
  "map_of (map (\<lambda>(m, x). (m, if m = n then i else x)) xs) m = (if m = n then map_option (\<lambda>_. i) (map_of xs m) else map_of xs m)"
  by (induction xs) auto

lemma map_of_fake_put:
  "map_of (fk_ifaces (fake_put n i b)) m = (if m = n then map_option (\<lambda>_. i) (map_of (fk_ifaces b) m) else map_of (fk_ifaces b) m)"
  by (simp add: fake_put_def map_of_replace)

lemma fake_put_ok:
  "fake_ok b \<Longrightarrow> unique_on ps_key (fi_peers i) \<Longrightarrow> fake_ok (fake_put n i b)"
  by (auto simp: fake_ok_def fake_put_def comp_def case_prod_beta)

lemma fake_ok_cong: "fk_ifaces b' = fk_ifaces b \<Longrightarrow> fake_ok b' = fake_ok b"
  by (simp add: fake_ok_def)

lemma fake_ok_peers: "fake_ok b \<Longrightarrow> map_of (fk_ifaces b) n = Some i \<Longrightarrow> unique_on ps_key (fi_peers i)"
  by (auto simp: fake_ok_def dest!: map_of_SomeD)

lemma put_peer_unique: "unique_on ps_key ps \<Longrightarrow> unique_on ps_key (put_peer st ps)"
proof -
  have "map ps_key (map (\<lambda>q. if ps_key q = ps_key st then st else q) ps) = map ps_key ps" by simp
  then show "unique_on ps_key ps \<Longrightarrow> ?thesis"
    by (auto simp: unique_on_def put_peer_def simp del: map_map)
qed

lemma put_peer_keys [simp]: "ps_key ` set (put_peer st ps) = insert (ps_key st) (ps_key ` set ps)"
  by (auto simp: put_peer_def image_iff)

lemma put_peer_set:
  assumes "q \<in> set (put_peer st ps)"
  shows "q = st \<or> (q \<in> set ps \<and> ps_key q \<noteq> ps_key st)"
proof (cases "ps_key st \<in> ps_key ` set ps")
  case False
  with assms have "q = st \<or> q \<in> set ps" by (auto simp: put_peer_def)
  with False show ?thesis by (metis image_eqI)
qed (use assms in \<open>auto simp: put_peer_def split: if_splits\<close>)

lemma peerState_simps [simp]: "ps_key (peerState p) = pc_key p" "ps_allowed (peerState p) = pc_allowed p"
  by (simp_all add: peerState_def)

lemma carry_simps [simp]: "ps_key (carry_runtime q st) = ps_key st" "ps_allowed (carry_runtime q st) = ps_allowed st"
  by (simp_all add: carry_runtime_def)

text \<open>Both peer loops assign one entry per configured peer.\<close>

locale peer_loop =
  fixes entry :: "peer_config \<Rightarrow> peer_state list \<Rightarrow> peer_state"
  assumes entry_key: "ps_key (entry p acc) = pc_key p"
    and entry_allowed: "ps_allowed (entry p acc) = pc_allowed p"
begin

lemma keys: "ps_key ` set (fold (\<lambda>p acc. put_peer (entry p acc) acc) cfg ini) = ps_key ` set ini \<union> pc_key ` set cfg"
  by (induction cfg arbitrary: ini) (auto simp: entry_key)

lemma unique: "unique_on ps_key ini \<Longrightarrow> unique_on ps_key (fold (\<lambda>p acc. put_peer (entry p acc) acc) cfg ini)"
  by (induction cfg arbitrary: ini) (auto simp: put_peer_unique)

lemma keeps: "q \<in> set (fold (\<lambda>p acc. put_peer (entry p acc) acc) cfg ini) \<Longrightarrow> ps_key q \<notin> pc_key ` set cfg \<Longrightarrow> q \<in> set ini"
proof (induction cfg arbitrary: ini)
  case (Cons p cfg)
  then have "q \<in> set (put_peer (entry p ini) ini)" by simp
  with Cons.prems(2) show ?case by (auto dest!: put_peer_set simp: entry_key)
qed simp

lemma allowed:
  "unique_on pc_key cfg \<Longrightarrow> q \<in> set (fold (\<lambda>p acc. put_peer (entry p acc) acc) cfg ini) \<Longrightarrow> c \<in> set cfg \<Longrightarrow>
     pc_key c = ps_key q \<Longrightarrow> ps_allowed q = pc_allowed c"
proof (induction cfg arbitrary: ini)
  case (Cons p cfg)
  show ?case
  proof (cases "c = p")
    case True
    with Cons.prems(1,4) have "ps_key q \<notin> pc_key ` set cfg" by (simp add: unique_on_def)
    with keeps[of q cfg "put_peer (entry p ini) ini"] Cons.prems(2) have "q \<in> set (put_peer (entry p ini) ini)" by simp
    then consider "q = entry p ini" | "ps_key q \<noteq> pc_key p" using put_peer_set[of q "entry p ini" ini] by (auto simp: entry_key)
    then show ?thesis by cases (use True Cons.prems(4) in \<open>simp_all add: entry_allowed\<close>)
  next
    case False
    with Cons.prems show ?thesis by (intro Cons.IH[of "put_peer (entry p ini) ini"]) (auto simp: unique_on_def)
  qed
qed simp

end

interpretation apply_loop: peer_loop "\<lambda>p acc. case find_row ps_key (pc_key p) old of
    Some q \<Rightarrow> carry_runtime q (peerState p) | None \<Rightarrow> peerState p" for old
  by unfold_locales (auto split: option.splits)

interpretation sync_loop: peer_loop "\<lambda>p acc. case find_row ps_key (pc_key p) acc of
    Some q \<Rightarrow> carry_runtime q (let st = peerState p in if pc_psk p = [] then st\<lparr>ps_psk_set := ps_psk_set q\<rparr> else st)
  | None \<Rightarrow> peerState p"
  by unfold_locales (auto simp: Let_def split: option.splits)

lemma apply_peers_facts:
  "ps_key ` set (apply_peers old cfg) = pc_key ` set cfg" "unique_on ps_key (apply_peers old cfg)"
  by (simp_all add: apply_peers_def apply_loop.keys apply_loop.unique unique_on_def[of _ "[]"])

lemma sync_peers_facts:
  shows "ps_key ` set (sync_peers old cfg) = pc_key ` set cfg"
    "unique_on ps_key old \<Longrightarrow> unique_on ps_key (sync_peers old cfg)"
    "unique_on pc_key cfg \<Longrightarrow> q \<in> set (sync_peers old cfg) \<Longrightarrow> c \<in> set cfg \<Longrightarrow> pc_key c = ps_key q \<Longrightarrow>
       ps_allowed q = pc_allowed c"
proof -
  have "ps_key ` set (filter (\<lambda>q. containsPeer cfg (ps_key q)) old) \<subseteq> pc_key ` set cfg"
    by (auto simp: containsPeer_def list_ex_iff intro: rev_image_eqI)
  then show "ps_key ` set (sync_peers old cfg) = pc_key ` set cfg"
    unfolding sync_peers_def sync_loop.keys by blast
  show "unique_on ps_key old \<Longrightarrow> unique_on ps_key (sync_peers old cfg)"
    unfolding sync_peers_def by (rule sync_loop.unique) (simp add: unique_on_def distinct_map_filter)
  show "unique_on pc_key cfg \<Longrightarrow> q \<in> set (sync_peers old cfg) \<Longrightarrow> c \<in> set cfg \<Longrightarrow> pc_key c = ps_key q \<Longrightarrow>
       ps_allowed q = pc_allowed c"
    unfolding sync_peers_def by (rule sync_loop.allowed)
qed

lemma map_of_filter_ne: "map_of (filter (\<lambda>(m, _). m \<noteq> n) xs) k = (if k = n then None else map_of xs k)"
  by (induction xs) auto

lemma fake_backend_sel [simp]:
  "ListInterfaces fake_backend = fake_List" "CreateInterface fake_backend = fake_Create"
  "RemoveInterface fake_backend = fake_Remove" "ApplyInterfaceConfig fake_backend = fake_Apply"
  "SyncPeers fake_backend = fake_Sync" "Dump fake_backend = fake_Dump"
  "EnsureAddresses fake_backend = Some fake_EnsureAddresses"
  by (simp_all add: fake_backend_def)

lemma fake_Dump_cong: "map_of (fk_ifaces b') n = map_of (fk_ifaces b) n \<Longrightarrow> fake_Dump b' n = fake_Dump b n"
  by (simp add: fake_Dump_def)

lemma fake_Create_cases:
  assumes "fake_Create b spec = (r, b')"
  obtains (fails) e where "r = Inl e" "fk_ifaces b' = fk_ifaces b"
  | (creates) i where "r = Inr ()" "sp_name spec \<notin> fst ` set (fk_ifaces b)" "fk_ifaces b' = fk_ifaces b @ [(sp_name spec, i)]"
      "fi_spec i = spec" "fi_peers i = []"
proof (cases "fake_fail OpCreate b")
  case (Pair e b0)
  note f = fake_fail_ifaces[OF Pair]
  consider x where "e = Some x" | "e = None" "sp_name spec \<in> fst ` set (fk_ifaces b0)"
    | "e = None" "sp_name spec \<notin> fst ` set (fk_ifaces b0)" by (cases e) auto
  then show ?thesis
  proof cases
    case 1
    with assms Pair f show ?thesis by (intro fails[of x]) (auto simp: fake_Create_def)
  next
    case 2
    with assms Pair f show ?thesis
      by (intro fails[of "Foreign ''fake: interface already exists''"]) (auto simp: fake_Create_def)
  next
    case 3
    with assms Pair f show ?thesis
      by (intro creates[of "\<lparr>fi_spec = spec, fi_cfg = None, fi_public = [], fi_peers = [], fi_fwmark = 0\<rparr>"])
        (auto simp: fake_Create_def)
  qed
qed

lemma fake_Remove_cases:
  assumes "fake_Remove b n = (r, b')"
  obtains (fails) e where "r = Inl e" "fk_ifaces b' = fk_ifaces b"
  | (removes) "r = Inr ()" "fk_ifaces b' = filter (\<lambda>(m, _). m \<noteq> n) (fk_ifaces b)"
proof (cases "fake_fail OpRemove b")
  case (Pair e b0)
  note f = fake_fail_ifaces[OF Pair]
  show ?thesis
  proof (cases e)
    case None
    with assms Pair f show ?thesis
      by (cases "n \<in> fst ` set (fk_ifaces b0)") (auto simp: fake_Remove_def intro: fails removes)
  next
    case (Some x)
    with assms Pair f show ?thesis by (intro fails[of x]) (auto simp: fake_Remove_def)
  qed
qed

text \<open>The calls that replace one existing interface.\<close>

definition replaces :: "fake_state \<Rightarrow> string \<Rightarrow> fake_interface \<Rightarrow> fake_interface \<Rightarrow> fake_state \<Rightarrow> bool" where
  "replaces b n i j b' \<longleftrightarrow> map_of (fk_ifaces b) n = Some i \<and> fk_ifaces b' = fk_ifaces (fake_put n j b)"

lemma replaces_facts:
  assumes "replaces b n i j b'"
  shows "map_of (fk_ifaces b') m = (if m = n then Some j else map_of (fk_ifaces b) m)"
    "fake_ok b \<Longrightarrow> unique_on ps_key (fi_peers j) \<Longrightarrow> fake_ok b'"
    "map_of (fk_ifaces b) n = Some i"
proof -
  show "map_of (fk_ifaces b') m = (if m = n then Some j else map_of (fk_ifaces b) m)"
    using assms by (simp add: replaces_def map_of_fake_put)
  show "fake_ok b \<Longrightarrow> unique_on ps_key (fi_peers j) \<Longrightarrow> fake_ok b'"
    using assms fake_put_ok[of b j n] fake_ok_cong[of b' "fake_put n j b"] by (simp add: replaces_def)
  show "map_of (fk_ifaces b) n = Some i" using assms by (simp add: replaces_def)
qed

lemma fake_put_cong: "fk_ifaces b' = fk_ifaces b \<Longrightarrow> fk_ifaces (fake_put n j b') = fk_ifaces (fake_put n j b)"
  by (simp add: fake_put_def)

lemma fake_Apply_cases:
  assumes "fake_Apply b n cfg = (r, b')"
  obtains (fails) e where "r = Inl e" "fk_ifaces b' = fk_ifaces b"
  | (applies) i where "r = Inr ()" "replaces b n i (applied_iface cfg i) b'"
proof (cases "fake_fail OpApply b")
  case (Pair e b0)
  note f = fake_fail_ifaces[OF Pair]
  consider x where "e = Some x" | "e = None" "map_of (fk_ifaces b0) n = None"
    | i where "e = None" "map_of (fk_ifaces b0) n = Some i" by (cases e; cases "map_of (fk_ifaces b0) n") auto
  then show ?thesis
  proof cases
    case 1
    with assms Pair f show ?thesis by (intro fails[of x]) (auto simp: fake_Apply_def)
  next
    case 2
    with assms Pair f show ?thesis by (intro fails[of ErrInterfaceNotFound]) (auto simp: fake_Apply_def)
  next
    case 3
    with assms Pair f show ?thesis
      by (intro applies[of i]) (auto simp: fake_Apply_def replaces_def fake_put_def)
  qed
qed

lemma fake_Sync_cases:
  assumes "fake_Sync b n ps = (r, b')"
  obtains (fails) e where "r = Inl e" "fk_ifaces b' = fk_ifaces b"
  | (syncs) i where "r = Inr ()" "replaces b n i (i\<lparr>fi_peers := sync_peers (fi_peers i) ps\<rparr>) b'"
proof (cases "fake_fail OpSync b")
  case (Pair e b0)
  note f = fake_fail_ifaces[OF Pair]
  consider x where "e = Some x" | "e = None" "map_of (fk_ifaces b0) n = None"
    | i where "e = None" "map_of (fk_ifaces b0) n = Some i" by (cases e; cases "map_of (fk_ifaces b0) n") auto
  then show ?thesis
  proof cases
    case 1
    with assms Pair f show ?thesis by (intro fails[of x]) (auto simp: fake_Sync_def)
  next
    case 2
    with assms Pair f show ?thesis by (intro fails[of ErrInterfaceNotFound]) (auto simp: fake_Sync_def)
  next
    case 3
    with assms Pair f show ?thesis
      by (intro syncs[of i]) (auto simp: fake_Sync_def replaces_def fake_put_def)
  qed
qed

lemma fake_Ensure_cases:
  assumes "fake_EnsureAddresses b n addrs = (r, b')"
  obtains (fails) e where "r = Inl e" "b' = b"
  | (sets) i where "r = Inr ()" "replaces b n i (i\<lparr>fi_spec := (fi_spec i)\<lparr>sp_addresses := addrs\<rparr>\<rparr>) b'"
  using assms by (cases "map_of (fk_ifaces b) n") (auto simp: fake_EnsureAddresses_def replaces_def)

lemma fake_Dump_put:
  assumes "replaces b n i j b'"
  shows "fake_Dump b' m = (if m = n then Inr \<lparr>is_name = n, is_mode = [], is_public = fi_public j, is_port = sp_port (fi_spec j),
       is_fwmark = fi_fwmark j, is_obf = sp_obf (fi_spec j), is_peers = fi_peers j\<rparr> else fake_Dump b m)"
  by (simp add: fake_Dump_def replaces_facts(1)[OF assms])

lemma fake_ok_ops:
  assumes "fake_ok b"
  shows "fake_Create b spec = (r, b') \<Longrightarrow> fake_ok b'" "fake_Remove b n = (r, b') \<Longrightarrow> fake_ok b'"
    "fake_Apply b n cfg = (r, b') \<Longrightarrow> fake_ok b'" "fake_Sync b n ps = (r, b') \<Longrightarrow> fake_ok b'"
    "fake_EnsureAddresses b n addrs = (r, b') \<Longrightarrow> fake_ok b'"
proof -
  show "fake_Create b spec = (r, b') \<Longrightarrow> fake_ok b'"
    by (erule fake_Create_cases) (use assms in \<open>auto simp: fake_ok_def unique_on_def\<close>)
  show "fake_Remove b n = (r, b') \<Longrightarrow> fake_ok b'"
    by (erule fake_Remove_cases) (use assms in \<open>auto simp: fake_ok_def distinct_map_filter\<close>)
  show "fake_Apply b n cfg = (r, b') \<Longrightarrow> fake_ok b'"
    by (erule fake_Apply_cases, metis assms fake_ok_cong, erule replaces_facts(2))
      (simp_all add: assms applied_iface_def apply_peers_facts)
  show "fake_Sync b n ps = (r, b') \<Longrightarrow> fake_ok b'"
    by (erule fake_Sync_cases, metis assms fake_ok_cong, frule replaces_facts(3), erule replaces_facts(2))
      (auto simp: assms intro: sync_peers_facts(2) fake_ok_peers[OF assms])
  show "fake_EnsureAddresses b n addrs = (r, b') \<Longrightarrow> fake_ok b'"
    by (erule fake_Ensure_cases, simp add: assms, frule replaces_facts(3), erule replaces_facts(2))
      (auto simp: assms intro: fake_ok_peers[OF assms])
qed

lemma fake_frames:
  shows "fake_Create b spec = (r, b') \<Longrightarrow> m \<noteq> sp_name spec \<Longrightarrow> fake_Dump b' m = fake_Dump b m"
    "fake_Remove b n = (r, b') \<Longrightarrow> m \<noteq> n \<Longrightarrow> fake_Dump b' m = fake_Dump b m"
    "fake_Apply b n cfg = (r, b') \<Longrightarrow> m \<noteq> n \<Longrightarrow> fake_Dump b' m = fake_Dump b m"
    "fake_Sync b n ps = (r, b') \<Longrightarrow> m \<noteq> n \<Longrightarrow> fake_Dump b' m = fake_Dump b m"
    "fake_EnsureAddresses b n addrs = (r, b') \<Longrightarrow> fake_Dump b' m = fake_Dump b m"
proof -
  show "fake_Create b spec = (r, b') \<Longrightarrow> m \<noteq> sp_name spec \<Longrightarrow> fake_Dump b' m = fake_Dump b m"
    by (erule fake_Create_cases) (auto intro!: fake_Dump_cong simp: map_add_def split: option.splits)
  show "fake_Remove b n = (r, b') \<Longrightarrow> m \<noteq> n \<Longrightarrow> fake_Dump b' m = fake_Dump b m"
    by (erule fake_Remove_cases) (auto intro!: fake_Dump_cong simp: map_of_filter_ne)
  show "fake_Apply b n cfg = (r, b') \<Longrightarrow> m \<noteq> n \<Longrightarrow> fake_Dump b' m = fake_Dump b m"
    by (erule fake_Apply_cases) (auto intro!: fake_Dump_cong simp: fake_Dump_put)
  show "fake_Sync b n ps = (r, b') \<Longrightarrow> m \<noteq> n \<Longrightarrow> fake_Dump b' m = fake_Dump b m"
    by (erule fake_Sync_cases) (auto intro!: fake_Dump_cong simp: fake_Dump_put)
  show "fake_EnsureAddresses b n addrs = (r, b') \<Longrightarrow> fake_Dump b' m = fake_Dump b m"
    by (erule fake_Ensure_cases) (auto simp: fake_Dump_put, auto simp: fake_Dump_def dest: replaces_facts(3))
qed

text \<open>Injected failures are other errors than a missing interface.\<close>

definition fake_errs :: "fake_state \<Rightarrow> bool" where
  "fake_errs b \<longleftrightarrow> (\<forall>k. fk_fail b k \<noteq> Some ErrInterfaceNotFound)"

lemma fake_fail_errs: "fake_errs b \<Longrightarrow> fake_fail k b = (r, b') \<Longrightarrow> fake_errs b' \<and> r \<noteq> Some ErrInterfaceNotFound"
  by (auto simp: fake_fail_def fake_errs_def split: option.splits if_splits)

lemma fake_errs_ops:
  assumes "fake_errs b"
  shows "fake_Create b spec = (r, b') \<Longrightarrow> fake_errs b'" "fake_Remove b n = (r, b') \<Longrightarrow> fake_errs b'"
    "fake_Apply b n cfg = (r, b') \<Longrightarrow> fake_errs b'" "fake_Sync b n ps = (r, b') \<Longrightarrow> fake_errs b'"
    "fake_EnsureAddresses b n addrs = (r, b') \<Longrightarrow> fake_errs b'"
  using assms
  by (auto simp: fake_Create_def fake_Remove_def fake_Apply_def fake_Sync_def fake_EnsureAddresses_def fake_record_def fake_put_def
      fake_errs_def split: prod.splits option.splits if_splits dest!: fake_fail_errs[unfolded fake_errs_def, rotated])

interpretation fake: tunnel_backend fake_backend "\<lambda>b. fake_ok b \<and> fake_errs b"
proof unfold_locales
  fix b n st
  assume "fake_ok b \<and> fake_errs b" "Dump fake_backend b n = Inr st"
  then show "unique_on ps_key (is_peers st)"
    by (auto simp: fake_Dump_def fake_ok_peers split: option.splits)
next
  fix b spec b'
  assume "CreateInterface fake_backend b spec = (Inr (), b')"
  then show "\<exists>st. Dump fake_backend b' (sp_name spec) = Inr st \<and> is_peers st = [] \<and> is_port st = sp_port spec
      \<and> is_obf st = sp_obf spec"
    by simp (erule fake_Create_cases, auto simp: fake_Dump_def map_add_def simp flip: map_of_eq_None_iff split: option.splits)
next
  fix b n b'
  assume "RemoveInterface fake_backend b n = (Inr (), b')"
  then show "Dump fake_backend b' n = Inl ErrInterfaceNotFound"
    by simp (erule fake_Remove_cases, auto simp: fake_Dump_def map_of_filter_ne)
next
  fix b n b'
  assume ok: "fake_ok b \<and> fake_errs b" and "RemoveInterface fake_backend b n = (Inl ErrInterfaceNotFound, b')"
  moreover obtain e b0 where f: "fake_fail OpRemove b = (e, b0)" by fastforce
  moreover have "e \<noteq> Some ErrInterfaceNotFound" using fake_fail_errs[OF _ f] ok by simp
  ultimately have "n \<notin> fst ` set (fk_ifaces b')"
    by (auto simp: fake_Remove_def split: option.splits if_splits)
  then show "Dump fake_backend b' n = Inl ErrInterfaceNotFound"
    by (simp add: fake_Dump_def flip: map_of_eq_None_iff)
next
  fix b n cfg b'
  assume "ApplyInterfaceConfig fake_backend b n cfg = (Inr (), b')"
  then show "\<exists>st. Dump fake_backend b' n = Inr st \<and> peer_keys st = pc_key ` set (ic_peers cfg)
        \<and> (ic_port cfg \<noteq> 0 \<longrightarrow> is_port st = ic_port cfg) \<and> is_obf st = ic_obf cfg"
    by simp (erule fake_Apply_cases, auto simp: fake_Dump_put applied_iface_def peer_keys_def apply_peers_facts)
next
  fix b n ps b' st0
  assume s: "SyncPeers fake_backend b n ps = (Inr (), b')" "unique_on pc_key ps" "Dump fake_backend b n = Inr st0"
  then obtain i where r: "replaces b n i (i\<lparr>fi_peers := sync_peers (fi_peers i) ps\<rparr>) b'"
    by simp (erule fake_Sync_cases, auto)
  then have d: "fake_Dump b' n = Inr \<lparr>is_name = n, is_mode = [], is_public = fi_public i, is_port = sp_port (fi_spec i),
      is_fwmark = fi_fwmark i, is_obf = sp_obf (fi_spec i), is_peers = sync_peers (fi_peers i) ps\<rparr>"
    by (simp add: fake_Dump_put)
  from s(3) show "\<exists>st. Dump fake_backend b' n = Inr st \<and> peer_keys st = pc_key ` set ps
        \<and> (\<forall>p \<in> set (is_peers st). \<forall>c \<in> set ps. pc_key c = ps_key p \<longrightarrow> ps_allowed p = pc_allowed c)
        \<and> is_port st = is_port st0 \<and> is_obf st = is_obf st0"
    using sync_peers_facts(3)[OF s(2)]
    by (auto simp: d fake_Dump_def[of b] replaces_facts(3)[OF r] peer_keys_def sync_peers_facts(1))
qed (simp_all only: fake_backend_sel option.inject, (blast intro: fake_ok_ops fake_errs_ops fake_frames)+)

end
