(* ===== verification/Samples.thy ===== *)
theory Samples
  imports Devices
begin

text \<open>
  Chart persistence (\<open>src/internal/accounting/samples.go\<close>): the in-memory accumulator of deltas,
  the flush into fine samples and hourly and daily rollups, and the retention pass. The
  accumulator's Go map is a list with one entry per key; its order stands for the arbitrary
  iteration order. SQLite adds integers exactly below \<open>2^63\<close>, which bounds every total here.
\<close>

type_synonym sample_key = "string \<times> time"
type_synonym sample_value = "int \<times> int"
type_synonym accumulator = "(sample_key \<times> sample_value) list"

record sample_row =
  s_device :: string
  s_ts :: time
  s_rx :: int
  s_tx :: int

record rollup_row =
  r_device :: string
  r_gran :: string
  r_start :: time
  r_rx :: int
  r_tx :: int

record charts =
  ch_samples :: "sample_row list"
  ch_rollups :: "rollup_row list"

section \<open>The accumulator\<close>

definition push :: "string \<Rightarrow> time \<Rightarrow> duration \<Rightarrow> int \<Rightarrow> int \<Rightarrow> accumulator \<Rightarrow> accumulator" where
  "push dev at interval rx tx a =
     (if rx = 0 \<and> tx = 0 then a
      else let bucket = (if 0 < interval then truncate_time at interval else at);
               k = (dev, bucket)
           in case map_of a k of
                None \<Rightarrow> a @ [(k, (u64 rx, u64 tx))]
              | Some _ \<Rightarrow> map (\<lambda>(k', v). (k', if k' = k then (u64 (fst v + rx), u64 (snd v + tx)) else v)) a)"

definition clearDevices :: "string list \<Rightarrow> accumulator \<Rightarrow> accumulator" where
  "clearDevices ids a = filter (\<lambda>((dev, _), _). dev \<notin> set ids) a"

definition take_batch :: "accumulator \<Rightarrow> accumulator \<times> accumulator" where
  "take_batch a = (a, [])"

section \<open>Flush\<close>

text \<open>\<open>INSERT .. ON CONFLICT(key) DO UPDATE SET ..\<close>\<close>

definition upsert :: "('r \<Rightarrow> 'k) \<Rightarrow> ('r \<Rightarrow> 'r \<Rightarrow> 'r) \<Rightarrow> 'r \<Rightarrow> 'r list \<Rightarrow> 'r list" where
  "upsert key merge row t =
     (if key row \<in> key ` set t then map (\<lambda>r. if key r = key row then merge r row else r) t else t @ [row])"

definition sample_id :: "sample_row \<Rightarrow> string \<times> time" where
  "sample_id r = (s_device r, s_ts r)"

definition rollup_id :: "rollup_row \<Rightarrow> string \<times> string \<times> time" where
  "rollup_id r = (r_device r, r_gran r, r_start r)"

definition sample_upsert :: "sample_row \<Rightarrow> sample_row list \<Rightarrow> sample_row list" where
  "sample_upsert = upsert sample_id (\<lambda>r new. r\<lparr>s_rx := s_rx r + s_rx new, s_tx := s_tx r + s_tx new\<rparr>)"

definition rollup_upsert :: "rollup_row \<Rightarrow> rollup_row list \<Rightarrow> rollup_row list" where
  "rollup_upsert = upsert rollup_id (\<lambda>r new. r\<lparr>r_rx := r_rx r + r_rx new, r_tx := r_tx r + r_tx new\<rparr>)"

definition hour :: duration where
  "hour = 3600 * 1000000000"

definition flush_entry :: "device list \<Rightarrow> sample_key \<times> sample_value \<Rightarrow> nat \<times> charts \<Rightarrow> nat \<times> charts" where
  "flush_entry devs e st =
     (case e of ((dev, bucket), (rx, tx)) \<Rightarrow>
        if dev \<notin> d_id ` set devs then st
        else (Suc (fst st),
          \<lparr>ch_samples = sample_upsert \<lparr>s_device = dev, s_ts = bucket, s_rx = i64 rx, s_tx = i64 tx\<rparr>
                          (ch_samples (snd st)),
           ch_rollups = rollup_upsert \<lparr>r_device = dev, r_gran = ''daily'',
                            r_start = truncate_time bucket (24 * hour), r_rx = i64 rx, r_tx = i64 tx\<rparr>
                         (rollup_upsert \<lparr>r_device = dev, r_gran = ''hourly'',
                            r_start = truncate_time bucket hour, r_rx = i64 rx, r_tx = i64 tx\<rparr>
                         (ch_rollups (snd st)))\<rparr>))"

definition FlushSamples :: "device list \<Rightarrow> charts \<Rightarrow> accumulator \<Rightarrow> nat \<times> charts \<times> accumulator" where
  "FlushSamples devs c a =
     (let (batch, a') = take_batch a
      in if batch = [] then (0, c, a')
         else let (written, c') = fold (flush_entry devs) batch (0, c) in (written, c', a'))"

section \<open>Retention\<close>

text \<open>The settings registry as the service sees it: absent, or a lookup that may fail.\<close>

type_synonym setting_source = "(string \<Rightarrow> int result) option"

definition retention :: "setting_source \<Rightarrow> string \<Rightarrow> int \<Rightarrow> int" where
  "retention reg key dflt = (case reg of None \<Rightarrow> dflt
     | Some get \<Rightarrow> (case get key of Inr v \<Rightarrow> if 0 < v then v else dflt | Inl _ \<Rightarrow> dflt))"

record prune_report =
  pr_samples :: nat
  pr_hourly :: nat
  pr_daily :: nat

definition prune_rollups :: "string \<Rightarrow> time \<Rightarrow> rollup_row list \<Rightarrow> rollup_row list" where
  "prune_rollups g cutoff = delete_rows (\<lambda>r. r_gran r = g \<and> text_key (r_start r) < text_key cutoff)"

definition Prune :: "setting_source \<Rightarrow> time \<Rightarrow> charts \<Rightarrow> prune_report \<times> charts" where
  "Prune reg now c =
     (let sampleHours = retention reg ''accounting.sample_retention_hours'' 48;
          hourlyDays = retention reg ''accounting.rollup_hourly_days'' 30;
          dailyDays = retention reg ''accounting.rollup_daily_days'' 365;
          samples = delete_rows (\<lambda>r. text_key (s_ts r) < text_key (now + i64 (- sampleHours * hour))) (ch_samples c);
          r1 = prune_rollups ''hourly'' (now - hourlyDays * (24 * hour)) (ch_rollups c);
          r2 = prune_rollups ''daily'' (now - dailyDays * (24 * hour)) r1
      in (\<lparr>pr_samples = length (ch_samples c) - length samples,
           pr_hourly = length (ch_rollups c) - length r1, pr_daily = length r1 - length r2\<rparr>,
          \<lparr>ch_samples = samples, ch_rollups = r2\<rparr>))"

section \<open>What a bucket holds\<close>

definition bucket_value :: "('r \<Rightarrow> 'k) \<Rightarrow> ('r \<Rightarrow> int) \<Rightarrow> 'k \<Rightarrow> 'r list \<Rightarrow> int" where
  "bucket_value key val k t = (case find_row key k t of None \<Rightarrow> 0 | Some r \<Rightarrow> val r)"

text \<open>An upsert that adds counters: the merged row keeps its key and sums its value.\<close>

locale adding_upsert =
  fixes key :: "'r \<Rightarrow> 'k" and merge :: "'r \<Rightarrow> 'r \<Rightarrow> 'r" and val :: "'r \<Rightarrow> int"
  assumes merge_key: "key (merge r new) = key r"
    and merge_val: "val (merge r new) = val r + val new"
begin

lemma find_upsert: "find_row key k (upsert key merge row t) =
    (if k = key row then Some (case find_row key k t of None \<Rightarrow> row | Some r \<Rightarrow> merge r row) else find_row key k t)"
proof (cases "key row \<in> key ` set t")
  case True
  have m: "find_row key k (map (\<lambda>r. if key r = key row then merge r row else r) t) =
      map_option (\<lambda>r. if key r = key row then merge r row else r) (find_row key k t)"
    by (induction t) (auto simp: find_row_Cons merge_key)
  have f: "find_row key (key row) t \<noteq> None" using True by (simp add: find_row_None_iff)
  have "upsert key merge row t = map (\<lambda>r. if key r = key row then merge r row else r) t"
    using True by (simp only: upsert_def if_True)
  with m f find_row_Some[of key k t] show ?thesis by (cases "find_row key k t") auto
next
  case False
  then have "find_row key (key row) t = None" "upsert key merge row t = t @ [row]"
    by (simp_all add: find_row_None_iff upsert_def)
  then show ?thesis by (auto simp: find_row_append find_row_Cons split: option.splits)
qed

lemma value_upsert:
  "bucket_value key val k (upsert key merge row t) = bucket_value key val k t + (if k = key row then val row else 0)"
  by (simp add: bucket_value_def find_upsert merge_val split: option.splits)

lemma unique_upsert: "unique_on key t \<Longrightarrow> unique_on key (upsert key merge row t)"
proof -
  have "map key (map (\<lambda>r. if key r = key row then merge r row else r) t) = map key t"
    by (simp add: merge_key)
  then show "unique_on key t \<Longrightarrow> ?thesis" by (auto simp: unique_on_def upsert_def simp del: map_map)
qed

end

interpretation sample_rx: adding_upsert sample_id "\<lambda>r new. r\<lparr>s_rx := s_rx r + s_rx new, s_tx := s_tx r + s_tx new\<rparr>" s_rx
  by unfold_locales (simp_all add: sample_id_def)

interpretation sample_tx: adding_upsert sample_id "\<lambda>r new. r\<lparr>s_rx := s_rx r + s_rx new, s_tx := s_tx r + s_tx new\<rparr>" s_tx
  by unfold_locales (simp_all add: sample_id_def)

interpretation rollup_rx: adding_upsert rollup_id "\<lambda>r new. r\<lparr>r_rx := r_rx r + r_rx new, r_tx := r_tx r + r_tx new\<rparr>" r_rx
  by unfold_locales (simp_all add: rollup_id_def)

interpretation rollup_tx: adding_upsert rollup_id "\<lambda>r new. r\<lparr>r_rx := r_rx r + r_rx new, r_tx := r_tx r + r_tx new\<rparr>" r_tx
  by unfold_locales (simp_all add: rollup_id_def)

abbreviation sample_bucket :: "(sample_row \<Rightarrow> int) \<Rightarrow> string \<Rightarrow> time \<Rightarrow> charts \<Rightarrow> int" where
  "sample_bucket val dev ts c \<equiv> bucket_value sample_id val (dev, ts) (ch_samples c)"

abbreviation rollup_bucket :: "(rollup_row \<Rightarrow> int) \<Rightarrow> string \<Rightarrow> string \<Rightarrow> time \<Rightarrow> charts \<Rightarrow> int" where
  "rollup_bucket val g dev start c \<equiv> bucket_value rollup_id val (dev, g, start) (ch_rollups c)"

definition charts_inv :: "charts \<Rightarrow> bool" where
  "charts_inv c \<longleftrightarrow> unique_on sample_id (ch_samples c) \<and> unique_on rollup_id (ch_rollups c)"

text \<open>The buffered amount of a device in the buckets selected by \<open>P\<close>.\<close>

definition buffered :: "(sample_value \<Rightarrow> int) \<Rightarrow> string \<Rightarrow> (time \<Rightarrow> bool) \<Rightarrow> accumulator \<Rightarrow> int" where
  "buffered val dev P a = (\<Sum>((d, b), v) \<leftarrow> a. if d = dev \<and> P b then val v else 0)"

lemma buffered_simps [simp]:
  "buffered val dev P [] = 0"
  "buffered val dev P (((d, b), v) # a) = (if d = dev \<and> P b then val v else 0) + buffered val dev P a"
  by (simp_all add: buffered_def)

definition small :: "accumulator \<Rightarrow> bool" where
  "small a \<longleftrightarrow> (\<forall>(k, (rx, tx)) \<in> set a. is_i64 rx \<and> is_i64 tx)"

lemma flush_fold:
  assumes "small a" "dev \<in> d_id ` set devs"
  shows "sample_bucket s_rx dev ts (snd (fold (flush_entry devs) a st)) =
           sample_bucket s_rx dev ts (snd st) + buffered fst dev (\<lambda>b. b = ts) a"
    "sample_bucket s_tx dev ts (snd (fold (flush_entry devs) a st)) =
           sample_bucket s_tx dev ts (snd st) + buffered snd dev (\<lambda>b. b = ts) a"
    "rollup_bucket r_rx ''hourly'' dev ts (snd (fold (flush_entry devs) a st)) =
           rollup_bucket r_rx ''hourly'' dev ts (snd st) + buffered fst dev (\<lambda>b. truncate_time b hour = ts) a"
    "rollup_bucket r_tx ''hourly'' dev ts (snd (fold (flush_entry devs) a st)) =
           rollup_bucket r_tx ''hourly'' dev ts (snd st) + buffered snd dev (\<lambda>b. truncate_time b hour = ts) a"
    "rollup_bucket r_rx ''daily'' dev ts (snd (fold (flush_entry devs) a st)) =
           rollup_bucket r_rx ''daily'' dev ts (snd st) + buffered fst dev (\<lambda>b. truncate_time b (24 * hour) = ts) a"
    "rollup_bucket r_tx ''daily'' dev ts (snd (fold (flush_entry devs) a st)) =
           rollup_bucket r_tx ''daily'' dev ts (snd st) + buffered snd dev (\<lambda>b. truncate_time b (24 * hour) = ts) a"
  using assms
  by (induction a arbitrary: st)
    (auto simp: small_def flush_entry_def sample_upsert_def rollup_upsert_def sample_rx.value_upsert sample_tx.value_upsert
      rollup_rx.value_upsert rollup_tx.value_upsert sample_id_def rollup_id_def split: prod.splits)

lemma flush_entry_inv: "charts_inv (snd st) \<Longrightarrow> charts_inv (snd (flush_entry devs e st))"
  by (auto simp: charts_inv_def flush_entry_def sample_upsert_def rollup_upsert_def sample_rx.unique_upsert
      rollup_rx.unique_upsert split: prod.splits)

lemma flush_fold_inv: "charts_inv (snd st) \<Longrightarrow> charts_inv (snd (fold (flush_entry devs) a st))"
  by (induction a arbitrary: st) (simp_all add: flush_entry_inv)

lemma flush_fold_count:
  "fst (fold (flush_entry devs) a st) = fst st + length (filter (\<lambda>((d, _), _). d \<in> d_id ` set devs) a)"
  by (induction a arbitrary: st) (auto simp: flush_entry_def split: prod.splits)

lemma flush_entry_dead:
  "dev \<notin> d_id ` set devs \<Longrightarrow> sample_bucket s_rx dev ts (snd (flush_entry devs e st)) = sample_bucket s_rx dev ts (snd st)"
  "dev \<notin> d_id ` set devs \<Longrightarrow> rollup_bucket r_rx g dev ts (snd (flush_entry devs e st)) = rollup_bucket r_rx g dev ts (snd st)"
  by (auto simp: flush_entry_def sample_upsert_def rollup_upsert_def sample_rx.value_upsert
      rollup_rx.value_upsert sample_id_def rollup_id_def split: prod.splits)

lemma flush_fold_dead:
  assumes "dev \<notin> d_id ` set devs"
  shows "sample_bucket s_rx dev ts (snd (fold (flush_entry devs) a st)) = sample_bucket s_rx dev ts (snd st)"
    "rollup_bucket r_rx g dev ts (snd (fold (flush_entry devs) a st)) = rollup_bucket r_rx g dev ts (snd st)"
  using assms by (induction a arbitrary: st) (simp_all add: flush_entry_dead)

lemma buffered_push:
  assumes "distinct (map fst a)" "0 \<le> rx" "rx < 18446744073709551616"
    and room: "\<And>v. map_of a (dev, truncate_time at interval) = Some v \<Longrightarrow> 0 \<le> fst v \<and> fst v + rx < 18446744073709551616"
    and "0 < interval"
  shows "buffered fst dev' P (push dev at interval rx tx a) =
    buffered fst dev' P a + (if dev' = dev \<and> P (truncate_time at interval) then rx else 0)"
proof (cases "rx = 0 \<and> tx = 0")
  case True
  then show ?thesis by (simp add: push_def)
next
  case ne: False
  let ?k = "(dev, truncate_time at interval)"
  let ?g = "\<lambda>(k', v). (k', if k' = ?k then (u64 (fst v + rx), u64 (snd v + tx)) else v)"
  show ?thesis
  proof (cases "map_of a ?k")
    case None
    with ne assms show ?thesis by (simp add: push_def buffered_def)
  next
    case (Some v)
    have upd: "distinct (map fst b) \<Longrightarrow> buffered fst dev' P (map ?g b) = buffered fst dev' P b
        + (case map_of b ?k of None \<Rightarrow> 0 | Some v \<Rightarrow>
             if dev' = dev \<and> P (truncate_time at interval) then u64 (fst v + rx) - fst v else 0)" for b :: accumulator
    proof (induction b)
      case (Cons e b)
      obtain d t w where e: "e = ((d, t), w)" by (metis surj_pair)
      from Cons.prems e have "map_of b (d, t) = None" by (simp add: map_of_eq_None_iff image_iff)
      with Cons e show ?case by (auto split: option.splits)
    qed simp
    have "buffered fst dev' P (map ?g a) = buffered fst dev' P a + (if dev' = dev \<and> P (truncate_time at interval) then rx else 0)"
      using upd[OF assms(1)] Some room[OF Some] assms(2) by simp
    moreover have "push dev at interval rx tx a = map ?g a" using ne assms(5) Some by (auto simp: push_def)
    ultimately show ?thesis by (simp only:)
  qed
qed

section \<open>Properties\<close>

text \<open>
  Flushing loses and invents nothing: for every device that still exists, every sample bucket
  and every hourly and daily rollup bucket grows by exactly what was buffered for it (received
  and sent), so that the three granularities stay in agreement; devices deleted meanwhile get no
  rows; the buffer is empty afterwards, the number of written rows is reported, and the tables
  keep one row per key.
\<close>
theorem flush_conserves:
  assumes "charts_inv c" "small a" "FlushSamples devs c a = (n, c', a')"
  shows "a' = [] \<and> charts_inv c' \<and> n = length (filter (\<lambda>((d, _), _). d \<in> d_id ` set devs) a)
    \<and> (\<forall>dev \<in> d_id ` set devs. \<forall>t.
         sample_bucket s_rx dev t c' = sample_bucket s_rx dev t c + buffered fst dev (\<lambda>b. b = t) a
       \<and> sample_bucket s_tx dev t c' = sample_bucket s_tx dev t c + buffered snd dev (\<lambda>b. b = t) a
       \<and> rollup_bucket r_rx ''hourly'' dev t c' = rollup_bucket r_rx ''hourly'' dev t c
            + buffered fst dev (\<lambda>b. truncate_time b hour = t) a
       \<and> rollup_bucket r_tx ''hourly'' dev t c' = rollup_bucket r_tx ''hourly'' dev t c
            + buffered snd dev (\<lambda>b. truncate_time b hour = t) a
       \<and> rollup_bucket r_rx ''daily'' dev t c' = rollup_bucket r_rx ''daily'' dev t c
            + buffered fst dev (\<lambda>b. truncate_time b (24 * hour) = t) a
       \<and> rollup_bucket r_tx ''daily'' dev t c' = rollup_bucket r_tx ''daily'' dev t c
            + buffered snd dev (\<lambda>b. truncate_time b (24 * hour) = t) a)
    \<and> (\<forall>dev g t. dev \<notin> d_id ` set devs \<longrightarrow> sample_bucket s_rx dev t c' = sample_bucket s_rx dev t c
         \<and> rollup_bucket r_rx g dev t c' = rollup_bucket r_rx g dev t c)"
proof -
  from assms(3) have f: "a' = []" "(n, c') = fold (flush_entry devs) a (0, c)"
    by (auto simp: FlushSamples_def take_batch_def split: if_splits prod.splits)
  then have s: "c' = snd (fold (flush_entry devs) a (0, c))" "n = fst (fold (flush_entry devs) a (0, c))"
    by (metis snd_conv, metis fst_conv)
  show ?thesis
    unfolding s
    by (intro conjI ballI allI impI)
      (use assms(1,2) f(1) in \<open>simp_all add: flush_fold flush_fold_dead flush_fold_inv flush_fold_count\<close>)
qed

theorem flush_conserves_witness:
  "sample_bucket s_rx ''d1'' 0 (fst (snd (FlushSamples [probe_device ''d1''] \<lparr>ch_samples = [], ch_rollups = []\<rparr>
     [((''d1'', 0), (5, 7))]))) = 5"
proof -
  let ?c = "\<lparr>ch_samples = [], ch_rollups = []\<rparr>" and ?a = "[((''d1'', 0), (5, 7))] :: accumulator"
  obtain n c' a' where f: "FlushSamples [probe_device ''d1''] ?c ?a = (n, c', a')" by (metis surj_pair)
  have "charts_inv ?c" "small ?a" by (simp_all add: charts_inv_def unique_on_def small_def is_i64_def)
  from flush_conserves[OF this f] f show ?thesis by (auto simp: probe_device_def bucket_value_def)
qed

text \<open>
  Retention. A sample is dropped when it is more than a second past its retention and kept
  when it is less old than that by a second (the comparison is of RFC 3339 texts, hence the
  second); hourly and daily rollups are kept by their own retention, and other rows never
  appear. With no registry the retention is 48 hours, 30 days and 365 days.
\<close>
theorem prune_respects_retention:
  assumes "Prune None now c = (rep, c')"
  shows "set (ch_samples c') \<subseteq> set (ch_samples c) \<and> set (ch_rollups c') \<subseteq> set (ch_rollups c)
    \<and> (\<forall>r \<in> set (ch_samples c). s_ts r \<ge> now - 48 * hour + 1000000000 \<longrightarrow> r \<in> set (ch_samples c'))
    \<and> (\<forall>r \<in> set (ch_samples c'). s_ts r > now - 48 * hour - 1000000000)
    \<and> (\<forall>r \<in> set (ch_rollups c). r_gran r = ''hourly'' \<and> r_start r \<ge> now - 30 * (24 * hour) + 1000000000
         \<longrightarrow> r \<in> set (ch_rollups c'))
    \<and> (\<forall>r \<in> set (ch_rollups c'). r_gran r = ''hourly'' \<longrightarrow> r_start r > now - 30 * (24 * hour) - 1000000000)
    \<and> (\<forall>r \<in> set (ch_rollups c). r_gran r = ''daily'' \<and> r_start r \<ge> now - 365 * (24 * hour) + 1000000000
         \<longrightarrow> r \<in> set (ch_rollups c'))
    \<and> (\<forall>r \<in> set (ch_rollups c'). r_gran r = ''daily'' \<longrightarrow> r_start r > now - 365 * (24 * hour) - 1000000000)"
proof -
  have kept: "\<not> text_key a < text_key b" if "b + 1000000000 \<le> a" for a b
    using text_key_le_if[OF that] by simp
  have dropped: "b - 1000000000 < a" if "\<not> text_key a < text_key b" for a b
    using text_key_le_if[of a b] that by fastforce
  have h: "i64 (- 48 * hour) = - 48 * hour" by (simp add: hour_def is_i64_def)
  from assms have c: "c' = \<lparr>ch_samples = delete_rows (\<lambda>r. text_key (s_ts r) < text_key (now - 48 * hour)) (ch_samples c),
      ch_rollups = prune_rollups ''daily'' (now - 365 * (24 * hour))
        (prune_rollups ''hourly'' (now - 30 * (24 * hour)) (ch_rollups c))\<rparr>"
    using h by (auto simp: Prune_def retention_def Let_def)
  show ?thesis
    unfolding c by (auto simp: prune_rollups_def dest!: dropped kept)
qed

theorem prune_respects_retention_witness:
  "ch_samples (snd (Prune None (72 * hour)
     \<lparr>ch_samples = [\<lparr>s_device = ''d1'', s_ts = 0, s_rx = 1, s_tx = 1\<rparr>], ch_rollups = []\<rparr>)) = []"
proof -
  let ?c = "\<lparr>ch_samples = [\<lparr>s_device = ''d1'', s_ts = 0, s_rx = 1, s_tx = 1\<rparr>], ch_rollups = []\<rparr>"
  obtain rep c' where f: "Prune None (72 * hour) ?c = (rep, c')" by (metis surj_pair)
  from prune_respects_retention[OF f] have "\<forall>r \<in> set (ch_samples c'). s_ts r > 24 * hour - 1000000000 \<and> s_ts r = 0"
    by auto
  then have "ch_samples c' = []" by (cases "ch_samples c'") (auto simp: hour_def)
  with f show ?thesis by simp
qed

end
