(* ===== verification/Accounting.thy ===== *)
theory Accounting
  imports Devices Tunnel Samples
begin

text \<open>
  The accounting pipeline (\<open>src/internal/accounting/accounting.go\<close>): the metering cycle with
  first-connection activation and the quota edge, the expiry pass, and the traffic mutations. The
  per-cycle records of the code are kept as records; Go maps are lists with one entry per key and
  their order stands for the arbitrary iteration order. Counters read from the tunnel are
  \<open>uint64\<close>, stored totals \<open>int64\<close>; the casts are written out.
\<close>

section \<open>Service and cycle state\<close>

text \<open>
  The optional collaborators: the reconciler works on the database and the tunnel, the hook
  \<open>AfterMetering\<close> on the database. The shaper only drives \<open>tc\<close> and is left out.
\<close>

record 'b accounting_service =
  ac_now :: time
  ac_recorder :: "recorder option"
  ac_reg :: setting_source
  ac_reconciler :: "(db \<Rightarrow> 'b \<Rightarrow> unit result \<times> db \<times> 'b) option"
  ac_after_metering :: "(db \<Rightarrow> nat \<times> error option \<times> db) option"

record cycle_report =
  rp_interfaces :: nat
  rp_deltas :: nat
  rp_rx :: int
  rp_tx :: int
  rp_activated :: nat
  rp_tripped :: nat
  rp_next_plan :: nat
  rp_errors :: "(string \<times> error) list"
  rp_reconciled :: bool
  rp_audit :: "(string \<times> string) list"

definition empty_report :: cycle_report where
  "empty_report = \<lparr>rp_interfaces = 0, rp_deltas = 0, rp_rx = 0, rp_tx = 0, rp_activated = 0,
     rp_tripped = 0, rp_next_plan = 0, rp_errors = [], rp_reconciled = False, rp_audit = []\<rparr>"

definition ReconcileNeeded :: "cycle_report \<Rightarrow> bool" where
  "ReconcileNeeded r \<longleftrightarrow> 0 < rp_activated r \<or> 0 < rp_tripped r \<or> 0 < rp_next_plan r"

record cycle_device =
  cd_id :: string
  cd_pubkey :: string
  cd_last_rx :: int
  cd_last_tx :: int
  cd_rx :: int
  cd_tx :: int
  cd_handshake :: "time option"
  cd_endpoint :: string
  cd_user :: string

datatype transition = NoTransition | Activated | QuotaTripped

record cycle_user =
  cu_id :: string
  cu_username :: string
  cu_status :: user_status
  cu_reason :: "disable_reason option"
  cu_limit :: "int option"
  cu_used_rx :: int
  cu_used_tx :: int
  cu_activity :: "time option"
  cu_activated :: "time option"
  cu_expires :: "time option"
  cu_duration :: "int option"
  cu_policy :: start_policy
  cu_deleted :: bool
  cu_delta_rx :: int
  cu_delta_tx :: int
  cu_transition :: transition
  cu_observed :: bool

section \<open>Loading\<close>

definition loadEnabledInterfaces :: "db \<Rightarrow> iface_row list" where
  "loadEnabledInterfaces s = sort_key i_name (filter i_enabled (ifaces s))"

text \<open>Scanning a negative column into a \<open>uint64\<close> fails.\<close>

definition load_device :: "device \<Rightarrow> cycle_device result" where
  "load_device d =
     (if d_last_rx d < 0 \<or> d_last_tx d < 0 \<or> d_rx d < 0 \<or> d_tx d < 0
      then Inl (Foreign ''accounting: scan row'')
      else Inr \<lparr>cd_id = d_id d, cd_pubkey = d_pubkey d, cd_last_rx = d_last_rx d, cd_last_tx = d_last_tx d,
        cd_rx = d_rx d, cd_tx = d_tx d, cd_handshake = d_handshake d, cd_endpoint = d_endpoint d,
        cd_user = d_user d\<rparr>)"

definition load_user :: "user \<Rightarrow> cycle_user" where
  "load_user u = \<lparr>cu_id = u_id u, cu_username = u_username u, cu_status = u_status u, cu_reason = u_reason u,
     cu_limit = u_limit u, cu_used_rx = u_used_rx u, cu_used_tx = u_used_tx u, cu_activity = u_activity u,
     cu_activated = u_activated u, cu_expires = u_expires u, cu_duration = u_duration u, cu_policy = u_policy u,
     cu_deleted = (u_deleted u \<noteq> None), cu_delta_rx = 0, cu_delta_tx = 0, cu_transition = NoTransition,
     cu_observed = False\<rparr>"

definition put_device :: "cycle_device \<Rightarrow> cycle_device list \<Rightarrow> cycle_device list" where
  "put_device = upsert cd_pubkey (\<lambda>_ new. new)"

definition load_row ::
  "db \<Rightarrow> device \<Rightarrow> cycle_device list \<times> cycle_user list \<Rightarrow> (cycle_device list \<times> cycle_user list) result" where
  "load_row s d acc =
     (case find_row u_id (d_user d) (users s) of
        None \<Rightarrow> Inr acc
      | Some u \<Rightarrow> ebind (load_device d) (\<lambda>cd.
          Inr (put_device cd (fst acc),
               if u_id u \<in> cu_id ` set (snd acc) then snd acc else snd acc @ [load_user u])))"

definition loadRows :: "db \<Rightarrow> (cycle_device list \<times> cycle_user list) result" where
  "loadRows s = efold (load_row s) (devices s) ([], [])"

section \<open>Metering\<close>

definition delta :: "int \<Rightarrow> int \<Rightarrow> int" where
  "delta lst cur = (if cur < lst then cur else cur - lst)"

text \<open>A nil stored instant is before every other one.\<close>

definition newer :: "time option \<Rightarrow> time option \<Rightarrow> bool" where
  "newer stored seen = (case seen of None \<Rightarrow> False
     | Some h \<Rightarrow> (case stored of None \<Rightarrow> True | Some t \<Rightarrow> t < h))"

definition device_changed :: "cycle_device \<Rightarrow> peer_state \<Rightarrow> bool" where
  "device_changed d p \<longleftrightarrow> delta (cd_last_rx d) (ps_rx p) \<noteq> 0 \<or> delta (cd_last_tx d) (ps_tx p) \<noteq> 0
     \<or> newer (cd_handshake d) (ps_handshake p)
     \<or> (ps_endpoint p \<noteq> [] \<and> ps_endpoint p \<noteq> cd_endpoint d)"

definition write_device :: "time \<Rightarrow> cycle_device \<Rightarrow> peer_state \<Rightarrow> device \<Rightarrow> device" where
  "write_device now d p r = r\<lparr>
     d_rx := i64 (u64 (cd_rx d + delta (cd_last_rx d) (ps_rx p))),
     d_tx := i64 (u64 (cd_tx d + delta (cd_last_tx d) (ps_tx p))),
     d_last_rx := i64 (ps_rx p), d_last_tx := i64 (ps_tx p),
     d_handshake := (if newer (cd_handshake d) (ps_handshake p) then ps_handshake p else cd_handshake d),
     d_endpoint := (if ps_endpoint p \<noteq> [] then ps_endpoint p else cd_endpoint d),
     d_updated := now\<rparr>"

definition charge_user :: "cycle_device \<Rightarrow> peer_state \<Rightarrow> cycle_user \<Rightarrow> cycle_user" where
  "charge_user d p u =
     (let dRX = delta (cd_last_rx d) (ps_rx p); dTX = delta (cd_last_tx d) (ps_tx p);
          u1 = (if dRX \<noteq> 0 \<or> dTX \<noteq> 0
                then u\<lparr>cu_delta_rx := i64 (cu_delta_rx u + i64 dRX), cu_delta_tx := i64 (cu_delta_tx u + i64 dTX)\<rparr>
                else u)
      in if newer (cu_activity u1) (ps_handshake p)
         then u1\<lparr>cu_activity := ps_handshake p, cu_observed := True\<rparr> else u1)"

record cycle_state =
  cs_db :: db
  cs_users :: "cycle_user list"
  cs_report :: cycle_report
  cs_samples :: accumulator

definition observe_peer ::
  "time \<Rightarrow> duration \<Rightarrow> cycle_device list \<Rightarrow> peer_state \<Rightarrow> cycle_state \<Rightarrow> cycle_state" where
  "observe_peer now interval devs p st =
     (case find_row cd_pubkey (ps_key p) devs of
        None \<Rightarrow> st
      | Some d \<Rightarrow>
          if \<not> device_changed d p then st
          else
            let dRX = delta (cd_last_rx d) (ps_rx p); dTX = delta (cd_last_tx d) (ps_tx p); rep = cs_report st
            in \<lparr>cs_db = (cs_db st)\<lparr>devices := update_rows (\<lambda>r. d_id r = cd_id d) (write_device now d p) (devices (cs_db st))\<rparr>,
                cs_users = update_rows (\<lambda>u. cu_id u = cd_user d) (charge_user d p) (cs_users st),
                cs_report = (if dRX \<noteq> 0 \<or> dTX \<noteq> 0
                  then rep\<lparr>rp_deltas := Suc (rp_deltas rep), rp_rx := u64 (rp_rx rep + dRX), rp_tx := u64 (rp_tx rep + dTX)\<rparr>
                  else rep),
                cs_samples = (if dRX \<noteq> 0 \<or> dTX \<noteq> 0 then push (cd_id d) now interval dRX dTX (cs_samples st)
                  else cs_samples st)\<rparr>)"

section \<open>Lifecycle edges of the cycle\<close>

definition activates :: "cycle_user \<Rightarrow> bool" where
  "activates u \<longleftrightarrow> \<not> cu_deleted u \<and> cu_status u = UserWaitingFirstConnection \<and> cu_observed u"

definition activate :: "time \<Rightarrow> cycle_user \<Rightarrow> cycle_user" where
  "activate now u =
     (if activates u
      then u\<lparr>cu_status := UserActive, cu_activated := Some now,
             cu_expires := (case cu_duration u of Some d \<Rightarrow> Some (now + go_seconds d) | None \<Rightarrow> cu_expires u),
             cu_transition := Activated\<rparr>
      else u)"

definition cycle_total :: "cycle_user \<Rightarrow> int" where
  "cycle_total u = i64 (cu_used_rx u + cu_delta_rx u + cu_used_tx u + cu_delta_tx u)"

definition trips :: "cycle_user \<Rightarrow> bool" where
  "trips u \<longleftrightarrow> \<not> cu_deleted u \<and> (\<exists>l \<in> set_option (cu_limit u). l \<le> cycle_total u)
     \<and> (cu_status u = UserActive \<or> cu_status u = UserWaitingFirstConnection)"

definition trip :: "cycle_user \<Rightarrow> cycle_user" where
  "trip u = (if trips u then u\<lparr>cu_status := UserTrafficExceeded, cu_reason := Some DisableTrafficLimit,
     cu_transition := QuotaTripped\<rparr> else u)"

definition untouched :: "cycle_user \<Rightarrow> bool" where
  "untouched u \<longleftrightarrow> cu_delta_rx u = 0 \<and> cu_delta_tx u = 0 \<and> cu_transition u = NoTransition \<and> \<not> cu_observed u"

definition write_user :: "time \<Rightarrow> cycle_user \<Rightarrow> user \<Rightarrow> user" where
  "write_user now u r = r\<lparr>u_used_rx := i64 (cu_used_rx u + cu_delta_rx u), u_used_tx := i64 (cu_used_tx u + cu_delta_tx u),
     u_activity := cu_activity u, u_status := cu_status u, u_reason := cu_reason u,
     u_activated := cu_activated u, u_expires := cu_expires u, u_updated := now\<rparr>"

definition cycle_event :: "cycle_user \<Rightarrow> payload" where
  "cycle_event u = [(''user_id'', JStr (cu_id u)), (''username'', JStr (cu_username u))]"

definition settle_user ::
  "time \<Rightarrow> recorder option \<Rightarrow> cycle_user \<Rightarrow> db \<times> cycle_report \<Rightarrow> (db \<times> cycle_report) result" where
  "settle_user now rc u st =
     (let u1 = activate now u; u2 = trip u1; (s, rep) = st
      in ebind (if activates u then record_opt rc s ''user.first_connected'' (cycle_event u) else Inr s) (\<lambda>s1.
         ebind (if trips u1 then record_opt rc s1 ''user.traffic_exceeded''
                  (cycle_event u @ [(''used_bytes'', JInt (cycle_total u1)), (''limit_bytes'', JInt (the (cu_limit u)))])
                else Inr s1) (\<lambda>s2.
         let rep1 = (if activates u then rep\<lparr>rp_activated := Suc (rp_activated rep),
                       rp_audit := rp_audit rep @ [(''user.activated'', cu_id u)]\<rparr> else rep);
             rep2 = (if trips u1 then rep1\<lparr>rp_tripped := Suc (rp_tripped rep1),
                       rp_audit := rp_audit rep1 @ [(''user.traffic_exceeded'', cu_id u)]\<rparr> else rep1)
         in Inr (if untouched u2 then s2
                 else s2\<lparr>users := update_rows (\<lambda>r. u_id r = cu_id u) (write_user now u2) (users s2)\<rparr>, rep2))))"

definition sampleInterval :: "setting_source \<Rightarrow> duration" where
  "sampleInterval reg = (case reg of None \<Rightarrow> 300 * 1000000000
     | Some get \<Rightarrow> (case get ''accounting.sample_flush_seconds'' of
          Inr n \<Rightarrow> if n \<le> 0 then 300 * 1000000000 else go_seconds n
        | Inl _ \<Rightarrow> 300 * 1000000000))"

text \<open>
  \<open>cycleTx\<close> also returns the accumulator: pushes into it are not undone when the transaction
  rolls back.
\<close>

definition cycleTx ::
  "'b accounting_service \<Rightarrow> peer_state list \<Rightarrow> cycle_report \<Rightarrow> accumulator \<Rightarrow> db
     \<Rightarrow> (cycle_report \<times> db) result \<times> accumulator" where
  "cycleTx svc observed rep acc s =
     (case loadRows s of
        Inl e \<Rightarrow> (Inl e, acc)
      | Inr (devs, us) \<Rightarrow>
          if devs = [] then (Inr (rep, s), acc)
          else
            let now = ac_now svc;
                st = fold (observe_peer now (sampleInterval (ac_reg svc)) devs) observed
                       \<lparr>cs_db = s, cs_users = us, cs_report = rep, cs_samples = acc\<rparr>
            in (ebind (efold (settle_user now (ac_recorder svc)) (cs_users st) (cs_db st, cs_report st))
                  (\<lambda>(s', rep'). Inr (rep', s')),
                cs_samples st))"

section \<open>The cycle\<close>

definition put_observed :: "peer_state \<Rightarrow> peer_state list \<Rightarrow> peer_state list" where
  "put_observed = upsert ps_key (\<lambda>_ new. new)"

fun dump_all ::
  "'b backend \<Rightarrow> 'b \<Rightarrow> string list \<Rightarrow> peer_state list \<times> bool \<times> (string \<times> error) list
     \<Rightarrow> peer_state list \<times> bool \<times> (string \<times> error) list" where
  "dump_all bk b [] st = st"
| "dump_all bk b (n # ns) (obs, complete, errs) =
     (case Dump bk b n of
        Inl e \<Rightarrow> dump_all bk b ns (obs, False, if e = ErrInterfaceNotFound then errs else errs @ [(n, e)])
      | Inr st \<Rightarrow> dump_all bk b ns (fold put_observed (is_peers st) obs, complete, errs))"

definition RunCycle ::
  "'b accounting_service \<Rightarrow> 'b backend \<Rightarrow> db \<Rightarrow> 'b \<Rightarrow> accumulator
     \<Rightarrow> cycle_report result \<times> db \<times> 'b \<times> accumulator" where
  "RunCycle svc bk s b acc =
     (let ifs = loadEnabledInterfaces s;
          (observed, complete, errs) = dump_all bk b (map i_name ifs) ([], True, []);
          rep0 = empty_report\<lparr>rp_interfaces := length ifs, rp_errors := errs\<rparr>;
          (res, acc') = cycleTx svc observed rep0 acc s
      in case WithTx s (\<lambda>_. res) of
           (Inl e, s1) \<Rightarrow> (Inl e, s1, b, acc')
         | (Inr rep1, s1) \<Rightarrow>
             let (rep2, s2) = (case ac_after_metering svc of
                   Some hook \<Rightarrow>
                     if complete then
                       let (n, err, s') = hook s1;
                           rep' = rep1\<lparr>rp_next_plan := n\<rparr>
                       in (case err of None \<Rightarrow> rep' | Some e \<Rightarrow> rep'\<lparr>rp_errors := rp_errors rep' @ [(''*'', e)]\<rparr>, s')
                     else (rep1, s1)
                 | None \<Rightarrow> (rep1, s1))
             in case ac_reconciler svc of
                  Some run \<Rightarrow>
                    if ReconcileNeeded rep2 then
                      (case run s2 b of
                         (Inl e, s3, b3) \<Rightarrow> (Inr (rep2\<lparr>rp_errors := rp_errors rep2 @ [(''*'', e)]\<rparr>), s3, b3, acc')
                       | (Inr _, s3, b3) \<Rightarrow> (Inr (rep2\<lparr>rp_reconciled := True\<rparr>), s3, b3, acc'))
                    else (Inr rep2, s2, b, acc')
                | None \<Rightarrow> (Inr rep2, s2, b, acc'))"

section \<open>Expiry\<close>

definition expiry_due :: "time \<Rightarrow> user \<Rightarrow> bool" where
  "expiry_due now u \<longleftrightarrow> u_deleted u = None \<and> (\<exists>e \<in> set_option (u_expires u). text_key e < text_key now)
     \<and> (u_status u = UserActive \<or> u_status u = UserWaitingFirstConnection)"

definition expire_row :: "time \<Rightarrow> user \<Rightarrow> user" where
  "expire_row now u = u\<lparr>u_status := UserExpired, u_reason := Some DisableExpired, u_updated := now\<rparr>"

definition expiry_tx :: "'b accounting_service \<Rightarrow> db \<Rightarrow> (nat \<times> db) result" where
  "expiry_tx svc s =
     (let now = ac_now svc; due = filter (expiry_due now) (users s)
      in if due = [] then Inr (0, s)
         else ebind (record_all (ac_recorder svc) (map (\<lambda>u. (''user.expired'', user_event u)) due)
                  (s\<lparr>users := update_rows (expiry_due now) (expire_row now) (users s)\<rparr>))
                (\<lambda>s'. Inr (length due, s')))"

definition EnforceExpiry :: "'b accounting_service \<Rightarrow> db \<Rightarrow> 'b \<Rightarrow> nat result \<times> db \<times> 'b" where
  "EnforceExpiry svc s b =
     (case WithTx s (expiry_tx svc) of
        (Inl e, s1) \<Rightarrow> (Inl e, s1, b)
      | (Inr n, s1) \<Rightarrow>
          if 0 < n then
            (case ac_reconciler svc of
               None \<Rightarrow> (Inr n, s1, b)
             | Some run \<Rightarrow> (case run s1 b of (Inl e, s2, b2) \<Rightarrow> (Inl e, s2, b2) | (Inr _, s2, b2) \<Rightarrow> (Inr n, s2, b2)))
          else (Inr n, s1, b))"

section \<open>Traffic mutations\<close>

text \<open>The row of a live account, and the state a blocked account is reactivated to.\<close>

definition live_user :: "db \<Rightarrow> string \<Rightarrow> user result" where
  "live_user s uid = (case find (\<lambda>u. u_id u = uid \<and> u_deleted u = None) (users s) of
     None \<Rightarrow> E CodeUserNotFound | Some u \<Rightarrow> Inr u)"

definition revived_status :: "user \<Rightarrow> user_status" where
  "revived_status u = (if u_activated u = None \<and> u_policy u = StartFirstConnection
     then UserWaitingFirstConnection else UserActive)"

definition set_columns ::
  "time \<Rightarrow> int \<Rightarrow> int \<Rightarrow> user_status \<Rightarrow> disable_reason option \<Rightarrow> user \<Rightarrow> user" where
  "set_columns now rx tx st reason r =
     r\<lparr>u_used_rx := rx, u_used_tx := tx, u_status := st, u_reason := reason, u_updated := now\<rparr>"

definition ResetTraffic ::
  "'b accounting_service \<Rightarrow> db \<Rightarrow> accumulator \<Rightarrow> string \<Rightarrow> unit result \<times> db \<times> accumulator" where
  "ResetTraffic svc s acc uid =
     (case WithTx s (\<lambda>s. ebind (live_user s uid) (\<lambda>u.
          let st = (if u_status u = UserTrafficExceeded then revived_status u else u_status u);
              s1 = s\<lparr>users := update_rows (\<lambda>r. u_id r = uid) (set_columns (ac_now svc) 0 0 st None) (users s)\<rparr>;
              s2 = s1\<lparr>devices := update_rows (\<lambda>d. d_user d = uid) (\<lambda>d. d\<lparr>d_rx := 0, d_tx := 0\<rparr>) (devices s1)\<rparr>
          in Inr (map d_id (filter (\<lambda>d. d_user d = uid) (devices s2)), s2))) of
        (Inl e, s1) \<Rightarrow> (Inl e, s1, acc)
      | (Inr ids, s1) \<Rightarrow> (Inr (), s1, clearDevices ids acc))"

record quota_snapshot =
  qs_limit :: int
  qs_used_rx :: int
  qs_used_tx :: int
  qs_status :: user_status

record quota_change =
  qc_username :: string
  qc_before :: quota_snapshot
  qc_after :: quota_snapshot

definition AddQuotaTx :: "'b accounting_service \<Rightarrow> string \<Rightarrow> int \<Rightarrow> db \<Rightarrow> (quota_change \<times> db) result" where
  "AddQuotaTx svc uid bytes s =
     (if bytes \<le> 0 then E CodeInvalidRequest
      else ebind (live_user s uid) (\<lambda>u.
        case u_limit u of
          None \<Rightarrow> E CodeInvalidRequest
        | Some l \<Rightarrow>
            if i64 (MaxInt64 - bytes) < l then E CodeInvalidRequest
            else
              let before = \<lparr>qs_limit = l, qs_used_rx = u_used_rx u, qs_used_tx = u_used_tx u, qs_status = u_status u\<rparr>;
                  l' = i64 (l + bytes);
                  revive = (u_status u = UserTrafficExceeded \<and> u_used_rx u \<le> i64 (MaxInt64 - u_used_tx u)
                            \<and> i64 (u_used_rx u + u_used_tx u) < l');
                  st = (if revive then revived_status u else u_status u);
                  s1 = s\<lparr>users := update_rows (\<lambda>r. u_id r = uid)
                         (\<lambda>r. r\<lparr>u_limit := Some l', u_status := st,
                            u_reason := (if revive then None else u_reason r), u_updated := ac_now svc\<rparr>) (users s)\<rparr>
              in ebind (record_all (ac_recorder svc)
                     ((if revive then [(''user.enabled'', user_event u)] else []) @ [(''user.updated'', user_event u)]) s1)
                   (\<lambda>s2. Inr (\<lparr>qc_username = u_username u, qc_before = before,
                       qc_after = before\<lparr>qs_limit := l', qs_status := st\<rparr>\<rparr>, s2))))"

definition AddQuota :: "'b accounting_service \<Rightarrow> db \<Rightarrow> string \<Rightarrow> int \<Rightarrow> int result \<times> db" where
  "AddQuota svc s uid bytes =
     (case WithTx s (AddQuotaTx svc uid bytes) of
        (Inl e, s1) \<Rightarrow> (Inl e, s1) | (Inr c, s1) \<Rightarrow> (Inr (qs_limit (qc_after c)), s1))"

text \<open>The level check the three meter corrections share: trip at the limit, unblock below it.\<close>

definition level_check :: "user \<Rightarrow> int \<Rightarrow> user_status \<times> disable_reason option" where
  "level_check u usage =
     (let st = u_status u;
          live = (st = UserActive \<or> st = UserWaitingFirstConnection);
          overLimit = (\<exists>l \<in> set_option (u_limit u). l \<le> usage)
      in if live \<and> overLimit then (UserTrafficExceeded, Some DisableTrafficLimit)
         else if st = UserTrafficExceeded \<and> (\<exists>l \<in> set_option (u_limit u). usage < l) then (revived_status u, None)
         else (st, None))"

definition write_meter :: "'b accounting_service \<Rightarrow> db \<Rightarrow> user \<Rightarrow> int \<Rightarrow> int \<Rightarrow> db" where
  "write_meter svc s u rx tx =
     (let (st, reason) = level_check u (i64 (rx + tx))
      in s\<lparr>users := update_rows (\<lambda>r. u_id r = u_id u) (set_columns (ac_now svc) rx tx st reason) (users s)\<rparr>)"

definition SetTraffic ::
  "'b accounting_service \<Rightarrow> db \<Rightarrow> string \<Rightarrow> int option \<Rightarrow> int option \<Rightarrow> unit result \<times> db" where
  "SetTraffic svc s uid rx tx =
     (if (\<exists>v \<in> set_option rx. v < 0) \<or> (\<exists>v \<in> set_option tx. v < 0) then (E CodeInvalidRequest, s)
      else if rx = None \<and> tx = None then (E CodeInvalidRequest, s)
      else WithTx s (\<lambda>s. ebind (live_user s uid) (\<lambda>u.
        Inr ((), write_meter svc s u (case rx of Some v \<Rightarrow> v | None \<Rightarrow> u_used_rx u)
                   (case tx of Some v \<Rightarrow> v | None \<Rightarrow> u_used_tx u)))))"

definition saturating_add :: "int \<Rightarrow> int \<Rightarrow> int" where
  "saturating_add used d = (if d \<le> 0 then used else if i64 (MaxInt64 - used) < d then MaxInt64 else i64 (used + d))"

definition addTraffic :: "'b accounting_service \<Rightarrow> db \<Rightarrow> string \<Rightarrow> int \<Rightarrow> int \<Rightarrow> unit result \<times> db" where
  "addTraffic svc s uid drx dtx = WithTx s (\<lambda>s. ebind (live_user s uid) (\<lambda>u.
     Inr ((), write_meter svc s u (saturating_add (u_used_rx u) drx) (saturating_add (u_used_tx u) dtx))))"

definition AddTraffic :: "'b accounting_service \<Rightarrow> db \<Rightarrow> string \<Rightarrow> int \<Rightarrow> int \<Rightarrow> unit result \<times> db" where
  "AddTraffic svc s uid rx tx =
     (if rx < 0 \<or> tx < 0 \<or> i64 (rx + tx) \<le> 0 then (E CodeInvalidRequest, s) else addTraffic svc s uid rx tx)"

definition adjusted :: "int \<Rightarrow> int \<Rightarrow> int \<Rightarrow> int \<times> int" where
  "adjusted rx tx d =
     (if 0 \<le> d then (if i64 (MaxInt64 - rx) < d then MaxInt64 else i64 (rx + d), tx)
      else let newRX = i64 (rx + d)
           in if newRX < 0 then (0, if i64 (tx + newRX) < 0 then 0 else i64 (tx + newRX)) else (newRX, tx))"

definition adjustTraffic :: "'b accounting_service \<Rightarrow> db \<Rightarrow> string \<Rightarrow> int \<Rightarrow> unit result \<times> db" where
  "adjustTraffic svc s uid d = WithTx s (\<lambda>s. ebind (live_user s uid) (\<lambda>u.
     let (rx, tx) = adjusted (u_used_rx u) (u_used_tx u) d in Inr ((), write_meter svc s u rx tx)))"

definition removeTraffic :: "'b accounting_service \<Rightarrow> db \<Rightarrow> string \<Rightarrow> int \<Rightarrow> unit result \<times> db" where
  "removeTraffic svc s uid bytes = adjustTraffic svc s uid (i64 (- bytes))"

definition RemoveTraffic :: "'b accounting_service \<Rightarrow> db \<Rightarrow> string \<Rightarrow> int \<Rightarrow> unit result \<times> db" where
  "RemoveTraffic svc s uid bytes =
     (if bytes \<le> 0 then (E CodeInvalidRequest, s) else removeTraffic svc s uid bytes)"

end
