(* ===== verification/Metering.thy ===== *)
theory Metering
  imports Accounting "HOL-Library.Multiset"
begin

text \<open>
  What a metering cycle does. The loops of \<open>cycleTx\<close> are first put in closed form, one row at a
  time: \<open>metered\<close> is what happens to a device row and \<open>cycled\<close> what happens to an account row, for
  any recorder that leaves the domain tables alone (the locale \<open>accounting_svc\<close>). The properties
  follow from the closed forms: what is charged, which lifecycle edges a cycle takes, that the
  quota holds afterwards, that the iteration order is irrelevant, and what the delta rule measures
  over a whole run of observations with counter resets.
\<close>

section \<open>The rows the cycle works on\<close>

definition cdev :: "device \<Rightarrow> cycle_device" where
  "cdev d = \<lparr>cd_id = d_id d, cd_pubkey = d_pubkey d, cd_last_rx = d_last_rx d, cd_last_tx = d_last_tx d,
     cd_rx = d_rx d, cd_tx = d_tx d, cd_handshake = d_handshake d, cd_endpoint = d_endpoint d, cd_user = d_user d\<rparr>"

lemma cdev_sel [simp]:
  "cd_id (cdev d) = d_id d" "cd_pubkey (cdev d) = d_pubkey d" "cd_last_rx (cdev d) = d_last_rx d"
  "cd_last_tx (cdev d) = d_last_tx d" "cd_rx (cdev d) = d_rx d" "cd_tx (cdev d) = d_tx d"
  "cd_handshake (cdev d) = d_handshake d" "cd_endpoint (cdev d) = d_endpoint d" "cd_user (cdev d) = d_user d"
  by (simp_all add: cdev_def)

definition counters_ok :: "device \<Rightarrow> bool" where
  "counters_ok d \<longleftrightarrow> 0 \<le> d_last_rx d \<and> 0 \<le> d_last_tx d \<and> 0 \<le> d_rx d \<and> 0 \<le> d_tx d"

lemma load_device_ok: "load_device d = Inr cd \<longleftrightarrow> counters_ok d \<and> cd = cdev d"
  by (auto simp: load_device_def counters_ok_def cdev_def)

lemma put_device_new: "cd_pubkey d \<notin> cd_pubkey ` set ds \<Longrightarrow> put_device d ds = ds @ [d]"
  by (simp add: put_device_def upsert_def)

lemma load_row_ok:
  assumes "find_row u_id (d_user d) (users s) = Some u"
  shows "load_row s d (ds, us) = Inr acc \<longleftrightarrow> counters_ok d \<and>
    acc = (put_device (cdev d) ds, if u_id u \<in> cu_id ` set us then us else us @ [load_user u])"
  using assms by (auto simp: load_row_def ebind_Inr_iff load_device_ok)

lemma loadRows_fold:
  assumes "efold (load_row s) ds (map cdev ds0, us) = Inr (devs, us')"
    and "unique_on d_pubkey (ds0 @ ds)" "\<And>d. d \<in> set ds \<Longrightarrow> d_user d \<in> u_id ` set (users s)" "unique_on u_id (users s)"
    and us: "unique_on cu_id us" "set us = load_user ` {u \<in> set (users s). u_id u \<in> d_user ` set ds0}"
  shows "devs = map cdev (ds0 @ ds) \<and> (\<forall>d \<in> set ds. counters_ok d) \<and> unique_on cu_id us'
    \<and> set us' = load_user ` {u \<in> set (users s). u_id u \<in> d_user ` set (ds0 @ ds)}"
  using assms(1-3) us
proof (induction ds arbitrary: ds0 us)
  case Nil
  then show ?case by simp
next
  case (Cons d ds)
  from Cons.prems(3) obtain u where u: "find_row u_id (d_user d) (users s) = Some u"
    by (metis find_row_None_iff list.set_intros(1) not_Some_eq)
  then have u': "u \<in> set (users s)" "u_id u = d_user d" by auto
  let ?us = "if u_id u \<in> cu_id ` set us then us else us @ [load_user u]"
  from Cons.prems(1) u have c: "counters_ok d"
    and f: "efold (load_row s) ds (put_device (cdev d) (map cdev ds0), ?us) = Inr (devs, us')"
    by (auto simp: ebind_Inr_iff load_row_ok[OF u])
  from Cons.prems(2) have "d_pubkey d \<notin> d_pubkey ` set ds0" by (auto simp: unique_on_def)
  then have "put_device (cdev d) (map cdev ds0) = map cdev (ds0 @ [d])"
    by (subst put_device_new) (auto simp: image_iff)
  with f have f': "efold (load_row s) ds (map cdev (ds0 @ [d]), ?us) = Inr (devs, us')" by simp
  have l: "cu_id (load_user v) = u_id v" for v by (simp add: load_user_def)
  have "cu_id ` set us = u_id ` {v \<in> set (users s). u_id v \<in> d_user ` set ds0}"
    by (simp add: Cons.prems(5) image_image l)
  moreover have "u_id u \<in> u_id ` {v \<in> set (users s). u_id v \<in> A} \<longleftrightarrow> d_user d \<in> A" for A
    using u' by (auto intro: rev_image_eqI[of u])
  ultimately have mem: "u_id u \<in> cu_id ` set us \<longleftrightarrow> d_user d \<in> d_user ` set ds0" by simp
  have "unique_on cu_id ?us" using Cons.prems(4) by (simp add: unique_on_append_one l)
  moreover have "set ?us = load_user ` {u \<in> set (users s). u_id u \<in> d_user ` set (ds0 @ [d])}"
  proof -
    have "{v \<in> set (users s). u_id v \<in> d_user ` set (ds0 @ [d])} = insert u {v \<in> set (users s). u_id v \<in> d_user ` set ds0}"
      using u' by (auto dest: unique_on_eq[OF assms(4) _ u'(1)])
    moreover have "set ?us = insert (load_user u) (set us)"
      using mem u' Cons.prems(5) by auto
    ultimately show ?thesis by (simp add: Cons.prems(5))
  qed
  ultimately have "devs = map cdev ((ds0 @ [d]) @ ds) \<and> (\<forall>d \<in> set ds. counters_ok d) \<and> unique_on cu_id us'
    \<and> set us' = load_user ` {u \<in> set (users s). u_id u \<in> d_user ` set ((ds0 @ [d]) @ ds)}"
    using Cons.prems(2,3) by (intro Cons.IH[OF f']) auto
  with c show ?case by simp
qed

lemma loadRows_ok:
  assumes "loadRows s = Inr (devs, us)" "devices_inv s" "unique_on u_id (users s)"
  shows "devs = map cdev (devices s)" "\<forall>d \<in> set (devices s). counters_ok d" "unique_on cu_id us"
    "set us = load_user ` {u \<in> set (users s). u_id u \<in> d_user ` set (devices s)}"
  using loadRows_fold[of s "devices s" "[]" "[]" devs us] assms
  by (simp_all add: loadRows_def devices_inv_def device_ok_def unique_on_def)

section \<open>The metering loop, row by row\<close>

definition meter_device :: "time \<Rightarrow> cycle_device list \<Rightarrow> peer_state \<Rightarrow> device \<Rightarrow> device" where
  "meter_device now devs p r = (case find_row cd_pubkey (ps_key p) devs of
     Some d \<Rightarrow> if device_changed d p \<and> d_id r = cd_id d then write_device now d p r else r | None \<Rightarrow> r)"

definition meter_user :: "cycle_device list \<Rightarrow> peer_state \<Rightarrow> cycle_user \<Rightarrow> cycle_user" where
  "meter_user devs p u = (case find_row cd_pubkey (ps_key p) devs of
     Some d \<Rightarrow> if device_changed d p \<and> cu_id u = cd_user d then charge_user d p u else u | None \<Rightarrow> u)"

lemma observe_fold:
  "devices (cs_db (fold (observe_peer now iv devs) obs st)) = map (fold (meter_device now devs) obs) (devices (cs_db st))"
  "cs_users (fold (observe_peer now iv devs) obs st) = map (fold (meter_user devs) obs) (cs_users st)"
  "\<exists>ds. cs_db (fold (observe_peer now iv devs) obs st) = (cs_db st)\<lparr>devices := ds\<rparr>"
proof (induction obs arbitrary: st)
  case (Cons p obs)
  have d: "devices (cs_db (observe_peer now iv devs p st)) = map (meter_device now devs p) (devices (cs_db st))" for st
    by (auto simp: observe_peer_def meter_device_def[abs_def] update_rows_def Let_def split: option.splits)
  have u: "cs_users (observe_peer now iv devs p st) = map (meter_user devs p) (cs_users st)" for st
    by (auto simp: observe_peer_def meter_user_def[abs_def] update_rows_def Let_def split: option.splits)
  have s: "\<exists>ds. cs_db (observe_peer now iv devs p st) = (cs_db st)\<lparr>devices := ds\<rparr>" for st
    by (auto simp: observe_peer_def Let_def split: option.splits intro: exI[of _ "devices (cs_db st)"])
  { case 1 show ?case by (simp only: fold_Cons o_apply Cons.IH(1) d map_map) (simp add: comp_def) }
  { case 2 show ?case by (simp only: fold_Cons o_apply Cons.IH(2) u map_map) (simp add: comp_def) }
  { case 3 show ?case using Cons.IH(3)[of "observe_peer now iv devs p st"] s[of st] by auto }
next
  case Nil
  { case 3 show ?case by (intro exI[of _ "devices (cs_db st)"]) simp }
qed simp_all

lemma write_device_sel [simp]:
  "d_id (write_device now d p r) = d_id r" "d_user (write_device now d p r) = d_user r"
  "d_pubkey (write_device now d p r) = d_pubkey r" "d_iface (write_device now d p r) = d_iface r"
  "d_name (write_device now d p r) = d_name r" "d_ipv4 (write_device now d p r) = d_ipv4 r"
  "d_privkey (write_device now d p r) = d_privkey r" "d_enabled (write_device now d p r) = d_enabled r"
  "d_psk (write_device now d p r) = d_psk r"
  by (simp_all add: write_device_def)

text \<open>A device meets at most one observed peer: its own.\<close>

definition metered :: "time \<Rightarrow> peer_state list \<Rightarrow> device \<Rightarrow> device" where
  "metered now obs d = (case find_row ps_key (d_pubkey d) obs of
     Some p \<Rightarrow> if device_changed (cdev d) p then write_device now (cdev d) p d else d | None \<Rightarrow> d)"

lemma find_cdev:
  assumes "unique_on d_pubkey ds" "d \<in> set ds"
  shows "find_row cd_pubkey (d_pubkey d) (map cdev ds) = Some (cdev d)"
    "unique_on d_id ds \<Longrightarrow> find_row cd_pubkey k (map cdev ds) = Some cd \<Longrightarrow> d_id d = cd_id cd \<longleftrightarrow> k = d_pubkey d"
proof -
  show *: "find_row cd_pubkey (d_pubkey d) (map cdev ds) = Some (cdev d)"
    using find_row_unique[of cd_pubkey "map cdev ds" "cdev d"] assms by (simp add: unique_on_def comp_def)
  show "unique_on d_id ds \<Longrightarrow> find_row cd_pubkey k (map cdev ds) = Some cd \<Longrightarrow> d_id d = cd_id cd \<longleftrightarrow> k = d_pubkey d"
    using assms by (auto dest!: find_row_Some) (metis unique_on_eq)+
qed

lemma meter_fold_other:
  assumes "unique_on d_pubkey ds" "unique_on d_id ds" "d \<in> set ds" "d_id r = d_id d" "d_pubkey d \<notin> ps_key ` set obs"
  shows "fold (meter_device now (map cdev ds)) obs r = r"
  using assms(4,5)
proof (induction obs)
  case (Cons p obs)
  then have "meter_device now (map cdev ds) p r = r"
    using find_cdev(2)[OF assms(1,3,2)] by (auto simp: meter_device_def split: option.splits)
  with Cons show ?case by simp
qed simp

lemma meter_fold:
  assumes "unique_on d_pubkey ds" "unique_on d_id ds" "d \<in> set ds" "unique_on ps_key obs"
  shows "fold (meter_device now (map cdev ds)) obs d = metered now obs d"
  using assms(4)
proof (induction obs)
  case (Cons p obs)
  show ?case
  proof (cases "ps_key p = d_pubkey d")
    case True
    have "d_pubkey d \<notin> ps_key ` set obs" using Cons.prems True by (auto simp: unique_on_def)
    moreover have "meter_device now (map cdev ds) p d = metered now (p # obs) d"
      using find_cdev(1)[OF assms(1,3)] True by (simp add: meter_device_def metered_def find_row_Cons)
    moreover have "d_id (metered now (p # obs) d) = d_id d" by (simp add: metered_def split: option.splits)
    ultimately show ?thesis using meter_fold_other[OF assms(1-3)] by simp
  next
    case False
    then have "meter_device now (map cdev ds) p d = d"
      using find_cdev(2)[OF assms(1,3,2)] by (auto simp: meter_device_def split: option.splits)
    with Cons False show ?thesis by (simp add: metered_def find_row_Cons unique_on_def)
  qed
qed (simp add: metered_def)

text \<open>
  What a counter that reads \<open>cur\<close> has counted since it read \<open>base\<close>, a lower reading being that of a
  counter that restarted from zero; and what an observed peer adds to an account: the amount of its
  device, if the account owns it.
\<close>

definition counted :: "int \<Rightarrow> int \<Rightarrow> int" where
  "counted base cur = (if base \<le> cur then cur - base else cur)"

lemma delta_counted: "delta base cur = counted base cur"
  by (simp add: delta_def counted_def)

definition charge :: "(device \<Rightarrow> int) \<Rightarrow> (peer_state \<Rightarrow> int) \<Rightarrow> device list \<Rightarrow> string \<Rightarrow> peer_state \<Rightarrow> int" where
  "charge base cur ds uid p = (case find_row d_pubkey (ps_key p) ds of
     Some d \<Rightarrow> if d_user d = uid then counted (base d) (cur p) else 0 | None \<Rightarrow> 0)"

abbreviation charge_rx :: "device list \<Rightarrow> string \<Rightarrow> peer_state \<Rightarrow> int" where
  "charge_rx \<equiv> charge d_last_rx ps_rx"

abbreviation charge_tx :: "device list \<Rightarrow> string \<Rightarrow> peer_state \<Rightarrow> int" where
  "charge_tx \<equiv> charge d_last_tx ps_tx"

text \<open>The peer belongs to the account and its device row is written this cycle.\<close>

definition relevant :: "device list \<Rightarrow> string \<Rightarrow> peer_state \<Rightarrow> bool" where
  "relevant ds uid p \<longleftrightarrow> (\<exists>d. find_row d_pubkey (ps_key p) ds = Some d \<and> d_user d = uid \<and> device_changed (cdev d) p)"

lemma find_row_cdev: "find_row cd_pubkey k (map cdev ds) = map_option cdev (find_row d_pubkey k ds)"
  by (induction ds) (auto simp: find_row_Cons)

lemma meter_user_eq:
  "meter_user (map cdev ds) p u = (case find_row d_pubkey (ps_key p) ds of
     Some d \<Rightarrow> if device_changed (cdev d) p \<and> cu_id u = d_user d then charge_user (cdev d) p u else u | None \<Rightarrow> u)"
  by (simp add: meter_user_def find_row_cdev split: option.splits)

lemma charge_user_sel [simp]:
  "cu_id (charge_user d p u) = cu_id u" "cu_username (charge_user d p u) = cu_username u"
  "cu_status (charge_user d p u) = cu_status u" "cu_reason (charge_user d p u) = cu_reason u"
  "cu_limit (charge_user d p u) = cu_limit u" "cu_used_rx (charge_user d p u) = cu_used_rx u"
  "cu_used_tx (charge_user d p u) = cu_used_tx u" "cu_activated (charge_user d p u) = cu_activated u"
  "cu_expires (charge_user d p u) = cu_expires u" "cu_duration (charge_user d p u) = cu_duration u"
  "cu_policy (charge_user d p u) = cu_policy u" "cu_deleted (charge_user d p u) = cu_deleted u"
  "cu_transition (charge_user d p u) = cu_transition u"
  by (simp_all add: charge_user_def Let_def)

lemma fold_sel: "(\<And>x s. f (g x s) = f s) \<Longrightarrow> f (fold g xs s) = f s"
  by (induction xs arbitrary: s) simp_all

lemma meter_user_sel [simp]:
  "cu_id (meter_user ds p u) = cu_id u" "cu_username (meter_user ds p u) = cu_username u"
  "cu_status (meter_user ds p u) = cu_status u" "cu_reason (meter_user ds p u) = cu_reason u"
  "cu_limit (meter_user ds p u) = cu_limit u" "cu_used_rx (meter_user ds p u) = cu_used_rx u"
  "cu_used_tx (meter_user ds p u) = cu_used_tx u" "cu_activated (meter_user ds p u) = cu_activated u"
  "cu_expires (meter_user ds p u) = cu_expires u" "cu_duration (meter_user ds p u) = cu_duration u"
  "cu_policy (meter_user ds p u) = cu_policy u" "cu_deleted (meter_user ds p u) = cu_deleted u"
  "cu_transition (meter_user ds p u) = cu_transition u"
  by (simp_all add: meter_user_def split: option.splits)

lemma meter_users_sel [simp]:
  "cu_id (fold (meter_user ds) obs u) = cu_id u"
  "cu_username (fold (meter_user ds) obs u) = cu_username u"
  "cu_status (fold (meter_user ds) obs u) = cu_status u"
  "cu_reason (fold (meter_user ds) obs u) = cu_reason u"
  "cu_limit (fold (meter_user ds) obs u) = cu_limit u"
  "cu_used_rx (fold (meter_user ds) obs u) = cu_used_rx u"
  "cu_used_tx (fold (meter_user ds) obs u) = cu_used_tx u"
  "cu_activated (fold (meter_user ds) obs u) = cu_activated u"
  "cu_expires (fold (meter_user ds) obs u) = cu_expires u"
  "cu_duration (fold (meter_user ds) obs u) = cu_duration u"
  "cu_policy (fold (meter_user ds) obs u) = cu_policy u"
  "cu_deleted (fold (meter_user ds) obs u) = cu_deleted u"
  "cu_transition (fold (meter_user ds) obs u) = cu_transition u"
  by (rule fold_sel[where f = cu_id], simp,
    rule fold_sel[where f = cu_username], simp,
    rule fold_sel[where f = cu_status], simp,
    rule fold_sel[where f = cu_reason], simp,
    rule fold_sel[where f = cu_limit], simp,
    rule fold_sel[where f = cu_used_rx], simp,
    rule fold_sel[where f = cu_used_tx], simp,
    rule fold_sel[where f = cu_activated], simp,
    rule fold_sel[where f = cu_expires], simp,
    rule fold_sel[where f = cu_duration], simp,
    rule fold_sel[where f = cu_policy], simp,
    rule fold_sel[where f = cu_deleted], simp,
    rule fold_sel[where f = cu_transition], simp)

lemma meter_user_delta:
  assumes "is_i64 (cu_delta_rx u)" "is_i64 (cu_delta_tx u)"
  shows "cu_delta_rx (meter_user (map cdev ds) p u) = i64 (cu_delta_rx u + charge_rx ds (cu_id u) p)"
    "cu_delta_tx (meter_user (map cdev ds) p u) = i64 (cu_delta_tx u + charge_tx ds (cu_id u) p)"
  using assms by (auto simp: meter_user_eq charge_def charge_user_def Let_def device_changed_def delta_counted split: option.splits)

lemma meter_users_delta:
  assumes "is_i64 (cu_delta_rx u)" "is_i64 (cu_delta_tx u)"
  shows "cu_delta_rx (fold (meter_user (map cdev ds)) obs u) = i64 (cu_delta_rx u + (\<Sum>p\<leftarrow>obs. charge_rx ds (cu_id u) p))
    \<and> cu_delta_tx (fold (meter_user (map cdev ds)) obs u) = i64 (cu_delta_tx u + (\<Sum>p\<leftarrow>obs. charge_tx ds (cu_id u) p))"
  using assms
proof (induction obs arbitrary: u)
  case (Cons p obs)
  show ?case
    using Cons.IH[of "meter_user (map cdev ds) p u"] meter_user_delta[OF Cons.prems, of ds p]
    by (simp add: add.assoc)
qed simp

lemma meter_users_observed:
  "cu_observed (fold (meter_user (map cdev ds)) obs u) \<longleftrightarrow>
     cu_observed u \<or> (\<exists>p \<in> set obs. relevant ds (cu_id u) p \<and> newer (cu_activity u) (ps_handshake p))"
proof (induction obs arbitrary: u)
  case (Cons p obs)
  let ?u = "meter_user (map cdev ds) p u"
  show ?case
  proof (cases "relevant ds (cu_id u) p \<and> newer (cu_activity u) (ps_handshake p)")
    case True
    then have "cu_observed ?u" by (auto simp: meter_user_eq relevant_def charge_user_def Let_def)
    with True show ?thesis using Cons.IH[of ?u] by simp
  next
    case False
    then have "cu_observed ?u = cu_observed u" "cu_activity ?u = cu_activity u"
      by (auto simp: meter_user_eq relevant_def charge_user_def Let_def split: option.splits)
    with False show ?thesis using Cons.IH[of ?u] by auto
  qed
qed simp

lemma newer_commute:
  "(if newer (if newer a x then x else a) y then y else if newer a x then x else a) =
   (if newer (if newer a y then y else a) x then x else if newer a y then y else a)"
  by (auto simp: newer_def split: option.splits if_splits)

lemma i64_eq_add: "i64 (i64 (a + b) + c) = i64 (i64 (a + c) + b)"
  by (simp add: algebra_simps)

lemma charge_user_commute: "charge_user d p (charge_user e q u) = charge_user e q (charge_user d p u)"
  by (auto simp: charge_user_def Let_def newer_def i64_eq_add ac_simps split: option.splits)

lemma meter_user_commute: "meter_user ds p (meter_user ds q u) = meter_user ds q (meter_user ds p u)"
  by (auto simp: meter_user_def charge_user_commute split: option.splits)

lemma meter_users_perm: "mset obs = mset obs' \<Longrightarrow> fold (meter_user ds) obs u = fold (meter_user ds) obs' u"
  by (rule fold_multiset_equiv[THEN fun_cong]) (auto simp: fun_eq_iff meter_user_commute)

section \<open>The user loop, row by row\<close>

definition final_user :: "time \<Rightarrow> cycle_user \<Rightarrow> cycle_user" where
  "final_user now u = trip (activate now u)"

definition settle_row :: "time \<Rightarrow> cycle_user \<Rightarrow> user \<Rightarrow> user" where
  "settle_row now u r =
     (if u_id r = cu_id u \<and> \<not> untouched (final_user now u) then write_user now (final_user now u) r else r)"

lemma final_user_id [simp]: "cu_id (final_user now u) = cu_id u"
  by (simp add: final_user_def trip_def activate_def)

lemma write_user_sel [simp]:
  "u_id (write_user now u r) = u_id r" "u_username (write_user now u r) = u_username r"
  "u_limit (write_user now u r) = u_limit r" "u_deleted (write_user now u r) = u_deleted r"
  "u_enabled (write_user now u r) = u_enabled r" "u_policy (write_user now u r) = u_policy r"
  "u_speed_down (write_user now u r) = u_speed_down r" "u_speed_up (write_user now u r) = u_speed_up r"
  "u_device_limit (write_user now u r) = u_device_limit r" "u_duration (write_user now u r) = u_duration r"
  by (simp_all add: write_user_def)

lemma settle_row_id [simp]: "u_id (settle_row now u r) = u_id r"
  by (simp add: settle_row_def)

lemma settle_fold_row:
  "unique_on cu_id us \<Longrightarrow> fold (settle_row now) us r = (case find_row cu_id (u_id r) us of None \<Rightarrow> r | Some u \<Rightarrow> settle_row now u r)"
proof (induction us arbitrary: r)
  case (Cons u us)
  show ?case
  proof (cases "cu_id u = u_id r")
    case True
    with Cons.prems have "find_row cu_id (u_id r) us = None" by (auto simp: unique_on_def find_row_None_iff)
    with Cons True show ?thesis by (simp add: find_row_Cons unique_on_def)
  next
    case False
    then have "settle_row now u r = r" by (simp add: settle_row_def)
    with Cons False show ?thesis by (simp add: find_row_Cons unique_on_def)
  qed
qed simp

context event_recorder
begin

lemma settle_ok:
  assumes "settle_user now rc u (s, rep) = Inr (s', rep')"
  shows "same_domain (s\<lparr>users := map (settle_row now u) (users s)\<rparr>) s'"
proof -
  from assms obtain s1 s2 where
    r: "(if activates u then record_opt rc s ''user.first_connected'' (cycle_event u) else Inr s) = Inr s1"
       "(if trips (activate now u) then record_opt rc s1 ''user.traffic_exceeded''
          (cycle_event u @ [(''used_bytes'', JInt (cycle_total (activate now u))), (''limit_bytes'', JInt (the (cu_limit u)))])
         else Inr s1) = Inr s2"
    and s': "s' = (if untouched (final_user now u) then s2
        else s2\<lparr>users := update_rows (\<lambda>r. u_id r = cu_id u) (write_user now (final_user now u)) (users s2)\<rparr>)"
    by (auto simp: settle_user_def ebind_Inr_iff Let_def final_user_def)
  have "same_domain s s1" using r(1) frame by (auto split: if_splits)
  moreover have "same_domain s1 s2" using r(2) frame by (auto split: if_splits)
  ultimately have "same_domain s s2" by (rule same_domain_trans)
  moreover have "map (settle_row now u) (users s) = (if untouched (final_user now u) then users s
      else update_rows (\<lambda>r. u_id r = cu_id u) (write_user now (final_user now u)) (users s))"
    by (auto simp: update_rows_def settle_row_def[abs_def])
  ultimately show ?thesis by (simp add: s' same_domain_def)
qed

lemma settle_fold:
  "efold (settle_user now rc) us (s, rep) = Inr (s', rep') \<Longrightarrow>
     same_domain (s\<lparr>users := map (fold (settle_row now) us) (users s)\<rparr>) s'"
proof (induction us arbitrary: s rep)
  case Nil
  then show ?case by (simp add: same_domain_def)
next
  case (Cons u us)
  then obtain s1 rep1 where s1: "settle_user now rc u (s, rep) = Inr (s1, rep1)" "efold (settle_user now rc) us (s1, rep1) = Inr (s', rep')"
    by (auto simp: ebind_Inr_iff)
  from settle_ok[OF s1(1)] Cons.IH[OF s1(2)] show ?case by (simp add: same_domain_def comp_def)
qed

end

definition cycled :: "time \<Rightarrow> peer_state list \<Rightarrow> device list \<Rightarrow> user \<Rightarrow> user" where
  "cycled now obs ds r =
     (if u_id r \<in> d_user ` set ds
      then settle_row now (fold (meter_user (map cdev ds)) obs (load_user r)) r else r)"

lemma load_user_sel [simp]:
  "cu_id (load_user u) = u_id u" "cu_status (load_user u) = u_status u" "cu_limit (load_user u) = u_limit u"
  "cu_used_rx (load_user u) = u_used_rx u" "cu_used_tx (load_user u) = u_used_tx u"
  "cu_delta_rx (load_user u) = 0" "cu_delta_tx (load_user u) = 0" "cu_transition (load_user u) = NoTransition"
  "cu_deleted (load_user u) = (u_deleted u \<noteq> None)" "cu_observed (load_user u) = False"
  "cu_activity (load_user u) = u_activity u" "cu_reason (load_user u) = u_reason u" "cu_duration (load_user u) = u_duration u"
  "cu_expires (load_user u) = u_expires u" "cu_activated (load_user u) = u_activated u"
  by (simp_all add: load_user_def)

text \<open>The service over a recorder that leaves the domain tables alone.\<close>

locale accounting_svc = event_recorder "ac_recorder svc" for svc :: "'b accounting_service"
begin

lemma cycle_rows:
  assumes "cycleTx svc obs rep acc s = (Inr (rep', s'), acc')"
    and "unique_on u_id (users s)" "devices_inv s" "unique_on ps_key obs"
  shows "same_domain (s\<lparr>users := map (cycled (ac_now svc) obs (devices s)) (users s),
      devices := map (metered (ac_now svc) obs) (devices s)\<rparr>) s'"
    "\<forall>d \<in> set (devices s). counters_ok d"
proof -
  let ?now = "ac_now svc" and ?iv = "sampleInterval (ac_reg svc)"
  from assms(1) obtain devs us where l: "loadRows s = Inr (devs, us)"
    by (auto simp: cycleTx_def split: sum.splits)
  note lr = loadRows_ok[OF l assms(3,2)]
  show "\<forall>d \<in> set (devices s). counters_ok d" by (rule lr(2))
  let ?st = "fold (observe_peer ?now ?iv devs) obs \<lparr>cs_db = s, cs_users = us, cs_report = rep, cs_samples = acc\<rparr>"
  show "same_domain (s\<lparr>users := map (cycled ?now obs (devices s)) (users s),
      devices := map (metered ?now obs) (devices s)\<rparr>) s'"
  proof (cases "devs = []")
    case True
    with assms(1) l lr(1) show ?thesis by (simp add: cycleTx_def same_domain_def cycled_def[abs_def])
  next
    case False
    with assms(1) l have e: "efold (settle_user ?now (ac_recorder svc)) (cs_users ?st) (cs_db ?st, cs_report ?st) = Inr (s', rep')"
      by (auto simp: cycleTx_def Let_def ebind_Inr_iff)
    have us: "cs_users ?st = map (fold (meter_user devs) obs) us"
      and ds: "devices (cs_db ?st) = map (fold (meter_device ?now devs) obs) (devices s)"
      by (simp_all add: observe_fold)
    obtain ds' where "cs_db ?st = s\<lparr>devices := ds'\<rparr>"
      using observe_fold(3)[of ?now ?iv devs obs "\<lparr>cs_db = s, cs_users = us, cs_report = rep, cs_samples = acc\<rparr>"] by auto
    with ds have db: "cs_db ?st = s\<lparr>devices := map (fold (meter_device ?now devs) obs) (devices s)\<rparr>" by simp
    have "unique_on cu_id (map (fold (meter_user devs) obs) us)"
      using lr(3) by (simp add: unique_on_def comp_def)
    note sr = settle_fold_row[OF this]
    have fr: "find_row cu_id k (map (fold (meter_user devs) obs) us) = map_option (fold (meter_user devs) obs) (find_row cu_id k us)" for k
      by (induction us) (auto simp: find_row_Cons)
    have row: "fold (settle_row ?now) (map (fold (meter_user devs) obs) us) r = cycled ?now obs (devices s) r" if "r \<in> set (users s)" for r
    proof (cases "u_id r \<in> d_user ` set (devices s)")
      case True
      then have "load_user r \<in> set us" using lr(4) that by auto
      then have "find_row cu_id (u_id r) us = Some (load_user r)" using find_row_unique[OF lr(3)] by fastforce
      with True show ?thesis by (simp add: sr fr cycled_def flip: lr(1))
    next
      case False
      then have "find_row cu_id (u_id r) us = None" by (auto simp: lr(4) find_row_None_iff)
      with False show ?thesis by (simp add: sr fr cycled_def)
    qed
    have dev: "fold (meter_device ?now devs) obs d = metered ?now obs d" if "d \<in> set (devices s)" for d
      using meter_fold[of "devices s" d obs ?now] that assms(3,4) lr(1) by (simp add: devices_inv_def)
    from settle_fold[OF e] row dev show ?thesis
      by (simp add: same_domain_def db us cong: map_cong)
  qed
qed

end

section \<open>Facts about one cycled account\<close>

lemma final_user_sel [simp]:
  "cu_limit (final_user now u) = cu_limit u" "cu_used_rx (final_user now u) = cu_used_rx u"
  "cu_used_tx (final_user now u) = cu_used_tx u" "cu_delta_rx (final_user now u) = cu_delta_rx u"
  "cu_delta_tx (final_user now u) = cu_delta_tx u" "cu_deleted (final_user now u) = cu_deleted u"
  "cu_observed (final_user now u) = cu_observed u" "cu_activity (final_user now u) = cu_activity u"
  by (simp_all add: final_user_def trip_def activate_def)

lemma cycle_total_activate [simp]: "cycle_total (activate now u) = cycle_total u"
  by (simp add: cycle_total_def activate_def)

lemma settled_used:
  assumes "is_i64 (u_used_rx r)" "is_i64 (u_used_tx r)" "cu_used_rx u = u_used_rx r" "cu_used_tx u = u_used_tx r" "cu_id u = u_id r"
  shows "u_used_rx (settle_row now u r) = i64 (u_used_rx r + cu_delta_rx u)"
    "u_used_tx (settle_row now u r) = i64 (u_used_tx r + cu_delta_tx u)"
  using assms by (auto simp: settle_row_def write_user_def untouched_def)

lemma settled_status:
  assumes "cu_id u = u_id r" "cu_status u = u_status r" "cu_transition u = NoTransition"
  shows "u_status (settle_row now u r) = cu_status (final_user now u)"
  using assms by (auto simp: settle_row_def write_user_def untouched_def final_user_def trip_def activate_def split: if_splits)

lemma settled_frame [simp]:
  "u_username (settle_row now u r) = u_username r" "u_limit (settle_row now u r) = u_limit r"
  "u_deleted (settle_row now u r) = u_deleted r" "u_enabled (settle_row now u r) = u_enabled r"
  "u_policy (settle_row now u r) = u_policy r" "u_duration (settle_row now u r) = u_duration r"
  by (simp_all add: settle_row_def)

abbreviation metered_user :: "peer_state list \<Rightarrow> device list \<Rightarrow> user \<Rightarrow> cycle_user" where
  "metered_user obs ds r \<equiv> fold (meter_user (map cdev ds)) obs (load_user r)"

lemma no_charge: "u_id r \<notin> d_user ` set ds \<Longrightarrow> charge base cur ds (u_id r) p = 0"
  by (auto simp: charge_def image_iff split: option.splits dest!: find_row_Some)

lemma cycled_used:
  assumes "is_i64 (u_used_rx r)" "is_i64 (u_used_tx r)"
  shows "u_used_rx (cycled now obs ds r) = i64 (u_used_rx r + (\<Sum>p\<leftarrow>obs. charge_rx ds (u_id r) p))"
    "u_used_tx (cycled now obs ds r) = i64 (u_used_tx r + (\<Sum>p\<leftarrow>obs. charge_tx ds (u_id r) p))"
  using meter_users_delta[of "load_user r" ds obs] assms
  by (auto simp: cycled_def settled_used no_charge is_i64_def[of 0])

lemma cycled_frame [simp]:
  "u_id (cycled now obs ds r) = u_id r" "u_username (cycled now obs ds r) = u_username r"
  "u_limit (cycled now obs ds r) = u_limit r" "u_deleted (cycled now obs ds r) = u_deleted r"
  "u_enabled (cycled now obs ds r) = u_enabled r" "u_policy (cycled now obs ds r) = u_policy r"
  "u_duration (cycled now obs ds r) = u_duration r"
  by (simp_all add: cycled_def)

lemma cycled_status:
  "u_status (cycled now obs ds r) =
     (if u_id r \<in> d_user ` set ds then cu_status (final_user now (metered_user obs ds r)) else u_status r)"
  by (simp add: cycled_def settled_status)

text \<open>The exact status edges of a cycle.\<close>

lemma trips_activate: "trips (activate now u) \<longleftrightarrow> trips u"
  by (auto simp: trips_def activate_def activates_def cycle_total_def)

lemma final_status:
  "cu_status (final_user now u) = (if trips u then UserTrafficExceeded else if activates u then UserActive else cu_status u)"
  by (simp add: final_user_def trip_def trips_activate) (simp add: activate_def)

lemma row_ok_settle: "row_ok r \<Longrightarrow> cu_status u = u_status r \<Longrightarrow> cu_reason u = u_reason r \<Longrightarrow> row_ok (settle_row now u r)"
  by (auto simp: row_ok_def settle_row_def write_user_def final_user_def trip_def activate_def)

lemma row_ok_cycled: "row_ok r \<Longrightarrow> row_ok (cycled now obs ds r)"
  by (simp add: cycled_def row_ok_settle)

lemma metered_frame [simp]:
  "d_id (metered now obs d) = d_id d" "d_user (metered now obs d) = d_user d" "d_pubkey (metered now obs d) = d_pubkey d"
  "d_iface (metered now obs d) = d_iface d" "d_name (metered now obs d) = d_name d" "d_ipv4 (metered now obs d) = d_ipv4 d"
  "d_privkey (metered now obs d) = d_privkey d" "d_enabled (metered now obs d) = d_enabled d" "d_psk (metered now obs d) = d_psk d"
  by (simp_all add: metered_def split: option.splits)

lemma metered_counters:
  assumes "find_row ps_key (d_pubkey d) obs = Some p" "counters_ok d" "0 \<le> ps_rx p" "0 \<le> ps_tx p"
    and "ps_rx p \<le> MaxInt64" "ps_tx p \<le> MaxInt64"
    and "d_rx d + delta (d_last_rx d) (ps_rx p) \<le> MaxInt64" "d_tx d + delta (d_last_tx d) (ps_tx p) \<le> MaxInt64"
  shows "d_rx (metered now obs d) = d_rx d + delta (d_last_rx d) (ps_rx p)"
    "d_tx (metered now obs d) = d_tx d + delta (d_last_tx d) (ps_tx p)"
    "device_changed (cdev d) p \<Longrightarrow> d_last_rx (metered now obs d) = ps_rx p \<and> d_last_tx (metered now obs d) = ps_tx p"
  using assms
  by (auto simp: metered_def write_device_def counters_ok_def device_changed_def delta_def is_i64_def split: if_splits)

section \<open>The service as wired\<close>

definition wired_accounting ::
  "time \<Rightarrow> setting_source \<Rightarrow> (db \<Rightarrow> 'b \<Rightarrow> unit result \<times> db \<times> 'b) option \<Rightarrow> (db \<Rightarrow> nat \<times> error option \<times> db) option
     \<Rightarrow> 'b accounting_service" where
  "wired_accounting now reg run hook = \<lparr>ac_now = now, ac_recorder = Some (RecordTx now), ac_reg = reg,
     ac_reconciler = run, ac_after_metering = hook\<rparr>"

lemma wired_accounting_simps [simp]:
  "ac_now (wired_accounting now reg run hook) = now" "ac_recorder (wired_accounting now reg run hook) = Some (RecordTx now)"
  "ac_reg (wired_accounting now reg run hook) = reg" "ac_reconciler (wired_accounting now reg run hook) = run"
  "ac_after_metering (wired_accounting now reg run hook) = hook"
  by (simp_all add: wired_accounting_def)

interpretation wired_acc: accounting_svc "wired_accounting now reg run hook"
  by unfold_locales (simp add: webhook_rc.frame)

context accounting_svc
begin

lemma cycle_inv:
  assumes "cycleTx svc obs rep acc s = (Inr (rep', s'), acc')" "users_inv s" "devices_inv s" "unique_on ps_key obs"
  shows "users_inv s'" "devices_inv s'"
proof -
  let ?us = "map (cycled (ac_now svc) obs (devices s)) (users s)" and ?ds = "map (metered (ac_now svc) obs) (devices s)"
  from cycle_rows(1)[OF assms(1)] assms(2-4) have d: "same_domain (s\<lparr>users := ?us, devices := ?ds\<rparr>) s'"
    by (simp add: users_inv_def)
  have "users_inv (s\<lparr>users := ?us, devices := ?ds\<rparr>)"
    using assms(2) by (auto simp: users_inv_def unique_on_def comp_def row_ok_cycled)
  with d show "users_inv s'" by (simp add: same_domain_users_inv)
  have ids: "u_id ` set ?us = u_id ` set (users s)" by (simp add: image_image)
  have "devices_inv (s\<lparr>users := ?us, devices := ?ds\<rparr>)"
    using assms(3) ids by (auto simp: devices_inv_def unique_on_def comp_def device_ok_def)
  with d show "devices_inv s'" by (simp add: same_domain_devices_inv)
qed

end

lemma find_map_row:
  "unique_on key t \<Longrightarrow> r \<in> set t \<Longrightarrow> (\<And>x. key (f x) = key x) \<Longrightarrow> find_row key (key r) (map f t) = Some (f r)"
  using find_row_unique[of key "map f t" "f r"] by (simp add: unique_on_def comp_def)

lemma i64_add4: "i64 (a + i64 b + c + i64 d) = i64 (a + b + c + d)"
proof -
  have "i64 (a + i64 b + c + i64 d) = i64 (i64 b + (a + c + d))" by (simp only: i64_add_right) (simp add: ac_simps)
  then show ?thesis by (simp only: i64_add_left) (simp add: ac_simps)
qed

lemma metered_user_total:
  "cycle_total (metered_user obs ds r) =
     i64 (u_used_rx r + (\<Sum>p\<leftarrow>obs. charge_rx ds (u_id r) p) + u_used_tx r + (\<Sum>p\<leftarrow>obs. charge_tx ds (u_id r) p))"
  using meter_users_delta[of "load_user r" ds obs] by (simp only: cycle_total_def load_user_sel meter_users_sel i64_add4) (simp add: i64_add4 is_i64_def[of 0] del: i64_add_left i64_add_right)

section \<open>Example data\<close>

definition seen_peer :: "int \<Rightarrow> time \<Rightarrow> peer_state" where
  "seen_peer rx at = \<lparr>ps_key = k_public (example_keys 1), ps_psk_set = False, ps_endpoint = ''192.0.2.1:51820'',
     ps_allowed = [], ps_handshake = Some at, ps_rx = rx, ps_tx = 0, ps_keepalive = ScalarU16 0\<rparr>"

abbreviation "example_acc \<equiv> wired_accounting 9 None None None :: unit accounting_service"

lemmas cycle_example_simps = cycleTx_def loadRows_def metered_db_def empty_db_def load_row_def find_row_Cons load_device_def probe_device_def
  stored_user_def buildCreate_def Let_def plain_input_def opt_given_def opt_absent_def opt_resolve_def put_device_def upsert_def load_user_def
  observe_peer_def seen_peer_def device_changed_def delta_def newer_def update_rows_def charge_user_def sampleInterval_def push_def
  settle_user_def activates_def activate_def trips_def trip_def cycle_total_def untouched_def is_i64_def empty_report_def cycle_event_def
  record_opt_def RecordTx_def ValidEvent_def Catalog_def event_owner_def

lemma metered_db_cycle:
  "\<exists>rep s' acc'. cycleTx example_acc [seen_peer 150 5] empty_report [] (metered_db 100) = (Inr (rep, s'), acc')"
  by (simp add: cycle_example_simps)

section \<open>Properties\<close>

text \<open>
  C3. A committed cycle charges exactly what the peers moved. Every account's counters grow by the
  sum, over the observed peers of its devices, of the difference to the stored baseline, where a
  counter below its baseline counts from zero (64-bit arithmetic, no other charge, soft-deleted
  accounts included); every device total grows by its own difference and its baselines become the
  observed counters whenever the row is written; unobserved devices are untouched; and the user and
  device tables stay well formed.
\<close>
theorem cycle_charges_observed_traffic:
  assumes "users_inv s" "devices_inv s" "unique_on ps_key obs"
    and "\<forall>r \<in> set (users s). is_i64 (u_used_rx r) \<and> is_i64 (u_used_tx r)"
    and "cycleTx (wired_accounting now reg run hook) obs rep acc s = (Inr (rep', s'), acc')"
  shows "users_inv s' \<and> devices_inv s' \<and> ifaces s' = ifaces s \<and> retired s' = retired s
    \<and> (\<forall>r \<in> set (users s). \<exists>r'. find_row u_id (u_id r) (users s') = Some r'
         \<and> u_used_rx r' = i64 (u_used_rx r + (\<Sum>p\<leftarrow>obs. charge_rx (devices s) (u_id r) p))
         \<and> u_used_tx r' = i64 (u_used_tx r + (\<Sum>p\<leftarrow>obs. charge_tx (devices s) (u_id r) p)))
    \<and> (\<forall>d \<in> set (devices s). \<exists>d'. find_row d_id (d_id d) (devices s') = Some d'
         \<and> (find_row ps_key (d_pubkey d) obs = None \<longrightarrow> d' = d)
         \<and> (\<forall>p. find_row ps_key (d_pubkey d) obs = Some p \<and> 0 \<le> ps_rx p \<and> ps_rx p \<le> MaxInt64 \<and> 0 \<le> ps_tx p \<and> ps_tx p \<le> MaxInt64
               \<and> d_rx d + counted (d_last_rx d) (ps_rx p) \<le> MaxInt64 \<and> d_tx d + counted (d_last_tx d) (ps_tx p) \<le> MaxInt64 \<longrightarrow>
               d_rx d' = d_rx d + counted (d_last_rx d) (ps_rx p) \<and> d_tx d' = d_tx d + counted (d_last_tx d) (ps_tx p)
               \<and> (device_changed (cdev d) p \<longrightarrow> d_last_rx d' = ps_rx p \<and> d_last_tx d' = ps_tx p)))"
proof -
  from assms(1) have uu: "unique_on u_id (users s)" by (simp add: users_inv_def)
  note rows = wired_acc.cycle_rows[OF assms(5) uu assms(2,3)]
  note inv = wired_acc.cycle_inv[OF assms(5,1-3)]
  have us: "users s' = map (cycled now obs (devices s)) (users s)" and ds: "devices s' = map (metered now obs) (devices s)"
    and fr: "ifaces s' = ifaces s" "retired s' = retired s"
    using rows(1) by (simp_all add: same_domain_def)
  have ud: "unique_on d_id (devices s)" using assms(2) by (simp add: devices_inv_def)
  have "find_row u_id (u_id r) (users s') = Some (cycled now obs (devices s) r)" if "r \<in> set (users s)" for r
    unfolding us by (rule find_map_row[OF uu that]) simp
  moreover have "find_row d_id (d_id d) (devices s') = Some (metered now obs d)" if "d \<in> set (devices s)" for d
    unfolding ds by (rule find_map_row[OF ud that]) simp
  moreover have "find_row ps_key (d_pubkey d) obs = None \<Longrightarrow> metered now obs d = d" for d
    by (simp add: metered_def)
  ultimately show ?thesis
    using inv fr assms(4) rows(2) by (auto simp: cycled_used metered_counters delta_counted)
qed

theorem cycle_charges_observed_traffic_witness:
  "\<exists>rep' s' acc' r'. cycleTx example_acc [seen_peer 150 5] empty_report [] (metered_db 100) = (Inr (rep', s'), acc')
     \<and> find_row u_id ''id-1'' (users s') = Some r' \<and> u_used_rx r' = 140"
proof -
  obtain rep' s' acc' where c: "cycleTx example_acc [seen_peer 150 5] empty_report [] (metered_db 100) = (Inr (rep', s'), acc')"
    using metered_db_cycle by blast
  have "\<forall>r \<in> set (users (metered_db 100)). is_i64 (u_used_rx r) \<and> is_i64 (u_used_tx r)"
    by (simp add: metered_db_def stored_user_def is_i64_def)
  from cycle_charges_observed_traffic[OF metered_db_inv(1,2) _ this c] c show ?thesis
    by (fastforce simp: unique_on_def metered_db_def stored_user_def buildCreate_def Let_def charge_def find_row_Cons probe_device_def
        seen_peer_def delta_def counted_def is_i64_def)
qed



text \<open>
  C7. After a committed cycle no account that owns a device and may hold peers is at or over its
  limit, as long as its usage fits 64 bits.
\<close>
theorem cycle_enforces_quota:
  assumes "users_inv s" "devices_inv s" "unique_on ps_key obs"
    and "cycleTx (wired_accounting now reg run hook) obs rep acc s = (Inr (rep', s'), acc')"
    and "r' \<in> set (users s')" "u_deleted r' = None" "u_id r' \<in> d_user ` set (devices s')" "u_limit r' = Some l"
    and fits: "\<And>r. r \<in> set (users s) \<Longrightarrow> u_id r = u_id r' \<Longrightarrow>
        0 \<le> u_used_rx r \<and> 0 \<le> u_used_tx r \<and>
        0 \<le> (\<Sum>p\<leftarrow>obs. charge_rx (devices s) (u_id r) p) \<and> 0 \<le> (\<Sum>p\<leftarrow>obs. charge_tx (devices s) (u_id r) p) \<and>
        u_used_rx r + (\<Sum>p\<leftarrow>obs. charge_rx (devices s) (u_id r) p)
          + u_used_tx r + (\<Sum>p\<leftarrow>obs. charge_tx (devices s) (u_id r) p) \<le> MaxInt64"
  shows "PeerWanted (u_status r') \<longrightarrow> u_used_rx r' + u_used_tx r' < l"
proof -
  from assms(1) have uu: "unique_on u_id (users s)" by (simp add: users_inv_def)
  from wired_acc.cycle_rows(1)[OF assms(4) uu assms(2,3)]
  have us: "users s' = map (cycled now obs (devices s)) (users s)" and ds: "devices s' = map (metered now obs) (devices s)"
    by (simp_all add: same_domain_def)
  from assms(5) us obtain r where r: "r \<in> set (users s)" "r' = cycled now obs (devices s) r" by auto
  let ?R = "\<Sum>p\<leftarrow>obs. charge_rx (devices s) (u_id r) p" and ?T = "\<Sum>p\<leftarrow>obs. charge_tx (devices s) (u_id r) p"
  have b: "0 \<le> u_used_rx r" "0 \<le> u_used_tx r" "0 \<le> ?R" "0 \<le> ?T" "u_used_rx r + ?R + u_used_tx r + ?T \<le> MaxInt64"
    using fits[OF r(1)] r(2) by simp_all
  then have i: "is_i64 (u_used_rx r)" "is_i64 (u_used_tx r)" "is_i64 (u_used_rx r + ?R)" "is_i64 (u_used_tx r + ?T)"
    "is_i64 (u_used_rx r + ?R + u_used_tx r + ?T)"
    by (simp_all add: is_i64_def)
  then have used: "u_used_rx r' = u_used_rx r + ?R" "u_used_tx r' = u_used_tx r + ?T"
    using r(2) by (simp_all add: cycled_used)
  have "u_id r \<in> d_user ` set (devices s)" using assms(7) r(2) ds by (simp add: image_image)
  moreover have "u_limit r = Some l" "u_deleted r = None" using assms(6,8) r(2) by simp_all
  ultimately show ?thesis
    using i(5) used r(2) by (auto simp: cycled_status final_status trips_def activates_def metered_user_total PeerWanted_def)
qed

theorem cycle_enforces_quota_witness:
  "\<exists>rep' s' acc'. cycleTx example_acc [seen_peer 150 5] empty_report [] (metered_db 100) = (Inr (rep', s'), acc')
     \<and> users s' \<noteq> [] \<and> (\<forall>r' \<in> set (users s'). PeerWanted (u_status r') \<longrightarrow> u_used_rx r' + u_used_tx r' < 100)"
proof -
  obtain rep' s' acc' where c: "cycleTx example_acc [seen_peer 150 5] empty_report [] (metered_db 100) = (Inr (rep', s'), acc')"
    using metered_db_cycle by blast
  have u: "unique_on ps_key [seen_peer 150 5]" by (simp add: unique_on_def)
  let ?s = "metered_db 100"
  have uu: "unique_on u_id (users ?s)" using metered_db_inv(1)[of 100] by (simp add: users_inv_def)
  from wired_acc.cycle_rows(1)[OF c uu metered_db_inv(2) u]
  have s': "users s' = map (cycled 9 [seen_peer 150 5] (devices ?s)) (users ?s)"
    "devices s' = map (metered 9 [seen_peer 150 5]) (devices ?s)" by (simp_all add: same_domain_def)
  then have a: "r' \<in> set (users s') \<Longrightarrow> u_deleted r' = None \<and> u_id r' \<in> d_user ` set (devices s') \<and> u_limit r' = Some 100" for r'
    by (auto simp: metered_db_def stored_user_def buildCreate_def Let_def probe_device_def opt_given_def plain_input_def)
  have ne: "users s' \<noteq> []" using s' by (simp add: metered_db_def)
  have b: "r \<in> set (users ?s) \<Longrightarrow> u_id r = u_id r' \<Longrightarrow> 0 \<le> u_used_rx r \<and> 0 \<le> u_used_tx r \<and>
        0 \<le> (\<Sum>p\<leftarrow>[seen_peer 150 5]. charge_rx (devices ?s) (u_id r) p) \<and> 0 \<le> (\<Sum>p\<leftarrow>[seen_peer 150 5]. charge_tx (devices ?s) (u_id r) p) \<and>
        u_used_rx r + (\<Sum>p\<leftarrow>[seen_peer 150 5]. charge_rx (devices ?s) (u_id r) p)
          + u_used_tx r + (\<Sum>p\<leftarrow>[seen_peer 150 5]. charge_tx (devices ?s) (u_id r) p) \<le> MaxInt64" for r r'
    by (auto simp: metered_db_def stored_user_def buildCreate_def Let_def charge_def find_row_Cons probe_device_def seen_peer_def delta_def counted_def)
  have "PeerWanted (u_status r') \<longrightarrow> u_used_rx r' + u_used_tx r' < 100" if r': "r' \<in> set (users s')" for r'
    using a[OF r'] by (intro cycle_enforces_quota[OF metered_db_inv(1,2) u c r' _ _ _ b]) auto
  with c ne show ?thesis by blast
qed

text \<open>
  C38. The iteration order of the observed peers (a Go map) does not matter: two cycles over the
  same peers in different orders write the same user and device tables.
\<close>
theorem cycle_order_independent:
  assumes "users_inv s" "devices_inv s" "unique_on ps_key obs" "mset obs' = mset obs"
    and "cycleTx (wired_accounting now reg run hook) obs rep acc s = (Inr (rep1, s1), acc1)"
    and "cycleTx (wired_accounting now reg run hook) obs' rep acc s = (Inr (rep2, s2), acc2)"
  shows "users s1 = users s2 \<and> devices s1 = devices s2"
proof -
  from assms(1) have uu: "unique_on u_id (users s)" by (simp add: users_inv_def)
  have "distinct (map ps_key obs)" using assms(3) by (simp add: unique_on_def)
  moreover have "mset (map ps_key obs') = mset (map ps_key obs)" using assms(4) by simp
  ultimately have u': "unique_on ps_key obs'" unfolding unique_on_def by (metis mset_eq_imp_distinct_iff)
  have st: "set obs' = set obs" using assms(4) by (rule mset_eq_setD)
  have f: "find_row ps_key k obs' = find_row ps_key k obs" for k
  proof (cases "find_row ps_key k obs")
    case None
    then have "find_row ps_key k obs' = None" using st by (simp add: find_row_None_iff)
    with None show ?thesis by simp
  next
    case (Some p)
    then have "p \<in> set obs'" "ps_key p = k" using st by auto
    with Some find_row_unique[OF u'] show ?thesis by auto
  qed
  have "metered now obs' = metered now obs" by (simp add: metered_def f fun_eq_iff)
  moreover have "cycled now obs' (devices s) = cycled now obs (devices s)"
    by (simp add: cycled_def fun_eq_iff meter_users_perm[OF assms(4)])
  ultimately show ?thesis
    using wired_acc.cycle_rows(1)[OF assms(5) uu assms(2,3)] wired_acc.cycle_rows(1)[OF assms(6) uu assms(2) u']
    by (simp add: same_domain_def)
qed

definition stranger :: peer_state where
  "stranger = (seen_peer 1 1)\<lparr>ps_key := k_public (example_keys 2)\<rparr>"

lemma stranger_key: "k_public (example_keys 1) \<noteq> k_public (example_keys 2)"
  by (simp add: example_key_inj)

lemma stranger_cycle:
  "\<exists>rep s' acc'. cycleTx example_acc [seen_peer 150 5, stranger] empty_report [] (metered_db 100) = (Inr (rep, s'), acc')"
  "\<exists>rep s' acc'. cycleTx example_acc [stranger, seen_peer 150 5] empty_report [] (metered_db 100) = (Inr (rep, s'), acc')"
  using stranger_key by (simp_all add: stranger_def cycle_example_simps)

theorem cycle_order_independent_witness:
  "\<exists>rep1 s1 acc1 rep2 s2 acc2.
     cycleTx example_acc [seen_peer 150 5, stranger] empty_report [] (metered_db 100) = (Inr (rep1, s1), acc1)
   \<and> cycleTx example_acc [stranger, seen_peer 150 5] empty_report [] (metered_db 100) = (Inr (rep2, s2), acc2)
   \<and> users s1 = users s2"
proof -
  obtain rep1 s1 acc1 rep2 s2 acc2 where
    c: "cycleTx example_acc [seen_peer 150 5, stranger] empty_report [] (metered_db 100) = (Inr (rep1, s1), acc1)"
       "cycleTx example_acc [stranger, seen_peer 150 5] empty_report [] (metered_db 100) = (Inr (rep2, s2), acc2)"
    using stranger_cycle by blast
  have u: "unique_on ps_key [seen_peer 150 5, stranger]"
    using stranger_key by (simp add: unique_on_def stranger_def seen_peer_def)
  have m: "mset [stranger, seen_peer 150 5] = mset [seen_peer 150 5, stranger]" by simp
  from cycle_order_independent[OF metered_db_inv(1,2) u m c] c show ?thesis by simp
qed

section \<open>What the delta rule measures\<close>

text \<open>
  Between two observations a kernel counter moves \<open>b\<close> bytes, and may be reset any number of times,
  moving \<open>bs\<close> bytes after each reset. One direction of the metering loop: the baseline moves only
  when the delta is not zero (an idle device is not written).
\<close>

type_synonym counter_interval = "nat \<times> nat list"

definition counter_after :: "int \<Rightarrow> counter_interval \<Rightarrow> int" where
  "counter_after c iv = (case iv of (b, []) \<Rightarrow> c + int b | (b, bs) \<Rightarrow> int (List.last bs))"

definition moved :: "counter_interval \<Rightarrow> int" where
  "moved iv = int (fst iv + sum_list (snd iv))"

definition next_base :: "int \<Rightarrow> int \<Rightarrow> int" where
  "next_base lst cur = (if delta lst cur = 0 then lst else cur)"

fun metered_total :: "int \<Rightarrow> int \<Rightarrow> counter_interval list \<Rightarrow> int" where
  "metered_total lst c [] = 0"
| "metered_total lst c (iv # ivs) =
     (let cur = counter_after c iv in delta lst cur + metered_total (next_base lst cur) cur ivs)"

lemma last_le_sum: "bs \<noteq> [] \<Longrightarrow> List.last bs \<le> sum_list (bs :: nat list)"
  by (induction bs) auto

lemma delta_step:
  assumes "0 \<le> c" "lst = c \<or> c = 0 \<and> 0 < lst"
  shows "delta lst (counter_after c iv) \<le> moved iv" "0 \<le> counter_after c iv"
    "next_base lst (counter_after c iv) = counter_after c iv \<or>
       counter_after c iv = 0 \<and> 0 < next_base lst (counter_after c iv)"
    "snd iv = [] \<Longrightarrow> lst = c \<Longrightarrow> delta lst (counter_after c iv) = moved iv \<and> next_base lst (counter_after c iv) = counter_after c iv"
proof -
  obtain b bs where iv: "iv = (b, bs)" by fastforce
  show n: "0 \<le> counter_after c iv" using assms by (auto simp: iv counter_after_def split: list.splits)
  have "bs \<noteq> [] \<Longrightarrow> int (List.last bs) \<le> int (sum_list bs)" using last_le_sum by simp
  then show "delta lst (counter_after c iv) \<le> moved iv"
    using assms by (cases bs) (auto simp: iv counter_after_def moved_def delta_def)
  show "next_base lst (counter_after c iv) = counter_after c iv \<or>
       counter_after c iv = 0 \<and> 0 < next_base lst (counter_after c iv)"
    using n assms by (auto simp: next_base_def delta_def split: if_splits)
  show "snd iv = [] \<Longrightarrow> lst = c \<Longrightarrow> delta lst (counter_after c iv) = moved iv \<and> next_base lst (counter_after c iv) = counter_after c iv"
    by (auto simp: iv counter_after_def moved_def delta_def next_base_def)
qed

text \<open>
  The delta rule never charges more than really flowed, whatever resets happen between the
  observations, and charges exactly what flowed when there are none.
\<close>
theorem delta_never_overcounts:
  assumes "0 \<le> c"
  shows "metered_total c c ivs \<le> (\<Sum>iv\<leftarrow>ivs. moved iv)
    \<and> ((\<forall>iv \<in> set ivs. snd iv = []) \<longrightarrow> metered_total c c ivs = (\<Sum>iv\<leftarrow>ivs. moved iv))"
proof
  have "0 \<le> c \<Longrightarrow> lst = c \<or> c = 0 \<and> 0 < lst \<Longrightarrow> metered_total lst c ivs \<le> (\<Sum>iv\<leftarrow>ivs. moved iv)" for lst
  proof (induction ivs arbitrary: lst c)
    case (Cons iv ivs)
    from Cons.IH[OF delta_step(2,3)[OF Cons.prems, of iv]] delta_step(1)[OF Cons.prems, of iv]
    show ?case by (simp add: Let_def)
  qed simp
  with assms show "metered_total c c ivs \<le> (\<Sum>iv\<leftarrow>ivs. moved iv)" by simp
  have "0 \<le> c \<Longrightarrow> \<forall>iv \<in> set ivs. snd iv = [] \<Longrightarrow> metered_total c c ivs = (\<Sum>iv\<leftarrow>ivs. moved iv)"
  proof (induction ivs arbitrary: c)
    case (Cons iv ivs)
    have "delta c (counter_after c iv) = moved iv" "next_base c (counter_after c iv) = counter_after c iv"
      using delta_step(4)[of c c iv] Cons.prems by simp_all
    with Cons.IH[of "counter_after c iv"] Cons.prems delta_step(2)[of c c iv] show ?case by (simp add: Let_def)
  qed simp
  with assms show "(\<forall>iv \<in> set ivs. snd iv = []) \<longrightarrow> metered_total c c ivs = (\<Sum>iv\<leftarrow>ivs. moved iv)" by simp
qed

theorem delta_never_overcounts_witness:
  "metered_total 0 0 [(5, []), (3, [2, 4])] \<le> (\<Sum>iv\<leftarrow>[(5, []), (3, [2, 4])]. moved iv)"
  using delta_never_overcounts[of 0 "[(5, []), (3, [2, 4])]"] by simp

text \<open>
  A reset that is first observed at zero is not taken as a new baseline: the idle row is not
  written, so a later reading at or above the old baseline is charged only its excess over it,
  although all of it flowed after the reset.
\<close>
theorem idle_reset_undercounts:
  assumes "counters_ok d" "find_row ps_key (d_pubkey d) obs = Some p" "ps_rx p = 0" "ps_tx p = 0"
    and "\<not> newer (d_handshake d) (ps_handshake p)" "ps_endpoint p = d_endpoint d" "d_last_rx d \<le> cur"
  shows "metered now obs d = d \<and> delta (d_last_rx (metered now obs d)) cur = cur - d_last_rx d"
proof -
  have "\<not> device_changed (cdev d) p"
    using assms by (simp add: device_changed_def delta_def counters_ok_def)
  with assms show ?thesis by (simp add: metered_def delta_def)
qed

theorem idle_reset_undercounts_witness:
  "delta (d_last_rx (metered 3 [(seen_peer 0 0)\<lparr>ps_handshake := None, ps_endpoint := []\<rparr>] (hd (devices (metered_db 100))))) 12 = 2"
proof -
  let ?d = "hd (devices (metered_db 100))" and ?p = "(seen_peer 0 0)\<lparr>ps_handshake := None, ps_endpoint := []\<rparr>"
  have d: "counters_ok ?d" "d_pubkey ?d = k_public (example_keys 1)" "d_endpoint ?d = []" "d_last_rx ?d = 10"
    by (simp_all add: counters_ok_def metered_db_def probe_device_def)
  have p: "ps_key ?p = k_public (example_keys 1)" "ps_rx ?p = 0" "ps_tx ?p = 0" "ps_handshake ?p = None" "ps_endpoint ?p = []"
    by (simp_all add: seen_peer_def)
  have "find_row ps_key (d_pubkey ?d) [?p] = Some ?p" by (simp add: find_row_Cons d p)
  moreover have "\<not> newer (d_handshake ?d) (ps_handshake ?p)" "ps_endpoint ?p = d_endpoint ?d" "d_last_rx ?d \<le> 12"
    by (simp_all only: d p newer_def option.case) simp_all
  ultimately have "delta (d_last_rx (metered 3 [?p] ?d)) 12 = 12 - d_last_rx ?d"
    using idle_reset_undercounts[OF d(1) _ p(2,3)] by blast
  then show ?thesis unfolding d(4) by simp
qed

end
