(* ===== verification/Corrections.thy ===== *)
theory Corrections
  imports Metering
begin

text \<open>
  The expiry pass and the operator's traffic mutations: what they write, that an account is left
  consistent with its limit, and where the code's text comparison and 64-bit sums show.
\<close>

section \<open>Expiry and traffic mutations\<close>

lemma live_user_Inr: "live_user s uid = Inr u \<longleftrightarrow> find (\<lambda>u. u_id u = uid \<and> u_deleted u = None) (users s) = Some u"
  by (auto simp: live_user_def split: option.splits)

lemma live_userD: "live_user s uid = Inr u \<Longrightarrow> u \<in> set (users s) \<and> u_id u = uid \<and> u_deleted u = None"
  by (auto simp: live_user_Inr find_Some_iff)

lemma live_user_get:
  "unique_on u_id (users s) \<Longrightarrow> live_user s uid = Inr u \<longleftrightarrow> find_row u_id uid (users s) = Some u \<and> u_deleted u = None"
proof
  assume "unique_on u_id (users s)" "live_user s uid = Inr u"
  then show "find_row u_id uid (users s) = Some u \<and> u_deleted u = None"
    using find_row_unique[of u_id "users s" u] live_userD[of s uid u] by simp
next
  assume u: "unique_on u_id (users s)" and f: "find_row u_id uid (users s) = Some u \<and> u_deleted u = None"
  then have "u \<in> set (users s)" "u_id u = uid" by auto
  then have "find (\<lambda>u. u_id u = uid \<and> u_deleted u = None) (users s) \<noteq> None" using f by (auto simp: find_None_iff)
  then obtain v where v: "live_user s uid = Inr v" by (auto simp: live_user_def split: option.splits)
  with u f live_userD[OF v] show "live_user s uid = Inr u" by (auto dest: unique_on_eq)
qed

interpretation set_cols: row_update u_id "set_columns now rx tx st reason"
  by unfold_locales (simp add: set_columns_def)

interpretation zero_totals: row_update d_id "\<lambda>d :: device. d\<lparr>d_rx := 0, d_tx := 0\<rparr>"
  by unfold_locales simp

interpretation expire_id: row_update u_id "expire_row now"
  by unfold_locales (simp add: expire_row_def)

context accounting_svc
begin

lemma expiry_tx_users:
  "expiry_tx svc s = Inr (n, s') \<Longrightarrow>
     same_domain (s\<lparr>users := update_rows (expiry_due (ac_now svc)) (expire_row (ac_now svc)) (users s)\<rparr>) s'
     \<and> n = length (filter (expiry_due (ac_now svc)) (users s))"
proof (cases "filter (expiry_due (ac_now svc)) (users s) = []")
  case True
  then have "update_rows (expiry_due (ac_now svc)) (expire_row (ac_now svc)) (users s) = users s"
    by (auto simp: update_rows_def filter_empty_conv intro: map_idI)
  moreover assume "expiry_tx svc s = Inr (n, s')"
  ultimately show ?thesis using True by (simp add: expiry_tx_def same_domain_def)
next
  case False
  moreover assume "expiry_tx svc s = Inr (n, s')"
  ultimately show ?thesis using record_all_frame by (auto simp: expiry_tx_def ebind_Inr_iff Let_def)
qed

lemma EnforceExpiry_tx:
  assumes "EnforceExpiry svc s b = (Inr n, s', b')" "ac_reconciler svc = None"
  shows "expiry_tx svc s = Inr (n, s')" "b' = b"
  using assms by (auto simp: EnforceExpiry_def WithTx_def split: sum.splits if_splits)

end

lemma row_ok_expire: "row_ok u \<Longrightarrow> row_ok (expire_row now u)"
  by (simp add: row_ok_def expire_row_def)

text \<open>After the expiry update no account may hold peers a second after its expiry.\<close>

lemma expired_bound:
  assumes "r' \<in> set (update_rows (expiry_due now) (expire_row now) us)" "PeerWanted (u_status r')" "u_deleted r' = None"
    "u_expires r' = Some e"
  shows "now < e + 1000000000"
proof (rule ccontr)
  assume "\<not> now < e + 1000000000"
  then have "text_key e < text_key now" by (intro text_key_le_if) simp
  with assms show False by (auto simp: set_update_rows expiry_due_def expire_row_def PeerWanted_def split: if_splits)
qed

text \<open>
  The expiry pass. Afterwards no live account is active or waiting with an expiry more than a
  second in the past; accounts whose expiry is a second or more away, that have none, are deleted
  or are already blocked keep their row unchanged; an expired account carries the reason. (The
  one-second margins come from comparing RFC 3339 texts.)
\<close>
theorem expiry_enforced:
  assumes "users_inv s" "EnforceExpiry (wired_accounting now reg None hook :: 'a accounting_service) s b = (Inr n, s', b')"
  shows "users_inv s' \<and> devices s' = devices s
    \<and> (\<forall>r' \<in> set (users s'). \<forall>e. PeerWanted (u_status r') \<and> u_deleted r' = None \<and> u_expires r' = Some e
          \<longrightarrow> now < e + 1000000000)
    \<and> (\<forall>r \<in> set (users s). \<exists>r'. find_row u_id (u_id r) (users s') = Some r' \<and>
         (r' = r \<or> PeerWanted (u_status r) \<and> u_deleted r = None \<and> (\<exists>e. u_expires r = Some e \<and> e < now + 1000000000)
            \<and> r' = r\<lparr>u_status := UserExpired, u_reason := Some DisableExpired, u_updated := now\<rparr>))"
proof -
  have t: "expiry_tx (wired_accounting now reg None hook :: 'a accounting_service) s = Inr (n, s')"
    by (rule wired_acc.EnforceExpiry_tx(1)[OF assms(2)]) simp
  let ?us = "update_rows (expiry_due now) (expire_row now) (users s)"
  from wired_acc.expiry_tx_users[OF t] have d: "users s' = ?us" "devices s' = devices s" by (simp_all add: same_domain_def)
  have uu: "unique_on u_id (users s)" using assms(1) by (simp add: users_inv_def)
  have "users_inv s'"
    using assms(1) unfolding users_inv_def d(1)
    by (auto simp: expire_id.unique_update set_update_rows row_ok_expire[unfolded expire_row_def] expire_row_def unique_on_def update_rows_def comp_def if_distrib
        cong: if_cong)
  moreover note expired_bound
  moreover have "\<exists>r'. find_row u_id (u_id r) ?us = Some r' \<and>
         (r' = r \<or> PeerWanted (u_status r) \<and> u_deleted r = None \<and> (\<exists>e. u_expires r = Some e \<and> e < now + 1000000000)
            \<and> r' = r\<lparr>u_status := UserExpired, u_reason := Some DisableExpired, u_updated := now\<rparr>)" if "r \<in> set (users s)" for r
  proof -
    have "find_row u_id (u_id r) ?us = Some (if expiry_due now r then expire_row now r else r)"
      by (simp add: expire_id.find_update find_row_unique[OF uu that])
    moreover have "expiry_due now r \<Longrightarrow> \<exists>e. u_expires r = Some e \<and> e < now + 1000000000"
      by (auto simp: expiry_due_def dest: text_key_le_imp[OF less_imp_le])
    ultimately show ?thesis by (auto simp: expiry_due_def expire_row_def PeerWanted_def)
  qed
  ultimately show ?thesis by (simp add: d)
qed

definition expiring_db :: "time \<Rightarrow> db" where
  "expiring_db e = empty_db\<lparr>users := [stored_user (buildCreate 0 ''id-1'' ((plain_input ''alice'')\<lparr>in_expires := Some e\<rparr>))]\<rparr>"

lemma expiring_db_inv: "users_inv (expiring_db e)"
  by (simp add: users_inv_def expiring_db_def unique_on_def stored_user_def buildCreate_def Let_def user_example_simps row_ok_def)

lemma expiring_db_pass: "\<exists>n s'. EnforceExpiry (wired_accounting now None None None) (expiring_db e) () = (Inr n, s', ())"
  by (simp add: EnforceExpiry_def WithTx_def expiry_tx_def expiring_db_def stored_user_def buildCreate_def Let_def user_example_simps
      record_opt_def RecordTx_def ValidEvent_def Catalog_def event_owner_def user_event_def split: sum.splits if_splits option.splits)

theorem expiry_enforced_witness:
  "\<exists>n s'. EnforceExpiry (wired_accounting 5000000000 None None None) (expiring_db 3000000000) () = (Inr n, s', ())
     \<and> (\<forall>r \<in> set (users s'). u_expires r = Some 3000000000 \<longrightarrow> \<not> PeerWanted (u_status r) \<or> u_deleted r \<noteq> None)"
proof -
  obtain n s' where p: "EnforceExpiry (wired_accounting 5000000000 None None None) (expiring_db 3000000000) () = (Inr n, s', ())"
    using expiring_db_pass by blast
  have "\<forall>r' \<in> set (users s'). \<forall>e. PeerWanted (u_status r') \<and> u_deleted r' = None \<and> u_expires r' = Some e
          \<longrightarrow> (5000000000 :: int) < e + 1000000000"
    by (rule expiry_enforced[OF expiring_db_inv p, THEN conjunct2, THEN conjunct2, THEN conjunct1])
  with p show ?thesis by (intro exI[of _ n] exI[of _ s']) auto
qed

text \<open>
  Expiry can fire early: an expiry with a fraction of a second sorts before the bare second it
  follows, so at an exact second the pass expires an account that has up to a second left.
\<close>
theorem expiry_fires_early:
  assumes "0 < f" "f < 1000000000"
  shows "expiry_due (t * 1000000000) (hd (users (expiring_db (t * 1000000000 + f))))"
proof -
  have "nat f \<noteq> 0" using assms by simp
  then obtain rest where "frac_text (nat f) = CHR ''.'' # rest" by (simp add: frac_text_def)
  moreover have "frac_text 0 = ''Z''" by (simp add: frac_text_def)
  moreover have "CHR ''.'' # rest < ''Z''" for rest by (simp add: less_char_def)
  moreover have "(t * 1000000000 + f) div 1000000000 = t" "(t * 1000000000 + f) mod 1000000000 = f" using assms by simp_all
  ultimately have "text_key (t * 1000000000 + f) < text_key (t * 1000000000)"
    by (simp add: text_key_def less_prod_simp)
  then show ?thesis
    by (simp add: expiry_due_def expiring_db_def stored_user_def buildCreate_def plain_input_def Let_def)
qed

theorem expiry_fires_early_witness:
  "expiry_due (100 * 1000000000) (hd (users (expiring_db (100 * 1000000000 + 500000000))))"
  using expiry_fires_early[of 500000000 100] by simp

text \<open>The status an account gets from the level check at a given usage.\<close>

lemma write_meter_row:
  assumes "unique_on u_id (users s)" "find_row u_id (u_id u) (users s) = Some u"
  shows "find_row u_id (u_id u) (users (write_meter svc s u rx tx)) =
    Some (set_columns (ac_now svc) rx tx (fst (level_check u (i64 (rx + tx)))) (snd (level_check u (i64 (rx + tx)))) u)"
  using assms by (simp add: write_meter_def set_cols.find_update_self split: prod.splits)

lemma level_check_status:
  "fst (level_check u usage) =
     (if PeerWanted (u_status u) \<and> (\<exists>l. u_limit u = Some l \<and> l \<le> usage) then UserTrafficExceeded
      else if u_status u = UserTrafficExceeded \<and> (\<exists>l. u_limit u = Some l \<and> usage < l) then revived_status u
      else u_status u)"
  by (auto simp: level_check_def Let_def PeerWanted_def)

lemma revived_status_wanted: "PeerWanted (revived_status u)"
  by (simp add: revived_status_def)

definition consistent :: "user \<Rightarrow> bool" where
  "consistent r \<longleftrightarrow> (\<forall>l. u_limit r = Some l \<longrightarrow>
     (PeerWanted (u_status r) \<longrightarrow> u_used_rx r + u_used_tx r < l)
   \<and> (u_status r = UserTrafficExceeded \<longrightarrow> l \<le> u_used_rx r + u_used_tx r))"

lemma set_columns_consistent:
  assumes "is_i64 (rx + tx)"
  shows "consistent (set_columns now rx tx (fst (level_check u (i64 (rx + tx)))) reason u)"
  using assms revived_status_wanted[of u]
  by (auto simp: consistent_def set_columns_def level_check_status PeerWanted_def split: if_splits)

lemma write_meter_frame:
  "devices (write_meter svc s u rx tx) = devices s"
  "u_id v \<noteq> u_id u \<Longrightarrow> v \<in> set (users s) \<Longrightarrow> v \<in> set (users (write_meter svc s u rx tx))"
  by (auto simp: write_meter_def set_update_rows split: prod.splits intro: rev_image_eqI)

definition corrected :: "db \<Rightarrow> db \<Rightarrow> user \<Rightarrow> int \<Rightarrow> int \<Rightarrow> bool" where
  "corrected s s' u rx tx \<longleftrightarrow> (\<exists>r. find_row u_id (u_id u) (users s') = Some r \<and> u_limit r = u_limit u
     \<and> u_used_rx r = rx \<and> u_used_tx r = tx \<and> (is_i64 (rx + tx) \<longrightarrow> consistent r))
   \<and> (\<forall>v \<in> set (users s). u_id v \<noteq> u_id u \<longrightarrow> v \<in> set (users s')) \<and> devices s' = devices s"

definition meter_ok :: "user \<Rightarrow> bool" where
  "meter_ok u \<longleftrightarrow> 0 \<le> u_used_rx u \<and> u_used_rx u \<le> MaxInt64 \<and> 0 \<le> u_used_tx u \<and> u_used_tx u \<le> MaxInt64"

lemma write_meter_corrected:
  assumes "unique_on u_id (users s)" "find_row u_id (u_id u) (users s) = Some u"
  shows "corrected s (write_meter svc s u rx tx) u rx tx"
  using write_meter_row[OF assms, of svc rx tx] set_columns_consistent[of rx tx] write_meter_frame[where svc = svc and s = s and u = u and rx = rx and tx = tx]
  by (auto simp: corrected_def set_columns_def)

text \<open>
  C33. Meter corrections. A successful \<open>SetTraffic\<close> stores the given values, \<open>AddTraffic\<close> adds
  with saturation at the largest 64-bit integer, \<open>RemoveTraffic\<close> drains received bytes first,
  then sent bytes, and stops at zero; no other account and no device changes. Whenever the new
  counters sum within 64 bits, the account is left consistent: it may hold peers only below its
  limit and is traffic-exceeded only at or above it.
\<close>
theorem traffic_corrections_consistent:
  assumes "users_inv s" "Get s uid = Inr u" "meter_ok u" "is_i64 a" "is_i64 b"
  shows "(SetTraffic svc s uid (Some a) (Some b) = (Inr (), s') \<longrightarrow> corrected s s' u a b)
    \<and> (AddTraffic svc s uid a b = (Inr (), s') \<longrightarrow>
         corrected s s' u (min MaxInt64 (u_used_rx u + a)) (min MaxInt64 (u_used_tx u + b)))
    \<and> (RemoveTraffic svc s uid a = (Inr (), s') \<longrightarrow>
         corrected s s' u (max 0 (u_used_rx u - a)) (max 0 (min (u_used_tx u) (u_used_tx u + u_used_rx u - a))))"
proof -
  have uu: "unique_on u_id (users s)" using assms(1) by (simp add: users_inv_def)
  have f: "find_row u_id uid (users s) = Some u" "u_deleted u = None" using assms(2) by (simp_all add: Get_Inr)
  then have l: "live_user s uid = Inr u" and id: "u_id u = uid" using live_user_get[OF uu] by auto
  note wm = write_meter_corrected[OF uu f(1)[folded id]]
  have "SetTraffic svc s uid (Some a) (Some b) = (Inr (), s') \<Longrightarrow> s' = write_meter svc s u a b"
    by (auto simp: SetTraffic_def WithTx_def l split: if_splits)
  moreover have "s' = write_meter svc s u (min MaxInt64 (u_used_rx u + a)) (min MaxInt64 (u_used_tx u + b))"
    if r: "AddTraffic svc s uid a b = (Inr (), s')"
  proof -
    from r have ab: "0 \<le> a" "0 \<le> b" by (auto simp: AddTraffic_def split: if_splits)
    have "saturating_add (u_used_rx u) a = min MaxInt64 (u_used_rx u + a)" "saturating_add (u_used_tx u) b = min MaxInt64 (u_used_tx u + b)"
      using ab assms(3-5) by (auto simp: saturating_add_def is_i64_def meter_ok_def)
    with r show ?thesis by (auto simp: AddTraffic_def addTraffic_def WithTx_def l split: if_splits)
  qed
  moreover have "s' = write_meter svc s u (max 0 (u_used_rx u - a)) (max 0 (min (u_used_tx u) (u_used_tx u + u_used_rx u - a)))"
    if r: "RemoveTraffic svc s uid a = (Inr (), s')"
  proof -
    from r have a: "0 < a" by (auto simp: RemoveTraffic_def split: if_splits)
    then have "adjusted (u_used_rx u) (u_used_tx u) (i64 (- a)) =
        (max 0 (u_used_rx u - a), max 0 (min (u_used_tx u) (u_used_tx u + u_used_rx u - a)))"
      using assms(3-4) by (auto simp: adjusted_def is_i64_def Let_def meter_ok_def)
    with r show ?thesis by (auto simp: RemoveTraffic_def removeTraffic_def adjustTraffic_def WithTx_def l split: if_splits)
  qed
  ultimately show ?thesis using wm by auto
qed

theorem traffic_corrections_consistent_witness:
  "corrected (metered_db 100) (snd (AddTraffic example_acc (metered_db 100) ''id-1'' 70 80)) (hd (users (metered_db 100))) 70 80"
proof -
  let ?u = "hd (users (metered_db 100))"
  have u: "u_used_rx ?u = 0" "u_used_tx ?u = 0" by (simp_all add: metered_db_def stored_user_def)
  have g: "Get (metered_db 100) ''id-1'' = Inr ?u"
    by (simp add: Get_def getRaw_def metered_db_def stored_user_def buildCreate_def Let_def find_row_Cons)
  then have "live_user (metered_db 100) ''id-1'' = Inr ?u"
    by (simp add: live_user_def metered_db_def stored_user_def buildCreate_def Let_def)
  then have "AddTraffic example_acc (metered_db 100) ''id-1'' 70 80 =
      (Inr (), snd (AddTraffic example_acc (metered_db 100) ''id-1'' 70 80))"
    by (simp add: AddTraffic_def addTraffic_def WithTx_def is_i64_def)
  with traffic_corrections_consistent[OF metered_db_inv(1) g, of 70 80 example_acc "snd (AddTraffic example_acc (metered_db 100) ''id-1'' 70 80)"]
  show ?thesis by (simp add: u is_i64_def meter_ok_def)
qed

text \<open>
  Two side effects of the corrections. The usage the level check compares wraps: with both
  counters at the largest value an active account far over its limit is not tripped, and a tripped
  one is reactivated. And the reason of an account blocked for another cause is erased.
\<close>
theorem traffic_corrections_side_effects:
  assumes "users_inv s" "Get s uid = Inr u"
  shows "\<exists>s' r. SetTraffic svc s uid (Some MaxInt64) (Some MaxInt64) = (Inr (), s') \<and> find_row u_id uid (users s') = Some r
    \<and> (\<forall>l. u_limit u = Some l \<and> 0 \<le> l \<longrightarrow>
         (PeerWanted (u_status u) \<or> u_status u = UserTrafficExceeded \<longrightarrow> PeerWanted (u_status r)))
    \<and> (u_status u = UserDisabled \<or> u_status u = UserSuspended \<or> u_status u = UserExpired \<longrightarrow>
         u_status r = u_status u \<and> u_reason r = None)"
proof -
  have uu: "unique_on u_id (users s)" using assms(1) by (simp add: users_inv_def)
  have f: "find_row u_id uid (users s) = Some u" "u_deleted u = None" using assms(2) by (simp_all add: Get_Inr)
  then have l: "live_user s uid = Inr u" and id: "u_id u = uid" using live_user_get[OF uu] by auto
  have t: "i64 (MaxInt64 + MaxInt64) = - 2" by (simp add: i64_def)
  have "SetTraffic svc s uid (Some MaxInt64) (Some MaxInt64) = (Inr (), write_meter svc s u MaxInt64 MaxInt64)"
    by (simp add: SetTraffic_def WithTx_def l)
  moreover note write_meter_row[OF uu f(1)[folded id], of svc MaxInt64 MaxInt64, unfolded t id]
  moreover have "u_limit u = Some l \<Longrightarrow> 0 \<le> l \<Longrightarrow> PeerWanted (u_status u) \<or> u_status u = UserTrafficExceeded \<Longrightarrow>
      PeerWanted (fst (level_check u (- 2)))" for l
    using revived_status_wanted[of u] by (auto simp: level_check_status)
  moreover have "u_status u = UserDisabled \<or> u_status u = UserSuspended \<or> u_status u = UserExpired \<Longrightarrow> level_check u (- 2) = (u_status u, None)"
    by (auto simp: level_check_def)
  ultimately show ?thesis by (auto simp: set_columns_def)
qed

theorem traffic_corrections_side_effects_witness:
  "\<exists>s' r. SetTraffic example_acc (metered_db 100) ''id-1'' (Some MaxInt64) (Some MaxInt64) = (Inr (), s')
     \<and> find_row u_id ''id-1'' (users s') = Some r \<and> PeerWanted (u_status r)"
proof -
  let ?u = "hd (users (metered_db 100))"
  have g: "Get (metered_db 100) ''id-1'' = Inr ?u"
    by (simp add: Get_def getRaw_def metered_db_def stored_user_def buildCreate_def Let_def find_row_Cons)
  have "u_limit ?u = Some 100" "u_status ?u = UserActive"
    by (simp_all add: metered_db_def stored_user_def buildCreate_def Let_def plain_input_def opt_given_def)
  with traffic_corrections_side_effects[OF metered_db_inv(1) g, of example_acc] show ?thesis by auto
qed

lemma revive_iff:
  assumes "meter_ok u" "l' \<le> MaxInt64"
  shows "u_used_rx u \<le> i64 (MaxInt64 - u_used_tx u) \<and> i64 (u_used_rx u + u_used_tx u) < l' \<longleftrightarrow> u_used_rx u + u_used_tx u < l'"
proof -
  have "i64 (MaxInt64 - u_used_tx u) = MaxInt64 - u_used_tx u" using assms by (simp add: is_i64_def meter_ok_def)
  moreover have "u_used_rx u \<le> MaxInt64 - u_used_tx u \<Longrightarrow> i64 (u_used_rx u + u_used_tx u) = u_used_rx u + u_used_tx u"
    using assms by (simp add: is_i64_def meter_ok_def)
  ultimately show ?thesis using assms(2) by auto
qed

text \<open>The row \<open>AddQuotaTx\<close> writes for the account \<open>u\<close> with the new limit \<open>l'\<close>.\<close>

definition revives :: "user \<Rightarrow> int \<Rightarrow> bool" where
  "revives u l' \<longleftrightarrow> u_status u = UserTrafficExceeded \<and> u_used_rx u \<le> i64 (MaxInt64 - u_used_tx u)
     \<and> i64 (u_used_rx u + u_used_tx u) < l'"

definition raised_row :: "time \<Rightarrow> user \<Rightarrow> int \<Rightarrow> user \<Rightarrow> user" where
  "raised_row now u l' r = r\<lparr>u_limit := Some l', u_status := (if revives u l' then revived_status u else u_status u),
     u_reason := (if revives u l' then None else u_reason r), u_updated := now\<rparr>"

interpretation raised: row_update u_id "raised_row now u l'"
  by unfold_locales (simp add: raised_row_def)

lemma quota_fits:
  assumes "is_i64 bytes" "0 < bytes" "0 \<le> l" "\<not> i64 (MaxInt64 - bytes) < l"
  shows "i64 (l + bytes) = l + bytes" "l + bytes \<le> MaxInt64"
proof -
  have "i64 (MaxInt64 - bytes) = MaxInt64 - bytes" using assms(1,2) by (simp add: is_i64_def)
  with assms show "i64 (l + bytes) = l + bytes" "l + bytes \<le> MaxInt64" by (simp_all add: is_i64_def)
qed

context accounting_svc
begin

lemma AddQuotaTx_ok:
  assumes "AddQuotaTx svc uid bytes s = Inr (c, s')"
  obtains u l where "live_user s uid = Inr u" "u_limit u = Some l" "0 < bytes" "\<not> i64 (MaxInt64 - bytes) < l"
    "qs_limit (qc_after c) = i64 (l + bytes)"
    "same_domain (s\<lparr>users := update_rows (\<lambda>r. u_id r = uid) (raised_row (ac_now svc) u (i64 (l + bytes))) (users s)\<rparr>) s'"
proof -
  from assms obtain u l where u: "0 < bytes" "live_user s uid = Inr u" "u_limit u = Some l" "\<not> i64 (MaxInt64 - bytes) < l"
    by (auto simp: AddQuotaTx_def ebind_Inr_iff Let_def split: option.splits if_splits)
  with assms obtain evs where "qs_limit (qc_after c) = i64 (l + bytes)"
    "record_all (ac_recorder svc) evs
       (s\<lparr>users := update_rows (\<lambda>r. u_id r = uid) (raised_row (ac_now svc) u (i64 (l + bytes))) (users s)\<rparr>) = Inr s'"
    by (auto simp: AddQuotaTx_def ebind_Inr_iff Let_def raised_row_def[abs_def] revives_def)
  with u record_all_frame show ?thesis by (intro that) auto
qed

end

text \<open>
  Increasing a quota. It succeeds only for a positive amount on a live account with a finite
  limit whose sum fits 64 bits; it then adds exactly the amount, leaves the charged counters alone,
  and reactivates a traffic-exceeded account exactly when its usage is below the new limit (a
  never-activated first-connection account returns to waiting); otherwise status and reason stay. A
  failed call leaves the database as it was.
\<close>
theorem add_quota_correct:
  assumes "users_inv s" "AddQuota (wired_accounting now reg run hook) s uid bytes = (res, s')" "is_i64 bytes"
  shows "(\<forall>e. res = Inl e \<longrightarrow> s' = s)
    \<and> (\<forall>l'. res = Inr l' \<longrightarrow> (\<exists>u l r. Get s uid = Inr u \<and> u_limit u = Some l \<and> 0 < bytes \<and> l' = l + bytes \<and> l' \<le> MaxInt64
         \<and> find_row u_id uid (users s') = Some r \<and> u_limit r = Some l'
         \<and> u_used_rx r = u_used_rx u \<and> u_used_tx r = u_used_tx u
         \<and> (meter_ok u \<longrightarrow>
              u_status r = (if u_status u = UserTrafficExceeded \<and> u_used_rx u + u_used_tx u < l' then revived_status u else u_status u))
         \<and> (u_status u \<noteq> UserTrafficExceeded \<longrightarrow> u_reason r = u_reason u)))"
proof -
  let ?svc = "wired_accounting now reg run hook"
  have uu: "unique_on u_id (users s)" using assms(1) by (simp add: users_inv_def)
  have "\<exists>u l r. Get s uid = Inr u \<and> u_limit u = Some l \<and> 0 < bytes \<and> l' = l + bytes \<and> l' \<le> MaxInt64
         \<and> find_row u_id uid (users s') = Some r \<and> u_limit r = Some l'
         \<and> u_used_rx r = u_used_rx u \<and> u_used_tx r = u_used_tx u
         \<and> (meter_ok u \<longrightarrow>
              u_status r = (if u_status u = UserTrafficExceeded \<and> u_used_rx u + u_used_tx u < l' then revived_status u else u_status u))
         \<and> (u_status u \<noteq> UserTrafficExceeded \<longrightarrow> u_reason r = u_reason u)"
    if res: "res = Inr l'" for l'
  proof -
    from assms(2) res obtain c where c: "AddQuotaTx ?svc uid bytes s = Inr (c, s')" and l': "l' = qs_limit (qc_after c)"
      by (auto simp: AddQuota_def WithTx_def split: sum.splits)
    from c obtain u l where u: "live_user s uid = Inr u" "u_limit u = Some l" and b: "0 < bytes"
      and room: "\<not> i64 (MaxInt64 - bytes) < l" and q: "qs_limit (qc_after c) = i64 (l + bytes)"
      and d: "same_domain (s\<lparr>users := update_rows (\<lambda>r. u_id r = uid) (raised_row (ac_now ?svc) u (i64 (l + bytes))) (users s)\<rparr>) s'"
      by (rule wired_acc.AddQuotaTx_ok)
    have us: "users s' = update_rows (\<lambda>r. u_id r = uid) (raised_row now u (i64 (l + bytes))) (users s)"
      using d by (simp add: same_domain_def)
    have g: "find_row u_id uid (users s) = Some u" "u_deleted u = None" using u(1) live_user_get[OF uu] by auto
    have "u \<in> set (users s)" using g by auto
    then have "0 \<le> l" using assms(1) u(2) by (auto simp: users_inv_def row_ok_def)
    note lb = quota_fits[OF assms(3) b this room]
    have fr: "find_row u_id uid (users s') = Some (raised_row now u (i64 (l + bytes)) u)"
      unfolding us using g by (simp add: raised.find_update_self)
    have st: "meter_ok u \<Longrightarrow> revives u (l + bytes) \<longleftrightarrow> u_status u = UserTrafficExceeded \<and> u_used_rx u + u_used_tx u < l + bytes"
      using revive_iff lb by (simp add: revives_def)
    show ?thesis
      using g u(2) b lb fr l' q st
      by (intro exI[of _ u] exI[of _ l] exI[of _ "raised_row now u (i64 (l + bytes)) u"]) (auto simp: Get_Inr raised_row_def revives_def)
  qed
  moreover have "res = Inl e \<Longrightarrow> s' = s" for e
    using assms(2) by (auto simp: AddQuota_def WithTx_def split: sum.splits)
  ultimately show ?thesis by blast
qed

theorem add_quota_correct_witness:
  "\<exists>s' r. AddQuota example_acc (metered_db 100) ''id-1'' 50 = (Inr 150, s') \<and> find_row u_id ''id-1'' (users s') = Some r
     \<and> u_limit r = Some 150"
proof -
  have "fst (AddQuota example_acc (metered_db 100) ''id-1'' 50) = Inr 150"
    by (simp add: AddQuota_def AddQuotaTx_def WithTx_def live_user_def metered_db_def stored_user_def buildCreate_def Let_def
        plain_input_def opt_given_def opt_absent_def is_i64_def empty_db_def record_opt_def RecordTx_def ValidEvent_def Catalog_def
        event_owner_def user_event_def update_rows_def)
  then obtain s' where a: "AddQuota example_acc (metered_db 100) ''id-1'' 50 = (Inr 150, s')" by (metis prod.collapse)
  from add_quota_correct[OF metered_db_inv(1) a] a show ?thesis by (auto simp: is_i64_def)
qed

text \<open>
  Resetting an account's traffic zeroes its charged counters and the totals of its devices,
  keeps every metering baseline (so the next cycle charges only new traffic), reactivates it if it
  was traffic-exceeded, drops its buffered chart samples, and leaves other accounts, devices and
  samples alone.
\<close>
theorem reset_traffic_correct:
  assumes "users_inv s" "devices_inv s" "ResetTraffic svc s acc uid = (Inr (), s', acc')"
  shows "\<exists>u r. Get s uid = Inr u \<and> find_row u_id uid (users s') = Some r
    \<and> u_used_rx r = 0 \<and> u_used_tx r = 0 \<and> u_limit r = u_limit u
    \<and> u_status r = (if u_status u = UserTrafficExceeded then revived_status u else u_status u)
    \<and> (\<forall>v \<in> set (users s). u_id v \<noteq> uid \<longrightarrow> find_row u_id (u_id v) (users s') = Some v)
    \<and> (\<forall>d \<in> set (devices s). find_row d_id (d_id d) (devices s') =
         Some (if d_user d = uid then d\<lparr>d_rx := 0, d_tx := 0\<rparr> else d))
    \<and> (\<forall>e \<in> set acc. e \<in> set acc' \<longleftrightarrow> fst (fst e) \<notin> d_id ` {d \<in> set (devices s). d_user d = uid})"
proof -
  have uu: "unique_on u_id (users s)" using assms(1) by (simp add: users_inv_def)
  have ud: "unique_on d_id (devices s)" using assms(2) by (simp add: devices_inv_def)
  let ?col = "\<lambda>d :: device. d\<lparr>d_rx := 0, d_tx := 0\<rparr>"
  from assms(3) obtain u where l: "live_user s uid = Inr u"
    and s': "users s' = update_rows (\<lambda>r. u_id r = uid) (set_columns (ac_now svc) 0 0
        (if u_status u = UserTrafficExceeded then revived_status u else u_status u) None) (users s)"
      "devices s' = update_rows (\<lambda>d. d_user d = uid) ?col (devices s)"
    and acc': "acc' = clearDevices (map d_id (filter (\<lambda>d. d_user d = uid) (devices s'))) acc"
    by (auto simp: ResetTraffic_def WithTx_def ebind_def Let_def split: sum.splits)
  have g: "find_row u_id uid (users s) = Some u" "u_deleted u = None" using l live_user_get[OF uu] by auto
  have "find_row u_id (u_id v) (users s') = Some v" if "v \<in> set (users s)" "u_id v \<noteq> uid" for v
    using that by (simp add: s' set_cols.find_update find_row_unique[OF uu])
  moreover have "find_row d_id (d_id d) (devices s') = Some (if d_user d = uid then ?col d else d)" if "d \<in> set (devices s)" for d
    by (simp add: s' zero_totals.find_update find_row_unique[OF ud that])
  moreover have "map d_id (filter (\<lambda>d. d_user d = uid) (update_rows (\<lambda>d. d_user d = uid) ?col ds))
      = map d_id (filter (\<lambda>d. d_user d = uid) ds)" for ds
    by (induction ds) (auto simp: update_rows_def)
  then have "e \<in> set acc' \<longleftrightarrow> fst (fst e) \<notin> d_id ` {d \<in> set (devices s). d_user d = uid}" if "e \<in> set acc" for e
    using that by (cases e) (simp add: acc' s'(2) clearDevices_def case_prod_beta)
  moreover have "find_row u_id uid (users s') = Some (set_columns (ac_now svc) 0 0
        (if u_status u = UserTrafficExceeded then revived_status u else u_status u) None u)"
    using g by (simp add: s'(1) set_cols.find_update_self)
  ultimately show ?thesis
    using g by (simp add: Get_Inr set_columns_def)
qed

theorem reset_traffic_correct_witness:
  "\<exists>s' acc' r. ResetTraffic example_acc (metered_db 100) [((''dev-1'', 0), (1, 1))] ''id-1'' = (Inr (), s', acc')
     \<and> find_row u_id ''id-1'' (users s') = Some r \<and> u_used_rx r = 0"
proof -
  have "fst (ResetTraffic example_acc (metered_db 100) [((''dev-1'', 0), (1, 1))] ''id-1'') = Inr ()"
    by (simp add: ResetTraffic_def WithTx_def live_user_def metered_db_def stored_user_def buildCreate_def Let_def)
  then obtain s' acc' where a: "ResetTraffic example_acc (metered_db 100) [((''dev-1'', 0), (1, 1))] ''id-1'' = (Inr (), s', acc')"
    by (metis prod.collapse)
  from reset_traffic_correct[OF metered_db_inv(1,2) a] a show ?thesis by auto
qed

end
