(* ===== verification/Reconcile.thy ===== *)
theory Reconcile
  imports Devices Tunnel
begin

text \<open>
  The reconcile engine (\<open>src/internal/reconcile/reconcile.go\<close>): it makes the tunnel backend match the
  database. The backend is the control surface of \<open>Tunnel\<close>, the key ring's decryption a parameter.
  Go maps are lists with one entry per key. Drift items keep their interface, kind and action;
  their detail texts and the run time are left out.
\<close>

section \<open>Types\<close>

datatype policy = PolicyReport | PolicyAdopt | PolicyRemove | DriftPolicyOther string

record engine =
  en_policy :: policy
  en_decrypt :: "string \<Rightarrow> string result"

record drift_item =
  dr_iface :: string
  dr_kind :: string
  dr_action :: string

record report =
  re_created :: nat
  re_updated :: nat
  re_removed :: nat
  re_peers_added :: nat
  re_peers_removed :: nat
  re_peers_updated :: nat
  re_drift :: "drift_item list"
  re_errors :: "(string \<times> error) list"

definition new_report :: report where
  "new_report = \<lparr>re_created = 0, re_updated = 0, re_removed = 0, re_peers_added = 0, re_peers_removed = 0,
     re_peers_updated = 0, re_drift = [], re_errors = []\<rparr>"

definition add_drift :: "string \<Rightarrow> string \<Rightarrow> string \<Rightarrow> report \<Rightarrow> report" where
  "add_drift ifc kind action rep =
     rep\<lparr>re_drift := re_drift rep @ [\<lparr>dr_iface = ifc, dr_kind = kind, dr_action = action\<rparr>]\<rparr>"

definition add_error :: "string \<Rightarrow> error \<Rightarrow> report \<Rightarrow> report" where
  "add_error ifc e rep = rep\<lparr>re_errors := re_errors rep @ [(ifc, e)]\<rparr>"

record db_interface =
  di_id :: string
  di_name :: string
  di_mode :: string
  di_port :: int
  di_subnet :: string
  di_pools :: "string list"
  di_mtu :: int
  di_obf :: obfuscation
  di_enabled :: bool
  di_private :: string

record peer_desire =
  pd_key :: string
  pd_psk :: string
  pd_allowed :: string
  pd_device :: string

section \<open>Loading the desired state\<close>

definition column_obfuscation :: "obf_columns \<Rightarrow> obfuscation result" where
  "column_obfuscation c =
     ebind (scanU32 (oc_h1 c)) (\<lambda>h1. ebind (scanU32 (oc_h2 c)) (\<lambda>h2.
     ebind (scanU32 (oc_h3 c)) (\<lambda>h3. ebind (scanU32 (oc_h4 c)) (\<lambda>h4.
     ebind (scanU16 (oc_padding c)) (\<lambda>padding. ebind (scanU16 (oc_rekey_after c)) (\<lambda>ra.
     ebind (scanU16 (oc_rekey_timeout c)) (\<lambda>rt. ebind (scanU16 (oc_reject_after c)) (\<lambda>rj.
     ebind (scanU16 (oc_keepalive c)) (\<lambda>ka. ebind (scanU16 (oc_max_handshake c)) (\<lambda>mh.
     let int64 = (\<lambda>n. case n of None \<Rightarrow> 0 | Some v \<Rightarrow> v); str = (\<lambda>n. case n of None \<Rightarrow> [] | Some v \<Rightarrow> v)
     in Inr \<lparr>ob_enabled = (oc_jc c \<noteq> None), ob_jc = int64 (oc_jc c), ob_jmin = int64 (oc_jmin c),
       ob_jmax = int64 (oc_jmax c), ob_s1 = int64 (oc_s1 c), ob_s2 = int64 (oc_s2 c),
       ob_h1 = h1, ob_h2 = h2, ob_h3 = h3, ob_h4 = h4,
       ob_i1 = str (oc_i1 c), ob_i2 = str (oc_i2 c), ob_i3 = str (oc_i3 c), ob_i4 = str (oc_i4 c), ob_i5 = str (oc_i5 c),
       ob_s3 = oc_s3 c, ob_s4 = oc_s4 c, ob_hpk = oc_hpk c, ob_padding = padding, ob_rekey_after = ra,
       ob_rekey_timeout = rt, ob_reject_after = rj, ob_keepalive = ka, ob_max_handshake = mh,
       ob_trailers = (oc_trailers c = 1), ob_no_cookies = (oc_no_cookies c = 1)\<rparr>))))))))))"

definition load_interface :: "(string \<Rightarrow> string result) \<Rightarrow> iface_row \<Rightarrow> db_interface result" where
  "load_interface decrypt r =
     ebind (column_obfuscation (i_cols r)) (\<lambda>ob.
     ebind (Decode (i_subnet r) (i_extras r)) (\<lambda>pools.
     if i_mode r \<noteq> ''kernel'' \<and> i_mode r \<noteq> ''userspace''
     then Inl (Foreign ''reconcile: invalid stored backend mode'')
     else ebind (ValidateObfuscation ob) (\<lambda>_.
       ebind (decrypt (i_privkey r)) (\<lambda>pt.
         Inr \<lparr>di_id = i_id r, di_name = i_name r, di_mode = i_mode r, di_port = i_port r, di_subnet = i_subnet r,
              di_pools = pools, di_mtu = i_mtu r, di_obf = ob, di_enabled = i_enabled r, di_private = pt\<rparr>))))"

fun load_all :: "('a \<Rightarrow> 'b result) \<Rightarrow> 'a list \<Rightarrow> 'b list result" where
  "load_all f [] = Inr []"
| "load_all f (x # xs) = ebind (f x) (\<lambda>y. ebind (load_all f xs) (\<lambda>ys. Inr (y # ys)))"

definition loadInterfaces :: "engine \<Rightarrow> db \<Rightarrow> db_interface list result" where
  "loadInterfaces en s = load_all (load_interface (en_decrypt en)) (sort_key i_name (ifaces s))"

text \<open>\<open>desiredPeerWhere\<close>, over the join of a device with its account.\<close>

definition desiredPeerWhere :: "user \<Rightarrow> device \<Rightarrow> bool" where
  "desiredPeerWhere u d \<longleftrightarrow> u_deleted u = None \<and> u_enabled u \<and> d_enabled d
     \<and> (u_status u = UserActive \<or> u_status u = UserWaitingFirstConnection)"

definition peer_eligible :: "db \<Rightarrow> device \<Rightarrow> bool" where
  "peer_eligible s d = (case find_row u_id (d_user d) (users s) of None \<Rightarrow> False | Some u \<Rightarrow> desiredPeerWhere u d)"

definition DesiredPeerKeys :: "db \<Rightarrow> string \<Rightarrow> string list" where
  "DesiredPeerKeys s name =
     map d_pubkey (filter (\<lambda>d. peer_eligible s d
       \<and> (case find_row i_id (d_iface d) (ifaces s) of None \<Rightarrow> False | Some i \<Rightarrow> i_name i = name)) (devices s))"

definition desire :: "(string \<Rightarrow> string result) \<Rightarrow> device \<Rightarrow> (string \<times> peer_desire) result" where
  "desire decrypt d =
     ebind (case d_psk d of Some c \<Rightarrow> if c \<noteq> [] then decrypt c else Inr [] | None \<Rightarrow> Inr []) (\<lambda>psk.
       Inr (d_iface d, \<lparr>pd_key = d_pubkey d, pd_psk = psk, pd_allowed = d_ipv4 d, pd_device = d_name d\<rparr>))"

definition loadDesiredPeers ::
  "engine \<Rightarrow> db \<Rightarrow> ((string \<Rightarrow> peer_desire list) \<times> string list \<times> (string \<Rightarrow> string list)) result" where
  "loadDesiredPeers en s =
     ebind (load_all (desire (en_decrypt en)) (filter (peer_eligible s) (devices s))) (\<lambda>rs.
       Inr (\<lambda>ifid. map snd (filter (\<lambda>(i, _). i = ifid) rs),
            map d_pubkey (devices s),
            \<lambda>ifid. map snd (filter (\<lambda>(i, _). i = ifid) (retired s))))"

section \<open>One interface\<close>

definition gatewayAddress :: "string \<Rightarrow> string" where
  "gatewayAddress subnet = (case parse_prefix subnet of None \<Rightarrow> []
     | Some p \<Rightarrow> (case next_addr (p_addr p) of
          Some a \<Rightarrow> show_prefix \<lparr>p_addr = a, p_bits = p_bits p\<rparr> | None \<Rightarrow> ''invalid Prefix''))"

definition sameAllowedIPs :: "string list \<Rightarrow> string list \<Rightarrow> bool" where
  "sameAllowedIPs a b \<longleftrightarrow> length a = length b \<and> list_all (\<lambda>(x, y). x = y) (zip a b)"

definition interface_spec_of :: "db_interface \<Rightarrow> interface_spec" where
  "interface_spec_of ifc = \<lparr>sp_name = di_name ifc, sp_mode = di_mode ifc, sp_private = di_private ifc,
     sp_port = di_port ifc, sp_fwmark = [], sp_mtu = di_mtu ifc, sp_address = gatewayAddress (di_subnet ifc),
     sp_addresses = map Gateway (di_pools ifc), sp_obf = di_obf ifc\<rparr>"

definition want_config :: "db_interface \<Rightarrow> interface_config" where
  "want_config ifc = \<lparr>ic_private = di_private ifc, ic_port = di_port ifc, ic_fwmark = [], ic_obf = di_obf ifc, ic_peers = []\<rparr>"

definition must_recreate :: "db_interface \<Rightarrow> interface_state \<Rightarrow> bool" where
  "must_recreate ifc st \<longleftrightarrow> (is_mode st \<noteq> [] \<and> is_mode st \<noteq> di_mode ifc)
     \<or> ob_enabled (is_obf st) \<noteq> ob_enabled (di_obf ifc)
     \<or> (ob_hpk (is_obf st) \<noteq> [] \<and> ob_hpk (di_obf ifc) = [])"

definition recreate_kind :: "db_interface \<Rightarrow> interface_state \<Rightarrow> string" where
  "recreate_kind ifc st =
     (if is_mode st \<noteq> [] \<and> is_mode st \<noteq> di_mode ifc then ''backend_transition''
      else if ob_enabled (is_obf st) = ob_enabled (di_obf ifc) \<and> ob_hpk (is_obf st) \<noteq> [] \<and> ob_hpk (di_obf ifc) = []
      then ''hpk_removal'' else ''mode_transition'')"

definition param_drift :: "db_interface \<Rightarrow> interface_state \<Rightarrow> bool" where
  "param_drift ifc st \<longleftrightarrow> is_port st \<noteq> di_port ifc \<or> is_obf st \<noteq> di_obf ifc"

text \<open>
  The first half of \<open>reconcileInterface\<close>: the link exists with the wanted parameters afterwards.
  It returns whether the link was (re)created and the peers the first dump showed.
\<close>

definition prepare_link ::
  "'b backend \<Rightarrow> db_interface \<Rightarrow> report \<Rightarrow> 'b \<Rightarrow> (bool \<times> peer_state list) result \<times> report \<times> 'b" where
  "prepare_link bk ifc rep b =
     (let n = di_name ifc
      in case Dump bk b n of
           Inl e \<Rightarrow>
             if e = ErrInterfaceNotFound then
               (case CreateInterface bk b (interface_spec_of ifc) of
                  (Inl e', b1) \<Rightarrow> (Inl e', rep, b1)
                | (Inr _, b1) \<Rightarrow>
                    (case ApplyInterfaceConfig bk b1 n (want_config ifc) of
                       (Inl e', b2) \<Rightarrow> (Inl e', rep, b2)
                     | (Inr _, b2) \<Rightarrow>
                         (Inr (True, []), add_drift n ''missing_interface'' ''created'' (rep\<lparr>re_created := Suc (re_created rep)\<rparr>), b2)))
             else (Inl e, rep, b)
         | Inr st \<Rightarrow>
             if must_recreate ifc st then
               (case RemoveInterface bk b n of
                  (Inl e', b1) \<Rightarrow> (Inl e', rep, b1)
                | (Inr _, b1) \<Rightarrow>
                    (case CreateInterface bk b1 (interface_spec_of ifc) of
                       (Inl e', b2) \<Rightarrow> (Inl e', rep, b2)
                     | (Inr _, b2) \<Rightarrow>
                         (Inr (True, is_peers st),
                          add_drift n (recreate_kind ifc st) ''recreated'' (rep\<lparr>re_updated := Suc (re_updated rep)\<rparr>), b2)))
             else if param_drift ifc st then
               (case ApplyInterfaceConfig bk b n (want_config ifc) of
                  (Inl e', b1) \<Rightarrow> (Inl e', rep, b1)
                | (Inr _, b1) \<Rightarrow>
                    (Inr (False, is_peers st), add_drift n ''param_drift'' ''applied'' (rep\<lparr>re_updated := Suc (re_updated rep)\<rparr>), b1))
             else (Inr (False, is_peers st), rep, b))"

definition ensure_addresses ::
  "'b backend \<Rightarrow> db_interface \<Rightarrow> bool \<Rightarrow> 'b \<Rightarrow> unit result \<times> 'b" where
  "ensure_addresses bk ifc created b =
     (if created then (Inr (), b)
      else case EnsureAddresses bk of
             None \<Rightarrow> (Inr (), b)
           | Some f \<Rightarrow> f b (di_name ifc) (map Gateway (di_pools ifc)))"

record peer_diff =
  pf_sync :: "peer_config list"
  pf_dirty :: bool
  pf_report :: report

definition desired_config :: "peer_desire \<Rightarrow> peer_config" where
  "desired_config d = \<lparr>pc_key = pd_key d, pc_psk = pd_psk d, pc_allowed = [pd_allowed d], pc_endpoint = [],
     pc_keepalive = ScalarU16 0\<rparr>"

definition diff_desired :: "string \<Rightarrow> bool \<Rightarrow> peer_state list \<Rightarrow> peer_desire \<Rightarrow> peer_diff \<Rightarrow> peer_diff" where
  "diff_desired n created hv d df =
     (let df1 = df\<lparr>pf_sync := pf_sync df @ [desired_config d]\<rparr>; rep = pf_report df
      in if created then df1\<lparr>pf_report := rep\<lparr>re_peers_added := Suc (re_peers_added rep)\<rparr>\<rparr>
         else case find_row ps_key (pd_key d) hv of
                None \<Rightarrow> df1\<lparr>pf_dirty := True, pf_report := add_drift n ''missing_peer'' ''added''
                   (rep\<lparr>re_peers_added := Suc (re_peers_added rep)\<rparr>)\<rparr>
              | Some p \<Rightarrow>
                  if \<not> sameAllowedIPs (ps_allowed p) [pd_allowed d]
                  then df1\<lparr>pf_dirty := True, pf_report := add_drift n ''missing_peer'' ''added''
                     (rep\<lparr>re_peers_updated := Suc (re_peers_updated rep)\<rparr>)\<rparr>
                  else df1)"

definition kept_config :: "peer_state \<Rightarrow> peer_config" where
  "kept_config p = \<lparr>pc_key = ps_key p, pc_psk = [], pc_allowed = ps_allowed p, pc_endpoint = [],
     pc_keepalive = ps_keepalive p\<rparr>"

definition diff_observed ::
  "policy \<Rightarrow> string \<Rightarrow> string list \<Rightarrow> string list \<Rightarrow> string list \<Rightarrow> peer_state \<Rightarrow> peer_diff \<Rightarrow> peer_diff" where
  "diff_observed pol n want known ret p df =
     (let rep = pf_report df; removed = rep\<lparr>re_peers_removed := Suc (re_peers_removed rep)\<rparr>
      in if ps_key p \<in> set want then df
         else if ps_key p \<in> set known \<or> ps_key p \<in> set ret
         then df\<lparr>pf_dirty := True, pf_report := add_drift n ''stale_peer'' ''removed'' removed\<rparr>
         else case pol of
                PolicyRemove \<Rightarrow> df\<lparr>pf_dirty := True, pf_report := add_drift n ''unknown_peer'' ''removed'' removed\<rparr>
              | PolicyAdopt \<Rightarrow> df\<lparr>pf_sync := pf_sync df @ [kept_config p],
                   pf_report := add_drift n ''unknown_peer'' ''adopt'' rep\<rparr>
              | _ \<Rightarrow> df\<lparr>pf_sync := pf_sync df @ [kept_config p],
                   pf_report := add_drift n ''unknown_peer'' ''reported'' rep\<rparr>)"

definition peer_diff_of ::
  "policy \<Rightarrow> string \<Rightarrow> bool \<Rightarrow> peer_state list \<Rightarrow> peer_desire list \<Rightarrow> string list \<Rightarrow> string list \<Rightarrow> report \<Rightarrow> peer_diff" where
  "peer_diff_of pol n created hv desired known ret rep =
     (let df = fold (diff_desired n created hv) desired \<lparr>pf_sync = [], pf_dirty = created, pf_report = rep\<rparr>
      in if created then df else fold (diff_observed pol n (map pd_key desired) known ret) hv df)"

definition reconcileInterface ::
  "engine \<Rightarrow> 'b backend \<Rightarrow> db_interface \<Rightarrow> peer_desire list \<Rightarrow> string list \<Rightarrow> string list \<Rightarrow> report \<Rightarrow> 'b
     \<Rightarrow> unit result \<times> report \<times> 'b" where
  "reconcileInterface en bk ifc desired known ret rep b =
     (case prepare_link bk ifc rep b of
        (Inl e, rep1, b1) \<Rightarrow> (Inl e, rep1, b1)
      | (Inr (created, hv), rep1, b1) \<Rightarrow>
          (case ensure_addresses bk ifc created b1 of
             (Inl e, b2) \<Rightarrow> (Inl e, rep1, b2)
           | (Inr _, b2) \<Rightarrow>
               let df = peer_diff_of (en_policy en) (di_name ifc) created hv desired known ret rep1
               in if pf_dirty df then
                    (case SyncPeers bk b2 (di_name ifc) (pf_sync df) of (r, b3) \<Rightarrow> (r, pf_report df, b3))
                  else (Inr (), pf_report df, b2)))"

section \<open>The pass\<close>

definition ackRetiredKeys :: "string \<Rightarrow> string list \<Rightarrow> db \<Rightarrow> db" where
  "ackRetiredKeys ifid keys s = s\<lparr>retired := filter (\<lambda>(i, k). \<not> (i = ifid \<and> k \<in> set keys)) (retired s)\<rparr>"

record 'b pass =
  ps_report :: report
  ps_db :: db
  ps_backend :: 'b

definition pass_interface ::
  "engine \<Rightarrow> 'b backend \<Rightarrow> (string \<Rightarrow> peer_desire list) \<Rightarrow> string list \<Rightarrow> (string \<Rightarrow> string list) \<Rightarrow> db_interface
     \<Rightarrow> 'b pass \<Rightarrow> 'b pass" where
  "pass_interface en bk desired known ret ifc st =
     (let n = di_name ifc; i = di_id ifc; b = ps_backend st; rep = ps_report st;
          acked = ackRetiredKeys i (ret i) (ps_db st)
      in if di_enabled ifc then
           (case reconcileInterface en bk ifc (desired i) known (ret i) rep b of
              (Inl e, rep', b') \<Rightarrow> st\<lparr>ps_report := add_error n e rep', ps_backend := b'\<rparr>
            | (Inr _, rep', b') \<Rightarrow> \<lparr>ps_report = rep', ps_db = acked, ps_backend = b'\<rparr>)
         else
           (case Dump bk b n of
              Inr _ \<Rightarrow>
                (case RemoveInterface bk b n of
                   (r, b') \<Rightarrow>
                     if (\<exists>e. r = Inl e \<and> e \<noteq> ErrInterfaceNotFound)
                     then st\<lparr>ps_report := add_error n (projl r) rep, ps_backend := b'\<rparr>
                     else \<lparr>ps_report = add_drift n ''unwanted_interface'' ''removed'' (rep\<lparr>re_removed := Suc (re_removed rep)\<rparr>),
                           ps_db = acked, ps_backend = b'\<rparr>)
            | Inl e \<Rightarrow>
                if e = ErrInterfaceNotFound then st\<lparr>ps_db := acked\<rparr>
                else st\<lparr>ps_report := add_error n e rep\<rparr>))"

definition LinkPrefix :: string where "LinkPrefix = ''wgo''"

definition MaxSlots :: nat where "MaxSlots = 63"

definition IsLinkName :: "string \<Rightarrow> bool" where
  "IsLinkName name =
     (if take 3 name \<noteq> LinkPrefix then False
      else let rest = drop 3 name
           in if rest = [] \<or> 2 < length rest \<or> hd rest = CHR ''0'' then False
              else if \<not> list_all is_digit rest then False
              else let n = foldl (\<lambda>n c. n * 10 + digit_val c) 0 rest in 1 \<le> n \<and> n \<le> MaxSlots)"

definition Run :: "engine \<Rightarrow> 'b backend \<Rightarrow> db \<Rightarrow> 'b \<Rightarrow> report result \<times> db \<times> 'b" where
  "Run en bk s b =
     (case loadInterfaces en s of
        Inl e \<Rightarrow> (Inl e, s, b)
      | Inr ifcs \<Rightarrow>
          (case loadDesiredPeers en s of
             Inl e \<Rightarrow> (Inl e, s, b)
           | Inr (desired, known, ret) \<Rightarrow>
               let st = fold (pass_interface en bk desired known ret) ifcs \<lparr>ps_report = new_report, ps_db = s, ps_backend = b\<rparr>
               in case ListInterfaces bk (ps_backend st) of
                    Inl e \<Rightarrow> (Inl e, ps_db st, ps_backend st)
                  | Inr names \<Rightarrow>
                      let foreign = filter (\<lambda>n. n \<notin> di_name ` set ifcs \<and> \<not> IsLinkName n) names;
                          rep = fold (\<lambda>n. add_drift n ''foreign_interface'' ''none'') foreign (ps_report st)
                      in (Inr (rep\<lparr>re_drift := sort_key dr_iface (re_drift rep)\<rparr>), ps_db st, ps_backend st)))"

section \<open>The peer diff\<close>

lemma sameAllowedIPs_eq: "sameAllowedIPs a b \<longleftrightarrow> a = b"
  by (auto simp: sameAllowedIPs_def list_all_length list_eq_iff_nth_eq)

lemma config_keys [simp]:
  "pc_key (desired_config d) = pd_key d" "pc_allowed (desired_config d) = [pd_allowed d]"
  "pc_key (kept_config p) = ps_key p" "pc_allowed (kept_config p) = ps_allowed p"
  by (simp_all add: desired_config_def kept_config_def)

text \<open>A desired peer that the interface does not have with its address.\<close>

definition lacking :: "peer_state list \<Rightarrow> peer_desire \<Rightarrow> bool" where
  "lacking hv d \<longleftrightarrow> (case find_row ps_key (pd_key d) hv of None \<Rightarrow> True | Some p \<Rightarrow> ps_allowed p \<noteq> [pd_allowed d])"

text \<open>A peer the diff leaves alone, and one it removes.\<close>

definition kept :: "policy \<Rightarrow> string list \<Rightarrow> string list \<Rightarrow> string list \<Rightarrow> string \<Rightarrow> bool" where
  "kept pol want known ret k \<longleftrightarrow> k \<notin> set want \<and> k \<notin> set known \<and> k \<notin> set ret \<and> pol \<noteq> PolicyRemove"

definition removed :: "policy \<Rightarrow> string list \<Rightarrow> string list \<Rightarrow> string list \<Rightarrow> string \<Rightarrow> bool" where
  "removed pol want known ret k \<longleftrightarrow> k \<notin> set want \<and> (k \<in> set known \<or> k \<in> set ret \<or> pol = PolicyRemove)"

lemma diff_desired_fold:
  "pf_sync (fold (diff_desired n c hv) ds df) = pf_sync df @ map desired_config ds"
  "pf_dirty (fold (diff_desired n c hv) ds df) \<longleftrightarrow> pf_dirty df \<or> (\<not> c \<and> (\<exists>d \<in> set ds. lacking hv d))"
proof (induction ds arbitrary: df)
  case (Cons d ds)
  have "pf_sync (diff_desired n c hv d df) = pf_sync df @ [desired_config d]"
    and "pf_dirty (diff_desired n c hv d df) \<longleftrightarrow> pf_dirty df \<or> (\<not> c \<and> lacking hv d)" for df
    by (auto simp: diff_desired_def Let_def lacking_def sameAllowedIPs_eq split: option.splits)
  then show "pf_sync (fold (diff_desired n c hv) (d # ds) df) = pf_sync df @ map desired_config (d # ds)"
    "pf_dirty (fold (diff_desired n c hv) (d # ds) df) \<longleftrightarrow> pf_dirty df \<or> (\<not> c \<and> (\<exists>d \<in> set (d # ds). lacking hv d))" for df
    using Cons.IH[of "diff_desired n c hv d df"] by auto
qed simp_all

lemma diff_observed_fold:
  "pf_sync (fold (diff_observed pol n want known ret) ps df) =
     pf_sync df @ map kept_config (filter (\<lambda>p. kept pol want known ret (ps_key p)) ps)"
  "pf_dirty (fold (diff_observed pol n want known ret) ps df) \<longleftrightarrow>
     pf_dirty df \<or> (\<exists>p \<in> set ps. removed pol want known ret (ps_key p))"
proof (induction ps arbitrary: df)
  case (Cons p ps)
  have "pf_sync (diff_observed pol n want known ret p df) =
      pf_sync df @ (if kept pol want known ret (ps_key p) then [kept_config p] else [])"
    and "pf_dirty (diff_observed pol n want known ret p df) \<longleftrightarrow> pf_dirty df \<or> removed pol want known ret (ps_key p)" for df
    by (cases pol; auto simp: diff_observed_def Let_def kept_def removed_def)+
  then show "pf_sync (fold (diff_observed pol n want known ret) (p # ps) df) =
      pf_sync df @ map kept_config (filter (\<lambda>p. kept pol want known ret (ps_key p)) (p # ps))"
    "pf_dirty (fold (diff_observed pol n want known ret) (p # ps) df) \<longleftrightarrow>
      pf_dirty df \<or> (\<exists>p \<in> set (p # ps). removed pol want known ret (ps_key p))" for df
    using Cons.IH[of "diff_observed pol n want known ret p df"] by auto
qed simp_all

lemma peer_diff_created:
  "pf_sync (peer_diff_of pol n True hv ds known ret rep) = map desired_config ds"
  "pf_dirty (peer_diff_of pol n True hv ds known ret rep)"
  by (simp_all add: peer_diff_of_def diff_desired_fold)

lemma peer_diff_existing:
  "pf_sync (peer_diff_of pol n False hv ds known ret rep) =
     map desired_config ds @ map kept_config (filter (\<lambda>p. kept pol (map pd_key ds) known ret (ps_key p)) hv)"
  "pf_dirty (peer_diff_of pol n False hv ds known ret rep) \<longleftrightarrow>
     (\<exists>d \<in> set ds. lacking hv d) \<or> (\<exists>p \<in> set hv. removed pol (map pd_key ds) known ret (ps_key p))"
  by (simp_all add: peer_diff_of_def diff_desired_fold diff_observed_fold)

lemma sync_unique:
  assumes "unique_on pd_key ds" "unique_on ps_key hv"
  shows "unique_on pc_key (map desired_config ds @ map kept_config (filter (\<lambda>p. kept pol (map pd_key ds) known ret (ps_key p)) hv))"
  using assms by (auto simp: unique_on_def comp_def distinct_map_filter kept_def image_iff)

lemma sync_keys:
  "pc_key ` set (map desired_config ds @ map kept_config (filter (\<lambda>p. kept pol (map pd_key ds) known ret (ps_key p)) hv)) =
     pd_key ` set ds \<union> {k \<in> ps_key ` set hv. kept pol (map pd_key ds) known ret k}"
  by (simp add: image_Un image_image) (auto simp: image_iff)

section \<open>One interface\<close>

text \<open>
  The state of an interface after a successful pass over it: its peers are exactly the desired
  ones and the unknown ones the policy keeps, each desired peer with its address.
\<close>

definition settled_link ::
  "policy \<Rightarrow> peer_desire list \<Rightarrow> string list \<Rightarrow> string list \<Rightarrow> string set \<Rightarrow> interface_state \<Rightarrow> bool" where
  "settled_link pol ds known ret seen st \<longleftrightarrow>
     peer_keys st = pd_key ` set ds \<union> {k \<in> seen. kept pol (map pd_key ds) known ret k}
   \<and> (\<forall>p \<in> set (is_peers st). \<forall>d \<in> set ds. pd_key d = ps_key p \<longrightarrow> ps_allowed p = [pd_allowed d])"

text \<open>
  The interface was only off in its parameters: it exists, need not be recreated, and its peers
  already agree with the database.
\<close>

definition silent_drift ::
  "policy \<Rightarrow> db_interface \<Rightarrow> peer_desire list \<Rightarrow> string list \<Rightarrow> string list \<Rightarrow> interface_state \<Rightarrow> bool" where
  "silent_drift pol ifc ds known ret st \<longleftrightarrow> \<not> must_recreate ifc st \<and> param_drift ifc st
     \<and> \<not> (\<exists>d \<in> set ds. lacking (is_peers st) d)
     \<and> \<not> (\<exists>p \<in> set (is_peers st). removed pol (map pd_key ds) known ret (ps_key p))"

context tunnel_backend
begin

lemma prepare_cases:
  assumes "ok b" "prepare_link bk ifc rep b = (r, rep', b')"
  obtains (fails) e where "r = Inl e"
  | (fresh) hv st where "r = Inr (True, hv)" "Dump bk b' (di_name ifc) = Inr st" "peer_keys st = {}"
      "Dump bk b (di_name ifc) = Inl ErrInterfaceNotFound \<or>
         (\<exists>st0. Dump bk b (di_name ifc) = Inr st0 \<and> must_recreate ifc st0)"
  | (clean) st where "r = Inr (False, is_peers st)" "Dump bk b (di_name ifc) = Inr st" "b' = b"
      "\<not> must_recreate ifc st" "\<not> param_drift ifc st"
  | (drifted) st st' where "r = Inr (False, is_peers st)" "Dump bk b (di_name ifc) = Inr st"
      "Dump bk b' (di_name ifc) = Inr st'" "peer_keys st' = {}" "\<not> must_recreate ifc st" "param_drift ifc st"
proof (cases "Dump bk b (di_name ifc)")
  case (Inl e)
  show ?thesis
  proof (cases "e = ErrInterfaceNotFound")
    case True
    obtain r1 b1 where c: "CreateInterface bk b (interface_spec_of ifc) = (r1, b1)" by fastforce
    obtain r2 b2 where a: "ApplyInterfaceConfig bk b1 (di_name ifc) (want_config ifc) = (r2, b2)" by fastforce
    show ?thesis
    proof (cases "r1 = Inr () \<and> r2 = Inr ()")
      case both: True
      have ok1: "ok b1" using create_ok[OF assms(1) c] .
      obtain st where "Dump bk b2 (di_name ifc) = Inr st" "peer_keys st = {}"
        using apply_dump[OF ok1, of "di_name ifc" "want_config ifc" b2] a both by (auto simp: want_config_def)
      moreover have "r = Inr (True, [])" "b' = b2"
        using assms(2) Inl True c a both by (auto simp: prepare_link_def Let_def)
      ultimately show ?thesis using fresh Inl True by simp
    next
      case False
      then show ?thesis using assms(2) Inl True c a fails
        by (cases r1; cases r2) (auto simp: prepare_link_def Let_def)
    qed
  qed (use assms(2) Inl fails in \<open>auto simp: prepare_link_def Let_def\<close>)
next
  case (Inr st)
  consider (re) "must_recreate ifc st" | (dr) "\<not> must_recreate ifc st" "param_drift ifc st"
    | (cl) "\<not> must_recreate ifc st" "\<not> param_drift ifc st" by blast
  then show ?thesis
  proof cases
    case re
    obtain r1 b1 where c: "RemoveInterface bk b (di_name ifc) = (r1, b1)" by fastforce
    obtain r2 b2 where a: "CreateInterface bk b1 (interface_spec_of ifc) = (r2, b2)" by fastforce
    show ?thesis
    proof (cases "r1 = Inr () \<and> r2 = Inr ()")
      case both: True
      have ok1: "ok b1" using remove_ok[OF assms(1) c] .
      obtain st' where "Dump bk b2 (di_name ifc) = Inr st'" "peer_keys st' = {}"
        using create_dump[OF ok1, of "interface_spec_of ifc" b2] a both by (auto simp: interface_spec_of_def peer_keys_def)
      moreover have "r = Inr (True, is_peers st)" "b' = b2"
        using assms(2) Inr re c a both by (auto simp: prepare_link_def Let_def)
      ultimately show ?thesis using fresh Inr re by simp
    next
      case False
      then show ?thesis using assms(2) Inr re c a fails
        by (cases r1; cases r2) (auto simp: prepare_link_def Let_def)
    qed
  next
    case dr
    obtain r2 b2 where a: "ApplyInterfaceConfig bk b (di_name ifc) (want_config ifc) = (r2, b2)" by fastforce
    show ?thesis
    proof (cases r2)
      case (Inr u)
      obtain st' where "Dump bk b2 (di_name ifc) = Inr st'" "peer_keys st' = {}"
        using apply_dump[OF assms(1), of "di_name ifc" "want_config ifc" b2] a Inr by (auto simp: want_config_def)
      moreover have "r = Inr (False, is_peers st)" "b' = b2"
        using assms(2) \<open>Dump bk b (di_name ifc) = Inr st\<close> dr a Inr by (auto simp: prepare_link_def Let_def)
      ultimately show ?thesis using drifted \<open>Dump bk b (di_name ifc) = Inr st\<close> dr by simp
    qed (use assms(2) \<open>Dump bk b (di_name ifc) = Inr st\<close> dr a fails in \<open>auto simp: prepare_link_def Let_def\<close>)
  next
    case cl
    then show ?thesis using assms(2) Inr by (intro clean[of st]) (simp_all add: prepare_link_def Let_def)
  qed
qed

lemma prepare_frame:
  assumes "ok b" "prepare_link bk ifc rep b = (r, rep', b')"
  shows "ok b'" "m \<noteq> di_name ifc \<Longrightarrow> Dump bk b' m = Dump bk b m"
proof -
  have sn: "sp_name (interface_spec_of ifc) = di_name ifc" by (simp add: interface_spec_of_def)
  show "ok b'"
    using assms by (auto simp: prepare_link_def Let_def split: sum.splits if_splits prod.splits
        intro: create_ok apply_ok remove_ok)
  show "m \<noteq> di_name ifc \<Longrightarrow> Dump bk b' m = Dump bk b m"
    using assms(2) by (auto simp: prepare_link_def Let_def sn split: sum.splits if_splits prod.splits
        dest!: create_frame[where m = m] apply_frame[where m = m] remove_frame[where m = m])
qed

lemma ensure_frame:
  assumes "ok b" "ensure_addresses bk ifc c b = (r, b')"
  shows "ok b'" "Dump bk b' m = Dump bk b m"
  using assms by (auto simp: ensure_addresses_def split: if_splits option.splits intro: ensure_ok ensure_dump)

lemma reconcile_frame:
  assumes "ok b" "reconcileInterface en bk ifc ds known ret rep b = (r, rep', b')"
  shows "ok b'" "m \<noteq> di_name ifc \<Longrightarrow> Dump bk b' m = Dump bk b m"
proof -
  obtain r1 rep1 b1 where p: "prepare_link bk ifc rep b = (r1, rep1, b1)" by (metis prod_cases3)
  note f = prepare_frame[OF assms(1) p]
  show "ok b'"
    using assms(2) p f(1) ensure_frame(1)[OF f(1)]
    by (auto simp: reconcileInterface_def Let_def split: sum.splits prod.splits if_splits dest: sync_ok[rotated])
  show "m \<noteq> di_name ifc \<Longrightarrow> Dump bk b' m = Dump bk b m"
    using assms(2) p f(2) ensure_frame(2)[OF f(1)]
    by (auto simp: reconcileInterface_def Let_def split: sum.splits prod.splits if_splits dest!: sync_frame[where m = m])
qed

end

text \<open>What a successful pass over one interface leaves, from its dumps before and after.\<close>

definition link_ok ::
  "policy \<Rightarrow> db_interface \<Rightarrow> peer_desire list \<Rightarrow> string list \<Rightarrow> string list \<Rightarrow> interface_state result \<Rightarrow> interface_state result \<Rightarrow> bool" where
  "link_ok pol ifc ds known ret d0 d1 \<longleftrightarrow>
     (if di_enabled ifc then
        (\<exists>st'. d1 = Inr st' \<and>
           (case d0 of
              Inl e \<Rightarrow> settled_link pol ds known ret {} st'
            | Inr st \<Rightarrow> if must_recreate ifc st then settled_link pol ds known ret {} st'
                else if silent_drift pol ifc ds known ret st then peer_keys st' = {}
                else settled_link pol ds known ret (peer_keys st) st'))
      else d1 = Inl ErrInterfaceNotFound)"

lemma lacking_iff:
  assumes "unique_on ps_key hv"
  shows "\<not> lacking hv d \<longleftrightarrow> (\<exists>p \<in> set hv. ps_key p = pd_key d \<and> ps_allowed p = [pd_allowed d])"
proof
  assume "\<not> lacking hv d"
  then show "\<exists>p \<in> set hv. ps_key p = pd_key d \<and> ps_allowed p = [pd_allowed d]"
    by (auto simp: lacking_def split: option.splits dest!: find_row_Some)
next
  assume "\<exists>p \<in> set hv. ps_key p = pd_key d \<and> ps_allowed p = [pd_allowed d]"
  then obtain p where "p \<in> set hv" "ps_key p = pd_key d" "ps_allowed p = [pd_allowed d]" by blast
  with find_row_unique[OF assms this(1)] show "\<not> lacking hv d" by (simp add: lacking_def)
qed

lemma clean_settled:
  assumes "unique_on ps_key (is_peers st)" "\<not> (\<exists>d \<in> set ds. lacking (is_peers st) d)"
    and "\<not> (\<exists>p \<in> set (is_peers st). removed pol (map pd_key ds) known ret (ps_key p))"
  shows "settled_link pol ds known ret (peer_keys st) st"
proof -
  have l: "\<exists>p \<in> set (is_peers st). ps_key p = pd_key d \<and> ps_allowed p = [pd_allowed d]" if "d \<in> set ds" for d
    using assms(2) that lacking_iff[OF assms(1)] by blast
  have "ps_allowed p = [pd_allowed d]" if "p \<in> set (is_peers st)" "d \<in> set ds" "pd_key d = ps_key p" for p d
    using l[OF that(2)] unique_on_eq[OF assms(1) that(1)] that(3) by force
  moreover have "peer_keys st = pd_key ` set ds \<union> {k \<in> peer_keys st. kept pol (map pd_key ds) known ret k}"
  proof -
    have "pd_key ` set ds \<subseteq> peer_keys st" using l by (force simp: peer_keys_def)
    moreover have "k \<in> pd_key ` set ds \<or> kept pol (map pd_key ds) known ret k" if "k \<in> peer_keys st" for k
      using assms(3) that by (auto simp: peer_keys_def removed_def kept_def)
    ultimately show ?thesis by blast
  qed
  ultimately show ?thesis by (simp add: settled_link_def)
qed

lemma synced_settled:
  assumes "peer_keys st' = pc_key ` set (map desired_config ds @ map kept_config (filter (\<lambda>p. kept pol (map pd_key ds) known ret (ps_key p)) hv))"
    and "\<forall>p \<in> set (is_peers st'). \<forall>c \<in> set (map desired_config ds @ map kept_config (filter (\<lambda>p. kept pol (map pd_key ds) known ret (ps_key p)) hv)).
      pc_key c = ps_key p \<longrightarrow> ps_allowed p = pc_allowed c"
  shows "settled_link pol ds known ret (ps_key ` set hv) st'"
proof -
  have "ps_allowed p = [pd_allowed d]" if "p \<in> set (is_peers st')" "d \<in> set ds" "pd_key d = ps_key p" for p d
    using assms(2)[rule_format, OF that(1), of "desired_config d"] that by simp
  then show ?thesis unfolding settled_link_def assms(1) sync_keys by blast
qed

context tunnel_backend
begin

lemma reconcile_settles:
  assumes "ok b" "unique_on pd_key ds" "di_enabled ifc"
    and "reconcileInterface en bk ifc ds known ret rep b = (Inr (), rep', b')"
  shows "link_ok (en_policy en) ifc ds known ret (Dump bk b (di_name ifc)) (Dump bk b' (di_name ifc))"
proof -
  obtain r1 rep1 b1 where p: "prepare_link bk ifc rep b = (r1, rep1, b1)" by (metis prod_cases3)
  with assms(4) obtain c hv where r1: "r1 = Inr (c, hv)" by (cases r1) (auto simp: reconcileInterface_def)
  obtain r2 b2 where e: "ensure_addresses bk ifc c b1 = (r2, b2)" by fastforce
  let ?df = "peer_diff_of (en_policy en) (di_name ifc) c hv ds known ret rep1"
  from assms(4) p r1 e have r2: "r2 = Inr ()" by (cases r2) (auto simp: reconcileInterface_def)
  have fin: "if pf_dirty ?df then SyncPeers bk b2 (di_name ifc) (pf_sync ?df) = (Inr (), b') else b' = b2"
    using assms(4) p r1 e r2 by (auto simp: reconcileInterface_def Let_def split: if_splits prod.splits)
  have ok2: "ok b2" and d2: "Dump bk b2 m = Dump bk b1 m" for m
    using ensure_frame[OF prepare_frame(1)[OF assms(1) p] e] by auto
  from assms(1) p show ?thesis
  proof (cases rule: prepare_cases)
    case (fails e)
    with r1 show ?thesis by simp
  next
    case (fresh hv' st)
    with r1 have c: "c" by simp
    then have s: "SyncPeers bk b2 (di_name ifc) (map desired_config ds) = (Inr (), b')"
      using fin by (simp add: peer_diff_created)
    have "unique_on pc_key (map desired_config ds)" using assms(2) by (simp add: unique_on_def comp_def)
    from sync_dump[OF ok2 s this] d2 fresh(2) obtain st' where
      "Dump bk b' (di_name ifc) = Inr st'" "peer_keys st' = pc_key ` set (map desired_config ds)"
      "\<forall>p \<in> set (is_peers st'). \<forall>c \<in> set (map desired_config ds). pc_key c = ps_key p \<longrightarrow> ps_allowed p = pc_allowed c"
      by auto
    moreover from this have "settled_link (en_policy en) ds known ret {} st'"
      using synced_settled[of st' ds "en_policy en" known ret "[]"] by simp
    ultimately show ?thesis using fresh(4) assms(3) by (auto simp: link_ok_def)
  next
    case (clean st)
    with r1 have c: "\<not> c" "hv = is_peers st" by simp_all
    have u: "unique_on ps_key (is_peers st)" using unique_peers[OF assms(1) clean(2)] .
    show ?thesis
    proof (cases "pf_dirty ?df")
      case True
      with fin c have s: "SyncPeers bk b2 (di_name ifc) (pf_sync ?df) = (Inr (), b')" by simp
      have "unique_on pc_key (pf_sync ?df)" using c sync_unique[OF assms(2) u] by (simp add: peer_diff_existing)
      from sync_dump[OF ok2 s this] d2 clean(2,3) obtain st' where
        "Dump bk b' (di_name ifc) = Inr st'" "peer_keys st' = pc_key ` set (pf_sync ?df)"
        "\<forall>p \<in> set (is_peers st'). \<forall>c \<in> set (pf_sync ?df). pc_key c = ps_key p \<longrightarrow> ps_allowed p = pc_allowed c" by auto
      then show ?thesis
        using synced_settled[of st' ds "en_policy en" known ret hv] clean(2,4,5) assms(3) c
        by (simp add: link_ok_def silent_drift_def peer_diff_existing peer_keys_def)
    next
      case False
      with c have "\<not> (\<exists>d \<in> set ds. lacking (is_peers st) d)"
        "\<not> (\<exists>p \<in> set (is_peers st). removed (en_policy en) (map pd_key ds) known ret (ps_key p))"
        by (simp_all add: peer_diff_existing)
      from clean_settled[OF u this] show ?thesis
        using False fin d2 clean(2-5) assms(3) by (simp add: link_ok_def silent_drift_def)
    qed
  next
    case (drifted st st1)
    with r1 have c: "\<not> c" "hv = is_peers st" by simp_all
    have u: "unique_on ps_key (is_peers st)" using unique_peers[OF assms(1) drifted(2)] .
    have sil: "silent_drift (en_policy en) ifc ds known ret st \<longleftrightarrow> \<not> pf_dirty ?df"
      using drifted(5,6) c by (auto simp: silent_drift_def peer_diff_existing)
    show ?thesis
    proof (cases "pf_dirty ?df")
      case True
      with fin c have s: "SyncPeers bk b2 (di_name ifc) (pf_sync ?df) = (Inr (), b')" by simp
      have "unique_on pc_key (pf_sync ?df)" using c sync_unique[OF assms(2) u] by (simp add: peer_diff_existing)
      from sync_dump[OF ok2 s this] d2 drifted(3) obtain st' where
        "Dump bk b' (di_name ifc) = Inr st'" "peer_keys st' = pc_key ` set (pf_sync ?df)"
        "\<forall>p \<in> set (is_peers st'). \<forall>c \<in> set (pf_sync ?df). pc_key c = ps_key p \<longrightarrow> ps_allowed p = pc_allowed c" by auto
      then have "settled_link (en_policy en) ds known ret (peer_keys st) st'" "Dump bk b' (di_name ifc) = Inr st'"
        using synced_settled[of st' ds "en_policy en" known ret hv] c by (simp_all add: peer_diff_existing peer_keys_def)
      moreover have "\<not> silent_drift (en_policy en) ifc ds known ret st" using sil True by blast
      ultimately show ?thesis using drifted(2,5) assms(3) by (simp add: link_ok_def)
    next
      case False
      with fin d2 drifted assms(3) sil show ?thesis by (simp add: link_ok_def)
    qed
  qed
qed

end

lemma peer_diff_errors: "re_errors (pf_report (peer_diff_of pol n c hv ds known ret rep)) = re_errors rep"
proof -
  have d: "re_errors (pf_report (fold (diff_desired n c hv) ds df)) = re_errors (pf_report df)" for c df
    by (induction ds arbitrary: df) (simp_all add: diff_desired_def Let_def add_drift_def split: option.splits)
  have o: "re_errors (pf_report (fold (diff_observed pol n want known ret) ps df)) = re_errors (pf_report df)" for want ps df
    by (induction ps arbitrary: df) (simp_all add: diff_observed_def Let_def add_drift_def split: policy.splits)
  show ?thesis by (simp add: peer_diff_of_def Let_def d o)
qed

lemma reconcile_errors: "reconcileInterface en bk ifc ds known ret rep b = (r, rep', b') \<Longrightarrow> re_errors rep' = re_errors rep"
proof -
  obtain r1 rep1 b1 where p: "prepare_link bk ifc rep b = (r1, rep1, b1)" by (metis prod_cases3)
  then have "re_errors rep1 = re_errors rep"
    by (auto simp: prepare_link_def Let_def add_drift_def split: sum.splits prod.splits if_splits)
  then show "reconcileInterface en bk ifc ds known ret rep b = (r, rep', b') \<Longrightarrow> re_errors rep' = re_errors rep"
    using p by (auto simp: reconcileInterface_def Let_def peer_diff_errors split: sum.splits prod.splits if_splits)
qed

section \<open>The pass\<close>

lemma ack_db:
  "users (ackRetiredKeys i ks s) = users s" "devices (ackRetiredKeys i ks s) = devices s"
  "ifaces (ackRetiredKeys i ks s) = ifaces s"
  "set (retired (ackRetiredKeys i ks s)) = {(j, k) \<in> set (retired s). \<not> (j = i \<and> k \<in> set ks)}"
  by (auto simp: ackRetiredKeys_def)

text \<open>The outcome for one interface of a pass that began with backend \<open>b\<close> and database \<open>s\<close>.\<close>

definition outcome ::
  "'b backend \<Rightarrow> engine \<Rightarrow> (string \<Rightarrow> peer_desire list) \<Rightarrow> string list \<Rightarrow> (string \<Rightarrow> string list) \<Rightarrow> 'b \<Rightarrow> db_interface \<Rightarrow> 'b pass \<Rightarrow> bool" where
  "outcome bk en desired known ret b ifc st' \<longleftrightarrow>
     (\<exists>e. (di_name ifc, e) \<in> set (re_errors (ps_report st')))
   \<or> link_ok (en_policy en) ifc (desired (di_id ifc)) known (ret (di_id ifc)) (Dump bk b (di_name ifc)) (Dump bk (ps_backend st') (di_name ifc))"

context tunnel_backend
begin

lemma pass_step:
  fixes en :: engine and st :: "'b pass" and known :: "string list" and ret :: "string \<Rightarrow> string list"
  assumes "ok (ps_backend st)" "unique_on pd_key (desired (di_id ifc))"
  defines "st' \<equiv> pass_interface en bk desired known ret ifc st"
  shows "ok (ps_backend st')"
    "m \<noteq> di_name ifc \<Longrightarrow> Dump bk (ps_backend st') m = Dump bk (ps_backend st) m"
    "set (re_errors (ps_report st)) \<subseteq> set (re_errors (ps_report st'))"
    "(\<exists>e. (di_name ifc, e) \<in> set (re_errors (ps_report st'))) \<and> ps_db st' = ps_db st
     \<or> link_ok (en_policy en) ifc (desired (di_id ifc)) known (ret (di_id ifc))
         (Dump bk (ps_backend st) (di_name ifc)) (Dump bk (ps_backend st') (di_name ifc))
       \<and> ps_db st' = ackRetiredKeys (di_id ifc) (ret (di_id ifc)) (ps_db st)"
proof -
  let ?n = "di_name ifc" and ?b = "ps_backend st"
  have "ok (ps_backend st') \<and> (m \<noteq> ?n \<longrightarrow> Dump bk (ps_backend st') m = Dump bk ?b m)
    \<and> set (re_errors (ps_report st)) \<subseteq> set (re_errors (ps_report st'))
    \<and> ((\<exists>e. (?n, e) \<in> set (re_errors (ps_report st'))) \<and> ps_db st' = ps_db st
       \<or> link_ok (en_policy en) ifc (desired (di_id ifc)) known (ret (di_id ifc)) (Dump bk ?b ?n) (Dump bk (ps_backend st') ?n)
         \<and> ps_db st' = ackRetiredKeys (di_id ifc) (ret (di_id ifc)) (ps_db st))"
  proof (cases "di_enabled ifc")
    case True
    obtain r rep' b' where r: "reconcileInterface en bk ifc (desired (di_id ifc)) known (ret (di_id ifc)) (ps_report st) ?b = (r, rep', b')"
      by (metis prod_cases3)
    note fr = reconcile_frame[OF assms(1) r] and er = reconcile_errors[OF r]
    show ?thesis
    proof (cases r)
      case (Inl e)
      then have "st' = st\<lparr>ps_report := add_error ?n e rep', ps_backend := b'\<rparr>"
        using True r by (simp add: st'_def pass_interface_def Let_def)
      with fr er show ?thesis by (auto simp: add_error_def)
    next
      case (Inr u)
      then have s: "st' = \<lparr>ps_report = rep', ps_db = ackRetiredKeys (di_id ifc) (ret (di_id ifc)) (ps_db st), ps_backend = b'\<rparr>"
        using True r by (simp add: st'_def pass_interface_def Let_def)
      have "link_ok (en_policy en) ifc (desired (di_id ifc)) known (ret (di_id ifc)) (Dump bk ?b ?n) (Dump bk b' ?n)"
        using reconcile_settles[OF assms(1,2) True] r Inr by simp
      with fr er s show ?thesis by simp
    qed
  next
    case False
    obtain r b' where r: "RemoveInterface bk ?b ?n = (r, b')" by fastforce
    consider (missing) "Dump bk ?b ?n = Inl ErrInterfaceNotFound" | (broken) e where "Dump bk ?b ?n = Inl e" "e \<noteq> ErrInterfaceNotFound"
      | (there) d where "Dump bk ?b ?n = Inr d" by (cases "Dump bk ?b ?n") auto
    then show ?thesis
    proof cases
      case there
      show ?thesis
      proof (cases "\<exists>e. r = Inl e \<and> e \<noteq> ErrInterfaceNotFound")
        case e: True
        then have "st' = st\<lparr>ps_report := add_error ?n (projl r) (ps_report st), ps_backend := b'\<rparr>"
          using False there r by (auto simp: st'_def pass_interface_def Let_def)
        with remove_ok[OF assms(1) r] remove_frame[OF r, of m] show ?thesis by (auto simp: add_error_def)
      next
        case e: False
        then have s: "ps_db st' = ackRetiredKeys (di_id ifc) (ret (di_id ifc)) (ps_db st)" "ps_backend st' = b'"
          "re_errors (ps_report st') = re_errors (ps_report st)"
          using False there r by (auto simp: st'_def pass_interface_def Let_def add_drift_def)
        have "Dump bk b' ?n = Inl ErrInterfaceNotFound"
          using e remove_dump[OF assms(1)] remove_missing[OF assms(1)] r by (cases r) auto
        with s False remove_ok[OF assms(1) r] remove_frame[OF r, of m] show ?thesis by (simp add: link_ok_def)
      qed
    qed (use False assms(1) in \<open>auto simp: st'_def pass_interface_def Let_def add_error_def link_ok_def\<close>)
  qed
  then show "ok (ps_backend st')"
    "m \<noteq> di_name ifc \<Longrightarrow> Dump bk (ps_backend st') m = Dump bk (ps_backend st) m"
    "set (re_errors (ps_report st)) \<subseteq> set (re_errors (ps_report st'))"
    "(\<exists>e. (di_name ifc, e) \<in> set (re_errors (ps_report st'))) \<and> ps_db st' = ps_db st
     \<or> link_ok (en_policy en) ifc (desired (di_id ifc)) known (ret (di_id ifc))
         (Dump bk (ps_backend st) (di_name ifc)) (Dump bk (ps_backend st') (di_name ifc))
       \<and> ps_db st' = ackRetiredKeys (di_id ifc) (ret (di_id ifc)) (ps_db st)"
    by simp_all
qed

lemma pass_fold:
  fixes en :: engine and known :: "string list" and ret :: "string \<Rightarrow> string list"
  assumes "ok (ps_backend st)" "\<And>i. unique_on pd_key (desired i)" "unique_on di_name xs"
  defines "st' \<equiv> fold (pass_interface en bk desired known ret) xs st"
  shows "ok (ps_backend st')" "\<forall>m. m \<notin> di_name ` set xs \<longrightarrow> Dump bk (ps_backend st') m = Dump bk (ps_backend st) m"
    "set (re_errors (ps_report st)) \<subseteq> set (re_errors (ps_report st'))"
    "\<forall>ifc \<in> set xs. outcome bk en desired known ret (ps_backend st) ifc st'"
    "users (ps_db st') = users (ps_db st) \<and> devices (ps_db st') = devices (ps_db st) \<and> ifaces (ps_db st') = ifaces (ps_db st)
     \<and> set (retired (ps_db st')) \<subseteq> set (retired (ps_db st))"
    "\<forall>(i, k) \<in> set (retired (ps_db st)) - set (retired (ps_db st')). \<exists>ifc \<in> set xs. di_id ifc = i \<and> k \<in> set (ret i)
       \<and> link_ok (en_policy en) ifc (desired i) known (ret i) (Dump bk (ps_backend st) (di_name ifc)) (Dump bk (ps_backend st') (di_name ifc))"
  using assms(1,3) unfolding st'_def
proof (induction xs arbitrary: st)
  case Nil
  { case 1 then show ?case by simp next case 2 then show ?case by simp next case 3 then show ?case by simp
    next case 4 then show ?case by simp next case 5 then show ?case by simp next case 6 then show ?case by simp }
next
  case (Cons x xs)
  let ?f = "pass_interface en bk desired known ret"
  note step = pass_step[where desired = desired and ifc = x and en = en and known = known and ret = ret, OF _ assms(2)]
  have u: "unique_on di_name xs" "di_name x \<notin> di_name ` set xs" if "unique_on di_name (x # xs)"
    using that by (auto simp: unique_on_def)
  { case 1 then show ?case using Cons.IH(1)[OF step(1)[OF 1(1)] u(1)[OF 1(2)]] by simp
  next case 2 then show ?case using Cons.IH(2)[OF step(1)[OF 2(1)] u(1)[OF 2(2)]] step(2)[OF 2(1)] by simp
  next case 3 then show ?case using Cons.IH(3)[OF step(1)[OF 3(1)] u(1)[OF 3(2)]] step(3)[OF 3(1)] by auto
  next case 4
    note IH = Cons.IH(2-4)[OF step(1)[OF 4(1)] u(1)[OF 4(2)]]
    have "outcome bk en desired known ret (ps_backend st) y (fold ?f xs (?f x st))" if "y \<in> set xs" for y
    proof -
      have "di_name y \<noteq> di_name x" using that u(2)[OF 4(2)] by (metis imageI)
      from step(2)[OF 4(1) this] IH(3)[rule_format, OF that] show ?thesis by (simp add: outcome_def)
    qed
    moreover have "outcome bk en desired known ret (ps_backend st) x (fold ?f xs (?f x st))"
      using IH(1)[rule_format, OF u(2)[OF 4(2)]] IH(2) step(4)[OF 4(1)] by (auto simp: outcome_def)
    ultimately show ?case by simp
  next case 5
    have "users (ps_db (?f x st)) = users (ps_db st) \<and> devices (ps_db (?f x st)) = devices (ps_db st) \<and> ifaces (ps_db (?f x st)) = ifaces (ps_db st)
        \<and> set (retired (ps_db (?f x st))) \<subseteq> set (retired (ps_db st))"
      using step(4)[OF 5(1)] by (auto simp: ack_db)
    then show ?case using Cons.IH(5)[OF step(1)[OF 5(1)] u(1)[OF 5(2)]] by auto
  next case 6
    note IH = Cons.IH(2,6)[OF step(1)[OF 6(1)] u(1)[OF 6(2)]]
    let ?st' = "fold ?f xs (?f x st)"
    have "\<exists>ifc \<in> set (x # xs). di_id ifc = i \<and> k \<in> set (ret i)
        \<and> link_ok (en_policy en) ifc (desired i) known (ret i) (Dump bk (ps_backend st) (di_name ifc)) (Dump bk (ps_backend ?st') (di_name ifc))"
      if ik: "(i, k) \<in> set (retired (ps_db st))" "(i, k) \<notin> set (retired (ps_db ?st'))" for i k
    proof (cases "(i, k) \<in> set (retired (ps_db (?f x st)))")
      case True
      from bspec[OF IH(2), of "(i, k)"] True ik(2) obtain y where y: "y \<in> set xs" "di_id y = i" "k \<in> set (ret i)"
        "link_ok (en_policy en) y (desired i) known (ret i) (Dump bk (ps_backend (?f x st)) (di_name y)) (Dump bk (ps_backend ?st') (di_name y))"
        by auto
      have "di_name y \<noteq> di_name x" using y(1) u(2)[OF 6(2)] by (metis imageI)
      from step(2)[OF 6(1) this] y show ?thesis by (intro bexI[of _ y]) auto
    next
      case False
      with ik(1) step(4)[OF 6(1)] have "i = di_id x" "k \<in> set (ret i)"
        "link_ok (en_policy en) x (desired i) known (ret i) (Dump bk (ps_backend st) (di_name x)) (Dump bk (ps_backend (?f x st)) (di_name x))"
        by (auto simp: ack_db)
      then show ?thesis using IH(1)[rule_format, OF u(2)[OF 6(2)]] by (intro bexI[of _ x]) auto
    qed
    then show ?case by auto }
qed

end

section \<open>What is loaded\<close>

lemma load_all_ok: "load_all f xs = Inr ys \<Longrightarrow> list_all2 (\<lambda>x y. f x = Inr y) xs ys"
  by (induction xs arbitrary: ys) (auto simp: ebind_Inr_iff)

lemma load_all_mem:
  assumes "load_all f xs = Inr ys"
  shows "x \<in> set xs \<Longrightarrow> \<exists>y \<in> set ys. f x = Inr y" "y \<in> set ys \<Longrightarrow> \<exists>x \<in> set xs. f x = Inr y"
  using load_all_ok[OF assms] by (induction rule: list_all2_induct) auto

lemma load_interface_sel:
  "load_interface decrypt r = Inr ifc \<Longrightarrow> di_id ifc = i_id r \<and> di_name ifc = i_name r \<and> di_enabled ifc = i_enabled r
     \<and> di_port ifc = i_port r"
  by (auto simp: load_interface_def ebind_Inr_iff split: if_splits)

lemma loadInterfaces_ok:
  assumes "loadInterfaces en s = Inr ifcs"
  shows "map di_name ifcs = map i_name (sort_key i_name (ifaces s))" "map di_id ifcs = map i_id (sort_key i_name (ifaces s))"
    "r \<in> set (ifaces s) \<Longrightarrow> \<exists>ifc \<in> set ifcs. load_interface (en_decrypt en) r = Inr ifc"
    "ifc \<in> set ifcs \<Longrightarrow> \<exists>r \<in> set (ifaces s). load_interface (en_decrypt en) r = Inr ifc"
proof -
  have l: "load_all (load_interface (en_decrypt en)) (sort_key i_name (ifaces s)) = Inr ifcs"
    using assms by (simp add: loadInterfaces_def)
  have "list_all2 (\<lambda>r ifc. di_id ifc = i_id r \<and> di_name ifc = i_name r) (sort_key i_name (ifaces s)) ifcs"
    using load_all_ok[OF l] by (rule list_all2_mono) (auto dest: load_interface_sel)
  then show "map di_name ifcs = map i_name (sort_key i_name (ifaces s))" "map di_id ifcs = map i_id (sort_key i_name (ifaces s))"
    by (simp_all add: list_eq_iff_nth_eq list_all2_conv_all_nth)
  show "r \<in> set (ifaces s) \<Longrightarrow> \<exists>ifc \<in> set ifcs. load_interface (en_decrypt en) r = Inr ifc"
    "ifc \<in> set ifcs \<Longrightarrow> \<exists>r \<in> set (ifaces s). load_interface (en_decrypt en) r = Inr ifc"
    using load_all_mem[OF l] by simp_all
qed

lemma desire_sel:
  "desire decrypt d = Inr (i, pd) \<Longrightarrow> i = d_iface d \<and> pd_key pd = d_pubkey d \<and> pd_allowed pd = d_ipv4 d"
  by (auto simp: desire_def ebind_Inr_iff)

lemma loadDesired_ok:
  assumes "loadDesiredPeers en s = Inr (desired, known, ret)" "unique_on d_pubkey (devices s)"
  shows "known = map d_pubkey (devices s)" "k \<in> set (ret i) \<longleftrightarrow> (i, k) \<in> set (retired s)"
    "unique_on pd_key (desired i)"
    "pd_key ` set (desired i) = d_pubkey ` {d \<in> set (devices s). peer_eligible s d \<and> d_iface d = i}"
    "d \<in> set (devices s) \<Longrightarrow> peer_eligible s d \<Longrightarrow> d_iface d = i \<Longrightarrow>
       \<exists>pd \<in> set (desired i). pd_key pd = d_pubkey d \<and> pd_allowed pd = d_ipv4 d"
proof -
  from assms(1) obtain rs where l: "load_all (desire (en_decrypt en)) (filter (peer_eligible s) (devices s)) = Inr rs"
    and d: "desired = (\<lambda>ifid. map snd (filter (\<lambda>(i, _). i = ifid) rs))" "known = map d_pubkey (devices s)"
      "ret = (\<lambda>ifid. map snd (filter (\<lambda>(i, _). i = ifid) (retired s)))"
    by (auto simp: loadDesiredPeers_def ebind_Inr_iff)
  show "known = map d_pubkey (devices s)" "k \<in> set (ret i) \<longleftrightarrow> (i, k) \<in> set (retired s)"
    using d by (auto simp: image_iff)
  have "list_all2 (\<lambda>d r. pd_key (snd r) = d_pubkey d) (filter (peer_eligible s) (devices s)) rs"
    using load_all_ok[OF l] by (rule list_all2_mono) (metis desire_sel prod.collapse)
  then have keys: "map (\<lambda>r. pd_key (snd r)) rs = map d_pubkey (filter (peer_eligible s) (devices s))"
    by (simp add: list_eq_iff_nth_eq list_all2_conv_all_nth)
  have "distinct (map (\<lambda>r. pd_key (snd r)) rs)"
    unfolding keys using assms(2) by (simp add: unique_on_def distinct_map_filter)
  then show "unique_on pd_key (desired i)"
    by (simp add: d unique_on_def comp_def distinct_map_filter)
  show ex: "\<exists>pd \<in> set (desired i). pd_key pd = d_pubkey d \<and> pd_allowed pd = d_ipv4 d"
    if "d \<in> set (devices s)" "peer_eligible s d" "d_iface d = i" for d i
  proof -
    from that have "d \<in> set (filter (peer_eligible s) (devices s))" by simp
    from load_all_mem(1)[OF l this] obtain r where r: "r \<in> set rs" "desire (en_decrypt en) d = Inr r" ..
    then have "fst r = i" "pd_key (snd r) = d_pubkey d" "pd_allowed (snd r) = d_ipv4 d"
      using desire_sel[of "en_decrypt en" d "fst r" "snd r"] that by auto
    with r(1) show ?thesis by (intro bexI[of _ "snd r"]) (auto simp: d image_iff)
  qed
  have "k \<in> d_pubkey ` {d \<in> set (devices s). peer_eligible s d \<and> d_iface d = i}" if k: "k \<in> pd_key ` set (desired i)" for k
  proof -
    from k obtain r where r: "r \<in> set rs" "fst r = i" "k = pd_key (snd r)" by (auto simp: d)
    obtain d where "d \<in> set (devices s)" "peer_eligible s d" "desire (en_decrypt en) d = Inr r"
      using load_all_mem(2)[OF l r(1)] by auto
    with r show ?thesis using desire_sel[of "en_decrypt en" d "fst r" "snd r"] by auto
  qed
  moreover have "k \<in> pd_key ` set (desired i)"
    if k: "k \<in> d_pubkey ` {d \<in> set (devices s). peer_eligible s d \<and> d_iface d = i}" for k
  proof -
    from k obtain d where d: "d \<in> set (devices s)" "peer_eligible s d" "d_iface d = i" "k = d_pubkey d" by auto
    from ex[OF this(1-3)] d(4) show ?thesis by (metis imageI)
  qed
  ultimately show "pd_key ` set (desired i) = d_pubkey ` {d \<in> set (devices s). peer_eligible s d \<and> d_iface d = i}" by blast
qed

section \<open>A whole pass\<close>

text \<open>The keys of the devices that may hold a peer on an interface.\<close>

definition wanted_keys :: "db \<Rightarrow> string \<Rightarrow> string set" where
  "wanted_keys s i = d_pubkey ` {d \<in> set (devices s). peer_eligible s d \<and> d_iface d = i}"

lemma DesiredPeerKeys_wanted:
  assumes "unique_on i_id (ifaces s)" "unique_on i_name (ifaces s)" "r \<in> set (ifaces s)"
  shows "set (DesiredPeerKeys s (i_name r)) = wanted_keys s (i_id r)"
proof -
  have "(case find_row i_id i (ifaces s) of None \<Rightarrow> False | Some j \<Rightarrow> i_name j = i_name r) \<longleftrightarrow> i = i_id r" for i
  proof
    assume "case find_row i_id i (ifaces s) of None \<Rightarrow> False | Some j \<Rightarrow> i_name j = i_name r"
    then obtain j where "find_row i_id i (ifaces s) = Some j" "i_name j = i_name r" by (auto split: option.splits)
    then show "i = i_id r" using unique_on_eq[OF assms(2), of j r] assms(3) by auto
  next
    assume "i = i_id r"
    then show "case find_row i_id i (ifaces s) of None \<Rightarrow> False | Some j \<Rightarrow> i_name j = i_name r"
      using find_row_unique[OF assms(1,3)] by simp
  qed
  then show ?thesis by (auto simp: DesiredPeerKeys_def wanted_keys_def)
qed

lemma settled_link_known:
  assumes "settled_link pol ds known ret seen st" "pd_key ` set ds = W" "W \<subseteq> set known"
  shows "peer_keys st \<inter> (set known \<union> set ret) = W"
proof -
  have "peer_keys st = W \<union> {k \<in> seen. kept pol (map pd_key ds) known ret k}"
    using assms(1,2) by (simp add: settled_link_def)
  then show ?thesis using assms(3) by (auto simp: kept_def)
qed

context tunnel_backend
begin

text \<open>
  What a pass did to the database and the links, whatever it returned: nothing when a table could
  not be loaded, the fold over the interfaces otherwise.
\<close>

lemma Run_state:
  assumes "ok b" "unique_on d_pubkey (devices s)" "unique_on i_name (ifaces s)" "Run en bk s b = (r, s', b')"
  obtains (unloaded) e where "r = Inl e" "s' = s" "b' = b"
  | (passed) ifcs desired known ret errs where
    "loadInterfaces en s = Inr ifcs" "loadDesiredPeers en s = Inr (desired, known, ret)" "ok b'"
    "\<forall>m. m \<notin> di_name ` set ifcs \<longrightarrow> Dump bk b' m = Dump bk b m"
    "\<forall>ifc \<in> set ifcs. (\<exists>e. (di_name ifc, e) \<in> set errs) \<or>
       link_ok (en_policy en) ifc (desired (di_id ifc)) known (ret (di_id ifc)) (Dump bk b (di_name ifc)) (Dump bk b' (di_name ifc))"
    "users s' = users s" "devices s' = devices s" "ifaces s' = ifaces s" "set (retired s') \<subseteq> set (retired s)"
    "\<forall>(i, k) \<in> set (retired s) - set (retired s'). \<exists>ifc \<in> set ifcs. di_id ifc = i \<and> k \<in> set (ret i)
       \<and> link_ok (en_policy en) ifc (desired i) known (ret i) (Dump bk b (di_name ifc)) (Dump bk b' (di_name ifc))"
    "\<forall>rep. r = Inr rep \<longrightarrow> re_errors rep = errs"
proof (cases "\<exists>ifcs desired known ret. loadInterfaces en s = Inr ifcs \<and> loadDesiredPeers en s = Inr (desired, known, ret)")
  case False
  with assms(4) show ?thesis by (intro unloaded[of "projl r"]) (auto simp: Run_def split: sum.splits)
next
  case True
  then obtain ifcs desired known ret where l: "loadInterfaces en s = Inr ifcs" "loadDesiredPeers en s = Inr (desired, known, ret)"
    by blast
  let ?start = "\<lparr>ps_report = new_report, ps_db = s, ps_backend = b\<rparr>"
  let ?st = "fold (pass_interface en bk desired known ret) ifcs ?start"
  have e: "re_errors (fold (\<lambda>n. add_drift n k a) ns rep1) = re_errors rep1" for ns k a and rep1 :: report
    by (induction ns arbitrary: rep1) (simp_all add: add_drift_def)
  from assms(4) l have r: "s' = ps_db ?st" "b' = ps_backend ?st" "\<forall>rep. r = Inr rep \<longrightarrow> re_errors rep = re_errors (ps_report ?st)"
    by (auto simp: Run_def Let_def e split: sum.splits)
  have u: "unique_on di_name ifcs"
    using assms(3) loadInterfaces_ok(1)[OF l(1)] by (simp add: unique_on_def distinct_map)
  have "ok (ps_backend ?start)" using assms(1) by simp
  note pf = pass_fold[where desired = desired and en = en and known = known and ret = ret,
      OF this loadDesired_ok(3)[OF l(2) assms(2)] u]
  have d: "users s' = users s" "devices s' = devices s" "ifaces s' = ifaces s" "set (retired s') \<subseteq> set (retired s)"
    using pf(5) unfolding r(1) by simp_all
  show ?thesis
    by (rule passed[OF l _ _ _ d _ r(3)]) (use pf(1,2,4,6) in \<open>simp_all only: r(1,2) outcome_def pass.simps\<close>)
qed

text \<open>The loaded interface of a row, with the desired peers the pass worked with.\<close>

lemma Run_iface:
  assumes "ok b" "unique_on d_pubkey (devices s)" "unique_on i_name (ifaces s)" "Run en bk s b = (Inr rep, s', b')"
    and "r \<in> set (ifaces s)" "i_name r \<notin> fst ` set (re_errors rep)"
  obtains ifc ds known ret where "load_interface (en_decrypt en) r = Inr ifc"
    "link_ok (en_policy en) ifc ds known ret (Dump bk b (i_name r)) (Dump bk b' (i_name r))"
    "set known = d_pubkey ` set (devices s)" "\<And>k. k \<in> set ret \<longleftrightarrow> (i_id r, k) \<in> set (retired s)"
    "pd_key ` set ds = wanted_keys s (i_id r)"
    "\<And>d. d \<in> set (devices s) \<Longrightarrow> peer_eligible s d \<Longrightarrow> d_iface d = i_id r \<Longrightarrow>
       \<exists>pd \<in> set ds. pd_key pd = d_pubkey d \<and> pd_allowed pd = d_ipv4 d"
proof -
  from assms(1-4) show ?thesis
  proof (cases rule: Run_state)
    case (unloaded e)
    then show ?thesis by simp
  next
    case 1: (passed ifcs desired known ret errs)
    obtain ifc where i: "ifc \<in> set ifcs" "load_interface (en_decrypt en) r = Inr ifc"
      using loadInterfaces_ok(3)[OF 1(1) assms(5)] by blast
    then have n: "di_name ifc = i_name r" "di_id ifc = i_id r" using load_interface_sel by blast+
    note ld = loadDesired_ok[OF 1(2) assms(2)]
    have "(i_name r, e) \<notin> set errs" for e using assms(6) 1(11) by (metis fst_conv imageI)
    with 1(5) i(1) n have lk: "link_ok (en_policy en) ifc (desired (i_id r)) known (ret (i_id r)) (Dump bk b (i_name r)) (Dump bk b' (i_name r))"
      by (metis)
    show ?thesis
      by (rule that[OF i(2) lk]) (use ld in \<open>auto simp: wanted_keys_def\<close>)
  qed
qed

end

lemma link_ok_known:
  assumes "link_ok pol ifc ds known ret d0 (Inr st)" "pd_key ` set ds = W" "W \<subseteq> set known"
  shows "peer_keys st \<inter> (set known \<union> set ret) \<subseteq> W"
proof -
  consider "peer_keys st = {}" | seen where "settled_link pol ds known ret seen st"
    using assms(1) by (cases d0) (auto simp: link_ok_def split: if_splits)
  then show ?thesis using settled_link_known[OF _ assms(2,3)] by cases auto
qed

lemma link_ok_missing: "link_ok pol ifc ds known ret d0 (Inl e) \<Longrightarrow> e = ErrInterfaceNotFound"
  by (auto simp: link_ok_def split: if_splits)

context tunnel_backend
begin

lemma pass_frame:
  assumes "ok b" "unique_on d_pubkey (devices s)" "unique_on i_name (ifaces s)" "Run en bk s b = (res, s', b')"
  shows "ok b' \<and> users s' = users s \<and> devices s' = devices s \<and> ifaces s' = ifaces s
    \<and> (\<forall>m. m \<notin> i_name ` set (ifaces s) \<longrightarrow> Dump bk b' m = Dump bk b m)"
  using assms
proof (cases rule: Run_state)
  case (unloaded e)
  with assms(1) show ?thesis by simp
next
  case 1: (passed ifcs desired known ret errs)
  have "set (map di_name ifcs) = i_name ` set (ifaces s)" unfolding loadInterfaces_ok(1)[OF 1(1)] by simp
  with 1 show ?thesis by simp
qed

text \<open>
  The peers of an interface after a pass that reports no error for it, among the keys the database
  knows: at most those of the eligible devices.
\<close>

lemma pass_revokes:
  assumes "ok b" "unique_on d_pubkey (devices s)" "unique_on i_name (ifaces s)" "Run en bk s b = (Inr rep, s', b')"
    and "r \<in> set (ifaces s)" "i_name r \<notin> fst ` set (re_errors rep)"
  shows "if i_enabled r
    then \<exists>st. Dump bk b' (i_name r) = Inr st
      \<and> (\<forall>k. k \<in> peer_keys st \<and> (k \<in> d_pubkey ` set (devices s) \<or> (i_id r, k) \<in> set (retired s)) \<longrightarrow> k \<in> wanted_keys s (i_id r))
    else Dump bk b' (i_name r) = Inl ErrInterfaceNotFound"
  using assms
proof (cases rule: Run_iface)
  case (1 ifc ds known ret)
  have en: "di_enabled ifc = i_enabled r" using load_interface_sel[OF 1(1)] by simp
  show ?thesis
  proof (cases "i_enabled r")
    case True
    then obtain st' where st': "Dump bk b' (i_name r) = Inr st'" using 1(2) en by (auto simp: link_ok_def)
    have W: "wanted_keys s (i_id r) \<subseteq> set known" using 1(3) by (auto simp: wanted_keys_def)
    have "peer_keys st' \<inter> (set known \<union> set ret) \<subseteq> wanted_keys s (i_id r)"
      using link_ok_known[OF 1(2)[unfolded st'] 1(5) W] .
    with True st' 1(3,4) show ?thesis by auto
  next
    case False
    then show ?thesis using 1(2) en by (simp add: link_ok_def)
  qed
qed

lemma pass_provisions:
  assumes "ok b" "unique_on d_pubkey (devices s)" "unique_on i_name (ifaces s)" "Run en bk s b = (Inr rep, s', b')"
    and "r \<in> set (ifaces s)" "i_name r \<notin> fst ` set (re_errors rep)"
    and "i_enabled r" "load_interface (en_decrypt en) r = Inr ifc"
    and "\<And>st. Dump bk b (i_name r) = Inr st \<Longrightarrow> must_recreate ifc st \<or> \<not> param_drift ifc st"
  shows "\<exists>st. Dump bk b' (i_name r) = Inr st \<and> wanted_keys s (i_id r) \<subseteq> peer_keys st
    \<and> (\<forall>d \<in> set (devices s). \<forall>p \<in> set (is_peers st).
         peer_eligible s d \<and> d_iface d = i_id r \<and> ps_key p = d_pubkey d \<longrightarrow> ps_allowed p = [d_ipv4 d])"
  using assms(1-6)
proof (cases rule: Run_iface)
  case (1 ifc' ds known ret)
  have i: "ifc' = ifc" "di_enabled ifc" "di_name ifc = i_name r" using 1(1) assms(7,8) load_interface_sel[OF assms(8)] by simp_all
  from 1(2) i obtain st where st: "Dump bk b' (i_name r) = Inr st" by (auto simp: link_ok_def)
  obtain seen where "settled_link (en_policy en) ds known ret seen st"
    using 1(2) i st assms(9) by (fastforce simp: link_ok_def silent_drift_def split: sum.splits if_splits)
  then have "peer_keys st \<supseteq> wanted_keys s (i_id r)"
    "\<forall>p \<in> set (is_peers st). \<forall>d \<in> set ds. pd_key d = ps_key p \<longrightarrow> ps_allowed p = [pd_allowed d]"
    using 1(5) by (auto simp: settled_link_def)
  with st 1(6) show ?thesis by metis
qed

text \<open>An entry leaves the retired queue only when its key is off the tunnel, or wanted again.\<close>

lemma pass_acks:
  assumes "ok b" "unique_on d_pubkey (devices s)" "unique_on i_name (ifaces s)" "Run en bk s b = (res, s', b')"
    and "(i, k) \<in> set (retired s)" "(i, k) \<notin> set (retired s')"
  shows "\<exists>r \<in> set (ifaces s). i_id r = i
    \<and> (case Dump bk b' (i_name r) of Inl e \<Rightarrow> e = ErrInterfaceNotFound
       | Inr st \<Rightarrow> k \<in> peer_keys st \<longrightarrow> k \<in> wanted_keys s i)"
  using assms(1-4)
proof (cases rule: Run_state)
  case (unloaded e)
  with assms(5,6) show ?thesis by simp
next
  case 1: (passed ifcs desired known ret errs)
  from bspec[OF 1(10), of "(i, k)"] assms(5,6) obtain ifc where ifc: "ifc \<in> set ifcs" "di_id ifc = i" "k \<in> set (ret i)"
    "link_ok (en_policy en) ifc (desired i) known (ret i) (Dump bk b (di_name ifc)) (Dump bk b' (di_name ifc))" by auto
  obtain r where r: "r \<in> set (ifaces s)" "load_interface (en_decrypt en) r = Inr ifc"
    using loadInterfaces_ok(4)[OF 1(1) ifc(1)] by blast
  note ld = loadDesired_ok[OF 1(2) assms(2)]
  have W: "pd_key ` set (desired i) = wanted_keys s i" "wanted_keys s i \<subseteq> set known"
    using ld(1,4) by (auto simp: wanted_keys_def)
  have "case Dump bk b' (di_name ifc) of Inl e \<Rightarrow> e = ErrInterfaceNotFound
       | Inr st \<Rightarrow> k \<in> peer_keys st \<longrightarrow> k \<in> wanted_keys s i"
    using ifc(3,4) link_ok_known[OF _ W] link_ok_missing by (cases "Dump bk b' (di_name ifc)") fastforce+
  then show ?thesis using r load_interface_sel[OF r(2)] ifc(2) by auto
qed

lemma pass_drift:
  assumes "ok b" "unique_on d_pubkey (devices s)" "unique_on i_name (ifaces s)" "Run en bk s b = (Inr rep, s', b')"
    and "r \<in> set (ifaces s)" "i_name r \<notin> fst ` set (re_errors rep)"
    and "i_enabled r" "load_interface (en_decrypt en) r = Inr ifc"
    and "Dump bk b (i_name r) = Inr st" "\<not> must_recreate ifc st" "param_drift ifc st"
    and "peer_keys st = wanted_keys s (i_id r)"
    and "\<forall>d \<in> set (devices s). \<forall>p \<in> set (is_peers st). ps_key p = d_pubkey d \<longrightarrow> ps_allowed p = [d_ipv4 d]"
  shows "\<exists>st'. Dump bk b' (i_name r) = Inr st' \<and> peer_keys st' = {}"
proof -
  obtain ifcs desired known ret where R: "loadInterfaces en s = Inr ifcs" "loadDesiredPeers en s = Inr (desired, known, ret)"
    "\<forall>ifc \<in> set ifcs. (\<exists>e. (di_name ifc, e) \<in> set (re_errors rep)) \<or>
       link_ok (en_policy en) ifc (desired (di_id ifc)) known (ret (di_id ifc)) (Dump bk b (di_name ifc)) (Dump bk b' (di_name ifc))"
    by (rule Run_state[OF assms(1-4)]) auto
  have i: "di_enabled ifc" "di_name ifc = i_name r" "di_id ifc = i_id r" using assms(7) load_interface_sel[OF assms(8)] by simp_all
  have "ifc \<in> set ifcs" using loadInterfaces_ok(3)[OF R(1) assms(5)] assms(8) by auto
  moreover have "(i_name r, e) \<notin> set (re_errors rep)" for e using assms(6) by (metis fst_conv imageI)
  ultimately have lk: "link_ok (en_policy en) ifc (desired (i_id r)) known (ret (i_id r)) (Inr st) (Dump bk b' (i_name r))"
    using R(3) i assms(9) by metis
  note ld = loadDesired_ok[OF R(2) assms(2)]
  let ?ds = "desired (i_id r)"
  have "\<not> lacking (is_peers st) d" if d: "d \<in> set ?ds" for d
  proof -
    have "pd_key d \<in> peer_keys st" using d ld(4)[of "i_id r"] assms(12) by (auto simp: wanted_keys_def)
    then obtain p where p: "p \<in> set (is_peers st)" "ps_key p = pd_key d" by (auto simp: peer_keys_def)
    have "pd_key d \<in> d_pubkey ` {d \<in> set (devices s). peer_eligible s d \<and> d_iface d = i_id r}" using d ld(4)[of "i_id r"] by blast
    then obtain dv where dv: "dv \<in> set (devices s)" "peer_eligible s dv" "d_iface dv = i_id r" "pd_key d = d_pubkey dv" by auto
    from ld(5)[OF dv(1-3)] obtain pd where "pd \<in> set ?ds" "pd_key pd = d_pubkey dv" "pd_allowed pd = d_ipv4 dv" by blast
    with d dv(4) unique_on_eq[OF ld(3)] have "pd_allowed d = d_ipv4 dv" by metis
    with p dv(1,4) assms(13) show ?thesis
      using lacking_iff[OF unique_peers[OF assms(1,9)]] by metis
  qed
  moreover have "\<not> removed (en_policy en) (map pd_key ?ds) known (ret (i_id r)) (ps_key p)" if "p \<in> set (is_peers st)" for p
    using that assms(12) ld(4)[of "i_id r"] by (auto simp: removed_def peer_keys_def wanted_keys_def)
  ultimately have "silent_drift (en_policy en) ifc ?ds known (ret (i_id r)) st"
    using assms(10,11) by (auto simp: silent_drift_def)
  with lk i(1) assms(10) show ?thesis by (auto simp: link_ok_def)
qed

end

section \<open>Example data\<close>

definition example_engine :: engine where
  "example_engine = \<lparr>en_policy = PolicyReport, en_decrypt = Inr\<rparr>"

lemma fake_new_ok: "fake_ok fake_New \<and> fake_errs fake_New"
  by (simp add: fake_ok_def fake_errs_def fake_New_def)

lemma plain_columns_ok: "column_obfuscation plain_columns = Inr plain_obf"
  by (simp add: column_obfuscation_def plain_columns_def plain_obf_def scanU32_def scanU16_def range_zero_def scalar_def)

definition example_link :: db_interface where
  "example_link = \<lparr>di_id = ''if-1'', di_name = ''awg0'', di_mode = ''kernel'', di_port = 51820, di_subnet = show_prefix example_pool,
     di_pools = [show_prefix example_pool], di_mtu = 1420, di_obf = plain_obf, di_enabled = True, di_private = ''sealed-node''\<rparr>"

lemma example_link_loads: "load_interface (en_decrypt example_engine) example_iface = Inr example_link"
  by (simp add: load_interface_def example_iface_def plain_columns_ok example_pool_Decode ValidateObfuscation_def plain_obf_def
      params_unset_def range_zero_def range_is_zero_def scalar_def example_engine_def example_link_def)

lemma example_ifaces: "ifaces (metered_db l) = [example_iface]" "retired (metered_db l) = []"
  by (simp_all add: metered_db_def empty_db_def)

lemma example_loads:
  "loadInterfaces example_engine (metered_db l) = Inr [example_link]"
  by (simp add: loadInterfaces_def example_ifaces example_link_loads)

lemma example_desired:
  "loadDesiredPeers example_engine (metered_db l) =
     Inr (\<lambda>i. if i = ''if-1'' then [\<lparr>pd_key = k_public (example_keys 1), pd_psk = [], pd_allowed = show_addr 0x0A080002 @ ''/32'',
            pd_device = ''dev-1''\<rparr>] else [],
          [k_public (example_keys 1)], \<lambda>_. [])"
  by (auto simp: loadDesiredPeers_def metered_db_def empty_db_def probe_device_def peer_eligible_def find_row_Cons desiredPeerWhere_def
      stored_user_def buildCreate_def Let_def plain_input_def desire_def)

lemmas run_example_simps = Run_def example_loads example_desired pass_interface_def Let_def example_link_def reconcileInterface_def
  prepare_link_def fake_Dump_def fake_Create_def fake_Apply_def fake_Sync_def fake_List_def fake_fail_def fake_record_def fake_put_def
  interface_spec_of_def want_config_def ensure_addresses_def add_drift_def new_report_def ackRetiredKeys_def applied_iface_def
  apply_peers_def must_recreate_def param_drift_def fake_EnsureAddresses_def



text \<open>A first pass over an empty node, and the state of the link it leaves.\<close>

lemma run_example:
  "\<exists>rep s' b'. Run example_engine fake_backend (metered_db 100) fake_New = (Inr rep, s', b') \<and> re_errors rep = []"
  by (simp add: run_example_simps fake_New_def IsLinkName_def LinkPrefix_def peer_diff_created peer_diff_errors)

text \<open>Who may hold a peer, in the words of the documentation: the specification of the query.\<close>

definition entitled :: "db \<Rightarrow> device \<Rightarrow> bool" where
  "entitled s d \<longleftrightarrow> d_enabled d \<and> (\<exists>u \<in> set (users s). u_id u = d_user d \<and> u_deleted u = None \<and> u_enabled u \<and> PeerWanted (u_status u))"

lemma eligible_entitled: "peer_eligible s d \<Longrightarrow> entitled s d"
  by (auto simp: peer_eligible_def desiredPeerWhere_def entitled_def PeerWanted_def split: option.splits dest!: find_row_Some)

lemma entitled_eligible: "unique_on u_id (users s) \<Longrightarrow> entitled s d \<longleftrightarrow> peer_eligible s d"
proof
  assume "unique_on u_id (users s)" "entitled s d"
  then obtain u where u: "u \<in> set (users s)" "u_id u = d_user d" "desiredPeerWhere u d"
    by (auto simp: entitled_def desiredPeerWhere_def PeerWanted_def)
  with find_row_unique[OF \<open>unique_on u_id (users s)\<close> u(1)] show "peer_eligible s d" by (simp add: peer_eligible_def)
qed (rule eligible_entitled)

section \<open>Properties\<close>






text \<open>
  Revocation survives failures. A key a rotation or a deletion put on the retired queue leaves the
  queue only in a pass, whatever it returns, after which it is off the tunnel: the interface it was on is gone, or its link
  does not have the key as a peer, unless an eligible device uses the same key again.
\<close>
theorem retired_until_removed:
  assumes "tunnel_backend bk ok" "ok b" "devices_inv s" "unique_on i_name (ifaces s)" "Run en bk s b = (res, s', b')"
    and "(i, k) \<in> set (retired s)" "(i, k) \<notin> set (retired s')"
  shows "\<exists>r \<in> set (ifaces s). i_id r = i
    \<and> (case Dump bk b' (i_name r) of Inl e \<Rightarrow> e = ErrInterfaceNotFound
       | Inr st \<Rightarrow> k \<in> peer_keys st \<longrightarrow> k \<in> wanted_keys s i)"
proof -
  have ud: "unique_on d_pubkey (devices s)" using assms(3) by (simp add: devices_inv_def)
  show ?thesis using tunnel_backend.pass_acks[OF assms(1,2) ud assms(4-7)] .
qed

definition retiring_db :: db where
  "retiring_db = (metered_db 100)\<lparr>retired := [(''if-1'', ''old-key'')]\<rparr>"

lemma retiring_db_simps:
  "ifaces retiring_db = [example_iface]" "retired retiring_db = [(''if-1'', ''old-key'')]" "devices retiring_db = devices (metered_db 100)"
  "loadInterfaces example_engine retiring_db = Inr [example_link]" "devices_inv retiring_db"
  using metered_db_inv(2)[of 100] example_loads[of 100]
  by (simp_all add: retiring_db_def example_ifaces loadInterfaces_def devices_inv_def device_ok_def)

lemma retiring_desired:
  "\<exists>ds known. loadDesiredPeers example_engine retiring_db = Inr (ds, known, \<lambda>i. if i = ''if-1'' then [''old-key''] else [])"
  by (auto simp: loadDesiredPeers_def retiring_db_def metered_db_def empty_db_def probe_device_def peer_eligible_def find_row_Cons
      desiredPeerWhere_def stored_user_def buildCreate_def Let_def plain_input_def desire_def example_engine_def)

lemma run_retiring:
  "\<exists>rep s' b'. Run example_engine fake_backend retiring_db fake_New = (Inr rep, s', b') \<and> retired s' = []"
  using retiring_desired
  by (auto simp: run_example_simps retiring_db_simps fake_New_def IsLinkName_def LinkPrefix_def peer_diff_created peer_diff_errors)

theorem retired_until_removed_witness:
  "\<exists>rep s' b'. Run example_engine fake_backend retiring_db fake_New = (Inr rep, s', b')
     \<and> (''if-1'', ''old-key'') \<in> set (retired retiring_db) \<and> (''if-1'', ''old-key'') \<notin> set (retired s')
     \<and> (\<exists>r \<in> set (ifaces retiring_db). i_id r = ''if-1''
        \<and> (case Dump fake_backend b' (i_name r) of Inl e \<Rightarrow> e = ErrInterfaceNotFound
           | Inr st \<Rightarrow> ''old-key'' \<in> peer_keys st \<longrightarrow> ''old-key'' \<in> wanted_keys retiring_db ''if-1''))"
proof -
  obtain rep s' b' where r: "Run example_engine fake_backend retiring_db fake_New = (Inr rep, s', b')" "retired s' = []"
    using run_retiring by blast
  have u: "unique_on i_name (ifaces retiring_db)" by (simp add: retiring_db_simps unique_on_def)
  have q: "(''if-1'', ''old-key'') \<in> set (retired retiring_db)" "(''if-1'', ''old-key'') \<notin> set (retired s')"
    using r(2) by (simp_all add: retiring_db_simps)
  show ?thesis
    using r(1) q retired_until_removed[OF fake.tunnel_backend_axioms fake_new_ok retiring_db_simps(5) u r(1) q] by blast
qed

text \<open>
  C40. A drift of the parameters alone takes every client off the link. When the link has exactly the
  eligible peers, with the right addresses, and only its port or its obfuscation differ from the
  database, a pass that reports success leaves the link with no peer at all: the new configuration
  replaces the peers, and the decision whether to write them again is made on the dump taken before.
\<close>
theorem reconcile_drift_drops_peers:
  assumes "tunnel_backend bk ok" "ok b" "devices_inv s" "unique_on i_name (ifaces s)"
    and "Run en bk s b = (Inr rep, s', b')" "r \<in> set (ifaces s)" "i_name r \<notin> fst ` set (re_errors rep)"
    and "i_enabled r" "load_interface (en_decrypt en) r = Inr ifc"
    and "Dump bk b (i_name r) = Inr st" "\<not> must_recreate ifc st" "param_drift ifc st"
    and "peer_keys st = wanted_keys s (i_id r)"
    and "\<forall>d \<in> set (devices s). \<forall>p \<in> set (is_peers st). ps_key p = d_pubkey d \<longrightarrow> ps_allowed p = [d_ipv4 d]"
  shows "\<exists>st'. Dump bk b' (i_name r) = Inr st' \<and> peer_keys st' = {}"
proof -
  have ud: "unique_on d_pubkey (devices s)" using assms(3) by (simp add: devices_inv_def)
  show ?thesis by (rule tunnel_backend.pass_drift[OF assms(1,2) ud assms(4-14)])
qed

text \<open>A node whose only link listens on the wrong port and has the one eligible peer.\<close>

definition drifted_node :: fake_state where
  "drifted_node = fake_New\<lparr>fk_ifaces := [(''awg0'', \<lparr>fi_spec = (interface_spec_of example_link)\<lparr>sp_port := 51821\<rparr>,
     fi_cfg = None, fi_public = [], fi_peers = [peerState \<lparr>pc_key = k_public (example_keys 1), pc_psk = [],
       pc_allowed = [show_addr 0x0A080002 @ ''/32''], pc_endpoint = [], pc_keepalive = ScalarU16 0\<rparr>], fi_fwmark = 0\<rparr>)]\<rparr>"

lemma drifted_node_ok: "fake_ok drifted_node \<and> fake_errs drifted_node"
  by (simp add: fake_ok_def fake_errs_def fake_New_def drifted_node_def unique_on_def)

lemma run_drifted:
  "\<exists>rep s' b'. Run example_engine fake_backend (metered_db 100) drifted_node = (Inr rep, s', b') \<and> re_errors rep = []"
  by (simp add: run_example_simps drifted_node_def fake_New_def IsLinkName_def LinkPrefix_def peer_diff_errors peer_diff_existing
      lacking_def removed_def find_row_Cons peerState_def)

theorem reconcile_drift_drops_peers_witness:
  "\<exists>rep s' b' st'. Run example_engine fake_backend (metered_db 100) drifted_node = (Inr rep, s', b')
     \<and> wanted_keys (metered_db 100) ''if-1'' \<noteq> {} \<and> Dump fake_backend b' ''awg0'' = Inr st' \<and> peer_keys st' = {}"
proof -
  obtain rep s' b' where r: "Run example_engine fake_backend (metered_db 100) drifted_node = (Inr rep, s', b')" "re_errors rep = []"
    using run_drifted by blast
  have u: "unique_on i_name (ifaces (metered_db 100))" by (simp add: example_ifaces unique_on_def)
  have e: "example_iface \<in> set (ifaces (metered_db 100))" "i_enabled example_iface" "i_name example_iface = ''awg0''" "i_id example_iface = ''if-1''"
    by (simp_all add: example_ifaces example_iface_def)
  have w: "wanted_keys (metered_db 100) ''if-1'' = {k_public (example_keys 1)}"
    using loadDesired_ok(4)[OF example_desired, of 100 "''if-1''"] metered_db_inv(2)[of 100]
    by (simp add: wanted_keys_def devices_inv_def)
  obtain st where st: "Dump fake_backend drifted_node ''awg0'' = Inr st" "\<not> must_recreate example_link st" "param_drift example_link st"
    "is_peers st = [peerState \<lparr>pc_key = k_public (example_keys 1), pc_psk = [],
       pc_allowed = [show_addr 0x0A080002 @ ''/32''], pc_endpoint = [], pc_keepalive = ScalarU16 0\<rparr>]"
    by (simp add: fake_Dump_def drifted_node_def must_recreate_def param_drift_def interface_spec_of_def example_link_def)
  have k: "peer_keys st = wanted_keys (metered_db 100) (i_id example_iface)" using st(4) w e by (simp add: peer_keys_def peerState_def)
  have a: "\<forall>d \<in> set (devices (metered_db 100)). \<forall>p \<in> set (is_peers st). ps_key p = d_pubkey d \<longrightarrow> ps_allowed p = [d_ipv4 d]"
    by (simp add: st(4) peerState_def metered_db_def empty_db_def probe_device_def)
  have "\<exists>st'. Dump fake_backend b' (i_name example_iface) = Inr st' \<and> peer_keys st' = {}"
    by (rule reconcile_drift_drops_peers[OF fake.tunnel_backend_axioms drifted_node_ok metered_db_inv(2) u r(1) e(1) _ e(2) example_link_loads _ st(2,3) k a])
      (simp_all only: r(2) st(1) e(3) list.set image_empty empty_iff not_False_eq_True)
  then show ?thesis using r(1) w e(3) by (metis insert_not_empty)
qed

end
