(* ===== verification/Contract.thy ===== *)
theory Contract
  imports Corrections Reconcile
begin

text \<open>
  What every operation of the services keeps of the database: the tables stay well formed, the
  interfaces stay, and a key that leaves the device table is on the retired queue (\<open>tame\<close>); and
  what a reconcile pass keeps on top of the links (\<open>settles\<close>). One lemma per operation, over any
  well-behaved recorder; the whole-node relation rests on them.
\<close>

section \<open>What every database operation keeps\<close>

text \<open>The link slots of a database: which key a device holds on which interface.\<close>

definition slots :: "db \<Rightarrow> (string \<times> string) set" where
  "slots s = (\<lambda>d. (d_iface d, d_pubkey d)) ` set (devices s)"

definition db_inv :: "db \<Rightarrow> bool" where
  "db_inv s \<longleftrightarrow> users_inv s \<and> devices_inv s \<and> unique_on i_id (ifaces s) \<and> unique_on i_name (ifaces s)"

text \<open>
  The contract of a database operation: the tables stay well formed, the interfaces stay, and a
  key that leaves the device table is on the retired queue, which only grows.
\<close>

definition tame :: "db \<Rightarrow> db \<Rightarrow> bool" where
  "tame s s' \<longleftrightarrow> db_inv s' \<and> ifaces s' = ifaces s \<and> set (retired s) \<subseteq> set (retired s')
     \<and> slots s \<subseteq> slots s' \<union> set (retired s')"

named_theorems tame_ops \<open>database operations that keep the contract\<close>

lemma tame_refl: "db_inv s \<Longrightarrow> tame s s"
  by (simp add: tame_def)

lemma tame_trans: "tame s t \<Longrightarrow> tame t w \<Longrightarrow> tame s w"
  by (auto simp: tame_def)

lemma tame_domain: "db_inv s \<Longrightarrow> same_domain s t \<Longrightarrow> tame s t"
  by (simp add: tame_def db_inv_def slots_def same_domain_users_inv same_domain_devices_inv) (simp add: same_domain_def)

lemma tame_record: "tame s t \<Longrightarrow> same_domain t w \<Longrightarrow> tame s w"
  using tame_trans tame_domain tame_def by blast

lemma tame_users:
  assumes "db_inv s" "users_inv t" "u_id ` set (users s) \<subseteq> u_id ` set (users t)"
    and "devices t = devices s" "ifaces t = ifaces s" "retired t = retired s"
  shows "tame s t"
proof -
  have "devices_inv t" using assms by (auto simp: db_inv_def devices_inv_def device_ok_def)
  with assms show ?thesis by (simp add: tame_def db_inv_def slots_def)
qed

lemma tame_devices:
  assumes "db_inv s" "devices_inv t" "users t = users s" "ifaces t = ifaces s" "set (retired s) \<subseteq> set (retired t)"
    and "slots s \<subseteq> slots t \<union> set (retired t)"
  shows "tame s t"
  using assms by (simp add: tame_def db_inv_def users_inv_def)

lemma tame_WithTx:
  assumes "db_inv s" "\<And>x t. f s = Inr (x, t) \<Longrightarrow> tame s t"
  shows "tame s (snd (WithTx s f))"
  using assms by (auto simp: WithTx_def intro: tame_refl split: sum.splits)

section \<open>Users\<close>

context user_svc
begin

lemma commit_tame:
  assumes "db_inv s" "row_ok u"
  shows "tame s (snd (commit_user svc s u evs))"
proof (cases "commit_user svc s u evs")
  case (Pair r s')
  show ?thesis
  proof (cases r)
    case (Inl e)
    with Pair commit_user_err[of s u evs e s'] assms(1) show ?thesis by (simp add: tame_refl)
  next
    case (Inr v)
    note ok = commit_user_ok[OF Pair[unfolded Inr]]
    have "users_inv s'" using commit_user_inv[of s u evs] assms Pair by (simp add: db_inv_def)
    with assms(1) ok Pair show ?thesis by (intro tame_users) (simp_all add: save_id.keys_update)
  qed
qed

lemma user_ops_tame:
  assumes "db_inv s" "row_ok u"
  shows "tame s (snd (Update_from svc s u inp))" "tame s (snd (SetStatus_from svc s u st reason))"
    "tame s (snd (Renew_from svc s u mode duration exact))" "tame s (snd (SoftDelete_from svc s u))"
    "tame s (snd (Restore_from svc s u))"
proof -
  note c = commit_tame[OF assms(1)] tame_refl[OF assms(1)]
  show "tame s (snd (Update_from svc s u inp))"
    using assms(2) c by (auto simp: Update_from_def Let_def row_ok_apply_input split: sum.splits)
  show "tame s (snd (SetStatus_from svc s u st reason))"
    using assms(2) c by (auto simp: SetStatus_from_def Let_def row_ok_apply_status)
  show "tame s (snd (Renew_from svc s u mode duration exact))"
    using assms(2) c by (auto simp: Renew_from_def Let_def row_ok_apply_renewal split: sum.splits)
  have "snd (discard r) = snd r" for r :: "user result \<times> db"
    by (auto simp: discard_def split: prod.splits sum.splits)
  then show "tame s (snd (SoftDelete_from svc s u))"
    using assms(2) c by (auto simp: SoftDelete_from_def Let_def row_ok_def)
  show "tame s (snd (Restore_from svc s u))"
    using assms(2) c by (auto simp: Restore_from_def Let_def row_ok_def)
qed

lemma Create_tame: "db_inv s \<Longrightarrow> tame s (snd (Create svc s new_id inp))"
  unfolding Create_def
proof (rule tame_WithTx)
  fix x t
  assume inv: "db_inv s" and c: "CreateTx svc s new_id inp = Inr (x, t)"
  from CreateTx_inv[OF _ c] CreateTx_ok[OF c] inv show "tame s t"
    by (intro tame_users) (auto simp: db_inv_def)
qed

lemma bulk_step_tame:
  assumes "bulk_step svc ids prefix width inp i st = Inr st'" "validateLimits inp = Inr ()" "db_inv (b_db st)"
  shows "tame (b_db st) (b_db st')"
proof -
  have "users_inv (b_db st')" using bulk_step_inv[OF assms(1,2)] assms(3) by (simp add: db_inv_def)
  moreover note bulk_step_ok[OF assms(1)]
  ultimately show ?thesis
    using assms(3) by (elim disjE exE conjE) (auto intro: tame_refl intro!: tame_users)
qed

lemma bulk_loop_tame:
  "bulk_loop fuel svc ids prefix width inp i lastIx st = Some (Inr st') \<Longrightarrow> validateLimits inp = Inr () \<Longrightarrow>
     db_inv (b_db st) \<Longrightarrow> tame (b_db st) (b_db st')"
proof (induction fuel arbitrary: i st)
  case (Suc fuel)
  show ?case
  proof (cases "i \<le> lastIx")
    case True
    with Suc.prems(1) obtain t where t: "bulk_step svc ids prefix width inp i st = Inr t"
      "bulk_loop fuel svc ids prefix width inp (i64 (i + 1)) lastIx t = Some (Inr st')"
      by (auto split: sum.splits)
    have "tame (b_db st) (b_db t)" by (rule bulk_step_tame[OF t(1) Suc.prems(2,3)])
    moreover from this have "db_inv (b_db t)" by (simp add: tame_def)
    ultimately show ?thesis using tame_trans Suc.IH[OF t(2) Suc.prems(2)] by blast
  next
    case False
    with Suc.prems show ?thesis by (auto intro: tame_refl)
  qed
qed simp

lemma CreateBulk_tame:
  assumes "db_inv s" "CreateBulk fuel svc s ids prefix0 cnt startIndex width0 inp = Some (r, s')"
  shows "tame s s'"
  using assms(2) bulk_loop_tame[where st = "\<lparr>b_users = [], b_skipped = 0, b_db = s\<rparr>"] assms(1) tame_refl[OF assms(1)]
  by (auto simp: CreateBulk_def Let_def split: if_splits sum.splits option.splits)

lemma Delete_tame: "db_inv s \<Longrightarrow> tame s (snd (Delete svc s uid))"
  unfolding Delete_def
proof (rule tame_WithTx)
  fix x t
  assume inv: "db_inv s" and d: "DeleteTx svc s uid = Inr (x, t)"
  note ok = DeleteTx_ok[OF d]
  have "users_inv t" using Delete_inv[of s uid] d inv by (simp add: Delete_def WithTx_def db_inv_def)
  moreover have "devices_inv t"
    using inv ok by (intro delete_devices_inv[OF _ ok(2,4)]) (auto simp: db_inv_def devices_inv_def device_ok_def)
  ultimately show "tame s t"
    using inv ok by (auto simp: tame_def db_inv_def slots_def)
qed

end

section \<open>Devices\<close>

interpretation slot_enabled: row_update "\<lambda>d. (d_iface d, d_pubkey d)" "\<lambda>d :: device. d\<lparr>d_enabled := en, d_updated := now\<rparr>"
  by unfold_locales simp

interpretation slot_name: row_update "\<lambda>d. (d_iface d, d_pubkey d)" "\<lambda>d :: device. d\<lparr>d_name := name, d_updated := now\<rparr>"
  by unfold_locales simp

interpretation slot_totals: row_update "\<lambda>d. (d_iface d, d_pubkey d)" "\<lambda>d :: device. d\<lparr>d_rx := 0, d_tx := 0\<rparr>"
  by unfold_locales simp

lemma replace_keys_slots:
  assumes "replace_keys now keys did s = Inr t" "unique_on d_id (devices s)" "find_row d_id did (devices s) = Some d"
  shows "slots s - {(d_iface d, d_pubkey d)} \<subseteq> slots t"
proof -
  have t: "devices t = update_rows (\<lambda>d. d_id d = did) (new_keys now keys) (devices s)"
    using assms(1) by (auto simp: replace_keys_def split: if_splits)
  have "(d_iface e, d_pubkey e) \<in> slots t" if e: "e \<in> set (devices s)" "(d_iface e, d_pubkey e) \<noteq> (d_iface d, d_pubkey d)" for e
  proof -
    have "d \<in> set (devices s)" "d_id d = did" using assms(3) by auto
    then have "d_id e \<noteq> did" using unique_on_eq[OF assms(2) e(1)] e(2) by metis
    then have "e \<in> set (devices t)" using e(1) by (auto simp: t set_update_rows)
    then show ?thesis by (auto simp: slots_def)
  qed
  then show ?thesis by (auto simp: slots_def)
qed

context device_svc
begin

lemma Device_Create_tame: "db_inv s \<Longrightarrow> tame s (snd (Device_Create svc s new_id uid name keys ifc))"
  unfolding Device_Create_def
proof (rule tame_WithTx)
  fix d t
  assume inv: "db_inv s" and c: "Device_CreateTx svc s new_id uid name keys ifc = Inr (d, t)"
  from c obtain w where w: "insertDevice d s = Inr w" "same_domain w t" by (rule CreateTx_ok)
  obtain r where "w = s\<lparr>devices := devices s @ [r]\<rparr>" using insertDevice_ok(1)[OF w(1)] by blast
  with w(2) have "devices t = devices s @ [r]" "users t = users s" "ifaces t = ifaces s" "retired t = retired s"
    by (simp_all add: same_domain_def)
  with inv CreateTx_inv[OF _ c] show "tame s t" by (intro tame_devices) (auto simp: db_inv_def slots_def)
qed

lemma Device_Delete_tame: "db_inv s \<Longrightarrow> tame s (snd (Device_Delete svc s did))"
proof -
  assume inv: "db_inv s"
  obtain r s' where p: "Device_Delete svc s did = (r, s')" by fastforce
  show ?thesis
  proof (cases r)
    case (Inl e)
    with p inv show ?thesis by (simp add: Device_Delete_def WithTx_Inl tame_refl)
  next
    case (Inr x)
    with p Delete_ok[of s did x s'] obtain d where d: "find_row d_id did (devices s) = Some d"
      "devices s' = delete_rows (\<lambda>r. d_id r = did) (devices s)" "set (retired s') = insert (d_iface d, d_pubkey d) (set (retired s))"
      "users s' = users s" "ifaces s' = ifaces s" by auto
    have "devices_inv s'" using Delete_inv[of s did] inv p by (simp add: db_inv_def)
    moreover have "slots s \<subseteq> slots s' \<union> set (retired s')"
      using d(1,3) inv unique_on_eq[of d_id "devices s" _ d] unfolding slots_def d(2)
      by (auto simp: db_inv_def devices_inv_def)
    ultimately show ?thesis using inv d p by (auto intro!: tame_devices)
  qed
qed

end

lemma SetEnabled_tame: "db_inv s \<Longrightarrow> tame s (snd (Device_SetEnabled svc s did b))"
  using SetEnabled_dev_inv[of s svc did b]
  by (auto simp: Device_SetEnabled_def db_inv_def slots_def slot_enabled.keys_update intro!: tame_devices tame_refl)

lemma Regenerate_tame:
  assumes "db_inv s"
  shows "tame s (snd (Regenerate svc s did keys))"
proof -
  obtain r s' where p: "Regenerate svc s did keys = (r, s')" by fastforce
  show ?thesis
  proof (cases r)
    case (Inl e)
    with p assms show ?thesis by (auto simp: Regenerate_def WithTx_Inl tame_refl split: if_splits)
  next
    case (Inr x)
    from p[unfolded Inr] obtain d where d: "find_row d_id did (devices s) = Some d"
      "replace_keys (ds_now svc) keys did (retire_one d s) = Inr s'" by (rule Regenerate_ok)
    have "devices_inv s'" using Regenerate_inv[of s svc did keys] assms p by (simp add: db_inv_def)
    moreover have "slots s - {(d_iface d, d_pubkey d)} \<subseteq> slots s'"
      using replace_keys_slots[OF d(2)] d(1) assms by (simp add: db_inv_def devices_inv_def slots_def)
    moreover have "users s' = users s" "ifaces s' = ifaces s" "set (retired s') = insert (d_iface d, d_pubkey d) (set (retired s))"
      using d(2) by (auto simp: replace_keys_def split: if_splits)
    ultimately show ?thesis using assms p by (auto intro!: tame_devices)
  qed
qed

lemma Rotate_tame:
  assumes "db_inv s"
  shows "tame s (snd (WithTx s (\<lambda>s. ReplaceUserCredentialsTx (wired_devices now) s uid rotations)))"
proof (rule tame_WithTx[OF assms])
  fix x t
  assume r: "ReplaceUserCredentialsTx (wired_devices now) s uid rotations = Inr (x, t)"
  let ?stored = "filter (\<lambda>d. d_user d = uid) (devices s)"
  from r obtain wanted where c: "check_rotations [] rotations = Inr wanted"
    and f: "efold (rotate_one now wanted) ?stored s = Inr t"
    by (fastforce simp: ReplaceUserCredentialsTx_def Let_def tx_simps split: option.splits)
  have w: "\<forall>(did, keys) \<in> set wanted. ValidatePublicKey (k_public keys) = Inr () \<and> k_private keys \<noteq> []"
    using check_rotations_ok[OF c] by auto
  have inv: "devices_inv s" "unique_on d_id (devices s)" using assms by (simp_all add: db_inv_def devices_inv_def)
  then have "distinct (map d_id ?stored)" by (simp add: unique_on_def distinct_map_filter)
  note ok = rotate_fold_ok[OF f this]
  have "slots s \<subseteq> slots t \<union> set (retired t)"
  proof
    fix x
    assume "x \<in> slots s"
    then obtain d where d: "d \<in> set (devices s)" "x = (d_iface d, d_pubkey d)" by (auto simp: slots_def)
    show "x \<in> slots t \<union> set (retired t)"
    proof (cases "d_user d = uid")
      case True
      with d ok show ?thesis by auto
    next
      case False
      have "d_id d \<notin> d_id ` set ?stored" using False d(1) unique_on_eq[OF inv(2)] by auto
      then have "rotated_row now wanted (d_id ` set ?stored) d = d" by (simp add: rotated_row_def)
      with ok d show ?thesis unfolding slots_def by (metis (no_types, lifting) UnI1 imageI list.set_map)
    qed
  qed
  with assms ok rotate_fold_inv[OF f inv(1) w] show "tame s t" by (intro tame_devices) auto
qed

lemma Rename_tame:
  assumes "db_inv s"
  shows "tame s (snd (Rename svc s did name))"
proof -
  obtain r s' where p: "Rename svc s did name = (r, s')" by fastforce
  let ?col = "\<lambda>r :: device. r\<lparr>d_name := trim_space name, d_updated := ds_now svc\<rparr>"
  let ?ds = "update_rows (\<lambda>r. d_id r = did) ?col (devices s)"
  show ?thesis
  proof (cases "s' = s")
    case True
    with p assms show ?thesis by (simp add: tame_refl)
  next
    case False
    then obtain d where d: "find_row d_id did (devices s) = Some d"
      "\<forall>r \<in> set (devices s). d_user r = d_user d \<and> d_name r = trim_space name \<longrightarrow> d_id r = did" "s' = s\<lparr>devices := ?ds\<rparr>"
      using p by (auto simp: Rename_def rename_write_def Let_def Device_Get_def scanDevice_def ebind_def
          split: if_splits sum.splits option.splits dest: find_row_Some)
    have inv: "devices_inv s" "unique_on d_id (devices s)" using assms by (simp_all add: db_inv_def devices_inv_def)
    have m: "d \<in> set (devices s)" "did = d_id d" using d(1) by auto
    have "unique_on (\<lambda>d. (d_user d, d_name d)) ?ds"
      unfolding m(2)
      by (rule unique_on_update_one[OF _ inv(2) m(1)]) (use inv(1) d(2) m(2) in \<open>auto simp: devices_inv_def\<close>)
    moreover have "unique_on d_id ?ds" "unique_on d_pubkey ?ds" "unique_on (\<lambda>d. (d_iface d, d_ipv4 d)) ?ds"
      using inv(1) by (simp_all add: devices_inv_def unique_on_update_same)
    ultimately have "devices_inv s'"
      using inv(1) by (auto simp: d(3) devices_inv_def device_ok_def set_update_rows)
    with assms d(3) p show ?thesis by (auto intro!: tame_devices simp: slots_def slot_name.keys_update)
  qed
qed

section \<open>Accounting\<close>

lemma row_ok_set_columns:
  "row_ok u \<Longrightarrow> status_valid st \<Longrightarrow> (\<forall>r \<in> set_option reason. reason_valid r) \<Longrightarrow> row_ok (set_columns now rx tx st reason u)"
  by (simp add: row_ok_def set_columns_def)

text \<open>An update of user rows that keeps both keys and the row constraints.\<close>

lemma tame_update_users:
  assumes "db_inv s" "\<And>r. u_id (f r) = u_id r" "\<And>r. u_username (f r) = u_username r" "\<And>r. row_ok r \<Longrightarrow> row_ok (f r)"
  shows "tame s (s\<lparr>users := update_rows P f (users s)\<rparr>)"
proof (rule tame_users[OF assms(1)])
  have "unique_on u_id (update_rows P f (users s)) \<and> unique_on u_username (update_rows P f (users s))"
    using assms(1) unique_on_update_same[of u_id f P "users s", OF assms(2)] unique_on_update_same[of u_username f P "users s", OF assms(3)]
    by (simp add: db_inv_def users_inv_def)
  moreover have "usernameRe (u_username u) \<and> row_ok u" if "u \<in> set (update_rows P f (users s))" for u
    using that assms(1,3,4) by (auto simp: db_inv_def users_inv_def set_update_rows)
  ultimately show "users_inv (s\<lparr>users := update_rows P f (users s)\<rparr>)" by (simp add: users_inv_def)
  show "u_id ` set (users s) \<subseteq> u_id ` set (users (s\<lparr>users := update_rows P f (users s)\<rparr>))"
    using row_update.keys_update[of u_id f P "users s"] assms(2) by (simp add: row_update_def)
qed simp_all

lemma tame_set_columns:
  assumes "db_inv s" "status_valid st" "\<forall>r \<in> set_option reason. reason_valid r"
  shows "tame s (s\<lparr>users := update_rows P (set_columns now rx tx st reason) (users s)\<rparr>)"
  using assms by (intro tame_update_users) (simp_all add: row_ok_set_columns, simp_all add: set_columns_def)

lemma revived_valid: "status_valid (revived_status u)"
  by (simp add: revived_status_def)

lemma level_check_valid:
  "status_valid (u_status u) \<Longrightarrow> status_valid (fst (level_check u n)) \<and> (\<forall>r \<in> set_option (snd (level_check u n)). reason_valid r)"
  by (auto simp: level_check_def Let_def revived_valid)

lemma live_status_valid: "db_inv s \<Longrightarrow> live_user s uid = Inr u \<Longrightarrow> status_valid (u_status u)"
  using live_userD[of s uid u] by (auto simp: db_inv_def users_inv_def row_ok_def)

lemma write_meter_tame: "db_inv s \<Longrightarrow> live_user s uid = Inr u \<Longrightarrow> tame s (write_meter svc s u rx tx)"
  using level_check_valid[OF live_status_valid, of s uid u "i64 (rx + tx)"]
  by (cases "level_check u (i64 (rx + tx))") (auto simp: write_meter_def intro!: tame_set_columns)

lemma meter_ops_tame:
  assumes "db_inv s"
  shows "tame s (snd (SetTraffic svc s uid rx tx))" "tame s (snd (AddTraffic svc s uid drx dtx))"
    "tame s (snd (RemoveTraffic svc s uid bytes))"
proof -
  have w: "tame s (snd (WithTx s (\<lambda>s. ebind (live_user s uid) (\<lambda>u. Inr ((), write_meter svc s u (f u) (g u))))))" for f g
    by (rule tame_WithTx[OF assms]) (auto simp: ebind_Inr_iff intro: write_meter_tame[OF assms])
  note t = w tame_refl[OF assms]
  show "tame s (snd (SetTraffic svc s uid rx tx))" using t by (simp add: SetTraffic_def)
  show "tame s (snd (AddTraffic svc s uid drx dtx))" using t by (simp add: AddTraffic_def addTraffic_def)
  show "tame s (snd (RemoveTraffic svc s uid bytes))"
    using w[of "\<lambda>u. fst (adjusted (u_used_rx u) (u_used_tx u) (i64 (- bytes)))" "\<lambda>u. snd (adjusted (u_used_rx u) (u_used_tx u) (i64 (- bytes)))"]
      tame_refl[OF assms]
    by (simp add: RemoveTraffic_def removeTraffic_def adjustTraffic_def case_prod_beta)
qed

lemma ResetTraffic_tame:
  assumes "db_inv s" "ResetTraffic svc s acc uid = (r, s', acc')"
  shows "tame s s'"
proof (cases r)
  case (Inl e)
  then have "s' = s" using assms(2) by (auto simp: ResetTraffic_def WithTx_def split: sum.splits)
  with assms(1) show ?thesis by (simp add: tame_refl)
next
  case (Inr x)
  then obtain u st where u: "live_user s uid = Inr u"
    and st: "st = (if u_status u = UserTrafficExceeded then revived_status u else u_status u)"
    and s': "s' = (s\<lparr>users := update_rows (\<lambda>r. u_id r = uid) (set_columns (ac_now svc) 0 0 st None) (users s)\<rparr>)
        \<lparr>devices := update_rows (\<lambda>d. d_user d = uid) (\<lambda>d. d\<lparr>d_rx := 0, d_tx := 0\<rparr>) (devices s)\<rparr>"
    using assms(2) by (auto simp: ResetTraffic_def WithTx_def ebind_def Let_def split: sum.splits)
  let ?t = "s\<lparr>users := update_rows (\<lambda>r. u_id r = uid) (set_columns (ac_now svc) 0 0 st None) (users s)\<rparr>"
  have t: "tame s ?t"
    using live_status_valid[OF assms(1) u] by (intro tame_set_columns[OF assms(1)]) (simp_all add: st revived_valid)
  then have inv: "db_inv ?t" by (simp add: tame_def)
  have "slots s' = slots ?t" by (simp add: slots_def s' slot_totals.keys_update)
  moreover have "devices_inv s'"
    using inv unfolding s' by (auto simp: db_inv_def devices_inv_def unique_on_update_same device_ok_def set_update_rows[of _ _ "devices s"])
  ultimately have "tame ?t s'" using inv by (intro tame_devices) (simp_all add: s')
  with t show ?thesis by (rule tame_trans)
qed

context accounting_svc
begin

lemma AddQuota_tame:
  assumes "db_inv s" "is_i64 bytes"
  shows "tame s (snd (AddQuota svc s uid bytes))"
proof -
  have "tame s t" if a: "AddQuotaTx svc uid bytes s = Inr (c, t)" for c t
  proof -
    from a obtain u l where u: "live_user s uid = Inr u" "u_limit u = Some l" "0 < bytes" "\<not> i64 (MaxInt64 - bytes) < l"
      and d: "same_domain (s\<lparr>users := update_rows (\<lambda>r. u_id r = uid) (raised_row (ac_now svc) u (i64 (l + bytes))) (users s)\<rparr>) t"
      by (rule AddQuotaTx_ok)
    let ?w = "s\<lparr>users := update_rows (\<lambda>r. u_id r = uid) (raised_row (ac_now svc) u (i64 (l + bytes))) (users s)\<rparr>"
    have r: "row_ok u" using live_userD[OF u(1)] assms(1) by (auto simp: db_inv_def users_inv_def)
    then have "0 \<le> l" using u(2) by (simp add: row_ok_def)
    from quota_fits[OF assms(2) u(3) this u(4)] this u(3) have "0 \<le> i64 (l + bytes)" by simp
    then have ok: "row_ok (raised_row (ac_now svc) u (i64 (l + bytes)) v)" if "row_ok v" for v
      using that r by (simp add: row_ok_def raised_row_def revived_valid)
    have "tame s ?w" using ok by (intro tame_update_users[OF assms(1)]) (simp_all, simp_all add: raised_row_def)
    then show ?thesis using d by (rule tame_record)
  qed
  then have "tame s (snd (WithTx s (AddQuotaTx svc uid bytes)))" by (intro tame_WithTx assms) blast
  then show ?thesis by (auto simp: AddQuota_def split: prod.splits sum.splits)
qed

end

context accounting_svc
begin

lemma cycle_tame:
  assumes "db_inv s" "cycleTx svc obs rep acc s = (Inr (rep', s'), acc')" "unique_on ps_key obs"
  shows "tame s s'"
proof -
  have inv: "users_inv s" "devices_inv s" "unique_on u_id (users s)" using assms(1) by (simp_all add: db_inv_def users_inv_def)
  note d = cycle_rows(1)[OF assms(2) inv(3,2) assms(3)] and i = cycle_inv[OF assms(2) inv(1,2) assms(3)]
  have "slots s' = slots s" using d by (simp add: slots_def same_domain_def image_image)
  with i d assms(1) show ?thesis by (simp add: tame_def db_inv_def same_domain_def)
qed

lemma expiry_tame:
  assumes "db_inv s" "expiry_tx svc s = Inr (n, s')"
  shows "tame s s'"
proof -
  let ?w = "s\<lparr>users := update_rows (expiry_due (ac_now svc)) (expire_row (ac_now svc)) (users s)\<rparr>"
  have d: "same_domain ?w s'" using expiry_tx_users[OF assms(2)] by blast
  have "tame s ?w" by (intro tame_update_users[OF assms(1)]) (simp_all add: row_ok_expire, simp_all add: expire_row_def)
  then show ?thesis using d by (rule tame_record)
qed

end

lemmas service_ops_tame [tame_ops] =
  wired.user_ops_tame wired.Create_tame wired.Delete_tame wired_dev.Device_Create_tame wired_dev.Device_Delete_tame
  SetEnabled_tame Rename_tame Regenerate_tame Rotate_tame wired_acc.AddQuota_tame meter_ops_tame

section \<open>The pass over the links\<close>

text \<open>
  A retired entry that is no longer queued is off the tunnel: its interface is gone, or the link
  does not have the key, unless an eligible device of that interface uses it again.
\<close>

definition off_tunnel :: "'b backend \<Rightarrow> db \<Rightarrow> 'b \<Rightarrow> string \<times> string \<Rightarrow> bool" where
  "off_tunnel bk s b slot \<longleftrightarrow> (\<exists>r \<in> set (ifaces s). i_id r = fst slot
     \<and> (case Dump bk b (i_name r) of Inl e \<Rightarrow> e = ErrInterfaceNotFound
        | Inr st \<Rightarrow> snd slot \<in> peer_keys st \<longrightarrow> snd slot \<in> wanted_keys s (fst slot)))"

definition settles :: "'b backend \<Rightarrow> db \<Rightarrow> 'b \<Rightarrow> db \<Rightarrow> 'b \<Rightarrow> bool" where
  "settles bk s b s' b' \<longleftrightarrow> db_inv s' \<and> ifaces s' = ifaces s
     \<and> (\<forall>slot \<in> slots s \<union> set (retired s). slot \<in> slots s' \<union> set (retired s') \<or> off_tunnel bk s' b' slot)"

lemma tame_settles: "tame s s' \<Longrightarrow> settles bk s b s' b'"
  by (auto simp: tame_def settles_def)

context tunnel_backend
begin

lemma Run_settles:
  assumes "db_inv s" "ok b" "Run en bk s b = (r, s', b')"
  shows "settles bk s b s' b' \<and> ok b' \<and> users s' = users s \<and> devices s' = devices s \<and> ifaces s' = ifaces s"
proof -
  have u: "unique_on d_pubkey (devices s)" "unique_on i_name (ifaces s)" using assms(1) by (simp_all add: db_inv_def devices_inv_def)
  note fr = pass_frame[OF assms(2) u assms(3)]
  have "db_inv s'" using fr assms(1) by (simp add: db_inv_def users_inv_def devices_inv_def device_ok_def)
  moreover have "slot \<in> set (retired s') \<or> off_tunnel bk s' b' slot" if "slot \<in> set (retired s)" for slot
  proof -
    have "wanted_keys s' = wanted_keys s" "ifaces s' = ifaces s"
      using fr by (simp_all add: wanted_keys_def peer_eligible_def fun_eq_iff)
    then show ?thesis
      using that pass_acks[OF assms(2) u assms(3), of "fst slot" "snd slot"] unfolding off_tunnel_def prod.collapse by metis
  qed
  ultimately show ?thesis using fr by (auto simp: settles_def slots_def)
qed

end

end
