(* ===== verification/Node.thy ===== *)
theory Node
  imports Contract
begin

text \<open>
  The node as \<open>src/internal/serve/serve.go\<close> composes it: the services on one database, the
  reconcile engine on the tunnel backend and injected into the accounting service, and the
  periodic jobs, as one step relation. Requests that read an account before their transaction carry
  the row they read, so every interleaving of concurrent requests is a run of the relation.
\<close>

section \<open>The services composed\<close>

text \<open>The reconciler the accounting service is given: one pass of the engine.\<close>

definition reconciler :: "engine \<Rightarrow> 'b backend \<Rightarrow> db \<Rightarrow> 'b \<Rightarrow> unit result \<times> db \<times> 'b" where
  "reconciler en bk s b = (case Run en bk s b of (r, s', b') \<Rightarrow> (case r of Inl e \<Rightarrow> Inl e | Inr _ \<Rightarrow> Inr (), s', b'))"

lemma reconciler_Run: "reconciler en bk s b = (r, s', b') \<Longrightarrow> \<exists>r'. Run en bk s b = (r', s', b')"
  by (auto simp: reconciler_def split: prod.splits)

lemma upsert_unique: "unique_on key t \<Longrightarrow> (\<And>r. key (merge r row) = key row) \<Longrightarrow> unique_on key (upsert key merge row t)"
proof -
  assume u: "unique_on key t" and m: "\<And>r. key (merge r row) = key row"
  have "map key (map (\<lambda>r. if key r = key row then merge r row else r) t) = map key t" using m by simp
  then show ?thesis using u unfolding unique_on_def upsert_def by (auto simp del: map_map)
qed

lemma observed_unique: "unique_on ps_key obs \<Longrightarrow> unique_on ps_key (fst (dump_all bk b ns (obs, complete, errs)))"
proof (induction ns arbitrary: obs complete errs)
  case (Cons n ns)
  have "unique_on ps_key (fold put_observed ps obs)" if "unique_on ps_key obs" for ps obs
    using that by (induction ps arbitrary: obs) (simp_all add: put_observed_def upsert_unique)
  with Cons show ?case by (simp split: sum.splits)
qed simp

abbreviation node_accounting :: "time \<Rightarrow> setting_source \<Rightarrow> engine \<Rightarrow> 'b backend \<Rightarrow> 'b accounting_service" where
  "node_accounting now reg en bk \<equiv> wired_accounting now reg (Some (reconciler en bk)) None"

lemma RunCycle_settles:
  assumes "tunnel_backend bk ok" "db_inv s" "ok b"
    and "RunCycle (node_accounting now reg en bk) bk s b acc = (r, s', b', acc')"
  shows "settles bk s b s' b' \<and> ok b'"
proof -
  let ?svc = "node_accounting now reg en bk"
  obtain obs complete errs where o: "dump_all bk b (map i_name (loadEnabledInterfaces s)) ([], True, []) = (obs, complete, errs)"
    by (metis prod_cases3)
  have u: "unique_on ps_key obs" using observed_unique[of "[]" bk b] o by (metis distinct.simps(1) fst_conv list.simps(8) unique_on_def)
  define rep0 where "rep0 = empty_report\<lparr>rp_interfaces := length (loadEnabledInterfaces s), rp_errors := errs\<rparr>"
  obtain res acc1 where c: "cycleTx ?svc obs rep0 acc s = (res, acc1)" by fastforce
  show ?thesis
  proof (cases res)
    case (Inl e)
    then have "s' = s" "b' = b" using assms(4) o c by (auto simp: RunCycle_def Let_def rep0_def WithTx_def)
    with assms(2,3) show ?thesis by (simp add: tame_settles tame_refl)
  next
    case (Inr p)
    then obtain rep1 s1 where p: "res = Inr (rep1, s1)" by (cases p) simp
    have t: "tame s s1" by (rule wired_acc.cycle_tame[OF assms(2) c[unfolded p] u])
    consider "s' = s1" "b' = b" | x where "Run en bk s1 b = (x, s', b')"
      using assms(4) o c p reconciler_Run[of en bk s1 b]
      by (auto simp: RunCycle_def Let_def rep0_def WithTx_def split: if_splits prod.splits sum.splits)
    then show ?thesis
    proof cases
      case 1
      with t assms(3) show ?thesis by (simp add: tame_settles)
    next
      case 2
      have "db_inv s1" using t by (simp add: tame_def)
      from tunnel_backend.Run_settles[OF assms(1) this assms(3) 2] t show ?thesis
        by (auto simp: settles_def tame_def)
    qed
  qed
qed

lemma EnforceExpiry_cases:
  assumes "EnforceExpiry (node_accounting now reg en bk) s b = (r, s', b')"
  obtains (failed) e where "r = Inl e" "s' = s" "b' = b"
  | (idle) "expiry_tx (node_accounting now reg en bk) s = Inr (0, s')" "b' = b" "r = Inr 0"
  | (expired) n s1 x where "expiry_tx (node_accounting now reg en bk) s = Inr (n, s1)" "0 < n" "Run en bk s1 b = (x, s', b')"
      "r = (case x of Inl e \<Rightarrow> Inl e | Inr _ \<Rightarrow> Inr n)"
proof (cases "expiry_tx (node_accounting now reg en bk) s")
  case (Inl e)
  with assms show ?thesis by (intro failed[of e]) (simp_all add: EnforceExpiry_def WithTx_def)
next
  case (Inr p)
  then obtain n s1 where p: "expiry_tx (node_accounting now reg en bk) s = Inr (n, s1)" by (cases p) simp
  show ?thesis
  proof (cases "0 < n")
    case True
    with assms p show ?thesis
      by (intro expired[OF p True, of "fst (Run en bk s1 b)"])
        (auto simp: EnforceExpiry_def WithTx_def reconciler_def split: prod.splits sum.splits)
  next
    case False
    with assms p show ?thesis by (intro idle) (simp_all add: EnforceExpiry_def WithTx_def)
  qed
qed

lemma EnforceExpiry_settles:
  assumes "tunnel_backend bk ok" "db_inv s" "ok b" "EnforceExpiry (node_accounting now reg en bk) s b = (r, s', b')"
  shows "settles bk s b s' b' \<and> ok b'"
  using assms(4)
proof (cases rule: EnforceExpiry_cases)
  case (failed e)
  with assms(2,3) show ?thesis by (simp add: tame_settles tame_refl)
next
  case idle
  with assms(3) wired_acc.expiry_tame[OF assms(2) idle(1)] show ?thesis by (simp add: tame_settles)
next
  case (expired n s1 x)
  have t: "tame s s1" by (rule wired_acc.expiry_tame[OF assms(2) expired(1)])
  then have "db_inv s1" by (simp add: tame_def)
  from tunnel_backend.Run_settles[OF assms(1) this assms(3) expired(3)] t show ?thesis
    by (auto simp: settles_def tame_def)
qed

section \<open>Requests\<close>

text \<open>
  The operations the API and the panel call. \<open>Update\<close>, \<open>SetStatus\<close>, \<open>Renew\<close>, \<open>SoftDelete\<close> and
  \<open>Restore\<close> read the account outside their transaction: their request carries the row that was
  read, at any earlier moment.
\<close>

datatype request =
  CreateUser string user_input
| CreateUsers nat "int \<Rightarrow> string" string int int int user_input
| UpdateUser user user_input
| SetUserStatus user user_status disable_reason
| RenewUser user renew_mode "int option" "time option"
| SoftDeleteUser user
| RestoreUser user
| DeleteUser string
| CreateDevice string string string key_material string
| EnableDevice string bool
| RenameDevice string string
| RegenerateDevice string key_material
| RotateUser string "rotation list"
| DeleteDevice string
| RaiseQuota string int
| SetUsage string "int option" "int option"
| AddUsage string int int
| RemoveUsage string int

fun handle :: "time \<Rightarrow> setting_source \<Rightarrow> request \<Rightarrow> db \<Rightarrow> db" where
  "handle now reg (CreateUser i inp) s = snd (Create (wired_users now) s i inp)"
| "handle now reg (CreateUsers fuel ids p c i w inp) s =
     (case CreateBulk fuel (wired_users now) s ids p c i w inp of None \<Rightarrow> s | Some (_, s') \<Rightarrow> s')"
| "handle now reg (UpdateUser u inp) s = snd (Update_from (wired_users now) s u inp)"
| "handle now reg (SetUserStatus u st why) s = snd (SetStatus_from (wired_users now) s u st why)"
| "handle now reg (RenewUser u mode d e) s = snd (Renew_from (wired_users now) s u mode d e)"
| "handle now reg (SoftDeleteUser u) s = snd (SoftDelete_from (wired_users now) s u)"
| "handle now reg (RestoreUser u) s = snd (Restore_from (wired_users now) s u)"
| "handle now reg (DeleteUser uid) s = snd (Delete (wired_users now) s uid)"
| "handle now reg (CreateDevice i uid name keys ifc) s = snd (Device_Create (wired_devices now) s i uid name keys ifc)"
| "handle now reg (EnableDevice did b) s = snd (Device_SetEnabled (wired_devices now) s did b)"
| "handle now reg (RenameDevice did name) s = snd (Rename (wired_devices now) s did name)"
| "handle now reg (RegenerateDevice did keys) s = snd (Regenerate (wired_devices now) s did keys)"
| "handle now reg (RotateUser uid rs) s = snd (WithTx s (\<lambda>s. ReplaceUserCredentialsTx (wired_devices now) s uid rs))"
| "handle now reg (DeleteDevice did) s = snd (Device_Delete (wired_devices now) s did)"
| "handle now reg (RaiseQuota uid n) s = snd (AddQuota (wired_accounting now reg None None :: unit accounting_service) s uid n)"
| "handle now reg (SetUsage uid rx tx) s = snd (SetTraffic (wired_accounting now reg None None :: unit accounting_service) s uid rx tx)"
| "handle now reg (AddUsage uid rx tx) s = snd (AddTraffic (wired_accounting now reg None None :: unit accounting_service) s uid rx tx)"
| "handle now reg (RemoveUsage uid n) s = snd (RemoveTraffic (wired_accounting now reg None None :: unit accounting_service) s uid n)"

text \<open>The rows a request was computed from, and the width of its integer argument.\<close>

fun request_rows :: "request \<Rightarrow> user list" where
  "request_rows (UpdateUser u _) = [u]"
| "request_rows (SetUserStatus u _ _) = [u]"
| "request_rows (RenewUser u _ _ _) = [u]"
| "request_rows (SoftDeleteUser u) = [u]"
| "request_rows (RestoreUser u) = [u]"
| "request_rows _ = []"

fun request_ok :: "request \<Rightarrow> bool" where
  "request_ok (RaiseQuota _ n) = is_i64 n"
| "request_ok _ = True"

lemma handle_tame:
  assumes "db_inv s" "request_ok req" "\<forall>u \<in> set (request_rows req). row_ok u"
  shows "tame s (handle now reg req s)"
proof (cases req)
  case (CreateUsers fuel ids p c i w inp)
  then show ?thesis
    using assms(1) wired.CreateBulk_tame[OF assms(1)] by (auto intro: tame_refl split: option.splits)
qed (use assms in \<open>simp_all add: tame_ops\<close>)

section \<open>The node\<close>

record 'b node =
  nd_db :: db
  nd_link :: 'b
  nd_acc :: accumulator
  nd_charts :: charts
  nd_reads :: "user list"

text \<open>
  One step of the node: a request commits, a request reads an account, a traffic reset, a flush or a
  prune of the charts, a reconcile pass, an accounting cycle, an expiry pass, or any change of the
  links outside the node that keeps the backend well formed.
\<close>

inductive node_step :: "engine \<Rightarrow> 'b backend \<Rightarrow> ('b \<Rightarrow> bool) \<Rightarrow> 'b node \<Rightarrow> 'b node \<Rightarrow> bool"
  for en bk ok where
  request: "request_ok req \<Longrightarrow> set (request_rows req) \<subseteq> set (nd_reads n) \<Longrightarrow>
     node_step en bk ok n (n\<lparr>nd_db := handle now reg req (nd_db n)\<rparr>)"
| read: "getRaw (nd_db n) uid = Inr u \<Longrightarrow> node_step en bk ok n (n\<lparr>nd_reads := u # nd_reads n\<rparr>)"
| reset: "ResetTraffic (node_accounting now reg en bk) (nd_db n) (nd_acc n) uid = (r, s', acc') \<Longrightarrow>
     node_step en bk ok n (n\<lparr>nd_db := s', nd_acc := acc'\<rparr>)"
| flush: "FlushSamples (devices (nd_db n)) (nd_charts n) (nd_acc n) = (w, c', acc') \<Longrightarrow>
     node_step en bk ok n (n\<lparr>nd_charts := c', nd_acc := acc'\<rparr>)"
| prune: "node_step en bk ok n (n\<lparr>nd_charts := snd (Prune reg now (nd_charts n))\<rparr>)"
| pass: "Run en bk (nd_db n) (nd_link n) = (r, s', b') \<Longrightarrow> node_step en bk ok n (n\<lparr>nd_db := s', nd_link := b'\<rparr>)"
| cycle: "RunCycle (node_accounting now reg en bk) bk (nd_db n) (nd_link n) (nd_acc n) = (r, s', b', acc') \<Longrightarrow>
     node_step en bk ok n (n\<lparr>nd_db := s', nd_link := b', nd_acc := acc'\<rparr>)"
| expiry: "EnforceExpiry (node_accounting now reg en bk) (nd_db n) (nd_link n) = (r, s', b') \<Longrightarrow>
     node_step en bk ok n (n\<lparr>nd_db := s', nd_link := b'\<rparr>)"
| world: "ok b' \<Longrightarrow> node_step en bk ok n (n\<lparr>nd_link := b'\<rparr>)"

definition node_inv :: "('b \<Rightarrow> bool) \<Rightarrow> 'b node \<Rightarrow> bool" where
  "node_inv ok n \<longleftrightarrow> db_inv (nd_db n) \<and> ok (nd_link n) \<and> charts_inv (nd_charts n) \<and> (\<forall>u \<in> set (nd_reads n). row_ok u)"

lemma flush_inv: "charts_inv c \<Longrightarrow> FlushSamples devs c a = (n, c', a') \<Longrightarrow> charts_inv c'"
  using flush_fold_inv[of "(0, c)" devs a] by (auto simp: FlushSamples_def take_batch_def split: prod.splits if_splits)

lemma prune_inv: "charts_inv c \<Longrightarrow> charts_inv (snd (Prune reg now c))"
  by (simp add: charts_inv_def Prune_def Let_def prune_rollups_def unique_on_delete)

lemma tame_inv: "tame s s' \<Longrightarrow> db_inv s'"
  by (simp add: tame_def)

lemma node_step_ok:
  assumes "node_step en bk ok n n'" "tunnel_backend bk ok" "node_inv ok n"
  shows "node_inv ok n' \<and> settles bk (nd_db n) (nd_link n) (nd_db n') (nd_link n')"
  using assms(1,3)
proof cases
  case (request req now reg)
  have "tame (nd_db n) (handle now reg req (nd_db n))"
    by (rule handle_tame) (use request assms(3) in \<open>auto simp: node_inv_def\<close>)
  from tame_settles[OF this] tame_inv[OF this] request assms(3) show ?thesis by (simp add: node_inv_def)
next
  case (read uid u)
  have "row_ok u" using read assms(3) by (auto simp: getRaw_def node_inv_def db_inv_def users_inv_def split: option.splits dest!: find_row_Some)
  then show ?thesis using read assms(3) by (auto simp: node_inv_def intro: tame_settles tame_refl)
next
  case (reset now reg uid r s' acc')
  have "tame (nd_db n) s'" using ResetTraffic_tame[OF _ reset(2)] assms(3) by (simp add: node_inv_def)
  from tame_settles[OF this] tame_inv[OF this] reset assms(3) show ?thesis by (simp add: node_inv_def)
next
  case (flush w c' acc')
  then show ?thesis using assms(3) flush_inv by (auto simp: node_inv_def intro: tame_settles tame_refl)
next
  case (prune reg now)
  then show ?thesis using assms(3) prune_inv by (auto simp: node_inv_def intro: tame_settles tame_refl)
next
  case (pass r s' b')
  then show ?thesis using assms(3) tunnel_backend.Run_settles[OF assms(2) _ _ pass(2)] by (auto simp: node_inv_def settles_def)
next
  case (cycle now reg r s' b' acc')
  then show ?thesis using assms(3) RunCycle_settles[OF assms(2) _ _ cycle(2)] by (auto simp: node_inv_def settles_def)
next
  case (expiry now reg r s' b')
  then show ?thesis using assms(3) EnforceExpiry_settles[OF assms(2) _ _ expiry(2)] by (auto simp: node_inv_def settles_def)
next
  case (world b')
  then show ?thesis using assms(3) by (auto simp: node_inv_def intro: tame_settles tame_refl)
qed

lemma node_steps_inv:
  "rtranclp (node_step en bk ok) n n' \<Longrightarrow> tunnel_backend bk ok \<Longrightarrow> node_inv ok n \<Longrightarrow> node_inv ok n'"
  by (induction rule: rtranclp_induct) (auto dest: node_step_ok)

section \<open>Properties\<close>


definition start_node :: "db \<Rightarrow> fake_state \<Rightarrow> fake_state node" where
  "start_node s b = \<lparr>nd_db = s, nd_link = b, nd_acc = [], nd_charts = \<lparr>ch_samples = [], ch_rollups = []\<rparr>, nd_reads = []\<rparr>"

abbreviation "fake_fine \<equiv> \<lambda>b. fake_ok b \<and> fake_errs b"

lemma start_inv: "db_inv s \<Longrightarrow> fake_fine b \<Longrightarrow> node_inv fake_fine (start_node s b)"
  by (simp add: node_inv_def start_node_def charts_inv_def unique_on_def)

lemma metered_db_good: "db_inv (metered_db 100)" "db_inv retiring_db"
  using metered_db_inv[of 100] retiring_db_simps(5)
  by (simp_all add: db_inv_def example_ifaces retiring_db_simps unique_on_def) (simp add: users_inv_def retiring_db_def)



lemma old_key_unused: "(i, ''old-key'') \<notin> slots retiring_db"
proof -
  have "length (k_public (example_keys 1)) = 44" by (simp add: example_keys_def length_b64_encode)
  then have "k_public (example_keys 1) \<noteq> ''old-key''" by auto
  then show ?thesis by (simp add: slots_def retiring_db_simps metered_db_def)
qed


text \<open>
  C31. Expiry stops traffic. When the expiry pass expires an account, the reconcile pass it triggers
  leaves on every enabled interface it reports no error for only keys of devices whose account is
  live, enabled, active or waiting, and not a second past its expiry.
\<close>
theorem expiry_cuts_access:
  assumes "tunnel_backend bk ok" "ok b" "db_inv s"
    and "EnforceExpiry (node_accounting now reg en bk) s b = (Inr n, s', b')" "0 < n"
  shows "\<exists>s1 rep. expiry_tx (node_accounting now reg en bk) s = Inr (n, s1) \<and> Run en bk s1 b = (Inr rep, s', b')
    \<and> (\<forall>r \<in> set (ifaces s). i_enabled r \<and> i_name r \<notin> fst ` set (re_errors rep) \<longrightarrow>
         (\<exists>st. Dump bk b' (i_name r) = Inr st
            \<and> (\<forall>d \<in> set (devices s'). \<forall>u \<in> set (users s'). d_pubkey d \<in> peer_keys st \<and> u_id u = d_user d \<longrightarrow>
                 u_deleted u = None \<and> u_enabled u \<and> PeerWanted (u_status u) \<and> (\<forall>e. u_expires u = Some e \<longrightarrow> now < e + 1000000000))))"
  using assms(4)
proof (cases rule: EnforceExpiry_cases)
  case (expired k s1 x)
  then obtain rep where x: "x = Inr rep" "k = n" by (auto split: sum.splits)
  let ?us = "update_rows (expiry_due now) (expire_row now) (users s)"
  have t: "tame s s1" by (rule wired_acc.expiry_tame[OF assms(3) expired(1)])
  then have inv: "users_inv s1" "devices_inv s1" "unique_on i_name (ifaces s1)" "ifaces s1 = ifaces s"
    "unique_on d_pubkey (devices s1)" "unique_on u_id (users s1)"
    using assms(3) by (auto simp: tame_def db_inv_def devices_inv_def users_inv_def)
  have us: "users s1 = ?us" using wired_acc.expiry_tx_users[OF expired(1)] by (simp add: same_domain_def)
  note R = expired(3)[unfolded x(1)]
  note fr = tunnel_backend.pass_frame[OF assms(1,2) inv(5,3) R]
  have el: "u_deleted u = None \<and> u_enabled u \<and> PeerWanted (u_status u) \<and> (\<forall>e. u_expires u = Some e \<longrightarrow> now < e + 1000000000)"
    if "d \<in> set (devices s1)" "u \<in> set (users s1)" "u_id u = d_user d" "d_pubkey d \<in> wanted_keys s1 i" for d u i
  proof -
    have "peer_eligible s1 d" using that(1,4) unique_on_eq[OF inv(5)] by (auto simp: wanted_keys_def)
    then have "desiredPeerWhere u d" using find_row_unique[OF inv(6) that(2)] that(3) by (simp add: peer_eligible_def)
    then have "u_deleted u = None" "u_enabled u" "PeerWanted (u_status u)" by (auto simp: desiredPeerWhere_def PeerWanted_def)
    with expired_bound[of u now "users s"] that(2) us show ?thesis by auto
  qed
  have "\<exists>st. Dump bk b' (i_name r) = Inr st
      \<and> (\<forall>d \<in> set (devices s'). \<forall>u \<in> set (users s'). d_pubkey d \<in> peer_keys st \<and> u_id u = d_user d \<longrightarrow>
           u_deleted u = None \<and> u_enabled u \<and> PeerWanted (u_status u) \<and> (\<forall>e. u_expires u = Some e \<longrightarrow> now < e + 1000000000))"
    if "r \<in> set (ifaces s)" "i_enabled r" "i_name r \<notin> fst ` set (re_errors rep)" for r
  proof -
    from tunnel_backend.pass_revokes[OF assms(1,2) inv(5,3) R _ that(3)] that(1,2) inv(4) obtain st where
      "Dump bk b' (i_name r) = Inr st" "\<forall>k. k \<in> peer_keys st \<and> k \<in> d_pubkey ` set (devices s1) \<longrightarrow> k \<in> wanted_keys s1 (i_id r)"
      by auto
    with fr el show ?thesis by (metis imageI)
  qed
  with expired(1) R x(2) show ?thesis by blast
qed (use assms(5) in simp_all)

text \<open>The metered account with an expiry at the epoch.\<close>

definition due_db :: db where
  "due_db = (metered_db 100)\<lparr>users := map (\<lambda>u. u\<lparr>u_expires := Some 0\<rparr>) (users (metered_db 100))\<rparr>"

lemma due_db_good: "db_inv due_db" "ifaces due_db = [example_iface]"
  using metered_db_good(1)
  by (auto simp: db_inv_def due_db_def users_inv_def devices_inv_def device_ok_def unique_on_def comp_def row_ok_def image_image example_ifaces)

lemma due_expires:
  "\<exists>s1. expiry_tx (node_accounting 5000000000 None example_engine fake_backend) due_db = Inr (1, s1)"
proof -
  have "text_key 0 < text_key 5000000000" by (rule text_key_le_if) simp
  then show ?thesis
    by (simp add: expiry_tx_def due_db_def metered_db_def empty_db_def stored_user_def buildCreate_def Let_def user_example_simps expiry_due_def
      record_opt_def RecordTx_def ValidEvent_def Catalog_def event_owner_def user_event_def)
qed

lemma run_fresh:
  assumes "loadInterfaces example_engine s = Inr [example_link]" "loadDesiredPeers example_engine s = Inr (desired, known, ret)"
  shows "\<exists>rep s' b'. Run example_engine fake_backend s fake_New = (Inr rep, s', b') \<and> re_errors rep = []"
  using assms by (simp add: run_example_simps fake_New_def IsLinkName_def LinkPrefix_def peer_diff_created peer_diff_errors)

lemma load_all_decrypts: "\<exists>rs. load_all (desire (en_decrypt example_engine)) ds = Inr rs"
  by (induction ds) (auto simp: desire_def example_engine_def split: option.splits)

lemma due_run:
  "\<exists>s' b'. EnforceExpiry (node_accounting 5000000000 None example_engine fake_backend) due_db fake_New = (Inr 1, s', b')"
proof -
  let ?svc = "node_accounting 5000000000 None example_engine fake_backend"
  obtain s1 where s1: "expiry_tx ?svc due_db = Inr (1, s1)" using due_expires by blast
  from wired_acc.expiry_tx_users[OF s1] have d: "ifaces s1 = [example_iface]" by (simp add: same_domain_def due_db_good)
  then have "loadInterfaces example_engine s1 = Inr [example_link]" by (simp add: loadInterfaces_def example_link_loads)
  moreover obtain x where "loadDesiredPeers example_engine s1 = Inr x"
    using load_all_decrypts[of "filter (peer_eligible s1) (devices s1)"] by (auto simp: loadDesiredPeers_def)
  ultimately obtain rep s' b' where "Run example_engine fake_backend s1 fake_New = (Inr rep, s', b')"
    using run_fresh by (cases x) blast
  with s1 show ?thesis by (simp add: EnforceExpiry_def WithTx_def reconciler_def)
qed

theorem expiry_cuts_access_witness:
  "\<exists>s' b' rep s1. EnforceExpiry (node_accounting 5000000000 None example_engine fake_backend) due_db fake_New = (Inr 1, s', b')
     \<and> Run example_engine fake_backend s1 fake_New = (Inr rep, s', b')
     \<and> (''awg0'' \<notin> fst ` set (re_errors rep) \<longrightarrow> (\<exists>st. Dump fake_backend b' ''awg0'' = Inr st
         \<and> (\<forall>d \<in> set (devices s'). \<forall>u \<in> set (users s'). u_expires u = Some 0 \<and> u_id u = d_user d \<longrightarrow> d_pubkey d \<notin> peer_keys st)))"
proof -
  obtain s' b' where r: "EnforceExpiry (node_accounting 5000000000 None example_engine fake_backend) due_db fake_New = (Inr 1, s', b')"
    using due_run by blast
  from expiry_cuts_access[OF fake.tunnel_backend_axioms fake_new_ok due_db_good(1) r] obtain s1 rep where
    x: "Run example_engine fake_backend s1 fake_New = (Inr rep, s', b')" and
    y: "\<forall>r \<in> set (ifaces due_db). i_enabled r \<and> i_name r \<notin> fst ` set (re_errors rep) \<longrightarrow>
         (\<exists>st. Dump fake_backend b' (i_name r) = Inr st
            \<and> (\<forall>d \<in> set (devices s'). \<forall>u \<in> set (users s'). d_pubkey d \<in> peer_keys st \<and> u_id u = d_user d \<longrightarrow>
                 u_deleted u = None \<and> u_enabled u \<and> PeerWanted (u_status u)
                 \<and> (\<forall>e. u_expires u = Some e \<longrightarrow> 5000000000 < e + 1000000000)))"
    by auto
  show ?thesis
    by (rule exI[of _ s'], rule exI[of _ b'], rule exI[of _ rep], rule exI[of _ s1])
      (use r x y in \<open>fastforce simp: due_db_good(2) example_iface_def\<close>)
qed

end
