(* ===== verification/Profiles.thy ===== *)
theory Profiles
  imports Obfuscation
begin

text \<open>
  Server-owned parameter profiles (\<open>src/internal/iface/profile.go\<close>): the generation policies, the
  generator over an entropy source and the narrower validation of generated profiles.

  An entropy source is the list of the bytes it still delivers; it fails once they run out, as
  \<open>io.ReadFull\<close> does at the end of a reader. What the generator returns depends on the bytes it
  has consumed only, so the finite list stands for any reader. \<open>rand_int\<close> is \<open>crypto/rand.Int\<close>:
  as many bytes as the largest result needs, the superfluous top bits cleared, drawn again
  until the value is below the bound.
\<close>

section \<open>Drawing from an entropy source\<close>

type_synonym 'a gen = "byte list \<Rightarrow> ('a \<times> byte list) result"

definition entropy_end :: error where
  "entropy_end = Foreign ''EOF''"

definition gret :: "'a \<Rightarrow> 'a gen" where
  "gret x bs = Inr (x, bs)"

definition gfail :: "error \<Rightarrow> 'a gen" where
  "gfail e bs = Inl e"

definition gbind :: "'a gen \<Rightarrow> ('a \<Rightarrow> 'b gen) \<Rightarrow> 'b gen" where
  "gbind m f bs = ebind (m bs) (\<lambda>(x, bs'). f x bs')"

definition glift :: "'a result \<Rightarrow> 'a gen" where
  "glift r bs = ebind r (\<lambda>x. Inr (x, bs))"

definition ReadFull :: "nat \<Rightarrow> byte list gen" where
  "ReadFull k bs = (if length bs < k then Inl entropy_end else Inr (take k bs, drop k bs))"

definition big_endian :: "byte list \<Rightarrow> nat" where
  "big_endian bs = foldl (\<lambda>acc b. acc * 256 + unat b) 0 bs"

fun bit_len :: "nat \<Rightarrow> nat" where
  "bit_len n = (if n = 0 then 0 else Suc (bit_len (n div 2)))"

declare bit_len.simps [simp del]

definition top_mask :: "nat \<Rightarrow> byte" where
  "top_mask bitLen = mask (if bitLen mod 8 = 0 then 8 else bitLen mod 8)"

fun clear_top :: "byte \<Rightarrow> byte list \<Rightarrow> byte list" where
  "clear_top m [] = []"
| "clear_top m (b # bs) = and b m # bs"

function draw_below :: "nat \<Rightarrow> nat \<Rightarrow> nat gen" where
  "draw_below bitLen bound bs =
     (let k = (bitLen + 7) div 8 in
      if bitLen = 0 then Inr (0, bs)
      else if length bs < k then Inl entropy_end
      else let n = big_endian (clear_top (top_mask bitLen) (take k bs))
           in if n < bound then Inr (n, drop k bs) else draw_below bitLen bound (drop k bs))"
  by pat_completeness auto
termination by (relation "measure (\<lambda>(_, _, bs). length bs)") auto

declare draw_below.simps [simp del]

definition rand_int :: "int \<Rightarrow> int gen" where
  "rand_int bound =
     (if bound \<le> 0 then gfail (Foreign ''panic: crypto/rand: argument to Int is <= 0'')
      else gbind (draw_below (bit_len (nat bound - 1)) (nat bound)) (\<lambda>n. gret (int n)))"

section \<open>Policies\<close>

datatype profile_policy =
    ProfilePlain | ProfileRecommended | ProfilePerformance | ProfileBalanced | ProfileResilient
  | ProfileSuggested | ProfileRandomized | ProfileCustom | ProfileOther string

definition policy_texts :: "(profile_policy \<times> string) list" where
  "policy_texts =
     [(ProfilePlain, ''plain''), (ProfileRecommended, ''recommended''), (ProfilePerformance, ''performance''),
      (ProfileBalanced, ''balanced''), (ProfileResilient, ''resilient''), (ProfileSuggested, ''suggested''),
      (ProfileRandomized, ''randomized''), (ProfileCustom, ''custom'')]"

definition policy_of :: "string \<Rightarrow> profile_policy" where
  "policy_of s = (case find (\<lambda>e. snd e = s) policy_texts of Some e \<Rightarrow> fst e | None \<Rightarrow> ProfileOther s)"

definition policy_text :: "profile_policy \<Rightarrow> string" where
  "policy_text p = (case p of ProfileOther s \<Rightarrow> s | _ \<Rightarrow> the (map_of policy_texts p))"

definition SuggestedMTU :: int where
  "SuggestedMTU = 1280"

record header_band =
  hb_low :: "32 word"
  hb_high :: "32 word"

definition generatedHeaderBands :: "header_band list" where
  "generatedHeaderBands =
     [\<lparr>hb_low = 5, hb_high = 536870911\<rparr>, \<lparr>hb_low = 536870912, hb_high = 1073741823\<rparr>,
      \<lparr>hb_low = 1073741824, hb_high = 1610612735\<rparr>, \<lparr>hb_low = 1610612736, hb_high = 2147483647\<rparr>]"

definition randomizedHeaderMaxSpan :: "32 word" where
  "randomizedHeaderMaxSpan = 100000000"

section \<open>Integer draws\<close>

definition intInclusive :: "int \<Rightarrow> int \<Rightarrow> int gen" where
  "intInclusive minimum maximum =
     gbind (rand_int (maximum - minimum + 1)) (\<lambda>value. gret (minimum + value))"

definition intInclusiveExcept :: "int \<Rightarrow> int \<Rightarrow> int \<Rightarrow> int gen" where
  "intInclusiveExcept minimum maximum excluded =
     (if excluded < minimum \<or> maximum < excluded then intInclusive minimum maximum
      else if maximum \<le> minimum then gfail (Foreign ''cannot exclude the only value in an integer range'')
      else gbind (intInclusive minimum (maximum - 1)) (\<lambda>value.
        gret (if excluded \<le> value then value + 1 else value)))"

definition uint32Inclusive :: "32 word \<Rightarrow> 32 word \<Rightarrow> 32 word gen" where
  "uint32Inclusive minimum maximum =
     gbind (rand_int (uint (maximum - minimum) + 1)) (\<lambda>value. gret (minimum + of_int value))"

definition u16Range :: "int \<Rightarrow> int \<Rightarrow> int \<Rightarrow> int \<Rightarrow> u16range gen" where
  "u16Range lowMin lowMax spanMin spanMax =
     gbind (intInclusive lowMin lowMax) (\<lambda>low.
     gbind (intInclusive spanMin spanMax) (\<lambda>span.
       glift (NewU16Range (of_int low) (of_int (low + span)))))"

section \<open>Generators\<close>

definition scalar_header :: "header_band \<Rightarrow> u32range gen" where
  "scalar_header band = gbind (uint32Inclusive (hb_low band) (hb_high band)) (\<lambda>v. gret (ScalarU32 v))"

definition ranged_header :: "32 word \<Rightarrow> header_band \<Rightarrow> u32range gen" where
  "ranged_header maxSpan band =
     gbind (uint32Inclusive (hb_low band) (hb_high band - maxSpan)) (\<lambda>low.
     gbind (uint32Inclusive 1 maxSpan) (\<lambda>span.
       glift (NewU32Range low (low + span))))"

definition draw_headers :: "(header_band \<Rightarrow> u32range gen) \<Rightarrow> obfuscation \<Rightarrow> obfuscation gen" where
  "draw_headers h profile =
     gbind (h (generatedHeaderBands ! 0)) (\<lambda>h1.
     gbind (h (generatedHeaderBands ! 1)) (\<lambda>h2.
     gbind (h (generatedHeaderBands ! 2)) (\<lambda>h3.
     gbind (h (generatedHeaderBands ! 3)) (\<lambda>h4.
       gret (profile\<lparr>ob_h1 := h1, ob_h2 := h2, ob_h3 := h3, ob_h4 := h4\<rparr>)))))"

definition setHeaderProtectionKey :: "obfuscation \<Rightarrow> obfuscation gen" where
  "setHeaderProtectionKey profile =
     gbind (ReadFull 32) (\<lambda>key. gret (profile\<lparr>ob_hpk := b64_encode key\<rparr>))"

record operational_values =
  ov_jc :: int
  ov_jmin :: int
  ov_jmax :: int
  ov_s1 :: int
  ov_s2 :: int
  ov_s3 :: int
  ov_s4 :: int
  ov_padding :: "16 word \<times> 16 word"
  ov_rekey_after :: "16 word \<times> 16 word"
  ov_rekey_timeout :: "16 word \<times> 16 word"
  ov_reject_after :: "16 word \<times> 16 word"
  ov_keepalive :: "16 word \<times> 16 word"
  ov_max_handshake :: "16 word \<times> 16 word"
  ov_header_span :: "32 word"

text \<open>
  The six timer ranges are assigned from a Go map whose iteration order is free; every assignment
  writes a field of its own, so one order stands for all of them.
\<close>

definition fixed_ranges :: "operational_values \<Rightarrow> obfuscation \<Rightarrow> obfuscation result" where
  "fixed_ranges v profile =
     ebind (case_prod NewU16Range (ov_padding v)) (\<lambda>padding.
     ebind (case_prod NewU16Range (ov_rekey_after v)) (\<lambda>rekeyAfter.
     ebind (case_prod NewU16Range (ov_rekey_timeout v)) (\<lambda>rekeyTimeout.
     ebind (case_prod NewU16Range (ov_reject_after v)) (\<lambda>rejectAfter.
     ebind (case_prod NewU16Range (ov_keepalive v)) (\<lambda>keepalive.
     ebind (case_prod NewU16Range (ov_max_handshake v)) (\<lambda>maxHandshake.
       Inr (profile\<lparr>ob_padding := padding, ob_rekey_after := rekeyAfter, ob_rekey_timeout := rekeyTimeout,
         ob_reject_after := rejectAfter, ob_keepalive := keepalive, ob_max_handshake := maxHandshake\<rparr>)))))))"

definition operational_base :: "operational_values \<Rightarrow> obfuscation" where
  "operational_base v = plain_obf\<lparr>ob_enabled := True, ob_jc := ov_jc v, ob_jmin := ov_jmin v, ob_jmax := ov_jmax v,
     ob_s1 := ov_s1 v, ob_s2 := ov_s2 v, ob_s3 := ov_s3 v, ob_s4 := ov_s4 v,
     ob_trailers := True, ob_no_cookies := True\<rparr>"

definition operational :: "operational_values \<Rightarrow> obfuscation gen" where
  "operational v =
     gbind (draw_headers
        (\<lambda>band. if ov_header_span v = 0 then scalar_header band else ranged_header (ov_header_span v) band)
        (operational_base v)) (\<lambda>profile.
     gbind (glift (fixed_ranges v profile)) setHeaderProtectionKey)"

definition performance_values :: operational_values where
  "performance_values = \<lparr>ov_jc = 4, ov_jmin = 10, ov_jmax = 40, ov_s1 = 18, ov_s2 = 31, ov_s3 = 16, ov_s4 = 20,
     ov_padding = (10, 35), ov_rekey_after = (110, 130), ov_rekey_timeout = (4, 7), ov_reject_after = (170, 200),
     ov_keepalive = (8, 15), ov_max_handshake = (12, 18), ov_header_span = 0\<rparr>"

definition balanced_values :: operational_values where
  "balanced_values = \<lparr>ov_jc = 6, ov_jmin = 20, ov_jmax = 80, ov_s1 = 32, ov_s2 = 64, ov_s3 = 24, ov_s4 = 32,
     ov_padding = (10, 70), ov_rekey_after = (100, 125), ov_rekey_timeout = (3, 7), ov_reject_after = (165, 210),
     ov_keepalive = (6, 15), ov_max_handshake = (15, 22), ov_header_span = 25000000\<rparr>"

definition resilient_values :: operational_values where
  "resilient_values = \<lparr>ov_jc = 12, ov_jmin = 40, ov_jmax = 180, ov_s1 = 96, ov_s2 = 180, ov_s3 = 48, ov_s4 = 64,
     ov_padding = (30, 180), ov_rekey_after = (90, 120), ov_rekey_timeout = (3, 7), ov_reject_after = (180, 260),
     ov_keepalive = (5, 15), ov_max_handshake = (20, 32), ov_header_span = randomizedHeaderMaxSpan\<rparr>"

definition suggested_values :: operational_values where
  "suggested_values = \<lparr>ov_jc = 5, ov_jmin = 10, ov_jmax = 50, ov_s1 = 21, ov_s2 = 28, ov_s3 = 53, ov_s4 = 12,
     ov_padding = (10, 100), ov_rekey_after = (100, 120), ov_rekey_timeout = (3, 7), ov_reject_after = (150, 180),
     ov_keepalive = (5, 15), ov_max_handshake = (15, 20), ov_header_span = 0\<rparr>"

definition performance :: "obfuscation gen" where
  "performance = operational performance_values"

definition balanced :: "obfuscation gen" where
  "balanced = operational balanced_values"

definition resilient :: "obfuscation gen" where
  "resilient = operational resilient_values"

definition suggested :: "obfuscation gen" where
  "suggested =
     gbind (glift (fixed_ranges suggested_values ((operational_base suggested_values)\<lparr>
        ob_h1 := ScalarU32 1, ob_h2 := ScalarU32 2, ob_h3 := ScalarU32 3, ob_h4 := ScalarU32 4\<rparr>)))
       setHeaderProtectionKey"

definition recommended_base :: obfuscation where
  "recommended_base = plain_obf\<lparr>ob_enabled := True, ob_jc := 4, ob_jmin := 40, ob_jmax := 70, ob_s1 := 15, ob_s2 := 64\<rparr>"

definition recommended :: "obfuscation gen" where
  "recommended = draw_headers scalar_header recommended_base"

definition randomized_ranges :: "obfuscation \<Rightarrow> obfuscation gen" where
  "randomized_ranges profile =
     gbind (u16Range 10 30 10 60) (\<lambda>padding.
     gbind (u16Range 90 120 10 20) (\<lambda>rekeyAfter.
     gbind (u16Range 3 7 1 5) (\<lambda>rekeyTimeout.
     let rejectLowMin = uint (r_high rekeyAfter) + 20 in
     gbind (u16Range rejectLowMin (rejectLowMin + 30) 20 60) (\<lambda>rejectAfter.
     gbind (u16Range 5 12 2 8) (\<lambda>keepalive.
     gbind (u16Range 15 25 5 20) (\<lambda>maxHandshake.
       gret (profile\<lparr>ob_padding := padding, ob_rekey_after := rekeyAfter, ob_rekey_timeout := rekeyTimeout,
         ob_reject_after := rejectAfter, ob_keepalive := keepalive, ob_max_handshake := maxHandshake\<rparr>)))))))"

definition randomized :: "obfuscation gen" where
  "randomized =
     gbind (intInclusive 4 12) (\<lambda>jc.
     gbind (intInclusive 20 60) (\<lambda>jmin.
     gbind (intInclusive 80 240) (\<lambda>jmax.
     gbind (intInclusive 12 256) (\<lambda>s1.
     gbind (intInclusiveExcept 12 256 (s1 + 56)) (\<lambda>s2.
     gbind (intInclusive 12 64) (\<lambda>s3.
     gbind (intInclusive 12 64) (\<lambda>s4.
     gbind (draw_headers (ranged_header randomizedHeaderMaxSpan)
       (plain_obf\<lparr>ob_enabled := True, ob_jc := jc, ob_jmin := jmin, ob_jmax := jmax, ob_s1 := s1, ob_s2 := s2,
          ob_s3 := s3, ob_s4 := s4, ob_trailers := True, ob_no_cookies := True\<rparr>)) (\<lambda>profile.
     gbind (setHeaderProtectionKey profile) randomized_ranges))))))))"

section \<open>Validation of generated profiles\<close>

definition profile_headers :: "obfuscation \<Rightarrow> u32range list" where
  "profile_headers ob = [ob_h1 ob, ob_h2 ob, ob_h3 ob, ob_h4 ob]"

definition no_signatures :: "obfuscation \<Rightarrow> bool" where
  "no_signatures ob \<longleftrightarrow> ob_i1 ob = [] \<and> ob_i2 ob = [] \<and> ob_i3 ob = [] \<and> ob_i4 ob = [] \<and> ob_i5 ob = []"

definition hasAdvancedGeneratedFields :: "obfuscation \<Rightarrow> bool" where
  "hasAdvancedGeneratedFields ob \<longleftrightarrow> \<not> no_signatures ob
     \<or> \<not> range_is_zero (ob_padding ob) \<or> \<not> range_is_zero (ob_rekey_after ob)
     \<or> \<not> range_is_zero (ob_rekey_timeout ob) \<or> \<not> range_is_zero (ob_reject_after ob)
     \<or> \<not> range_is_zero (ob_keepalive ob) \<or> \<not> range_is_zero (ob_max_handshake ob)
     \<or> ob_trailers ob \<or> ob_no_cookies ob"

definition in_band :: "u32range \<Rightarrow> header_band \<Rightarrow> bool" where
  "in_band h band \<longleftrightarrow> hb_low band \<le> r_low h \<and> r_high h \<le> hb_high band"

definition generatedHeadersMatch :: "obfuscation \<Rightarrow> bool \<Rightarrow> 32 word \<Rightarrow> bool" where
  "generatedHeadersMatch ob ranges maxSpan \<longleftrightarrow>
     list_all2 (\<lambda>h band. in_band h band \<and>
        (if ranges then r_low h < r_high h \<and> r_high h - r_low h \<le> maxSpan else r_low h = r_high h))
       (profile_headers ob) generatedHeaderBands"

definition validGeneratedRangeShape :: "u16range \<Rightarrow> int \<Rightarrow> int \<Rightarrow> int \<Rightarrow> int \<Rightarrow> bool" where
  "validGeneratedRangeShape r lowMin lowMax spanMin spanMax \<longleftrightarrow>
     \<not> (range_is_zero r \<or> r_high r \<le> r_low r)
     \<and> (let low = uint (r_low r); span = uint (r_high r - r_low r)
        in lowMin \<le> low \<and> low \<le> lowMax \<and> spanMin \<le> span \<and> span \<le> spanMax)"

definition operational_fields_ok :: "obfuscation \<Rightarrow> bool" where
  "operational_fields_ok ob \<longleftrightarrow> no_signatures ob \<and> ob_trailers ob \<and> ob_no_cookies ob \<and> ob_hpk ob \<noteq> []
     \<and> \<not> range_is_zero (ob_padding ob) \<and> \<not> range_is_zero (ob_rekey_after ob)
     \<and> \<not> range_is_zero (ob_rekey_timeout ob) \<and> \<not> range_is_zero (ob_reject_after ob)
     \<and> \<not> range_is_zero (ob_keepalive ob) \<and> \<not> range_is_zero (ob_max_handshake ob)"

definition exactRanges :: "obfuscation \<Rightarrow> string list \<Rightarrow> bool" where
  "exactRanges ob ts \<longleftrightarrow>
     map show_range [ob_padding ob, ob_rekey_after ob, ob_rekey_timeout ob, ob_reject_after ob,
       ob_keepalive ob, ob_max_handshake ob] = ts"

definition baseline :: "obfuscation \<Rightarrow> int list" where
  "baseline ob = [ob_jc ob, ob_jmin ob, ob_jmax ob, ob_s1 ob, ob_s2 ob]"

definition operational_matches :: "profile_policy \<Rightarrow> obfuscation \<Rightarrow> bool" where
  "operational_matches policy ob =
     (case policy of
        ProfilePerformance \<Rightarrow> baseline ob = [4, 10, 40, 18, 31] \<and> ob_s3 ob = 16 \<and> ob_s4 ob = 20
          \<and> exactRanges ob [''10-35'', ''110-130'', ''4-7'', ''170-200'', ''8-15'', ''12-18'']
          \<and> generatedHeadersMatch ob False 0
      | ProfileBalanced \<Rightarrow> baseline ob = [6, 20, 80, 32, 64] \<and> ob_s3 ob = 24 \<and> ob_s4 ob = 32
          \<and> exactRanges ob [''10-70'', ''100-125'', ''3-7'', ''165-210'', ''6-15'', ''15-22'']
          \<and> generatedHeadersMatch ob True 25000000
      | ProfileResilient \<Rightarrow> baseline ob = [12, 40, 180, 96, 180] \<and> ob_s3 ob = 48 \<and> ob_s4 ob = 64
          \<and> exactRanges ob [''30-180'', ''90-120'', ''3-7'', ''180-260'', ''5-15'', ''20-32'']
          \<and> generatedHeadersMatch ob True randomizedHeaderMaxSpan
      | ProfileSuggested \<Rightarrow> baseline ob = [5, 10, 50, 21, 28] \<and> ob_s3 ob = 53 \<and> ob_s4 ob = 12
          \<and> profile_headers ob = [ScalarU32 1, ScalarU32 2, ScalarU32 3, ScalarU32 4]
          \<and> exactRanges ob [''10-100'', ''100-120'', ''3-7'', ''150-180'', ''5-15'', ''15-20'']
      | _ \<Rightarrow> False)"

definition validateOperationalGeneratedProfile :: "profile_policy \<Rightarrow> obfuscation \<Rightarrow> unit result" where
  "validateOperationalGeneratedProfile policy ob =
     (if \<not> operational_fields_ok ob then E CodeParamConstraint
      else if \<not> operational_matches policy ob then E CodeParamConstraint
      else Inr ())"

definition randomized_matches :: "obfuscation \<Rightarrow> bool" where
  "randomized_matches ob \<longleftrightarrow>
     4 \<le> ob_jc ob \<and> ob_jc ob \<le> 12 \<and> 20 \<le> ob_jmin ob \<and> ob_jmin ob \<le> 60 \<and> 80 \<le> ob_jmax ob \<and> ob_jmax ob \<le> 240
     \<and> 12 \<le> ob_s1 ob \<and> ob_s1 ob \<le> 256 \<and> 12 \<le> ob_s2 ob \<and> ob_s2 ob \<le> 256
     \<and> 12 \<le> ob_s3 ob \<and> ob_s3 ob \<le> 64 \<and> 12 \<le> ob_s4 ob \<and> ob_s4 ob \<le> 64 \<and> ob_hpk ob \<noteq> []
     \<and> list_all2 (\<lambda>h band. r_low h < r_high h \<and> in_band h band \<and> r_high h - r_low h \<le> randomizedHeaderMaxSpan)
         (profile_headers ob) generatedHeaderBands
     \<and> no_signatures ob \<and> ob_trailers ob \<and> ob_no_cookies ob
     \<and> (let rejectLowMin = uint (r_high (ob_rekey_after ob)) + 20 in
          validGeneratedRangeShape (ob_padding ob) 10 30 10 60
          \<and> validGeneratedRangeShape (ob_rekey_after ob) 90 120 10 20
          \<and> validGeneratedRangeShape (ob_rekey_timeout ob) 3 7 1 5
          \<and> validGeneratedRangeShape (ob_reject_after ob) rejectLowMin (rejectLowMin + 30) 20 60
          \<and> validGeneratedRangeShape (ob_keepalive ob) 5 12 2 8
          \<and> validGeneratedRangeShape (ob_max_handshake ob) 15 25 5 20)"

definition ValidateGeneratedProfile :: "profile_policy \<Rightarrow> obfuscation \<Rightarrow> unit result" where
  "ValidateGeneratedProfile policy ob =
     ebind (ValidateObfuscation ob) (\<lambda>_.
     case policy of
       ProfilePlain \<Rightarrow> if ob \<noteq> plain_obf then E CodeParamConstraint else Inr ()
     | ProfileRecommended \<Rightarrow>
         if baseline ob \<noteq> [4, 40, 70, 15, 64] then E CodeParamConstraint
         else if ob_s3 ob \<noteq> 0 \<or> ob_s4 ob \<noteq> 0 \<or> ob_hpk ob \<noteq> [] \<or> hasAdvancedGeneratedFields ob then E CodeParamConstraint
         else if \<not> generatedHeadersMatch ob False 0 then E CodeParamConstraint
         else Inr ()
     | ProfilePerformance \<Rightarrow> validateOperationalGeneratedProfile policy ob
     | ProfileBalanced \<Rightarrow> validateOperationalGeneratedProfile policy ob
     | ProfileResilient \<Rightarrow> validateOperationalGeneratedProfile policy ob
     | ProfileSuggested \<Rightarrow> validateOperationalGeneratedProfile policy ob
     | ProfileRandomized \<Rightarrow> if randomized_matches ob then Inr () else E CodeParamConstraint
     | _ \<Rightarrow> E CodeParamConstraint)"

definition IsGeneratedProfilePolicy :: "profile_policy \<Rightarrow> bool" where
  "IsGeneratedProfilePolicy policy \<longleftrightarrow> policy \<in> {ProfileRecommended, ProfilePerformance, ProfileBalanced,
     ProfileResilient, ProfileSuggested, ProfileRandomized}"

definition validatedGenerated :: "profile_policy \<Rightarrow> obfuscation \<Rightarrow> obfuscation result" where
  "validatedGenerated policy profile = ebind (ValidateGeneratedProfile policy profile) (\<lambda>_. Inr profile)"

definition generate_with :: "profile_policy \<Rightarrow> obfuscation gen \<Rightarrow> obfuscation gen" where
  "generate_with policy draw = gbind draw (\<lambda>profile. glift (validatedGenerated policy profile))"

definition Generate :: "profile_policy \<Rightarrow> obfuscation gen" where
  "Generate policy =
     (case policy of
        ProfilePlain \<Rightarrow> gret plain_obf
      | ProfileRecommended \<Rightarrow> generate_with policy recommended
      | ProfilePerformance \<Rightarrow> generate_with policy performance
      | ProfileBalanced \<Rightarrow> generate_with policy balanced
      | ProfileResilient \<Rightarrow> generate_with policy resilient
      | ProfileSuggested \<Rightarrow> generate_with policy suggested
      | ProfileRandomized \<Rightarrow> generate_with policy randomized
      | _ \<Rightarrow> gfail (DomainError CodeParamConstraint))"

section \<open>What a draw delivers\<close>

text \<open>
  \<open>yields m n P\<close>: the draw \<open>m\<close> fails only at the end of the entropy, its results satisfy \<open>P\<close>, and
  it does return once the source delivers \<open>n\<close> zero bytes in a row, whatever came before them; what is left still ends
  in the zeros that were not needed.
\<close>

definition yields :: "'a gen \<Rightarrow> nat \<Rightarrow> ('a \<Rightarrow> bool) \<Rightarrow> bool" where
  "yields m n P \<longleftrightarrow>
     (\<forall>bs. case m bs of Inl e \<Rightarrow> e = entropy_end | Inr (x, _) \<Rightarrow> P x)
     \<and> (\<forall>us k. n \<le> k \<longrightarrow> (\<exists>x vs j. m (us @ replicate k 0) = Inr (x, vs @ replicate j 0) \<and> k \<le> n + j))"

lemma yieldsI:
  assumes "\<And>bs e. m bs = Inl e \<Longrightarrow> e = entropy_end" "\<And>bs x bs'. m bs = Inr (x, bs') \<Longrightarrow> P x"
    and "\<And>us k. n \<le> k \<Longrightarrow> \<exists>x vs j. m (us @ replicate k 0) = Inr (x, vs @ replicate j 0) \<and> k \<le> n + j"
  shows "yields m n P"
  unfolding yields_def using assms by (auto split: sum.splits)

lemma yields_end: "yields m n P \<Longrightarrow> m bs = Inl e \<Longrightarrow> e = entropy_end"
  and yields_post: "yields m n P \<Longrightarrow> m bs = Inr (x, bs') \<Longrightarrow> P x"
  unfolding yields_def by (force split: sum.splits)+

lemma yields_zeros:
  "yields m n P \<Longrightarrow> n \<le> k \<Longrightarrow> \<exists>x vs j. m (us @ replicate k 0) = Inr (x, vs @ replicate j 0) \<and> k \<le> n + j"
  unfolding yields_def by blast

lemma yields_weaken:
  assumes "yields m n P" "n \<le> n'" "\<And>x. P x \<Longrightarrow> Q x"
  shows "yields m n' Q"
proof (rule yieldsI)
  fix us k assume "n' \<le> k"
  then obtain x vs j where "m (us @ replicate k 0) = Inr (x, vs @ replicate j 0)" "k \<le> n + j"
    using yields_zeros[OF assms(1), of k us] assms(2) by auto
  moreover from this(2) assms(2) have "k \<le> n' + j" by linarith
  ultimately show "\<exists>x vs j. m (us @ replicate k 0) = Inr (x, vs @ replicate j 0) \<and> k \<le> n' + j" by blast
qed (use yields_end[OF assms(1)] yields_post[OF assms(1)] assms(3) in \<open>blast+\<close>)

lemma yields_gret: "P x \<Longrightarrow> yields (gret x) n P"
  by (rule yieldsI) (auto simp: gret_def intro: le_add2)

lemma yields_glift: "r = Inr x \<Longrightarrow> P x \<Longrightarrow> yields (glift r) n P"
  by (rule yieldsI) (auto simp: glift_def intro: le_add2)

lemma yields_gbind:
  assumes m: "yields m a Q" and a: "a \<le> n" and f: "\<And>x. Q x \<Longrightarrow> yields (f x) (n - a) P"
  shows "yields (gbind m f) n P"
proof (rule yieldsI)
  fix bs e assume "gbind m f bs = Inl e"
  then show "e = entropy_end"
    using yields_end[OF m] yields_post[OF m] yields_end[OF f] by (force simp: gbind_def ebind_Inl_iff)
next
  fix bs x bs' assume "gbind m f bs = Inr (x, bs')"
  then show "P x"
    using yields_post[OF m] yields_post[OF f] by (force simp: gbind_def ebind_Inr_iff)
next
  fix us k assume k: "n \<le> k"
  then obtain x vs j where x: "m (us @ replicate k 0) = Inr (x, vs @ replicate j 0)" "k \<le> a + j"
    using yields_zeros[OF m, of k us] a by auto
  from k x(2) have "n - a \<le> j" by linarith
  then obtain y ws i where y: "f x (vs @ replicate j 0) = Inr (y, ws @ replicate i 0)" "j \<le> n - a + i"
    using yields_zeros[OF f[OF yields_post[OF m x(1)]], of j vs] by auto
  have "k \<le> n + i" using x(2) y(2) a by linarith
  with x(1) y(1) show "\<exists>x vs j. gbind m f (us @ replicate k 0) = Inr (x, vs @ replicate j 0) \<and> k \<le> n + j"
    by (intro exI[of _ y] exI[of _ ws] exI[of _ i]) (simp add: gbind_def)
qed

section \<open>Integers\<close>

lemma bit_len_le: "n < 2 ^ k \<Longrightarrow> bit_len n \<le> k"
proof (induction k arbitrary: n)
  case 0
  then show ?case by (simp add: bit_len.simps)
next
  case (Suc k)
  then have "bit_len (n div 2) \<le> k" by auto
  then show ?case by (subst bit_len.simps) simp
qed

lemma big_endian_zeros: "big_endian (replicate k 0) = 0"
  by (induction k) (simp_all add: big_endian_def)

lemma clear_top_zeros: "clear_top m (replicate k 0) = replicate k 0"
  by (cases k) simp_all

lemma draw_below_zeros:
  assumes "0 < bound" "w = (bitLen + 7) div 8" "2 * w \<le> k"
  shows "\<exists>x vs j. draw_below bitLen bound (us @ replicate k 0) = Inr (x, vs @ replicate j 0) \<and> k \<le> 2 * w + j"
  using assms(3)
proof (induction "length us" arbitrary: us k rule: less_induct)
  case less
  consider "bitLen = 0" | "bitLen \<noteq> 0" "w \<le> length us" | "bitLen \<noteq> 0" "length us < w" by linarith
  then show ?case
  proof cases
    case 1
    then have "draw_below bitLen bound (us @ replicate k 0) = Inr (0, us @ replicate k 0)"
      by (subst draw_below.simps) simp
    then show ?thesis by (metis le_add2)
  next
    case 2
    then have w: "0 < w" using assms(2) by auto
    have d: "drop w (us @ replicate k 0) = drop w us @ replicate k 0" using 2(2) by simp
    have "length (drop w us) < length us" using 2(2) w by auto
    note IH = less.hyps[OF this less.prems]
    have "draw_below bitLen bound (us @ replicate k 0) = Inr (big_endian (clear_top (top_mask bitLen) (take w us)), drop w us @ replicate k 0)
      \<or> draw_below bitLen bound (us @ replicate k 0) = draw_below bitLen bound (drop w us @ replicate k 0)"
      using 2 d draw_below.simps[of bitLen bound "us @ replicate k 0"] by (auto simp: Let_def assms(2)[symmetric])
    with IH show ?thesis by (metis le_add2)
  next
    case 3
    have w: "0 < w" using assms(2) 3(1) by auto
    define r where "r = k - (w - length us)"
    have d: "drop w (us @ replicate k 0) = replicate r 0" using 3(2) by (simp add: r_def)
    have r: "w \<le> r" "r \<le> k" "k \<le> w + r" using less.prems 3(2) by (auto simp: r_def)
    have z: "draw_below bitLen bound (replicate r 0) = Inr (0, replicate (r - w) 0)"
      using 3(1) r(1) assms(1)
      by (subst draw_below.simps) (simp add: Let_def assms(2)[symmetric] clear_top_zeros big_endian_zeros min_def)
    show ?thesis
    proof (cases "big_endian (clear_top (top_mask bitLen) (take w (us @ replicate k 0))) < bound")
      case True
      then show ?thesis using 3 d r less.prems
        by (subst draw_below.simps) (auto simp: Let_def assms(2)[symmetric] intro!: exI[of _ "[]"] exI[of _ r])
    next
      case False
      have "draw_below bitLen bound (us @ replicate k 0) = Inr (0, [] @ replicate (r - w) 0)"
        using 3 d r less.prems z False by (subst draw_below.simps) (simp add: Let_def assms(2)[symmetric])
      moreover have "k \<le> 2 * w + (r - w)" using r by linarith
      ultimately show ?thesis by blast
    qed
  qed
qed

lemma draw_below_post: "draw_below bitLen bound bs = Inr (n, bs') \<Longrightarrow> bitLen \<noteq> 0 \<Longrightarrow> n < bound"
proof (induction bitLen bound bs rule: draw_below.induct)
  case (1 bitLen bound bs)
  then show ?case by (subst (asm) (2) draw_below.simps) (auto simp: Let_def split: if_splits)
qed

lemma draw_below_end: "draw_below bitLen bound bs = Inl e \<Longrightarrow> e = entropy_end"
proof (induction bitLen bound bs rule: draw_below.induct)
  case (1 bitLen bound bs)
  then show ?case by (subst (asm) (2) draw_below.simps) (auto simp: Let_def split: if_splits)
qed

lemma draw_below_zero: "draw_below 0 bound bs = Inr (0, bs)"
  by (subst draw_below.simps) simp

lemma yields_draw_below:
  assumes "0 < bound" "bound \<le> 2 ^ 32"
  shows "yields (draw_below (bit_len (bound - 1)) bound) 8 (\<lambda>n. n < bound)"
proof (rule yieldsI)
  show "n < bound" if "draw_below (bit_len (bound - 1)) bound bs = Inr (n, bs')" for bs n bs'
    using draw_below_post[OF that] that assms(1)
    by (cases "bit_len (bound - 1) = 0") (auto simp: draw_below_zero)
  have "bit_len (bound - 1) \<le> 32" using assms by (intro bit_len_le) simp
  then have w: "2 * ((bit_len (bound - 1) + 7) div 8) \<le> 8" by simp
  show "\<exists>x vs j. draw_below (bit_len (bound - 1)) bound (us @ replicate k 0) = Inr (x, vs @ replicate j 0) \<and> k \<le> 8 + j"
    if "8 \<le> k" for us k
    using draw_below_zeros[OF assms(1) refl, of "bit_len (bound - 1)" k us] w that by force
qed (rule draw_below_end)

lemma yields_rand_int:
  assumes "0 < b" "b \<le> 2 ^ 32"
  shows "yields (rand_int b) 8 (\<lambda>v. 0 \<le> v \<and> v < b)"
proof -
  have "yields (draw_below (bit_len (nat b - 1)) (nat b)) 8 (\<lambda>n. n < nat b)"
    using assms by (intro yields_draw_below) auto
  then have "yields (gbind (draw_below (bit_len (nat b - 1)) (nat b)) (\<lambda>n. gret (int n))) 8 (\<lambda>v. 0 \<le> v \<and> v < b)"
    by (rule yields_gbind) (auto intro: yields_gret)
  with assms(1) show ?thesis by (simp add: rand_int_def)
qed

lemma yields_intInclusive:
  assumes "lo \<le> hi" "hi - lo < 2 ^ 32"
  shows "yields (intInclusive lo hi) 8 (\<lambda>v. lo \<le> v \<and> v \<le> hi)"
proof -
  have "yields (rand_int (hi - lo + 1)) 8 (\<lambda>v. 0 \<le> v \<and> v < hi - lo + 1)"
    using assms by (intro yields_rand_int) auto
  then show ?thesis
    unfolding intInclusive_def by (rule yields_gbind) (auto intro: yields_gret)
qed

lemma yields_intInclusiveExcept:
  assumes "lo < hi" "hi - lo < 2 ^ 32"
  shows "yields (intInclusiveExcept lo hi x) 8 (\<lambda>v. lo \<le> v \<and> v \<le> hi \<and> v \<noteq> x)"
proof (cases "x < lo \<or> hi < x")
  case True
  with assms show ?thesis
    by (auto simp: intInclusiveExcept_def intro: yields_weaken[OF yields_intInclusive])
next
  case False
  have "yields (intInclusive lo (hi - 1)) 8 (\<lambda>v. lo \<le> v \<and> v \<le> hi - 1)"
    using assms by (intro yields_intInclusive) auto
  then have "yields (gbind (intInclusive lo (hi - 1)) (\<lambda>v. gret (if x \<le> v then v + 1 else v))) 8
     (\<lambda>v. lo \<le> v \<and> v \<le> hi \<and> v \<noteq> x)"
    by (rule yields_gbind) (auto intro!: yields_gret)
  with assms False show ?thesis by (simp add: intInclusiveExcept_def)
qed

lemma uint_offset:
  assumes "(lo :: 32 word) \<le> hi" "0 \<le> v" "v \<le> uint (hi - lo)"
  shows "lo \<le> lo + of_int v \<and> lo + of_int v \<le> hi"
proof -
  have d: "uint (hi - lo) = uint hi - uint lo" using assms(1) by (simp add: uint_minus_simple_alt)
  have "v < 2 ^ 32" using assms(3) uint_lt2p[of "hi - lo"] by simp
  with assms(2) have v: "uint (of_int v :: 32 word) = v"
    by (simp add: uint_word_of_int_eq take_bit_int_eq_self)
  have "uint lo + v < 2 ^ 32" using assms(3) d uint_lt2p[of hi] by simp
  with v have "uint (lo + of_int v) = uint lo + v" using uint_add_lem[of lo "of_int v"] by simp
  with assms d show ?thesis by (simp add: word_le_def)
qed

lemma yields_uint32Inclusive:
  assumes "lo \<le> hi"
  shows "yields (uint32Inclusive lo hi) 8 (\<lambda>v. lo \<le> v \<and> v \<le> hi)"
proof -
  have "uint (hi - lo) < 2 ^ 32" using uint_lt2p[of "hi - lo"] by simp
  then have "yields (rand_int (uint (hi - lo) + 1)) 8 (\<lambda>v. 0 \<le> v \<and> v < uint (hi - lo) + 1)"
    by (intro yields_rand_int) auto
  then show ?thesis
    unfolding uint32Inclusive_def by (rule yields_gbind) (use assms uint_offset in \<open>auto intro!: yields_gret\<close>)
qed

lemma range_shape_16:
  assumes "0 \<le> low" "0 < span" "low + span < 65536" "lo \<le> low" "low \<le> hi" "s1 \<le> span" "span \<le> s2"
  shows "\<exists>r. NewU16Range (of_int low) (of_int (low + span)) = Inr r \<and> validGeneratedRangeShape r lo hi s1 s2
    \<and> uint (r_high r) = low + span"
proof -
  let ?l = "of_int low :: 16 word" and ?h = "of_int (low + span) :: 16 word"
  have l: "uint ?l = low" and h: "uint ?h = low + span"
    using assms by (simp_all add: uint_word_of_int_eq take_bit_int_eq_self del: of_int_add)
  then have lt: "?l < ?h" using assms(2) by (simp add: word_less_def del: of_int_add)
  then have "uint (?h - ?l) = span"
    using l h uint_minus_simple_alt[of ?l ?h] by (simp only: less_imp_le) simp
  moreover have "?h \<noteq> 0" using h assms by (auto simp del: of_int_add)
  ultimately show ?thesis
    using lt l h assms
    by (auto simp: NewU16Range_def new_range_def validGeneratedRangeShape_def range_is_zero_def not_less less_imp_le
        simp del: of_int_add)
qed

lemma yields_u16Range:
  assumes "0 \<le> lo" "lo \<le> hi" "0 < s1" "s1 \<le> s2" "hi + s2 < 65536"
  shows "yields (u16Range lo hi s1 s2) 16 (\<lambda>r. validGeneratedRangeShape r lo hi s1 s2 \<and> uint (r_high r) \<le> hi + s2)"
  unfolding u16Range_def
proof (rule yields_gbind[OF yields_intInclusive])
  fix low assume low: "lo \<le> low \<and> low \<le> hi"
  show "yields (gbind (intInclusive s1 s2) (\<lambda>span. glift (NewU16Range (of_int low) (of_int (low + span))))) (16 - 8)
    (\<lambda>r. validGeneratedRangeShape r lo hi s1 s2 \<and> uint (r_high r) \<le> hi + s2)"
  proof (rule yields_gbind[OF yields_intInclusive])
    fix span assume span: "s1 \<le> span \<and> span \<le> s2"
    obtain r where "NewU16Range (of_int low) (of_int (low + span)) = Inr r"
      "validGeneratedRangeShape r lo hi s1 s2" "uint (r_high r) = low + span"
      using range_shape_16[of low span lo hi s1 s2] low span assms by auto
    then show "yields (glift (NewU16Range (of_int low) (of_int (low + span)))) (16 - 8 - 8)
      (\<lambda>r. validGeneratedRangeShape r lo hi s1 s2 \<and> uint (r_high r) \<le> hi + s2)"
      using low span by (intro yields_glift) auto
  qed (use assms in auto)
qed (use assms in auto)

section \<open>Headers and keys\<close>

definition scalar_ok :: "header_band \<Rightarrow> u32range \<Rightarrow> bool" where
  "scalar_ok b h \<longleftrightarrow> in_band h b \<and> r_low h = r_high h"

definition ranged_ok :: "32 word \<Rightarrow> header_band \<Rightarrow> u32range \<Rightarrow> bool" where
  "ranged_ok span b h \<longleftrightarrow> in_band h b \<and> r_low h < r_high h \<and> r_high h - r_low h \<le> span"

lemma yields_scalar_header:
  assumes "hb_low b \<le> hb_high b"
  shows "yields (scalar_header b) 16 (scalar_ok b)"
  unfolding scalar_header_def
  by (rule yields_gbind[OF yields_uint32Inclusive[OF assms]])
    (auto intro!: yields_gret simp: scalar_ok_def in_band_def ScalarU32_def scalar_def)

lemma span_in_band:
  assumes "(low :: 32 word) \<le> hi - span" "span \<le> hi" "1 \<le> s" "s \<le> span"
  shows "low < low + s \<and> low + s \<le> hi \<and> low + s - low \<le> span"
proof -
  have "uint (hi - span) = uint hi - uint span" using assms(2) by (simp add: uint_minus_simple_alt)
  with assms have le: "uint low + uint s \<le> uint hi" by (simp add: word_le_def)
  then have "uint low + uint s < 2 ^ 32" using uint_lt2p[of hi] by simp
  then have "uint (low + s) = uint low + uint s" using uint_add_lem[of low s] by simp
  moreover have "1 \<le> uint s" using assms(3) by (simp add: word_le_def)
  ultimately show ?thesis using le assms(4) by (simp add: word_le_def word_less_def)
qed

lemma yields_ranged_header:
  assumes "1 \<le> span" "span \<le> hb_high b" "hb_low b \<le> hb_high b - span"
  shows "yields (ranged_header span b) 16 (ranged_ok span b)"
  unfolding ranged_header_def
proof (rule yields_gbind[OF yields_uint32Inclusive[OF assms(3)] _ yields_gbind[OF yields_uint32Inclusive[OF assms(1)]]])
  fix low s assume b: "hb_low b \<le> low \<and> low \<le> hb_high b - span" "1 \<le> s \<and> s \<le> span"
  with span_in_band[of low "hb_high b" span s] assms(2)
  have s: "low < low + s" "low + s \<le> hb_high b" "low + s - low \<le> span" by auto
  then have "NewU32Range low (low + s) = Inr \<lparr>r_low = low, r_high = low + s\<rparr>"
    by (auto simp: NewU32Range_def new_range_def)
  then show "yields (glift (NewU32Range low (low + s))) (16 - 8 - 8) (ranged_ok span b)"
    by (rule yields_glift) (use s b in \<open>auto simp: ranged_ok_def in_band_def\<close>)
qed simp_all

definition with_headers :: "obfuscation \<Rightarrow> u32range list \<Rightarrow> obfuscation" where
  "with_headers p hs = p\<lparr>ob_h1 := hs ! 0, ob_h2 := hs ! 1, ob_h3 := hs ! 2, ob_h4 := hs ! 3\<rparr>"

lemma yields_draw_headers:
  assumes "\<And>b. b \<in> set generatedHeaderBands \<Longrightarrow> yields (h b) 16 (H b)"
  shows "yields (draw_headers h p) 64 (\<lambda>q. \<exists>hs. q = with_headers p hs \<and> list_all2 H generatedHeaderBands hs)"
proof -
  have b: "generatedHeaderBands ! i \<in> set generatedHeaderBands" if "i < 4" for i
    using that by (intro nth_mem) (simp add: generatedHeaderBands_def)
  have g: "generatedHeaderBands = [generatedHeaderBands ! 0, generatedHeaderBands ! 1, generatedHeaderBands ! 2, generatedHeaderBands ! 3]"
    by (simp add: generatedHeaderBands_def)
  show ?thesis
    unfolding draw_headers_def
    apply (rule yields_gbind[OF assms[OF b]], simp, simp)
    apply (rule yields_gbind[OF assms[OF b]], simp, simp)
    apply (rule yields_gbind[OF assms[OF b]], simp, simp)
    apply (rule yields_gbind[OF assms[OF b]], simp, simp)
    subgoal for h1 h2 h3 h4
      by (rule yields_gret, rule exI[of _ "[h1, h2, h3, h4]"], subst g) (simp add: with_headers_def)
    done
qed

lemma yields_key:
  "yields (setHeaderProtectionKey p) 32 (\<lambda>q. \<exists>key. length key = 32 \<and> q = p\<lparr>ob_hpk := b64_encode key\<rparr>)"
proof -
  have "yields (ReadFull 32) 32 (\<lambda>key. length key = 32)"
  proof (rule yieldsI)
    fix us :: "byte list" and k :: nat assume k: "32 \<le> k"
    have "drop 32 (us @ replicate k 0) = drop 32 us @ replicate (k - (32 - length us)) 0" by simp
    moreover have "k \<le> 32 + (k - (32 - length us))" by simp
    ultimately show "\<exists>x vs j. ReadFull 32 (us @ replicate k 0) = Inr (x, vs @ replicate j 0) \<and> k \<le> 32 + j"
      using k by (force simp: ReadFull_def)
  qed (auto simp: ReadFull_def split: if_splits)
  then show ?thesis
    unfolding setHeaderProtectionKey_def by (rule yields_gbind) (auto intro!: yields_gret)
qed

lemma banded_headers_ok:
  assumes "list_all2 H generatedHeaderBands hs" "\<And>b h. H b h \<Longrightarrow> in_band h b"
  shows "headers_ok hs"
proof -
  from assms(1) obtain h1 h2 h3 h4 where hs: "hs = [h1, h2, h3, h4]"
    by (auto simp: generatedHeaderBands_def list_all2_Cons1)
  have "in_band h1 (generatedHeaderBands ! 0)" "in_band h2 (generatedHeaderBands ! 1)"
    "in_band h3 (generatedHeaderBands ! 2)" "in_band h4 (generatedHeaderBands ! 3)"
    using assms by (auto simp: generatedHeaderBands_def hs)
  then have l: "5 \<le> r_low h1" "r_high h1 \<le> 536870911" "536870912 \<le> r_low h2" "r_high h2 \<le> 1073741823"
    "1073741824 \<le> r_low h3" "r_high h3 \<le> 1610612735" "1610612736 \<le> r_low h4" "r_high h4 \<le> 2147483647"
    by (simp_all add: generatedHeaderBands_def in_band_def)
  have nz: "\<not> range_is_zero h" if "c \<le> r_low h" "0 < c" for h :: u32range and c
    using that by (auto simp: range_is_zero_def)
  have no: "\<not> range_overlaps h k" if "r_high h \<le> a" "a < b" "b \<le> r_low k" for h k :: u32range and a b
    using that by (auto simp: range_overlaps_def)
  show ?thesis
    by (simp add: hs nz[OF l(1)] nz[OF l(3)] nz[OF l(5)] nz[OF l(7)]
        no[OF l(2) _ l(3)] no[OF l(2) _ l(5)] no[OF l(2) _ l(7)]
        no[OF l(4) _ l(5)] no[OF l(4) _ l(7)] no[OF l(6) _ l(7)])
qed

section \<open>Every policy yields a profile it accepts\<close>

definition rng :: "16 word \<times> 16 word \<Rightarrow> u16range" where
  "rng b = \<lparr>r_low = fst b, r_high = snd b\<rparr>"

definition with_ranges :: "operational_values \<Rightarrow> obfuscation \<Rightarrow> obfuscation" where
  "with_ranges v p = p\<lparr>ob_padding := rng (ov_padding v), ob_rekey_after := rng (ov_rekey_after v),
     ob_rekey_timeout := rng (ov_rekey_timeout v), ob_reject_after := rng (ov_reject_after v),
     ob_keepalive := rng (ov_keepalive v), ob_max_handshake := rng (ov_max_handshake v)\<rparr>"

definition ordered_ranges :: "operational_values \<Rightarrow> bool" where
  "ordered_ranges v \<longleftrightarrow> list_all (\<lambda>b. fst b \<le> snd b) [ov_padding v, ov_rekey_after v, ov_rekey_timeout v,
     ov_reject_after v, ov_keepalive v, ov_max_handshake v]"

lemma fixed_ranges_ok: "ordered_ranges v \<Longrightarrow> fixed_ranges v p = Inr (with_ranges v p)"
  by (simp add: ordered_ranges_def fixed_ranges_def with_ranges_def NewU16Range_def new_range_def rng_def
      case_prod_beta not_less[symmetric])

lemma key_facts:
  "length key = 32 \<Longrightarrow> ValidateEncodedKey (b64_encode key) = Inr () \<and> b64_encode key \<noteq> []"
  using length_b64_encode[of key] by (auto simp: ValidateEncodedKey_def b64_decode_encode)

definition span_fits :: "32 word \<Rightarrow> bool" where
  "span_fits span \<longleftrightarrow> 1 \<le> span \<and> list_all (\<lambda>b. span \<le> hb_high b \<and> hb_low b \<le> hb_high b - span) generatedHeaderBands"

lemma yields_ranged: "span_fits span \<Longrightarrow> b \<in> set generatedHeaderBands \<Longrightarrow> yields (ranged_header span b) 16 (ranged_ok span b)"
  by (auto simp: span_fits_def list_all_iff intro: yields_ranged_header)

lemma yields_scalar: "b \<in> set generatedHeaderBands \<Longrightarrow> yields (scalar_header b) 16 (scalar_ok b)"
  by (rule yields_scalar_header) (auto simp: generatedHeaderBands_def)

definition op_header_ok :: "operational_values \<Rightarrow> header_band \<Rightarrow> u32range \<Rightarrow> bool" where
  "op_header_ok v b h \<longleftrightarrow> (if ov_header_span v = 0 then scalar_ok b h else ranged_ok (ov_header_span v) b h)"

definition sealed :: "operational_values \<Rightarrow> obfuscation \<Rightarrow> u32range list \<Rightarrow> byte list \<Rightarrow> obfuscation" where
  "sealed v p hs key = (with_ranges v (with_headers p hs))\<lparr>ob_hpk := b64_encode key\<rparr>"

lemma yields_seal:
  assumes "ordered_ranges v"
  shows "yields (gbind (glift (fixed_ranges v (with_headers p hs))) setHeaderProtectionKey) 32
    (\<lambda>q. \<exists>key. length key = 32 \<and> q = sealed v p hs key)"
  by (rule yields_gbind[OF yields_glift[OF fixed_ranges_ok[OF assms], where P = "\<lambda>q. q = with_ranges v (with_headers p hs)" and n = 0]])
    (simp_all add: sealed_def yields_key)

lemma yields_operational:
  assumes "ordered_ranges v" "ov_header_span v \<noteq> 0 \<longrightarrow> span_fits (ov_header_span v)"
  shows "yields (operational v) 96 (\<lambda>q. \<exists>hs key. length key = 32 \<and> list_all2 (op_header_ok v) generatedHeaderBands hs
    \<and> q = sealed v (operational_base v) hs key)"
proof -
  have "yields (if ov_header_span v = 0 then scalar_header b else ranged_header (ov_header_span v) b) 16 (op_header_ok v b)"
    if "b \<in> set generatedHeaderBands" for b
    using yields_scalar[OF that] yields_ranged[OF _ that] assms(2) by (cases "ov_header_span v = 0") (simp_all add: op_header_ok_def[abs_def])
  note h = yields_draw_headers[OF this, simplified]
  show ?thesis
    unfolding operational_def
    by (rule yields_gbind[OF h]) (auto intro: yields_weaken[OF yields_seal[OF assms(1)]])
qed

lemma headers_of [simp]: "profile_headers (with_headers p hs) = [hs ! 0, hs ! 1, hs ! 2, hs ! 3]"
  by (simp add: profile_headers_def with_headers_def)

lemma banded_nth:
  assumes "list_all2 H generatedHeaderBands hs"
  shows "hs = [hs ! 0, hs ! 1, hs ! 2, hs ! 3]"
  using assms by (auto simp: generatedHeaderBands_def list_all2_Cons1)

lemma op_header_in_band: "op_header_ok v b h \<Longrightarrow> in_band h b"
  by (auto simp: op_header_ok_def scalar_ok_def ranged_ok_def split: if_splits)

lemma sealed_headers_ok:
  assumes "list_all2 (op_header_ok v) generatedHeaderBands hs"
  shows "headers_ok [hs ! 0, hs ! 1, hs ! 2, hs ! 3]"
  using banded_headers_ok[OF assms op_header_in_band] banded_nth[OF assms] by simp

lemma sealed_headers_match:
  assumes "list_all2 (op_header_ok v) generatedHeaderBands hs"
  shows "generatedHeadersMatch (sealed v p hs key) (ov_header_span v \<noteq> 0) (ov_header_span v)"
proof -
  have "list_all2 (\<lambda>h band. op_header_ok v band h) hs generatedHeaderBands"
    using assms by (simp add: list_all2_conv_all_nth)
  moreover have "profile_headers (sealed v p hs key) = hs"
    using banded_nth[OF assms] by (simp add: profile_headers_def sealed_def with_ranges_def with_headers_def)
  ultimately show ?thesis
    unfolding generatedHeadersMatch_def
    by (auto elim!: list_all2_mono simp: op_header_ok_def scalar_ok_def ranged_ok_def split: if_splits)
qed

lemmas profile_simps =
  ValidateGeneratedProfile_def ValidateObfuscation_def ValidateConfigText_def config_text_ok_def
  validateOperationalGeneratedProfile_def operational_fields_ok_def operational_matches_def no_signatures_def
  sealed_def with_ranges_def with_headers_def operational_base_def plain_obf_def
  JcMax_def JmaxMax_def S1Max_def S2Max_def baseline_def exactRanges_def rng_def range_is_zero_def show_range_def

lemma show_small: "n < 10 \<Longrightarrow> show_nat n = [digit n]"
  by (subst show_nat.simps) simp

lemma show_step: "10 \<le> n \<Longrightarrow> show_nat n = show_nat (n div 10) @ [digit (n mod 10)]"
  by (subst show_nat.simps) simp

lemma digit_literals:
  "digit 0 = CHR ''0''" "digit (Suc 0) = CHR ''1''" "digit 1 = CHR ''1''" "digit 2 = CHR ''2''" "digit 3 = CHR ''3''" "digit 4 = CHR ''4''"
  "digit 5 = CHR ''5''" "digit 6 = CHR ''6''" "digit 7 = CHR ''7''" "digit 8 = CHR ''8''" "digit 9 = CHR ''9''"
  by (simp_all add: digit_def char_of_def bit_0)

lemmas show_literals = show_small show_step digit_literals

text \<open>The bounds of every range in order: what the constructors of the two range types guarantee.\<close>

definition ob_ordered :: "obfuscation \<Rightarrow> bool" where
  "ob_ordered ob \<longleftrightarrow> list_all (\<lambda>h. r_low h \<le> r_high h) (profile_headers ob)
     \<and> list_all (\<lambda>r. r_low r \<le> r_high r) [ob_padding ob, ob_rekey_after ob, ob_rekey_timeout ob, ob_reject_after ob,
          ob_keepalive ob, ob_max_handshake ob]"

definition accepted :: "profile_policy \<Rightarrow> obfuscation \<Rightarrow> bool" where
  "accepted policy p \<longleftrightarrow> ValidateGeneratedProfile policy p = Inr () \<and> ob_ordered p"

lemma op_header_ordered: "op_header_ok v b h \<Longrightarrow> r_low h \<le> r_high h"
  by (auto simp: op_header_ok_def scalar_ok_def ranged_ok_def split: if_splits)

lemma banded_ordered:
  assumes "list_all2 H generatedHeaderBands hs" "\<And>b h. H b h \<Longrightarrow> r_low h \<le> r_high h"
  shows "list_all (\<lambda>h. r_low h \<le> r_high h) [hs ! 0, hs ! 1, hs ! 2, hs ! 3]"
  using assms unfolding banded_nth[OF assms(1), symmetric] by (auto simp: list_all_length list_all2_conv_all_nth)

lemma sealed_ordered:
  assumes "list_all2 (op_header_ok v) generatedHeaderBands hs" "ordered_ranges v"
  shows "ob_ordered (sealed v p hs key)"
  using banded_ordered[OF assms(1) op_header_ordered] assms(2)
  by (simp add: ob_ordered_def sealed_def with_ranges_def with_headers_def profile_headers_def ordered_ranges_def rng_def)

lemma performance_valid:
  assumes hs: "list_all2 (op_header_ok performance_values) generatedHeaderBands hs" and key: "length key = 32"
  shows "ValidateGeneratedProfile ProfilePerformance (sealed performance_values (operational_base performance_values) hs key) = Inr ()"
  using sealed_headers_ok[OF hs] key_facts[OF key] sealed_headers_match[OF hs, of "operational_base performance_values" key]
  by (simp add: profile_simps performance_values_def show_literals)

lemma balanced_valid:
  assumes hs: "list_all2 (op_header_ok balanced_values) generatedHeaderBands hs" and key: "length key = 32"
  shows "ValidateGeneratedProfile ProfileBalanced (sealed balanced_values (operational_base balanced_values) hs key) = Inr ()"
  using sealed_headers_ok[OF hs] key_facts[OF key] sealed_headers_match[OF hs, of "operational_base balanced_values" key]
  by (simp add: profile_simps balanced_values_def show_literals)

lemma resilient_valid:
  assumes hs: "list_all2 (op_header_ok resilient_values) generatedHeaderBands hs" and key: "length key = 32"
  shows "ValidateGeneratedProfile ProfileResilient (sealed resilient_values (operational_base resilient_values) hs key) = Inr ()"
  using sealed_headers_ok[OF hs] key_facts[OF key] sealed_headers_match[OF hs, of "operational_base resilient_values" key]
  by (simp add: profile_simps resilient_values_def randomizedHeaderMaxSpan_def show_literals)

lemma suggested_valid:
  assumes key: "length key = 32"
  shows "ValidateGeneratedProfile ProfileSuggested (sealed suggested_values (operational_base suggested_values)
    [ScalarU32 1, ScalarU32 2, ScalarU32 3, ScalarU32 4] key) = Inr ()"
  using key_facts[OF key]
  by (simp add: profile_simps suggested_values_def show_literals profile_headers_def ScalarU32_def scalar_def range_overlaps_def word_le_def)

lemma recommended_valid:
  assumes hs: "list_all2 scalar_ok generatedHeaderBands hs"
  shows "ValidateGeneratedProfile ProfileRecommended (with_headers recommended_base hs) = Inr ()"
proof -
  have hs': "list_all2 (op_header_ok performance_values) generatedHeaderBands hs"
    using hs by (auto elim!: list_all2_mono simp: op_header_ok_def performance_values_def)
  have "generatedHeadersMatch (with_headers recommended_base hs) False 0"
    using sealed_headers_match[OF hs', of undefined undefined]
    by (simp add: generatedHeadersMatch_def profile_headers_def sealed_def with_ranges_def with_headers_def performance_values_def)
  with sealed_headers_ok[OF hs'] show ?thesis
    by (simp add: profile_simps recommended_base_def hasAdvancedGeneratedFields_def range_zero_def scalar_def)
qed

lemma randomized_valid:
  assumes "4 \<le> jc" "jc \<le> 12" "20 \<le> jmin" "jmin \<le> 60" "80 \<le> jmax" "jmax \<le> 240"
    "12 \<le> s1" "s1 \<le> 256" "12 \<le> s2" "s2 \<le> 256" "s2 \<noteq> s1 + 56" "12 \<le> s3" "s3 \<le> 64" "12 \<le> s4" "s4 \<le> 64"
    and hs: "list_all2 (ranged_ok randomizedHeaderMaxSpan) generatedHeaderBands hs" and key: "length key = 32"
    and shapes: "validGeneratedRangeShape a 10 30 10 60" "validGeneratedRangeShape b 90 120 10 20"
      "validGeneratedRangeShape c 3 7 1 5"
      "validGeneratedRangeShape d (uint (r_high b) + 20) (uint (r_high b) + 20 + 30) 20 60"
      "validGeneratedRangeShape e 5 12 2 8" "validGeneratedRangeShape f 15 25 5 20"
  shows "ValidateGeneratedProfile ProfileRandomized ((with_headers (plain_obf\<lparr>ob_enabled := True, ob_jc := jc, ob_jmin := jmin,
      ob_jmax := jmax, ob_s1 := s1, ob_s2 := s2, ob_s3 := s3, ob_s4 := s4, ob_trailers := True, ob_no_cookies := True\<rparr>) hs)
     \<lparr>ob_hpk := b64_encode key, ob_padding := a, ob_rekey_after := b, ob_rekey_timeout := c, ob_reject_after := d,
      ob_keepalive := e, ob_max_handshake := f\<rparr>) = Inr ()"
proof -
  have in_b: "ranged_ok randomizedHeaderMaxSpan b h \<Longrightarrow> in_band h b" for b h by (simp add: ranged_ok_def)
  have hok: "headers_ok [hs ! 0, hs ! 1, hs ! 2, hs ! 3]"
    using banded_headers_ok[OF hs in_b] banded_nth[OF hs] by simp
  have m: "list_all2 (\<lambda>h band. r_low h < r_high h \<and> in_band h band \<and> r_high h - r_low h \<le> randomizedHeaderMaxSpan)
      [hs ! 0, hs ! 1, hs ! 2, hs ! 3] generatedHeaderBands"
    using hs unfolding banded_nth[OF hs, symmetric] by (auto simp: list_all2_conv_all_nth ranged_ok_def)
  from hok m key_facts[OF key] assms show ?thesis
    by (simp add: profile_simps randomized_matches_def profile_headers_def Let_def)
qed

definition random_ranges_ok :: "obfuscation \<Rightarrow> obfuscation \<Rightarrow> bool" where
  "random_ranges_ok p q \<longleftrightarrow> (\<exists>a b c d e f.
     q = p\<lparr>ob_padding := a, ob_rekey_after := b, ob_rekey_timeout := c, ob_reject_after := d, ob_keepalive := e, ob_max_handshake := f\<rparr>
     \<and> validGeneratedRangeShape a 10 30 10 60 \<and> validGeneratedRangeShape b 90 120 10 20
     \<and> validGeneratedRangeShape c 3 7 1 5
     \<and> validGeneratedRangeShape d (uint (r_high b) + 20) (uint (r_high b) + 20 + 30) 20 60
     \<and> validGeneratedRangeShape e 5 12 2 8 \<and> validGeneratedRangeShape f 15 25 5 20)"

lemma yields_randomized_ranges: "yields (randomized_ranges p) 96 (random_ranges_ok p)"
  unfolding randomized_ranges_def Let_def
  apply (rule yields_gbind, rule yields_u16Range; simp?)+
  apply (rule yields_gret)
  subgoal for a b c d e f
    unfolding random_ranges_ok_def
    by (rule exI[of _ a], rule exI[of _ b], rule exI[of _ c], rule exI[of _ d], rule exI[of _ e], rule exI[of _ f]) simp
  done

lemma span_fits_random: "span_fits randomizedHeaderMaxSpan"
  by (simp add: span_fits_def randomizedHeaderMaxSpan_def generatedHeaderBands_def word_le_def)

lemma shape_ordered: "validGeneratedRangeShape r lo hi s1 s2 \<Longrightarrow> r_low r \<le> r_high r"
  by (auto simp: validGeneratedRangeShape_def)

lemma randomized_ordered:
  assumes "list_all2 (ranged_ok span) generatedHeaderBands hs" "random_ranges_ok ((with_headers p hs)\<lparr>ob_hpk := key\<rparr>) q"
  shows "ob_ordered q"
proof -
  have "list_all (\<lambda>h. r_low h \<le> r_high h) [hs ! 0, hs ! 1, hs ! 2, hs ! 3]"
    by (rule banded_ordered[OF assms(1)]) (auto simp: ranged_ok_def)
  with assms(2) show ?thesis
    by (auto simp: random_ranges_ok_def ob_ordered_def profile_headers_def with_headers_def dest: shape_ordered)
qed

lemma yields_randomized: "yields randomized 248 (accepted ProfileRandomized)"
  unfolding randomized_def
  apply (rule yields_gbind, rule yields_intInclusive; simp?)
  apply (rule yields_gbind, rule yields_intInclusive; simp?)
  apply (rule yields_gbind, rule yields_intInclusive; simp?)
  apply (rule yields_gbind, rule yields_intInclusive; simp?)
  apply (rule yields_gbind, rule yields_intInclusiveExcept; simp?)
  apply (rule yields_gbind, rule yields_intInclusive; simp?)
  apply (rule yields_gbind, rule yields_intInclusive; simp?)
  apply (rule yields_gbind, rule yields_draw_headers, erule yields_ranged[OF span_fits_random]; simp?)
  apply (rule yields_gbind, rule yields_key; simp?)
  apply (rule yields_weaken[OF yields_randomized_ranges], simp)
  subgoal for jc jmin jmax s1 s2 s3 s4 p q
    unfolding accepted_def
    apply (rule conjI)
    subgoal using randomized_valid[of jc jmin jmax s1 s2 s3 s4] by (auto simp: random_ranges_ok_def)
    subgoal by (elim exE conjE, hypsubst, rule randomized_ordered, assumption, assumption)
    done
  done

lemma ordered_values [simp]:
  "ordered_ranges performance_values" "ordered_ranges balanced_values" "ordered_ranges resilient_values"
  "ordered_ranges suggested_values"
  by (simp_all add: ordered_ranges_def performance_values_def balanced_values_def resilient_values_def
      suggested_values_def word_le_def)

lemma spans_fit:
  "ov_header_span performance_values = 0" "span_fits (ov_header_span balanced_values)"
  "span_fits (ov_header_span resilient_values)"
  using span_fits_random
  by (simp_all add: performance_values_def balanced_values_def resilient_values_def span_fits_def
      generatedHeaderBands_def word_le_def)

lemma yields_performance: "yields performance 248 (accepted ProfilePerformance)"
  unfolding performance_def
  by (rule yields_weaken[OF yields_operational]) (auto simp: performance_valid accepted_def spans_fit intro: sealed_ordered)

lemma yields_balanced: "yields balanced 248 (accepted ProfileBalanced)"
  unfolding balanced_def
  by (rule yields_weaken[OF yields_operational]) (auto simp: balanced_valid accepted_def spans_fit intro: sealed_ordered)

lemma yields_resilient: "yields resilient 248 (accepted ProfileResilient)"
  unfolding resilient_def
  by (rule yields_weaken[OF yields_operational]) (auto simp: resilient_valid accepted_def spans_fit intro: sealed_ordered)

lemma suggested_ordered:
  "ob_ordered (sealed suggested_values p [ScalarU32 1, ScalarU32 2, ScalarU32 3, ScalarU32 4] key)"
  using ordered_values(4)
  by (simp add: ob_ordered_def sealed_def with_ranges_def with_headers_def profile_headers_def ordered_ranges_def rng_def
      ScalarU32_def scalar_def)

lemma yields_suggested: "yields suggested 248 (accepted ProfileSuggested)"
proof -
  from yields_seal[of suggested_values "operational_base suggested_values" "[ScalarU32 1, ScalarU32 2, ScalarU32 3, ScalarU32 4]"]
  have "yields suggested 32 (\<lambda>q. \<exists>key. length key = 32 \<and> q = sealed suggested_values (operational_base suggested_values)
    [ScalarU32 1, ScalarU32 2, ScalarU32 3, ScalarU32 4] key)"
    by (simp add: suggested_def with_headers_def)
  then show ?thesis by (rule yields_weaken) (auto simp: suggested_valid accepted_def suggested_ordered)
qed

lemma recommended_ordered: "list_all2 scalar_ok generatedHeaderBands hs \<Longrightarrow> ob_ordered (with_headers recommended_base hs)"
  using banded_ordered[of scalar_ok hs]
  by (simp add: ob_ordered_def scalar_ok_def profile_headers_def with_headers_def recommended_base_def plain_obf_def
      range_zero_def scalar_def)

lemma yields_recommended: "yields recommended 248 (accepted ProfileRecommended)"
  unfolding recommended_def
  by (rule yields_weaken[OF yields_draw_headers[OF yields_scalar]]) (auto simp: recommended_valid accepted_def recommended_ordered)

lemma yields_generated:
  assumes "yields draw n (accepted policy)"
  shows "yields (generate_with policy draw) n (accepted policy)"
  unfolding generate_with_def
  by (rule yields_gbind[OF assms]) (auto intro!: yields_glift simp: validatedGenerated_def accepted_def)

lemma yields_Generate:
  "IsGeneratedProfilePolicy policy \<Longrightarrow> yields (Generate policy) 248 (accepted policy)"
  by (auto simp: IsGeneratedProfilePolicy_def Generate_def
      intro: yields_generated[OF yields_recommended] yields_generated[OF yields_performance]
        yields_generated[OF yields_balanced] yields_generated[OF yields_resilient]
        yields_generated[OF yields_suggested] yields_generated[OF yields_randomized])

lemma generated_valid: "ValidateGeneratedProfile policy p = Inr () \<Longrightarrow> ValidateObfuscation p = Inr ()"
  by (auto simp: ValidateGeneratedProfile_def tx_simps)

lemma generated_enabled:
  assumes "ValidateGeneratedProfile policy p = Inr ()" "IsGeneratedProfilePolicy policy"
  shows "ob_enabled p"
proof (rule ccontr)
  assume "\<not> ob_enabled p"
  with generated_valid[OF assms(1)] have "p = plain_obf"
    using params_unset_iff[of p] by (auto simp: ValidateObfuscation_def split: if_splits)
  moreover have "baseline plain_obf = [0, 0, 0, 0, 0]" "\<not> operational_fields_ok plain_obf" "\<not> randomized_matches plain_obf"
    by (simp_all add: plain_obf_def baseline_def operational_fields_ok_def randomized_matches_def)
  ultimately show False
    using assms by (auto simp: ValidateGeneratedProfile_def IsGeneratedProfilePolicy_def
        validateOperationalGeneratedProfile_def ebind_Inr_iff)
qed

text \<open>
  C30. Generation under a server-owned policy never trips over its own validation: whatever bytes the
  entropy source delivers, the only error is its end, and a returned profile is enabled, accepted by
  the policy and by the general validation. The rejection sampling ends: once the source
  delivers 248 zero bytes in a row, wherever they start, the profile has been returned. Excluding the
  forbidden \<open>S2\<close> value needs no retry and never hits it. The plain policy uses no entropy, and
  custom is refused.
\<close>

theorem generation_sound:
  "(IsGeneratedProfilePolicy policy \<longrightarrow>
      (case Generate policy bs of
         Inl e \<Rightarrow> e = entropy_end
       | Inr (p, _) \<Rightarrow> ob_enabled p \<and> ValidateGeneratedProfile policy p = Inr () \<and> ValidateObfuscation p = Inr ()
           \<and> ob_s1 p + 56 \<noteq> ob_s2 p)
      \<and> (\<exists>p rest. Generate policy (bs @ replicate 248 0) = Inr (p, rest)))
   \<and> Generate ProfilePlain bs = Inr (plain_obf, bs)
   \<and> Generate ProfileCustom bs = E CodeParamConstraint"
proof (intro conjI impI)
  assume g: "IsGeneratedProfilePolicy policy"
  note y = yields_Generate[OF g]
  have "ob_s1 p + 56 \<noteq> ob_s2 p" if "ValidateObfuscation p = Inr ()" "ob_enabled p" for p
    using that by (auto simp: ValidateObfuscation_def split: if_splits)
  then show "case Generate policy bs of Inl e \<Rightarrow> e = entropy_end
       | Inr (p, _) \<Rightarrow> ob_enabled p \<and> ValidateGeneratedProfile policy p = Inr () \<and> ValidateObfuscation p = Inr ()
           \<and> ob_s1 p + 56 \<noteq> ob_s2 p"
    using yields_end[OF y] yields_post[OF y] generated_enabled[OF _ g] generated_valid[of policy]
    by (auto simp: accepted_def split: sum.splits)
  show "\<exists>p rest. Generate policy (bs @ replicate 248 0) = Inr (p, rest)"
    using yields_zeros[OF y, of 248 bs] by blast
qed (simp_all add: Generate_def gret_def gfail_def)

theorem generation_sound_witness:
  "\<exists>p rest. Generate ProfileRandomized (replicate 248 0) = Inr (p, rest)
     \<and> ob_enabled p \<and> ValidateObfuscation p = Inr ()"
proof -
  have g: "IsGeneratedProfilePolicy ProfileRandomized" by (simp add: IsGeneratedProfilePolicy_def)
  obtain p rest where r: "Generate ProfileRandomized ([] @ replicate 248 0) = Inr (p, rest)"
    using generation_sound[of ProfileRandomized "[]"] g by blast
  with generation_sound[of ProfileRandomized "[] @ replicate 248 0"] g show ?thesis by auto
qed

end
