(* ===== verification/Endpoints.thy ===== *)
theory Endpoints
  imports Ipam
begin

text \<open>
  The endpoint and subnet checks shared by the settings and the interface service
  (\<open>src/internal/settings/defaults.go\<close>), over the parsers of the standard library they call:
  \<open>netip.ParseAddr\<close> for both address families, \<open>net.SplitHostPort\<close> and \<open>strings.TrimSpace\<close> on
  UTF-8 text.
\<close>

section \<open>Text\<close>

text \<open>The UTF-8 encodings of the white space \<open>unicode.IsSpace\<close> knows.\<close>

definition space_texts :: "string list" where
  "space_texts = [
    [CHR 0x09], [CHR 0x0A], [CHR 0x0B], [CHR 0x0C], [CHR 0x0D], [CHR 0x20], [CHR 0xC2, CHR 0x85],
    [CHR 0xC2, CHR 0xA0], [CHR 0xE1, CHR 0x9A, CHR 0x80], [CHR 0xE2, CHR 0x80, CHR 0x80],
    [CHR 0xE2, CHR 0x80, CHR 0x81], [CHR 0xE2, CHR 0x80, CHR 0x82], [CHR 0xE2, CHR 0x80, CHR 0x83],
    [CHR 0xE2, CHR 0x80, CHR 0x84], [CHR 0xE2, CHR 0x80, CHR 0x85], [CHR 0xE2, CHR 0x80, CHR 0x86],
    [CHR 0xE2, CHR 0x80, CHR 0x87], [CHR 0xE2, CHR 0x80, CHR 0x88], [CHR 0xE2, CHR 0x80, CHR 0x89],
    [CHR 0xE2, CHR 0x80, CHR 0x8A], [CHR 0xE2, CHR 0x80, CHR 0xA8], [CHR 0xE2, CHR 0x80, CHR 0xA9],
    [CHR 0xE2, CHR 0x80, CHR 0xAF], [CHR 0xE2, CHR 0x81, CHR 0x9F], [CHR 0xE3, CHR 0x80, CHR 0x80]]"

text \<open>\<open>strings.TrimSpace(s) == s\<close>: no white space at either end.\<close>

definition trimmed :: "string \<Rightarrow> bool" where
  "trimmed s \<longleftrightarrow> \<not> list_ex (\<lambda>w. take (length w) s = w \<or> drop (length s - length w) s = w) space_texts"

definition index_of :: "char \<Rightarrow> string \<Rightarrow> nat option" where
  "index_of c s = (if c \<in> set s then Some (length (takeWhile (\<lambda>x. x \<noteq> c) s)) else None)"

definition last_index_of :: "char \<Rightarrow> string \<Rightarrow> nat option" where
  "last_index_of c s = map_option (\<lambda>i. length s - 1 - i) (index_of c (rev s))"

section \<open>IPv6 addresses\<close>

definition hex_val :: "char \<Rightarrow> nat option" where
  "hex_val c = (case digit_in c of Some d \<Rightarrow> if d < 16 then Some d else None | None \<Rightarrow> None)"

text \<open>
  One group of up to four hexadecimal digits (four digits stay below 65536); \<open>None\<close> when there
  is none or a fifth digit follows. The rest of the text is returned.
\<close>

definition hex_group :: "string \<Rightarrow> string option" where
  "hex_group s =
     (let n = length (takeWhile (\<lambda>c. hex_val c \<noteq> None) s)
      in if n = 0 \<or> 4 < n then None else Some (drop n s))"

text \<open>
  The loop of \<open>parseIPv6\<close>: \<open>i\<close> counts the bytes filled, \<open>ell\<close> says whether an ellipsis was seen. The
  result is the number of bytes filled and the ellipsis flag once the text is used up.
\<close>

function ipv6_groups :: "nat \<Rightarrow> bool \<Rightarrow> string \<Rightarrow> (nat \<times> bool) option" where
  "ipv6_groups i ell s =
     (if 16 \<le> i then (if s = [] then Some (i, ell) else None)
      else case hex_group s of
        None \<Rightarrow> None
      | Some r \<Rightarrow>
          (case r of
             [] \<Rightarrow> Some (i + 2, ell)
           | c # r1 \<Rightarrow>
               if c = CHR ''.'' then
                 (if \<not> ell \<and> i \<noteq> 12 \<or> 16 < i + 4 \<or> parse_addr s = None then None else Some (i + 4, ell))
               else if c \<noteq> CHR '':'' then None
               else (case r1 of
                  [] \<Rightarrow> None
                | d # r2 \<Rightarrow>
                    if d = CHR '':'' then
                      (if ell then None else if r2 = [] then Some (i + 2, True) else ipv6_groups (i + 2) True r2)
                    else ipv6_groups (i + 2) ell r1)))"
  by pat_completeness auto
termination by (relation "measure (\<lambda>(i, _, _). 16 - i)") auto

declare ipv6_groups.simps [simp del]

definition ipv6_body :: "string \<Rightarrow> bool" where
  "ipv6_body s =
     (case s of
        a # b # r \<Rightarrow>
          if a = CHR '':'' \<and> b = CHR '':'' then
            r = [] \<or> (case ipv6_groups 0 True r of None \<Rightarrow> False | Some (i, ell) \<Rightarrow> i < 16)
          else (case ipv6_groups 0 False s of None \<Rightarrow> False | Some (i, ell) \<Rightarrow> (i < 16) = ell)
      | _ \<Rightarrow> (case ipv6_groups 0 False s of None \<Rightarrow> False | Some (i, ell) \<Rightarrow> (i < 16) = ell))"

definition parse_ipv6 :: "string \<Rightarrow> bool" where
  "parse_ipv6 s =
     (case index_of CHR ''%'' s of
        None \<Rightarrow> ipv6_body s
      | Some i \<Rightarrow> drop (Suc i) s \<noteq> [] \<and> ipv6_body (take i s))"

datatype ip_family = IPv4 | IPv6

fun ParseAddr_from :: "string \<Rightarrow> string \<Rightarrow> ip_family option" where
  "ParseAddr_from whole [] = None"
| "ParseAddr_from whole (c # cs) =
     (if c = CHR ''.'' then (if parse_addr whole = None then None else Some IPv4)
      else if c = CHR '':'' then (if parse_ipv6 whole then Some IPv6 else None)
      else if c = CHR ''%'' then None
      else ParseAddr_from whole cs)"

definition ParseAddr :: "string \<Rightarrow> ip_family option" where
  "ParseAddr s = ParseAddr_from s s"

section \<open>Host and port\<close>

definition SplitHostPort :: "string \<Rightarrow> (string \<times> string) option" where
  "SplitHostPort s =
     (case last_index_of CHR '':'' s of
        None \<Rightarrow> None
      | Some i \<Rightarrow>
          if hd s = CHR ''['' then
            (case index_of CHR '']'' s of
               None \<Rightarrow> None
             | Some e \<Rightarrow>
                 if e + 1 \<noteq> i then None
                 else if CHR ''['' \<in> set (drop 1 s) \<or> CHR '']'' \<in> set (drop (e + 1) s) then None
                 else Some (take (e - 1) (drop 1 s), drop (i + 1) s))
          else if CHR '':'' \<in> set (take i s) \<or> CHR ''['' \<in> set s \<or> CHR '']'' \<in> set s then None
          else Some (take i s, drop (i + 1) s))"

definition label_char :: "char \<Rightarrow> bool" where
  "label_char c \<longleftrightarrow> (let n = of_char c :: nat in
     97 \<le> n \<and> n \<le> 122 \<or> 65 \<le> n \<and> n \<le> 90 \<or> 48 \<le> n \<and> n \<le> 57 \<or> c = CHR ''-'')"

definition valid_label :: "string \<Rightarrow> bool" where
  "valid_label l \<longleftrightarrow> l \<noteq> [] \<and> length l \<le> 63 \<and> list_all label_char l
     \<and> hd l \<noteq> CHR ''-'' \<and> last l \<noteq> CHR ''-''"

definition trim_dot :: "string \<Rightarrow> string" where
  "trim_dot s = (if s \<noteq> [] \<and> last s = CHR ''.'' then butlast s else s)"

definition validHostname :: "string \<Rightarrow> bool" where
  "validHostname s \<longleftrightarrow> s \<noteq> [] \<and> length s \<le> 253 \<and> list_all valid_label (split_on CHR ''.'' (trim_dot s))"

definition valid_port :: "string \<Rightarrow> bool" where
  "valid_port t \<longleftrightarrow> t = [] \<or> (case parse_dec t of None \<Rightarrow> False | Some p \<Rightarrow> 1 \<le> p \<and> p \<le> 65535)"

definition endpoint_host :: "bool \<Rightarrow> string \<Rightarrow> bool" where
  "endpoint_host bracketed host =
     (case ParseAddr host of
        None \<Rightarrow> validHostname host
      | Some fam \<Rightarrow> \<not> bracketed \<or> fam = IPv6)"

definition ValidEndpoint :: "string \<Rightarrow> bool" where
  "ValidEndpoint s =
     (if s = [] then True
      else if \<not> trimmed s \<or> list_ex (\<lambda>c. c \<in> set s) [CHR 0x00, CHR 0x0D, CHR 0x0A, CHR 0x09] then False
      else let bracketed = (hd s = CHR ''['') in
        if bracketed \<and> last s = CHR '']'' then ParseAddr (butlast (tl s)) = Some IPv6
        else if bracketed \<or> count_list s CHR '':'' = 1 then
          (case SplitHostPort s of
             None \<Rightarrow> False
           | Some (host, portText) \<Rightarrow>
               host \<noteq> [] \<and> portText \<noteq> [] \<and> (bracketed \<longrightarrow> ParseAddr host = Some IPv6)
               \<and> endpoint_host bracketed host \<and> valid_port portText)
        else if CHR '':'' \<in> set s then ParseAddr s \<noteq> None
        else endpoint_host bracketed s)"

definition ValidSubnet :: "string \<Rightarrow> unit result" where
  "ValidSubnet s =
     (case parse_prefix s of
        None \<Rightarrow> Inl (Foreign ''is not a valid CIDR'')
      | Some p \<Rightarrow>
          if p \<noteq> masked p then Inl (Foreign ''has host bits set'')
          else ebind (Parse s) (\<lambda>_. Inr ()))"

section \<open>What an accepted endpoint contains\<close>

definition endpoint_char :: "char \<Rightarrow> bool" where
  "endpoint_char c \<longleftrightarrow> label_char c \<or> c \<in> {CHR ''.'', CHR '':'', CHR ''['', CHR '']''}"

lemma endpoint_chars [simp]:
  "endpoint_char CHR ''.''" "endpoint_char CHR '':''" "endpoint_char CHR ''[''" "endpoint_char CHR '']''"
  "is_digit c \<Longrightarrow> endpoint_char c" "label_char c \<Longrightarrow> endpoint_char c"
  by (auto simp: endpoint_char_def label_char_def is_digit_def)

lemma hex_endpoint_char: "hex_val c \<noteq> None \<Longrightarrow> endpoint_char c"
  by (auto simp: hex_val_def digit_in_def lower_def Let_def endpoint_char_def label_char_def is_digit_def
      split: option.splits if_splits)

lemma split_on_chars: "x \<in> set s \<Longrightarrow> x = c \<or> (\<exists>w \<in> set (split_on c s). x \<in> set w)"
  by (induction s) (auto split: list.splits)

lemma parse_dec_digits: "parse_dec s = Some n \<Longrightarrow> c \<in> set s \<Longrightarrow> is_digit c"
proof -
  have "dec_val acc s = Some n \<Longrightarrow> c \<in> set s \<Longrightarrow> is_digit c" for acc
    by (induction s arbitrary: acc) (auto split: if_splits)
  then show "parse_dec s = Some n \<Longrightarrow> c \<in> set s \<Longrightarrow> is_digit c"
    by (auto simp: parse_dec_def split: if_splits)
qed

lemma parse_addr_chars:
  assumes "parse_addr s = Some a" "c \<in> set s"
  shows "endpoint_char c"
proof -
  have all: "None \<notin> set L" if "(case L of [Some a, Some b, Some c, Some d] \<Rightarrow> Some (addr_of a b c d) | _ \<Rightarrow> None) = Some a" for L
    using that by (auto split: list.splits option.splits)
  have "is_digit c" if "t \<in> set (split_on CHR ''.'' s)" "c \<in> set t" for t
  proof -
    have "parse_field 255 t \<noteq> None"
      using all[OF assms(1)[unfolded parse_addr_def]] that(1) by (metis imageI list.set_map)
    then obtain n where "parse_dec t = Some n" by (auto simp: parse_field_def split: option.splits)
    with that(2) show ?thesis by (rule parse_dec_digits[rotated])
  qed
  with split_on_chars[OF assms(2), of "CHR ''.''"] show ?thesis by auto
qed

lemma hex_group_chars:
  assumes "hex_group s = Some r" "c \<in> set s"
  shows "endpoint_char c \<or> c \<in> set r"
proof -
  let ?n = "length (takeWhile (\<lambda>c. hex_val c \<noteq> None) s)"
  from assms(1) have r: "r = drop ?n s" by (auto simp: hex_group_def Let_def split: if_splits)
  from assms(2) have "c \<in> set (take ?n s) \<or> c \<in> set (drop ?n s)" by (metis Un_iff append_take_drop_id set_append)
  moreover have "take ?n s = takeWhile (\<lambda>c. hex_val c \<noteq> None) s" by (metis takeWhile_eq_take)
  ultimately show ?thesis using r hex_endpoint_char set_takeWhileD by metis
qed

lemma ipv6_groups_chars: "ipv6_groups i ell s = Some res \<Longrightarrow> c \<in> set s \<Longrightarrow> endpoint_char c"
proof (induction i ell s rule: ipv6_groups.induct)
  case (1 i ell s)
  show ?case
  proof (cases "16 \<le> i")
    case True
    with 1 show ?thesis by (simp add: ipv6_groups.simps[of i] split: if_splits)
  next
    case False
    with 1(3) obtain r where r: "hex_group s = Some r"
      by (auto simp: ipv6_groups.simps[of i] split: option.splits)
    show ?thesis
    proof (rule ccontr)
      assume bad: "\<not> endpoint_char c"
      with hex_group_chars[OF r 1(4)] have c: "c \<in> set r" by blast
      then obtain x r1 where x: "r = x # r1" by (cases r) auto
      show False
      proof (cases "x = CHR ''.''")
        case True
        with 1(3) False r x obtain a where "parse_addr s = Some a"
          by (auto simp: ipv6_groups.simps[of i] split: if_splits)
        from parse_addr_chars[OF this 1(4)] bad show False by blast
      next
        case no_dot: False
        with 1(3) False r x have colon: "x = CHR '':''"
          by (auto simp: ipv6_groups.simps[of i] split: if_splits)
        then have c1: "c \<in> set r1" using c x bad by auto
        then obtain d r2 where d: "r1 = d # r2" by (cases r1) auto
        note res = 1(3)[unfolded ipv6_groups.simps[of i]]
        show False
        proof (cases "d = CHR '':''")
          case True
          with c1 d bad have "c \<in> set r2" by auto
          with res False r x colon d True have "ipv6_groups (i + 2) True r2 = Some res"
            by (auto split: if_splits)
          from 1(1)[OF False r x no_dot _ d True _ _ this] \<open>c \<in> set r2\<close> bad show False
            using res False r x colon d True by (auto split: if_splits)
        next
          case other: False
          with res False r x colon d have "ipv6_groups (i + 2) ell r1 = Some res" by auto
          from 1(2)[OF False r x no_dot _ d other this] c1 bad colon show False by auto
        qed
      qed
    qed
  qed
qed

lemma ParseAddr_from_chars:
  "ParseAddr_from whole s = Some fam \<Longrightarrow> (fam = IPv4 \<and> parse_addr whole \<noteq> None) \<or> (fam = IPv6 \<and> parse_ipv6 whole)"
  by (induction s) (auto split: if_splits)

lemma ipv6_body_chars: "ipv6_body s \<Longrightarrow> c \<in> set s \<Longrightarrow> endpoint_char c"
  by (auto simp: ipv6_body_def split: list.splits if_splits option.splits prod.splits dest: ipv6_groups_chars)

lemma ParseAddr_chars:
  assumes "ParseAddr s = Some fam" "CHR ''%'' \<notin> set s" "c \<in> set s"
  shows "endpoint_char c"
  using ParseAddr_from_chars[OF assms(1)[unfolded ParseAddr_def]]
proof (elim disjE conjE)
  assume "parse_addr s \<noteq> None"
  then obtain a where "parse_addr s = Some a" by blast
  from parse_addr_chars[OF this assms(3)] show ?thesis .
next
  assume "parse_ipv6 s"
  with assms(2) have "ipv6_body s" by (simp add: parse_ipv6_def index_of_def)
  from ipv6_body_chars[OF this assms(3)] show ?thesis .
qed

lemma trim_dot_chars: "c \<in> set s \<Longrightarrow> c = CHR ''.'' \<or> c \<in> set (trim_dot s)"
  by (cases s rule: rev_cases) (auto simp: trim_dot_def)

lemma validHostname_chars:
  assumes "validHostname s" "c \<in> set s"
  shows "endpoint_char c"
proof (cases "c = CHR ''.''")
  case False
  with trim_dot_chars[OF assms(2)] split_on_chars[of c "trim_dot s" "CHR ''.''"]
  obtain w where "w \<in> set (split_on CHR ''.'' (trim_dot s))" "c \<in> set w" by auto
  with assms(1) have "label_char c" by (auto simp: validHostname_def valid_label_def list_all_iff)
  then show ?thesis by simp
qed simp

lemma endpoint_host_chars:
  "endpoint_host b s \<Longrightarrow> CHR ''%'' \<notin> set s \<Longrightarrow> c \<in> set s \<Longrightarrow> endpoint_char c"
  by (auto simp: endpoint_host_def split: option.splits intro: validHostname_chars ParseAddr_chars)

lemma valid_port_chars: "valid_port s \<Longrightarrow> c \<in> set s \<Longrightarrow> endpoint_char c"
  by (auto simp: valid_port_def split: option.splits dest: parse_dec_digits)

lemma index_of_nth:
  assumes "index_of c s = Some i"
  shows "i < length s" "s ! i = c"
proof -
  from assms have c: "c \<in> set s" and i: "i = length (takeWhile (\<lambda>x. x \<noteq> c) s)"
    by (auto simp: index_of_def split: if_splits)
  have "dropWhile (\<lambda>x. x \<noteq> c) s \<noteq> []" using c by (auto simp: dropWhile_eq_Nil_conv)
  then have "0 < length (dropWhile (\<lambda>x. x \<noteq> c) s)" by simp
  then show lt: "i < length s"
    using arg_cong[OF takeWhile_dropWhile_id[of "\<lambda>x. x \<noteq> c" s], of length] i by (simp only: length_append)
  with i show "s ! i = c" using nth_length_takeWhile[of "\<lambda>x. x \<noteq> c" s] by simp
qed

lemma last_index_of_nth:
  assumes "last_index_of c s = Some i"
  shows "i < length s" "s ! i = c"
proof -
  from assms obtain j where j: "index_of c (rev s) = Some j" "i = length s - 1 - j"
    by (auto simp: last_index_of_def)
  from index_of_nth[OF j(1)] j(2) show "i < length s" "s ! i = c" by (simp_all add: rev_nth)
qed

lemma chars_around: "i < length s \<Longrightarrow> c \<in> set s \<Longrightarrow> c \<in> set (take i s) \<or> c = s ! i \<or> c \<in> set (drop (Suc i) s)"
  using id_take_nth_drop[of i s] by (metis Un_iff set_ConsD set_append)

lemma SplitHostPort_chars:
  assumes "SplitHostPort s = Some (host, port)" "c \<in> set s"
  shows "c \<in> set host \<or> c \<in> set port \<or> c \<in> {CHR '':'', CHR ''['', CHR '']''}"
proof -
  from assms(1) obtain i where i: "last_index_of CHR '':'' s = Some i"
    by (auto simp: SplitHostPort_def split: option.splits)
  note n = last_index_of_nth[OF i]
  from assms(1) i have port: "port = drop (i + 1) s"
    by (auto simp: SplitHostPort_def split: option.splits if_splits)
  have "c \<in> set host \<or> c \<in> {CHR ''['', CHR '']''}" if c: "c \<in> set (take i s)"
  proof (cases "hd s = CHR ''[''")
    case True
    with assms(1) i obtain e where e: "index_of CHR '']'' s = Some e" "e + 1 = i" "host = take (e - 1) (drop 1 s)"
      by (auto simp: SplitHostPort_def split: option.splits if_splits)
    note m = index_of_nth[OF e(1)]
    have "c \<in> set (take e s) \<or> c = CHR '']''"
      using c m e(2) by (auto simp: take_Suc_conv_app_nth simp flip: e(2))
    moreover have "set (take e s) \<subseteq> {hd s} \<union> set (take (e - 1) (drop 1 s))"
      by (cases s; cases e) auto
    ultimately show ?thesis using True e(3) by blast
  next
    case False
    with assms(1) i c show ?thesis by (auto simp: SplitHostPort_def split: option.splits if_splits)
  qed
  with chars_around[OF n(1) assms(2)] n(2) port show ?thesis by auto
qed

text \<open>
  An endpoint the settings and interface forms accept is either empty or, unless it names an
  IPv6 zone, built from letters, digits, hyphens, dots, colons and brackets only, so it can neither
  end nor extend the configuration line it is written to. A zone is copied verbatim: a text with a
  blank inside is accepted.
\<close>

theorem accepted_endpoint_chars:
  "(ValidEndpoint s \<and> CHR ''%'' \<notin> set s \<longrightarrow> list_all endpoint_char s)
   \<and> (ValidEndpoint s \<longrightarrow> CHR 0x0A \<notin> set s \<and> CHR 0x0D \<notin> set s \<and> CHR 0x09 \<notin> set s \<and> CHR 0x00 \<notin> set s)
   \<and> ValidEndpoint ''fe80::1%a b''"
proof (intro conjI impI)
  assume v: "ValidEndpoint s \<and> CHR ''%'' \<notin> set s"
  show "list_all endpoint_char s"
    unfolding list_all_iff
  proof
    fix c assume c: "c \<in> set s"
    then have ne: "s \<noteq> []" by auto
    let ?b = "hd s = CHR ''[''"
    from v ne consider
      (bare6) "?b" "last s = CHR '']''" "ParseAddr (butlast (tl s)) = Some IPv6"
    | (port) host p where "SplitHostPort s = Some (host, p)" "endpoint_host ?b host" "valid_port p"
    | (addr) fam where "ParseAddr s = Some fam"
    | (host) "endpoint_host ?b s"
      by (auto simp: ValidEndpoint_def Let_def split: if_splits option.splits prod.splits)
    then show "endpoint_char c"
    proof cases
      case bare6
      have "s = hd s # tl s" using ne by simp
      moreover have "tl s = butlast (tl s) @ [last s]" if "tl s \<noteq> []" using that by (metis append_butlast_last_id last_tl)
      ultimately have "c = CHR ''['' \<or> c = CHR '']'' \<or> c \<in> set (butlast (tl s))"
        using c bare6(1,2) by (metis Un_iff empty_iff empty_set set_ConsD set_append)
      moreover have "CHR ''%'' \<notin> set (butlast (tl s))" using v by (meson in_set_butlastD list.set_sel(2) ne)
      ultimately show ?thesis using ParseAddr_chars[OF bare6(3)] by auto
    next
      case port
      have "set host \<subseteq> set s"
        using port(1) by (auto simp: SplitHostPort_def split: option.splits if_splits dest!: in_set_takeD in_set_dropD)
      then have "CHR ''%'' \<notin> set host" using v by blast
      with SplitHostPort_chars[OF port(1) c] endpoint_host_chars[OF port(2)] valid_port_chars[OF port(3)]
      show ?thesis by auto
    next
      case addr
      then show ?thesis using v c by (blast intro: ParseAddr_chars)
    next
      case host
      then show ?thesis using v c by (blast intro: endpoint_host_chars)
    qed
  qed
next
  assume "ValidEndpoint s"
  then have "s = [] \<or> \<not> list_ex (\<lambda>c. c \<in> set s) [CHR 0x00, CHR 0x0D, CHR 0x0A, CHR 0x09]"
    by (auto simp: ValidEndpoint_def split: if_splits)
  then show "CHR 0x0A \<notin> set s" "CHR 0x0D \<notin> set s" "CHR 0x09 \<notin> set s" "CHR 0x00 \<notin> set s" by auto
next
  show "ValidEndpoint ''fe80::1%a b''" by code_simp
qed

theorem accepted_endpoint_chars_witness:
  "ValidEndpoint ''vpn.example.com'' \<and> list_all endpoint_char ''vpn.example.com''"
proof -
  have "ValidEndpoint ''vpn.example.com''" by code_simp
  moreover from this have "list_all endpoint_char ''vpn.example.com''"
    using accepted_endpoint_chars[of "''vpn.example.com''"] by simp
  ultimately show ?thesis by blast
qed

end
