(* ===== verification/Settings.thy ===== *)
theory Settings
  imports Endpoints AwgParam
begin

text \<open>
  The typed settings registry (\<open>src/internal/settings/settings.go\<close>) and its catalog
  (\<open>src/internal/settings/defaults.go\<close>): definitions with kinds, bounds and validators, the
  \<open>settings\<close> table, and the in-memory cache that a generation counter protects against reads in
  flight. The registry state holds the rows of the table, the cache and the counter.

  The JSON codec of list values and the cipher of secret values are fields of \<open>codec\<close>, arguments of
  every operation; so is \<open>net/url.Parse\<close>, used by one validator. A \<open>float64\<close> passed as \<open>any\<close> is represented by
  the integer Go converts it to.
\<close>

section \<open>Signed decimals and booleans\<close>

definition parse_int64 :: "string \<Rightarrow> int option" where
  "parse_int64 s =
     (let neg = (s \<noteq> [] \<and> hd s = CHR ''-'');
          body = (if s \<noteq> [] \<and> (hd s = CHR ''-'' \<or> hd s = CHR ''+'') then tl s else s)
      in case parse_dec body of
           None \<Rightarrow> None
         | Some n \<Rightarrow>
             if neg then (if 9223372036854775808 < int n then None else Some (- int n))
             else if MaxInt64 < int n then None else Some (int n))"

definition ParseBool :: "string \<Rightarrow> bool option" where
  "ParseBool s =
     (if s \<in> {''1'', ''t'', ''T'', ''TRUE'', ''true'', ''True''} then Some True
      else if s \<in> {''0'', ''f'', ''F'', ''FALSE'', ''false'', ''False''} then Some False
      else None)"

definition FormatBool :: "bool \<Rightarrow> string" where
  "FormatBool b = (if b then ''true'' else ''false'')"

definition to_lower :: "string \<Rightarrow> string" where
  "to_lower s = map (\<lambda>c. char_of (lower c)) s"

section \<open>Definitions and values\<close>

datatype kind = KindString | KindInt | KindBool | KindStringList | KindSecret

datatype setting_value =
    VNil | VString string | VInt int | VInt64 int | VFloat int | VBool bool | VList "string list"

record sdef =
  sd_key :: string
  sd_kind :: kind
  sd_default :: setting_value
  sd_min :: int
  sd_max :: int
  sd_options :: "string list option"
  sd_validator :: "(setting_value \<Rightarrow> bool) option"
  sd_category :: string

record codec =
  sc_encrypt :: "string \<Rightarrow> string result"
  sc_decrypt :: "string \<Rightarrow> string result"
  sc_list :: "string list \<Rightarrow> string"
  sc_unlist :: "string \<Rightarrow> string list option"

record setting_row =
  st_key :: string
  st_value :: string
  st_updated :: time

record cache_entry =
  ce_val :: setting_value
  ce_updated :: "time option"

record registry =
  rg_rows :: "setting_row list"
  rg_cache :: "string \<Rightarrow> cache_entry option"
  rg_gen :: nat

record settings_service =
  ss_defs :: "sdef list"
  ss_codec :: codec

fun default_ok :: "kind \<Rightarrow> setting_value \<Rightarrow> bool" where
  "default_ok KindInt v = (case v of VInt _ \<Rightarrow> True | _ \<Rightarrow> False)"
| "default_ok KindBool v = (case v of VBool _ \<Rightarrow> True | _ \<Rightarrow> False)"
| "default_ok KindString v = (case v of VNil \<Rightarrow> True | VString _ \<Rightarrow> True | _ \<Rightarrow> False)"
| "default_ok KindSecret v = (case v of VNil \<Rightarrow> True | VString _ \<Rightarrow> True | _ \<Rightarrow> False)"
| "default_ok KindStringList v = (case v of VList _ \<Rightarrow> True | _ \<Rightarrow> False)"

definition new_registry :: "setting_row list \<Rightarrow> registry" where
  "new_registry rows = \<lparr>rg_rows = rows, rg_cache = (\<lambda>_. None), rg_gen = 0\<rparr>"

definition New :: "sdef list \<Rightarrow> codec \<Rightarrow> settings_service result" where
  "New defs cd =
     (if list_all (\<lambda>d. sd_key d \<noteq> [] \<and> sd_category d \<noteq> [] \<and> default_ok (sd_kind d) (sd_default d)) defs
      then Inr \<lparr>ss_defs = defs, ss_codec = cd\<rparr>
      else Inl (Foreign ''settings: definition''))"

text \<open>The catalog is a map by key that later definitions overwrite.\<close>

definition def_of :: "settings_service \<Rightarrow> string \<Rightarrow> sdef option" where
  "def_of svc key = find_row sd_key key (rev (ss_defs svc))"

section \<open>Decoding and validation\<close>

definition decode :: "codec \<Rightarrow> sdef \<Rightarrow> string \<Rightarrow> setting_value result" where
  "decode cd def stored =
     (case sd_kind def of
        KindInt \<Rightarrow> (case parse_int64 stored of None \<Rightarrow> E CodeSettingInvalid | Some n \<Rightarrow> Inr (VInt n))
      | KindBool \<Rightarrow> (case ParseBool stored of None \<Rightarrow> E CodeSettingInvalid | Some b \<Rightarrow> Inr (VBool b))
      | KindStringList \<Rightarrow> (case sc_unlist cd stored of None \<Rightarrow> E CodeSettingInvalid | Some l \<Rightarrow> Inr (VList l))
      | KindSecret \<Rightarrow> if stored = [] then Inr (VString []) else ebind (sc_decrypt cd stored) (\<lambda>pt. Inr (VString pt))
      | KindString \<Rightarrow> Inr (VString stored))"

definition run_validator :: "sdef \<Rightarrow> setting_value \<Rightarrow> unit result" where
  "run_validator def typed =
     (case sd_validator def of
        None \<Rightarrow> Inr ()
      | Some p \<Rightarrow> if p typed then Inr () else E CodeSettingInvalid)"

definition validateValue :: "sdef \<Rightarrow> setting_value \<Rightarrow> unit result" where
  "validateValue def typed =
     (case (sd_kind def, typed) of
        (KindInt, VInt n) \<Rightarrow>
          if n < sd_min def \<or> sd_max def < n then E CodeSettingInvalid else run_validator def typed
      | (KindString, VString s) \<Rightarrow>
          (case sd_options def of
             None \<Rightarrow> run_validator def typed
           | Some opts \<Rightarrow> if s \<in> set opts then Inr () else E CodeSettingInvalid)
      | _ \<Rightarrow> run_validator def typed)"

definition toInt :: "setting_value \<Rightarrow> int option" where
  "toInt v = (case v of VInt n \<Rightarrow> Some n | VInt64 n \<Rightarrow> Some n | VFloat n \<Rightarrow> Some n | _ \<Rightarrow> None)"

definition Validate_setting :: "settings_service \<Rightarrow> string \<Rightarrow> setting_value \<Rightarrow> unit result" where
  "Validate_setting svc key v =
     (case def_of svc key of
        None \<Rightarrow> E CodeSettingUnknown
      | Some def \<Rightarrow>
          (case sd_kind def of
             KindInt \<Rightarrow> (case toInt v of None \<Rightarrow> E CodeSettingInvalid | Some n \<Rightarrow> validateValue def (VInt n))
           | KindBool \<Rightarrow> (case v of VBool b \<Rightarrow> validateValue def v | _ \<Rightarrow> E CodeSettingInvalid)
           | KindStringList \<Rightarrow> (case v of VList l \<Rightarrow> validateValue def v | _ \<Rightarrow> E CodeSettingInvalid)
           | _ \<Rightarrow> (case v of VString s \<Rightarrow> validateValue def v | _ \<Rightarrow> E CodeSettingInvalid)))"

definition ValidateStoredValue :: "codec \<Rightarrow> sdef \<Rightarrow> string \<Rightarrow> unit result" where
  "ValidateStoredValue cd def stored =
     ebind (if sd_kind def = KindSecret then Inr (VString stored) else decode cd def stored) (validateValue def)"

section \<open>Reading\<close>

definition redact :: "sdef \<Rightarrow> setting_value \<Rightarrow> setting_value" where
  "redact def v =
     (if sd_kind def = KindSecret
      then (case v of VString s \<Rightarrow> if s \<noteq> [] then VString ''<set>'' else VString [] | _ \<Rightarrow> VString [])
      else v)"

text \<open>The query of \<open>Get\<close>, with the redaction: what a read of the table gives.\<close>

definition query_setting :: "codec \<Rightarrow> setting_row list \<Rightarrow> sdef \<Rightarrow> cache_entry result" where
  "query_setting cd rows def =
     (case find_row st_key (sd_key def) rows of
        None \<Rightarrow> Inr \<lparr>ce_val = redact def (sd_default def), ce_updated = None\<rparr>
      | Some row \<Rightarrow> ebind (decode cd def (st_value row)) (\<lambda>v.
          Inr \<lparr>ce_val = redact def v, ce_updated = Some (st_updated row)\<rparr>))"

definition cached :: "registry \<Rightarrow> sdef \<Rightarrow> cache_entry option" where
  "cached r def = (if sd_category def = ''backup'' then None else rg_cache r (sd_key def))"

definition fill :: "nat \<Rightarrow> string \<Rightarrow> cache_entry \<Rightarrow> registry \<Rightarrow> registry" where
  "fill generation key e r =
     (if rg_gen r = generation then r\<lparr>rg_cache := (rg_cache r)(key \<mapsto> e)\<rparr> else r)"

definition Get_setting :: "settings_service \<Rightarrow> registry \<Rightarrow> string \<Rightarrow> setting_value result \<times> registry" where
  "Get_setting svc r key =
     (case def_of svc key of
        None \<Rightarrow> (E CodeSettingUnknown, r)
      | Some def \<Rightarrow>
          (case cached r def of
             Some e \<Rightarrow> (Inr (ce_val e), r)
           | None \<Rightarrow>
               (case query_setting (ss_codec svc) (rg_rows r) def of
                  Inl e \<Rightarrow> (Inl e, r)
                | Inr e \<Rightarrow> (Inr (ce_val e), fill (rg_gen r) key e r))))"

definition GetString :: "settings_service \<Rightarrow> registry \<Rightarrow> string \<Rightarrow> string result \<times> registry" where
  "GetString svc r key =
     (case Get_setting svc r key of
        (Inl e, r') \<Rightarrow> (Inl e, r')
      | (Inr (VString s), r') \<Rightarrow> (Inr s, r')
      | (Inr _, r') \<Rightarrow> (Inl (Foreign ''is not a string''), r'))"

definition GetInt :: "settings_service \<Rightarrow> registry \<Rightarrow> string \<Rightarrow> int result \<times> registry" where
  "GetInt svc r key =
     (case Get_setting svc r key of
        (Inl e, r') \<Rightarrow> (Inl e, r')
      | (Inr (VInt n), r') \<Rightarrow> (Inr n, r')
      | (Inr _, r') \<Rightarrow> (Inl (Foreign ''is not an int''), r'))"

definition GetBool :: "settings_service \<Rightarrow> registry \<Rightarrow> string \<Rightarrow> bool result \<times> registry" where
  "GetBool svc r key =
     (case Get_setting svc r key of
        (Inl e, r') \<Rightarrow> (Inl e, r')
      | (Inr (VBool b), r') \<Rightarrow> (Inr b, r')
      | (Inr _, r') \<Rightarrow> (Inl (Foreign ''is not a bool''), r'))"

definition GetStringList :: "settings_service \<Rightarrow> registry \<Rightarrow> string \<Rightarrow> string list result \<times> registry" where
  "GetStringList svc r key =
     (case Get_setting svc r key of
        (Inl e, r') \<Rightarrow> (Inl e, r')
      | (Inr (VList l), r') \<Rightarrow> (Inr l, r')
      | (Inr _, r') \<Rightarrow> (Inl (Foreign ''is not a string list''), r'))"

definition GetSecret :: "settings_service \<Rightarrow> registry \<Rightarrow> string \<Rightarrow> string result" where
  "GetSecret svc r key =
     (case def_of svc key of
        None \<Rightarrow> Inl (Foreign ''is not a secret setting'')
      | Some def \<Rightarrow>
          if sd_kind def \<noteq> KindSecret then Inl (Foreign ''is not a secret setting'')
          else (case find_row st_key key (rg_rows r) of
             None \<Rightarrow> Inr (case sd_default def of VString s \<Rightarrow> s | _ \<Rightarrow> [])
           | Some row \<Rightarrow> if st_value row = [] then Inr [] else sc_decrypt (ss_codec svc) (st_value row)))"

section \<open>Writing\<close>

record prepared_update =
  pu_def :: sdef
  pu_value :: string

definition prepareStored :: "codec \<Rightarrow> sdef \<Rightarrow> string \<Rightarrow> prepared_update result" where
  "prepareStored cd def stored =
     ebind (if sd_kind def = KindSecret then Inr (VString stored) else decode cd def stored) (\<lambda>typed.
     ebind (validateValue def typed) (\<lambda>_.
     ebind (if sd_kind def = KindSecret \<and> stored \<noteq> [] then sc_encrypt cd stored else Inr stored) (\<lambda>final.
       Inr \<lparr>pu_def = def, pu_value = final\<rparr>)))"

definition encode_value :: "codec \<Rightarrow> sdef \<Rightarrow> setting_value \<Rightarrow> string result" where
  "encode_value cd def v =
     (case sd_kind def of
        KindInt \<Rightarrow> (case toInt v of None \<Rightarrow> E CodeSettingInvalid | Some n \<Rightarrow> Inr (show_int n))
      | KindBool \<Rightarrow> (case v of VBool b \<Rightarrow> Inr (FormatBool b) | _ \<Rightarrow> E CodeSettingInvalid)
      | KindStringList \<Rightarrow> (case v of VList l \<Rightarrow> Inr (sc_list cd l) | _ \<Rightarrow> E CodeSettingInvalid)
      | _ \<Rightarrow> (case v of VString s \<Rightarrow> Inr s | _ \<Rightarrow> E CodeSettingInvalid))"

definition prepare :: "settings_service \<Rightarrow> string \<times> setting_value \<Rightarrow> prepared_update result" where
  "prepare svc u =
     (case def_of svc (fst u) of
        None \<Rightarrow> E CodeSettingUnknown
      | Some def \<Rightarrow> ebind (encode_value (ss_codec svc) def (snd u)) (prepareStored (ss_codec svc) def))"

definition write_row :: "time \<Rightarrow> prepared_update \<Rightarrow> setting_row list \<Rightarrow> setting_row list" where
  "write_row now u rows =
     (let key = sd_key (pu_def u) in
      if pu_value u = [] then delete_rows (\<lambda>row. st_key row = key) rows
      else if find_row st_key key rows = None
      then rows @ [\<lparr>st_key = key, st_value = pu_value u, st_updated = now\<rparr>]
      else update_rows (\<lambda>row. st_key row = key) (\<lambda>row. row\<lparr>st_value := pu_value u, st_updated := now\<rparr>) rows)"

text \<open>Dropping cache entries, with the generation that makes reads in flight obsolete.\<close>

definition invalidate :: "string list \<Rightarrow> registry \<Rightarrow> registry" where
  "invalidate keys r = r\<lparr>rg_cache := (\<lambda>k. if k \<in> set keys then None else rg_cache r k), rg_gen := Suc (rg_gen r)\<rparr>"

definition write_all :: "time \<Rightarrow> prepared_update list \<Rightarrow> setting_row list \<Rightarrow> setting_row list" where
  "write_all now us rows = fold (write_row now) us rows"

definition Set_setting :: "settings_service \<Rightarrow> time \<Rightarrow> registry \<Rightarrow> string \<Rightarrow> setting_value \<Rightarrow> unit result \<times> registry" where
  "Set_setting svc now r key v =
     (case prepare svc (key, v) of
        Inl e \<Rightarrow> (Inl e, r)
      | Inr u \<Rightarrow> (Inr (), invalidate [sd_key (pu_def u)] (r\<lparr>rg_rows := write_row now u (rg_rows r)\<rparr>)))"

fun prepare_all :: "settings_service \<Rightarrow> (string \<times> setting_value) list \<Rightarrow> prepared_update list result" where
  "prepare_all svc [] = Inr []"
| "prepare_all svc (u # us) = ebind (prepare svc u) (\<lambda>p. ebind (prepare_all svc us) (\<lambda>ps. Inr (p # ps)))"

definition update_keys :: "prepared_update list \<Rightarrow> string list" where
  "update_keys us = map (sd_key \<circ> pu_def) us"

definition SetBatch :: "settings_service \<Rightarrow> time \<Rightarrow> registry \<Rightarrow> (string \<times> setting_value) list \<Rightarrow> unit result \<times> registry" where
  "SetBatch svc now r updates =
     (case prepare_all svc updates of
        Inl e \<Rightarrow> (Inl e, r)
      | Inr us \<Rightarrow>
          if us = [] then (Inr (), r)
          else (Inr (), invalidate (update_keys us) (r\<lparr>rg_rows := write_all now us (rg_rows r)\<rparr>)))"

definition raw_text :: "codec \<Rightarrow> sdef \<Rightarrow> string \<Rightarrow> string result" where
  "raw_text cd def raw =
     (case sd_kind def of
        KindInt \<Rightarrow> (case parse_int64 (trim_space raw) of None \<Rightarrow> E CodeSettingInvalid | Some n \<Rightarrow> Inr (show_int n))
      | KindBool \<Rightarrow>
          (let t = to_lower (trim_space raw) in
           if t \<in> {''true'', ''1'', ''yes'', ''on''} then Inr ''true''
           else if t \<in> {''false'', ''0'', ''no'', ''off''} then Inr ''false''
           else E CodeSettingInvalid)
      | KindStringList \<Rightarrow> Inr (sc_list cd (filter (\<lambda>p. p \<noteq> []) (map trim_space (split_on CHR '','' raw))))
      | _ \<Rightarrow> Inr raw)"

definition SetRaw :: "settings_service \<Rightarrow> time \<Rightarrow> registry \<Rightarrow> string \<Rightarrow> string \<Rightarrow> unit result \<times> registry" where
  "SetRaw svc now r key raw =
     (case def_of svc key of
        None \<Rightarrow> (E CodeSettingUnknown, r)
      | Some def \<Rightarrow>
          (case ebind (raw_text (ss_codec svc) def raw) (prepareStored (ss_codec svc) def) of
             Inl e \<Rightarrow> (Inl e, r)
           | Inr u \<Rightarrow> (Inr (), invalidate [sd_key def] (r\<lparr>rg_rows := write_row now u (rg_rows r)\<rparr>))))"

definition Reset :: "settings_service \<Rightarrow> registry \<Rightarrow> string \<Rightarrow> unit result \<times> registry" where
  "Reset svc r key =
     (case def_of svc key of
        None \<Rightarrow> (E CodeSettingUnknown, r)
      | Some def \<Rightarrow> (Inr (), invalidate [key] (r\<lparr>rg_rows := delete_rows (\<lambda>row. st_key row = key) (rg_rows r)\<rparr>)))"

section \<open>The catalog\<close>

text \<open>The fields of a parsed URL that the base URL check reads.\<close>

record url =
  url_scheme :: string
  url_host :: string
  url_query :: string
  url_fragment :: string

definition ParseIP :: "string \<Rightarrow> bool" where
  "ParseIP s \<longleftrightarrow> ParseAddr s \<noteq> None \<and> CHR ''%'' \<notin> set s"

definition ParseCIDR :: "string \<Rightarrow> bool" where
  "ParseCIDR s =
     (case index_of CHR ''/'' s of
        None \<Rightarrow> False
      | Some i \<Rightarrow>
          (case ParseAddr (take i s) of
             None \<Rightarrow> False
           | Some fam \<Rightarrow> CHR ''%'' \<notin> set (take i s) \<and>
               (case parse_dec (drop (Suc i) s) of None \<Rightarrow> False
                | Some n \<Rightarrow> n \<le> (case fam of IPv4 \<Rightarrow> 32 | IPv6 \<Rightarrow> 128))))"

definition on_text :: "(string \<Rightarrow> bool) \<Rightarrow> (setting_value \<Rightarrow> bool) option" where
  "on_text p = Some (\<lambda>v. case v of VString s \<Rightarrow> p s | _ \<Rightarrow> False)"

definition on_list :: "(string \<Rightarrow> bool) \<Rightarrow> (setting_value \<Rightarrow> bool) option" where
  "on_list p = Some (\<lambda>v. case v of VList l \<Rightarrow> list_all p l | _ \<Rightarrow> False)"

definition bounded_number :: "int \<Rightarrow> string \<Rightarrow> bool" where
  "bounded_number maximum s = (case parse_int64 s of None \<Rightarrow> False | Some n \<Rightarrow> 0 < n \<and> n \<le> maximum)"

definition base_url_ok :: "(string \<Rightarrow> url option) \<Rightarrow> string \<Rightarrow> bool" where
  "base_url_ok parse_url s \<longleftrightarrow> s = [] \<or>
     (case parse_url s of
        None \<Rightarrow> False
      | Some u \<Rightarrow> url_scheme u \<in> {''http'', ''https''} \<and> url_host u \<noteq> [] \<and> url_query u = [] \<and> url_fragment u = [])"

definition allowed_ips_ok :: "string \<Rightarrow> bool" where
  "allowed_ips_ok s \<longleftrightarrow> list_all (\<lambda>p. let t = trim_space p in t = [] \<or> ParseCIDR t) (split_on CHR '','' s)"

definition chat_ok :: "string \<Rightarrow> bool" where
  "chat_ok s \<longleftrightarrow> s = [] \<or>
     (case parse_int64 s of None \<Rightarrow> False | Some n \<Rightarrow> n \<noteq> 0 \<and> hd s \<noteq> CHR ''+'')"

definition int_def :: "string \<Rightarrow> int \<Rightarrow> int \<Rightarrow> int \<Rightarrow> string \<Rightarrow> sdef" where
  "int_def key dflt lo hi cat = \<lparr>sd_key = key, sd_kind = KindInt, sd_default = VInt dflt, sd_min = lo, sd_max = hi,
     sd_options = None, sd_validator = None, sd_category = cat\<rparr>"

definition text_def :: "string \<Rightarrow> string \<Rightarrow> (setting_value \<Rightarrow> bool) option \<Rightarrow> string \<Rightarrow> sdef" where
  "text_def key dflt p cat = \<lparr>sd_key = key, sd_kind = KindString, sd_default = VString dflt, sd_min = 0, sd_max = 0,
     sd_options = None, sd_validator = p, sd_category = cat\<rparr>"

definition enum_def :: "string \<Rightarrow> string \<Rightarrow> string list \<Rightarrow> string \<Rightarrow> sdef" where
  "enum_def key dflt opts cat = \<lparr>sd_key = key, sd_kind = KindString, sd_default = VString dflt, sd_min = 0, sd_max = 0,
     sd_options = Some opts, sd_validator = None, sd_category = cat\<rparr>"

definition list_def :: "string \<Rightarrow> string list \<Rightarrow> (setting_value \<Rightarrow> bool) option \<Rightarrow> string \<Rightarrow> sdef" where
  "list_def key dflt p cat = \<lparr>sd_key = key, sd_kind = KindStringList, sd_default = VList dflt, sd_min = 0, sd_max = 0,
     sd_options = None, sd_validator = p, sd_category = cat\<rparr>"

definition secret_def :: "string \<Rightarrow> (setting_value \<Rightarrow> bool) option \<Rightarrow> string \<Rightarrow> sdef" where
  "secret_def key p cat = \<lparr>sd_key = key, sd_kind = KindSecret, sd_default = VString [], sd_min = 0, sd_max = 0,
     sd_options = None, sd_validator = p, sd_category = cat\<rparr>"

definition Defaults :: "(string \<Rightarrow> url option) \<Rightarrow> sdef list" where
  "Defaults parse_url =
   [int_def ''network.mtu'' 1420 576 65535 ''networking'',
    int_def ''network.port_min'' 30000 1024 65535 ''networking'',
    int_def ''network.port_max'' 50000 1024 65535 ''networking'',
    list_def ''network.dns_servers'' [''1.1.1.1'', ''1.0.0.1''] (on_list ParseIP) ''networking'',
    text_def ''network.default_pool'' [] (on_text (\<lambda>s. s = [] \<or> ValidSubnet s = Inr ())) ''networking'',
    int_def ''interfaces.max_count'' 8 1 64 ''interfaces'',
    int_def ''accounting.interval_seconds'' 30 15 600 ''accounting'',
    int_def ''accounting.online_window_seconds'' 180 30 3600 ''accounting'',
    int_def ''accounting.sample_flush_seconds'' 300 60 3600 ''accounting'',
    int_def ''accounting.sample_retention_hours'' 48 24 48 ''accounting'',
    int_def ''accounting.rollup_hourly_days'' 30 7 90 ''accounting'',
    int_def ''accounting.rollup_daily_days'' 365 30 730 ''accounting'',
    enum_def ''drift.policy'' ''report'' [''report'', ''adopt'', ''remove''] ''drift'',
    int_def ''security.session_idle_hours'' 12 1 168 ''security'',
    int_def ''security.session_absolute_hours'' 168 1 720 ''security'',
    text_def ''subscription.base_url'' [] (on_text (base_url_ok parse_url)) ''general'',
    enum_def ''subscription.layout'' ''ticket'' [''ticket'', ''card'', ''minimal'', ''portal''] ''general'',
    int_def ''users.default_device_limit'' 0 0 100 ''general'',
    text_def ''users.default_iface_id'' [] (on_text (\<lambda>s. length s \<le> 64)) ''general'',
    int_def ''users.default_quota_gb'' 100 0 1000000 ''general'',
    int_def ''users.default_duration_months'' 1 0 120 ''general'',
    text_def ''downloads.filename_prefix'' [] (on_text (\<lambda>s. length s \<le> 24)) ''general'',
    text_def ''downloads.filename_suffix'' [] (on_text (\<lambda>s. length s \<le> 24)) ''general'',
    list_def ''users.quota_presets_gb''
      [''20'', ''50'', ''70'', ''100'', ''150'', ''200'', ''300'', ''500'', ''700'', ''1000'']
      (on_list (bounded_number 1000000)) ''general'',
    list_def ''users.duration_presets_months'' [''1'', ''3'', ''6'', ''12''] (on_list (bounded_number 120)) ''general'',
    text_def ''node.id'' [] (on_text (\<lambda>s. length s \<le> 128)) ''general'',
    text_def ''node.endpoint'' [] (on_text ValidEndpoint) ''general'',
    text_def ''network.client_allowed_ips'' ''0.0.0.0/0'' (on_text allowed_ips_ok) ''networking'',
    text_def ''network.client_persistent_keepalive'' ''25'' (on_text (\<lambda>s. case ParseU16Range s of Inr _ \<Rightarrow> True | Inl _ \<Rightarrow> False)) ''networking'',
    int_def ''webhooks.max_attempts'' 12 1 50 ''webhooks'',
    int_def ''api.rate_limit_per_minute'' 600 0 100000 ''security'',
    secret_def ''backup.password'' (on_text (\<lambda>s. s = [] \<or> 8 \<le> length s)) ''backup'',
    secret_def ''backup.telegram_token'' None ''backup'',
    text_def ''backup.telegram_chat'' [] (on_text chat_ok) ''backup'',
    int_def ''backup.retention_count'' 14 1 365 ''backup'']"

section \<open>Concurrent use\<close>

text \<open>
  Readers and writers of the registry as the mutex lets them interleave: a reader notes the generation when
  it misses the cache, queries the table later, and fills the cache later still; a writer commits its rows
  and drops the cache entries in a separate critical section.
\<close>

record pending_read =
  pr_key :: string
  pr_gen :: nat
  pr_entry :: "cache_entry option"

record reg_system =
  sys_reg :: registry
  sys_reads :: "pending_read list"
  sys_commits :: "string list list"

definition commit_rows :: "setting_row list \<Rightarrow> string list \<Rightarrow> reg_system \<Rightarrow> reg_system" where
  "commit_rows rows keys s = s\<lparr>sys_reg := (sys_reg s)\<lparr>rg_rows := rows\<rparr>, sys_commits := keys # sys_commits s\<rparr>"

inductive reg_step :: "settings_service \<Rightarrow> reg_system \<Rightarrow> reg_system \<Rightarrow> bool" for svc where
  read_miss: "def_of svc key = Some def \<Longrightarrow> cached (sys_reg s) def = None \<Longrightarrow>
    reg_step svc s (s\<lparr>sys_reads := \<lparr>pr_key = key, pr_gen = rg_gen (sys_reg s), pr_entry = None\<rparr> # sys_reads s\<rparr>)"
| read_query: "p \<in> set (sys_reads s) \<Longrightarrow> pr_entry p = None \<Longrightarrow> def_of svc (pr_key p) = Some def \<Longrightarrow>
    query_setting (ss_codec svc) (rg_rows (sys_reg s)) def = Inr e \<Longrightarrow>
    reg_step svc s (s\<lparr>sys_reads := p\<lparr>pr_entry := Some e\<rparr> # remove1 p (sys_reads s)\<rparr>)"
| read_fails: "p \<in> set (sys_reads s) \<Longrightarrow> pr_entry p = None \<Longrightarrow>
    reg_step svc s (s\<lparr>sys_reads := remove1 p (sys_reads s)\<rparr>)"
| read_fill: "p \<in> set (sys_reads s) \<Longrightarrow> pr_entry p = Some e \<Longrightarrow>
    reg_step svc s (s\<lparr>sys_reg := fill (pr_gen p) (pr_key p) e (sys_reg s), sys_reads := remove1 p (sys_reads s)\<rparr>)"
| commit_batch: "prepare_all svc updates = Inr us \<Longrightarrow> us \<noteq> [] \<Longrightarrow>
    reg_step svc s (commit_rows (write_all now us (rg_rows (sys_reg s))) (update_keys us) s)"
| commit_raw: "def_of svc key = Some def \<Longrightarrow>
    ebind (raw_text (ss_codec svc) def raw) (prepareStored (ss_codec svc) def) = Inr u \<Longrightarrow>
    reg_step svc s (commit_rows (write_row now u (rg_rows (sys_reg s))) [sd_key def] s)"
| commit_reset: "def_of svc key = Some def \<Longrightarrow>
    reg_step svc s (commit_rows (delete_rows (\<lambda>row. st_key row = key) (rg_rows (sys_reg s))) [key] s)"
| drop_entries: "keys \<in> set (sys_commits s) \<Longrightarrow>
    reg_step svc s (s\<lparr>sys_reg := invalidate keys (sys_reg s), sys_commits := remove1 keys (sys_commits s)\<rparr>)"

definition reg_start :: "setting_row list \<Rightarrow> reg_system" where
  "reg_start rows = \<lparr>sys_reg = new_registry rows, sys_reads = [], sys_commits = []\<rparr>"

text \<open>The registry without a cache, the specification of what a read returns.\<close>

definition spec_get :: "settings_service \<Rightarrow> setting_row list \<Rightarrow> string \<Rightarrow> setting_value result" where
  "spec_get svc rows key =
     (case def_of svc key of
        None \<Rightarrow> E CodeSettingUnknown
      | Some def \<Rightarrow> ebind (query_setting (ss_codec svc) rows def) (\<lambda>e. Inr (ce_val e)))"

definition awaiting :: "reg_system \<Rightarrow> string \<Rightarrow> bool" where
  "awaiting s key \<longleftrightarrow> (\<exists>ks \<in> set (sys_commits s). key \<in> set ks)"

section \<open>Rows\<close>

lemma def_of_key: "def_of svc key = Some def \<Longrightarrow> sd_key def = key"
  by (auto simp: def_of_def)

interpretation upsert: row_update st_key "\<lambda>row. row\<lparr>st_value := v, st_updated := now\<rparr>"
  by unfold_locales simp

lemma find_write_row:
  "find_row st_key k (write_row now u rows) =
     (if k = sd_key (pu_def u)
      then (if pu_value u = [] then None else Some \<lparr>st_key = k, st_value = pu_value u, st_updated = now\<rparr>)
      else find_row st_key k rows)"
proof (cases "pu_value u = []")
  case True
  then show ?thesis
    by (auto simp: write_row_def Let_def find_row_delete_self intro: find_row_delete_other)
next
  case False
  show ?thesis
  proof (cases "find_row st_key (sd_key (pu_def u)) rows")
    case None
    with False show ?thesis
      by (auto simp: write_row_def Let_def find_row_append find_row_Cons split: option.splits)
  next
    case (Some row)
    with False show ?thesis by (auto simp: write_row_def Let_def upsert.find_update_self upsert.find_update_other)
  qed
qed

lemma set_write_row:
  "set (write_row now u rows) \<subseteq> set rows \<union>
     (if pu_value u = [] then {} else {\<lparr>st_key = sd_key (pu_def u), st_value = pu_value u, st_updated = now\<rparr>})"
  by (auto simp: write_row_def Let_def set_update_rows split: if_splits)

lemma find_write_all_other:
  "k \<notin> set (update_keys us) \<Longrightarrow> find_row st_key k (write_all now us rows) = find_row st_key k rows"
  by (induction us arbitrary: rows) (auto simp: write_all_def update_keys_def find_write_row)

lemma find_write_all_last:
  "k = sd_key (pu_def u) \<Longrightarrow> k \<notin> set (update_keys vs) \<Longrightarrow>
   find_row st_key k (write_all now (us @ u # vs) rows) =
     (if pu_value u = [] then None else Some \<lparr>st_key = k, st_value = pu_value u, st_updated = now\<rparr>)"
  using find_write_all_other[of k vs now] by (simp add: write_all_def find_write_row)

lemma query_same_row:
  "find_row st_key (sd_key def) rows' = find_row st_key (sd_key def) rows \<Longrightarrow>
   query_setting cd rows' def = query_setting cd rows def"
  by (simp add: query_setting_def)

section \<open>Stored rows pass validation\<close>

definition setting_row_ok :: "settings_service \<Rightarrow> setting_row \<Rightarrow> bool" where
  "setting_row_ok svc row \<longleftrightarrow> (\<forall>def. def_of svc (st_key row) = Some def \<and> sd_kind def \<noteq> KindSecret \<longrightarrow>
     (\<exists>v. decode (ss_codec svc) def (st_value row) = Inr v \<and> validateValue def v = Inr ()))"

definition rows_ok :: "settings_service \<Rightarrow> setting_row list \<Rightarrow> bool" where
  "rows_ok svc rows \<longleftrightarrow> (\<forall>row \<in> set rows. setting_row_ok svc row)"

definition update_ok :: "settings_service \<Rightarrow> prepared_update \<Rightarrow> bool" where
  "update_ok svc u \<longleftrightarrow> def_of svc (sd_key (pu_def u)) = Some (pu_def u)
     \<and> (sd_kind (pu_def u) \<noteq> KindSecret \<longrightarrow>
          (\<exists>v. decode (ss_codec svc) (pu_def u) (pu_value u) = Inr v \<and> validateValue (pu_def u) v = Inr ()))"

lemma prepareStored_ok:
  assumes "prepareStored (ss_codec svc) def stored = Inr u" "def_of svc key = Some def"
  shows "pu_def u = def \<and> update_ok svc u"
  using assms def_of_key[OF assms(2)]
  by (auto simp: prepareStored_def update_ok_def tx_simps split: if_splits)

lemma prepare_ok: "prepare svc (key, v) = Inr u \<Longrightarrow> sd_key (pu_def u) = key \<and> update_ok svc u"
  by (auto simp: prepare_def tx_simps dest: prepareStored_ok def_of_key)

lemma prepare_all_ok: "prepare_all svc ups = Inr us \<Longrightarrow> update_keys us = map fst ups \<and> list_all (update_ok svc) us"
proof (induction ups arbitrary: us)
  case (Cons u ups)
  then show ?case
    using prepare_ok[of svc "fst u" "snd u"] by (auto simp: tx_simps update_keys_def)
qed (auto simp: update_keys_def)

lemma rows_ok_write_row: "rows_ok svc rows \<Longrightarrow> update_ok svc u \<Longrightarrow> rows_ok svc (write_row now u rows)"
  using set_write_row[of now u rows] unfolding rows_ok_def setting_row_ok_def update_ok_def
  by (fastforce split: if_splits)

lemma rows_ok_write_all: "rows_ok svc rows \<Longrightarrow> list_all (update_ok svc) us \<Longrightarrow> rows_ok svc (write_all now us rows)"
  by (induction us arbitrary: rows) (auto simp: write_all_def rows_ok_write_row)

lemma rows_ok_delete: "rows_ok svc rows \<Longrightarrow> rows_ok svc (delete_rows P rows)"
  by (auto simp: rows_ok_def)

section \<open>The cache under concurrent use\<close>

definition current :: "settings_service \<Rightarrow> setting_row list \<Rightarrow> string \<Rightarrow> cache_entry \<Rightarrow> bool" where
  "current svc rows key e \<longleftrightarrow>
     (\<exists>def. def_of svc key = Some def \<and> query_setting (ss_codec svc) rows def = Inr e)"

definition genuine :: "settings_service \<Rightarrow> string \<Rightarrow> cache_entry \<Rightarrow> bool" where
  "genuine svc key e \<longleftrightarrow> (\<exists>rows. rows_ok svc rows \<and> current svc rows key e)"

definition sys_inv :: "settings_service \<Rightarrow> reg_system \<Rightarrow> bool" where
  "sys_inv svc s \<longleftrightarrow> rows_ok svc (rg_rows (sys_reg s))
     \<and> (\<forall>k e. rg_cache (sys_reg s) k = Some e \<longrightarrow>
          genuine svc k e \<and> (awaiting s k \<or> current svc (rg_rows (sys_reg s)) k e))
     \<and> (\<forall>p \<in> set (sys_reads s). pr_gen p \<le> rg_gen (sys_reg s) \<and>
          (\<forall>e. pr_entry p = Some e \<longrightarrow> genuine svc (pr_key p) e
             \<and> (pr_gen p = rg_gen (sys_reg s) \<longrightarrow> awaiting s (pr_key p) \<or> current svc (rg_rows (sys_reg s)) (pr_key p) e)))"

lemma current_other:
  assumes "find_row st_key k rows' = find_row st_key k rows" "current svc rows k e"
  shows "current svc rows' k e"
  using assms def_of_key[of svc k] query_same_row unfolding current_def by metis

lemma sys_inv_commit:
  assumes inv: "sys_inv svc s" and ok: "rows_ok svc rows'"
    and other: "\<And>k. k \<notin> set keys \<Longrightarrow> find_row st_key k rows' = find_row st_key k (rg_rows (sys_reg s))"
  shows "sys_inv svc (commit_rows rows' keys s)"
proof -
  let ?s' = "commit_rows rows' keys s"
  have aw: "awaiting ?s' k \<longleftrightarrow> k \<in> set keys \<or> awaiting s k" for k
    by (simp add: awaiting_def commit_rows_def)
  have step: "awaiting ?s' k \<or> current svc rows' k e"
    if "awaiting s k \<or> current svc (rg_rows (sys_reg s)) k e" for k e
    using that aw current_other[OF other] by blast
  have "rows_ok svc (rg_rows (sys_reg ?s'))" using ok by (simp add: commit_rows_def)
  moreover have "genuine svc k e \<and> (awaiting ?s' k \<or> current svc (rg_rows (sys_reg ?s')) k e)"
    if "rg_cache (sys_reg ?s') k = Some e" for k e
    using that inv step[of k e] by (simp add: commit_rows_def sys_inv_def)
  moreover have "pr_gen p \<le> rg_gen (sys_reg ?s') \<and>
      (\<forall>e. pr_entry p = Some e \<longrightarrow> genuine svc (pr_key p) e
        \<and> (pr_gen p = rg_gen (sys_reg ?s') \<longrightarrow> awaiting ?s' (pr_key p) \<or> current svc (rg_rows (sys_reg ?s')) (pr_key p) e))"
    if "p \<in> set (sys_reads ?s')" for p
    using that inv step[of "pr_key p"] by (auto simp: commit_rows_def sys_inv_def)
  ultimately show ?thesis unfolding sys_inv_def by blast
qed

lemma sys_invD:
  assumes "sys_inv svc s"
  shows "rows_ok svc (rg_rows (sys_reg s))"
    and "rg_cache (sys_reg s) k = Some e \<Longrightarrow> genuine svc k e \<and> (awaiting s k \<or> current svc (rg_rows (sys_reg s)) k e)"
    and "p \<in> set (sys_reads s) \<Longrightarrow> pr_gen p \<le> rg_gen (sys_reg s)"
    and "p \<in> set (sys_reads s) \<Longrightarrow> pr_entry p = Some e \<Longrightarrow> genuine svc (pr_key p) e"
    and "p \<in> set (sys_reads s) \<Longrightarrow> pr_entry p = Some e \<Longrightarrow> pr_gen p = rg_gen (sys_reg s) \<Longrightarrow>
      awaiting s (pr_key p) \<or> current svc (rg_rows (sys_reg s)) (pr_key p) e"
  using assms unfolding sys_inv_def by blast+

lemma reg_step_inv:
  assumes "reg_step svc s s'" "sys_inv svc s"
  shows "sys_inv svc s'"
  using assms
proof (cases rule: reg_step.cases)
  case (read_miss key def)
  with assms(2) show ?thesis by (auto simp: sys_inv_def awaiting_def)
next
  case (read_query p def e)
  have "current svc (rg_rows (sys_reg s)) (pr_key p) e" using read_query by (auto simp: current_def)
  moreover from this have "genuine svc (pr_key p) e" using sys_invD(1)[OF assms(2)] by (auto simp: genuine_def)
  ultimately show ?thesis
    using assms(2) read_query(1,2) sys_invD(3)[OF assms(2) read_query(2)] set_remove1_subset[of p "sys_reads s"]
    by (auto simp: sys_inv_def awaiting_def)
next
  case (read_fails p)
  with assms(2) set_remove1_subset[of p "sys_reads s"] show ?thesis
    by (auto simp: sys_inv_def awaiting_def)
next
  case (read_fill p e)
  note p = sys_invD(4,5)[OF assms(2) read_fill(2,3)]
  show ?thesis
    using assms(2) p read_fill(1)
    by (auto simp: sys_inv_def awaiting_def fill_def dest!: subsetD[OF set_remove1_subset])
next
  case (commit_batch updates us now)
  from prepare_all_ok[OF commit_batch(2)] have "list_all (update_ok svc) us" by blast
  with sys_invD(1)[OF assms(2)] show ?thesis
    unfolding commit_batch(1) by (intro sys_inv_commit[OF assms(2)] rows_ok_write_all find_write_all_other)
next
  case (commit_raw key def raw u now)
  from commit_raw(3) obtain stored where "prepareStored (ss_codec svc) def stored = Inr u" by (auto simp: tx_simps)
  note u = prepareStored_ok[OF this commit_raw(2)]
  with sys_invD(1)[OF assms(2)] show ?thesis
    unfolding commit_raw(1) by (intro sys_inv_commit[OF assms(2)] rows_ok_write_row) (auto simp: find_write_row)
next
  case (commit_reset key def)
  with sys_invD(1)[OF assms(2)] show ?thesis
    unfolding commit_reset(1)
    by (intro sys_inv_commit[OF assms(2)] rows_ok_delete) (auto intro!: find_row_delete_other)
next
  case (drop_entries keys)
  let ?s' = "s\<lparr>sys_reg := invalidate keys (sys_reg s), sys_commits := remove1 keys (sys_commits s)\<rparr>"
  have aw: "awaiting s k \<Longrightarrow> k \<in> set keys \<or> awaiting ?s' k" for k
    by (auto simp: awaiting_def) (metis in_set_remove1)
  show ?thesis
    using assms(2) aw sys_invD(3)[OF assms(2)] unfolding drop_entries(1) sys_inv_def
    by (auto simp: invalidate_def le_Suc_eq split: if_splits) (metis Suc_n_not_le_n)+
qed

lemma reg_run_inv:
  assumes "rtranclp (reg_step svc) (reg_start rows) s" "rows_ok svc rows"
  shows "sys_inv svc s"
  using assms(1)
proof (induction rule: rtranclp_induct)
  case base
  then show ?case using assms(2) by (simp add: sys_inv_def reg_start_def new_registry_def)
next
  case (step s s')
  then show ?case using reg_step_inv by blast
qed

text \<open>A read in the state of a run: what the cache or the table holds.\<close>

lemma Get_genuine:
  assumes inv: "sys_inv svc s" and def_: "def_of svc key = Some def" and get: "fst (Get_setting svc (sys_reg s) key) = Inr v"
  shows "\<exists>e. genuine svc key e \<and> v = ce_val e"
proof (cases "cached (sys_reg s) def")
  case None
  with get def_ obtain e where "query_setting (ss_codec svc) (rg_rows (sys_reg s)) def = Inr e" "v = ce_val e"
    by (auto simp: Get_setting_def split: sum.splits)
  with sys_invD(1)[OF inv] def_ show ?thesis by (auto simp: genuine_def current_def)
next
  case (Some e)
  then have "rg_cache (sys_reg s) key = Some e" using def_of_key[OF def_] by (simp add: cached_def split: if_splits)
  with sys_invD(2)[OF inv] get def_ Some show ?thesis by (auto simp: Get_setting_def)
qed

lemma Get_fresh:
  assumes inv: "sys_inv svc s" and "\<not> awaiting s key"
  shows "fst (Get_setting svc (sys_reg s) key) = spec_get svc (rg_rows (sys_reg s)) key"
proof (cases "def_of svc key")
  case (Some def)
  show ?thesis
  proof (cases "cached (sys_reg s) def")
    case (Some e)
    then have "rg_cache (sys_reg s) key = Some e"
      using def_of_key[OF \<open>def_of svc key = Some def\<close>] by (simp add: cached_def split: if_splits)
    with sys_invD(2)[OF inv] assms(2) have "current svc (rg_rows (sys_reg s)) key e" by blast
    with Some \<open>def_of svc key = Some def\<close> show ?thesis
      by (auto simp: Get_setting_def spec_get_def current_def)
  qed (use Some in \<open>auto simp: Get_setting_def spec_get_def split: sum.splits\<close>)
qed (simp add: Get_setting_def spec_get_def)

text \<open>Every entry that is cached or on its way into the cache was read from a table of the run.\<close>

definition from_past :: "settings_service \<Rightarrow> (setting_row list \<Rightarrow> bool) \<Rightarrow> reg_system \<Rightarrow> bool" where
  "from_past svc P s \<longleftrightarrow>
     (\<forall>k e. rg_cache (sys_reg s) k = Some e \<longrightarrow> (\<exists>rows. P rows \<and> current svc rows k e))
   \<and> (\<forall>p \<in> set (sys_reads s). \<forall>e. pr_entry p = Some e \<longrightarrow> (\<exists>rows. P rows \<and> current svc rows (pr_key p) e))"

lemma from_past_mono: "from_past svc P s \<Longrightarrow> (\<And>rows. P rows \<Longrightarrow> Q rows) \<Longrightarrow> from_past svc Q s"
  unfolding from_past_def by meson

lemma from_past_step:
  assumes "reg_step svc s s'" "from_past svc P s" "P (rg_rows (sys_reg s))"
  shows "from_past svc P s'"
  using assms(1)
proof (cases rule: reg_step.cases)
  case (read_query p def e)
  then have "\<exists>rows. P rows \<and> current svc rows (pr_key p) e" using assms(3) by (auto simp: current_def)
  with assms(2) read_query(1) set_remove1_subset[of p "sys_reads s"] show ?thesis by (auto simp: from_past_def)
next
  case (read_fill p e)
  then have "\<exists>rows. P rows \<and> current svc rows (pr_key p) e" using assms(2) by (auto simp: from_past_def)
  with assms(2) read_fill(1) set_remove1_subset[of p "sys_reads s"] show ?thesis by (auto simp: from_past_def fill_def)
qed (use assms(2) in \<open>auto simp: from_past_def commit_rows_def invalidate_def dest!: subsetD[OF set_remove1_subset]\<close>)

definition held :: "settings_service \<Rightarrow> setting_row list \<Rightarrow> reg_system \<Rightarrow> setting_row list \<Rightarrow> bool" where
  "held svc rows s past \<longleftrightarrow> (\<exists>s0. rtranclp (reg_step svc) (reg_start rows) s0 \<and> rtranclp (reg_step svc) s0 s \<and> past = rg_rows (sys_reg s0))"

lemma run_from_past: "rtranclp (reg_step svc) (reg_start rows) s \<Longrightarrow> from_past svc (held svc rows s) s"
proof (induction rule: rtranclp_induct)
  case base
  then show ?case by (simp add: from_past_def reg_start_def new_registry_def)
next
  case (step s s')
  have m: "held svc rows s past \<Longrightarrow> held svc rows s' past" for past
    unfolding held_def using rtranclp.rtrancl_into_rtrancl[of "reg_step svc" _ s s', OF _ step.hyps(2)] by blast
  have "held svc rows s' (rg_rows (sys_reg s))" unfolding held_def using step.hyps(1) r_into_rtranclp[of "reg_step svc", OF step.hyps(2)] by blast
  moreover have "from_past svc (held svc rows s') s" by (rule from_past_mono[OF step.IH]) (rule m)
  ultimately show ?case using from_past_step[OF step.hyps(2)] by blast
qed

lemma Get_held:
  assumes "rtranclp (reg_step svc) (reg_start rows) s" "fst (Get_setting svc (sys_reg s) key) = Inr v"
  shows "\<exists>past. held svc rows s past \<and> spec_get svc past key = Inr v"
proof -
  obtain def where d: "def_of svc key = Some def" using assms(2) by (auto simp: Get_setting_def split: option.splits)
  show ?thesis
  proof (cases "cached (sys_reg s) def")
    case None
    have "held svc rows s (rg_rows (sys_reg s))" unfolding held_def using assms(1) by blast
    moreover have "spec_get svc (rg_rows (sys_reg s)) key = Inr v"
      using None assms(2) d by (auto simp: Get_setting_def spec_get_def split: sum.splits)
    ultimately show ?thesis by blast
  next
    case (Some e)
    then have "rg_cache (sys_reg s) key = Some e" using def_of_key[OF d] by (simp add: cached_def split: if_splits)
    then obtain past where "held svc rows s past" "current svc past key e"
      using run_from_past[OF assms(1)] unfolding from_past_def by blast
    with Some d assms(2) show ?thesis by (auto simp: Get_setting_def spec_get_def current_def intro!: exI[of _ past])
  qed
qed


definition tiny_codec :: codec where
  "tiny_codec = \<lparr>sc_encrypt = (\<lambda>s. Inr (CHR ''x'' # s)), sc_decrypt = (\<lambda>s. Inr (tl s)),
     sc_list = (\<lambda>l. ''[]''), sc_unlist = (\<lambda>s. Some [])\<rparr>"

definition tiny_settings :: settings_service where
  "tiny_settings = \<lparr>ss_defs = [int_def ''network.mtu'' 1420 576 65535 ''networking''], ss_codec = tiny_codec\<rparr>"

lemma show_int_signs:
  "hd (show_nat n) \<noteq> CHR ''-''" "hd (show_nat n) \<noteq> CHR ''+''"
proof -
  have "is_digit (hd (show_nat n))" by (rule show_nat_digits[of _ n]) simp
  then show "hd (show_nat n) \<noteq> CHR ''-''" "hd (show_nat n) \<noteq> CHR ''+''" by (auto simp: is_digit_def)
qed

lemma parse_show_int: "parse_int64 (show_int n) = (if is_i64 n then Some n else None)"
  by (auto simp: parse_int64_def show_int_def show_int_signs is_i64_def Let_def)

lemma show_int_nonempty [simp]: "show_int n \<noteq> []"
  by (simp add: show_int_def)

lemma tiny_prepare:
  "prepare_all tiny_settings [(''network.mtu'', VInt 1400)] =
     Inr [\<lparr>pu_def = int_def ''network.mtu'' 1420 576 65535 ''networking'', pu_value = show_int 1400\<rparr>]"
  by (simp add: prepare_def tiny_settings_def def_of_def find_row_Cons int_def_def encode_value_def toInt_def
      prepareStored_def decode_def parse_show_int is_i64_def validateValue_def run_validator_def)


section \<open>Values have their declared type\<close>

definition fits :: "sdef \<Rightarrow> setting_value \<Rightarrow> bool" where
  "fits def v \<longleftrightarrow>
     (case sd_kind def of
        KindInt \<Rightarrow> (case v of VInt n \<Rightarrow> sd_min def \<le> n \<and> n \<le> sd_max def | _ \<Rightarrow> False)
      | KindBool \<Rightarrow> (case v of VBool _ \<Rightarrow> True | _ \<Rightarrow> False)
      | KindStringList \<Rightarrow> (case v of VList _ \<Rightarrow> True | _ \<Rightarrow> False)
      | KindString \<Rightarrow> (case v of VString s \<Rightarrow> (case sd_options def of None \<Rightarrow> True | Some opts \<Rightarrow> s \<in> set opts) | _ \<Rightarrow> False)
      | KindSecret \<Rightarrow> v = VString [] \<or> v = VString ''<set>'')
     \<and> (sd_kind def \<noteq> KindSecret \<longrightarrow> validateValue def v = Inr ())"

lemma fits_decoded:
  assumes "decode cd def t = Inr v" "validateValue def v = Inr ()" "sd_kind def \<noteq> KindSecret"
  shows "fits def v"
  using assms by (auto simp: fits_def decode_def validateValue_def split: kind.splits option.splits if_splits)

lemma fits_redacted: "sd_kind def = KindSecret \<Longrightarrow> fits def (redact def v)"
  by (auto simp: fits_def redact_def split: setting_value.splits)

lemma catalog_keys: "distinct (map sd_key (Defaults parse_url))"
  by (simp add: Defaults_def int_def_def list_def_def text_def_def enum_def_def secret_def_def)

lemma fits_catalog:
  "fits (int_def k d lo hi c) (sd_default (int_def k d lo hi c)) \<longleftrightarrow> lo \<le> d \<and> d \<le> hi"
  "fits (text_def k t (on_text p) c) (sd_default (text_def k t (on_text p) c)) \<longleftrightarrow> p t"
  "fits (enum_def k t opts c) (sd_default (enum_def k t opts c)) \<longleftrightarrow> t \<in> set opts"
  "fits (list_def k l (on_list q) c) (sd_default (list_def k l (on_list q) c)) \<longleftrightarrow> list_all q l"
  "fits (secret_def k v c) (sd_default (secret_def k v c))"
  by (auto simp: fits_def int_def_def text_def_def enum_def_def list_def_def secret_def_def validateValue_def
      run_validator_def on_text_def on_list_def)

lemma catalog_texts:
  "ParseIP ''1.1.1.1''" "ParseIP ''1.0.0.1''" "allowed_ips_ok ''0.0.0.0/0''" "ValidEndpoint []"
  by (simp_all add: ParseIP_def ParseAddr_def parse_addr_def parse_field_def parse_dec_def is_digit_def digit_val_def
      allowed_ips_ok_def ParseCIDR_def index_of_def trim_space_def is_space_def ValidEndpoint_def)

lemma catalog_numbers:
  "list_all (bounded_number 1000000)
     [''20'', ''50'', ''70'', ''100'', ''150'', ''200'', ''300'', ''500'', ''700'', ''1000'']"
  "list_all (bounded_number 120) [''1'', ''3'', ''6'', ''12'']"
  "ParseU16Range ''25'' = Inr (ScalarU16 25)"
  by (simp_all add: bounded_number_def parse_int64_def parse_dec_def is_digit_def digit_val_def
      ParseU16Range_def parse_range_def parseBounds_def decimalDigits_def parse_uint_def ScalarU16_def scalar_def)

lemma catalog_defaults: "list_all (\<lambda>d. fits d (sd_default d)) (Defaults parse_url)"
  unfolding Defaults_def
  by (simp only: list.pred_inject fits_catalog)
    (simp add: catalog_texts catalog_numbers[simplified] base_url_ok_def chat_ok_def)

lemma catalog_def:
  assumes "New (Defaults parse_url) cd = Inr svc" "def \<in> set (Defaults parse_url)"
  shows "def_of svc (sd_key def) = Some def"
proof -
  have "unique_on sd_key (rev (Defaults parse_url))" using catalog_keys by (simp add: unique_on_def flip: rev_map)
  moreover have "ss_defs svc = Defaults parse_url" using assms(1) by (auto simp: New_def split: if_splits)
  ultimately show ?thesis using find_row_unique[of sd_key "rev (Defaults parse_url)" def] assms(2) by (simp add: def_of_def)
qed

lemma rows_okD:
  assumes "rows_ok svc rows" "find_row st_key key rows = Some row" "def_of svc key = Some def" "sd_kind def \<noteq> KindSecret"
  shows "\<exists>v. decode (ss_codec svc) def (st_value row) = Inr v \<and> validateValue def v = Inr ()"
proof -
  from assms(2) have "row \<in> set rows" "st_key row = key" by auto
  with assms show ?thesis unfolding rows_ok_def setting_row_ok_def by blast
qed

lemma genuine_fits:
  assumes "genuine svc key e" "def_of svc key = Some def" "fits def (sd_default def)"
  shows "fits def (ce_val e)"
proof -
  from assms(1,2) obtain rows where ok: "rows_ok svc rows" and q: "query_setting (ss_codec svc) rows def = Inr e"
    by (auto simp: genuine_def current_def)
  show ?thesis
  proof (cases "sd_kind def = KindSecret")
    case True
    with q show ?thesis by (auto simp: query_setting_def tx_simps fits_redacted split: option.splits)
  next
    case False
    then have id: "redact def v = v" for v by (simp add: redact_def)
    show ?thesis
    proof (cases "find_row st_key (sd_key def) rows")
      case None
      with q assms(3) id show ?thesis by (auto simp: query_setting_def)
    next
      case (Some row)
      then obtain v where "decode (ss_codec svc) def (st_value row) = Inr v" "validateValue def v = Inr ()"
        using rows_okD[OF ok _ assms(2) False] def_of_key[OF assms(2)] by auto
      with q Some id fits_decoded[OF _ _ False] show ?thesis by (auto simp: query_setting_def)
    qed
  qed
qed

lemma Get_answers:
  assumes "sys_inv svc s" "def_of svc key = Some def" "sd_kind def \<noteq> KindSecret"
  shows "\<exists>v. fst (Get_setting svc (sys_reg s) key) = Inr v"
proof -
  have "\<exists>e. query_setting (ss_codec svc) (rg_rows (sys_reg s)) def = Inr e"
  proof (cases "find_row st_key key (rg_rows (sys_reg s))")
    case (Some row)
    from rows_okD[OF sys_invD(1)[OF assms(1)] this assms(2,3)] show ?thesis
      using Some def_of_key[OF assms(2)] by (auto simp: query_setting_def)
  qed (use def_of_key[OF assms(2)] in \<open>simp add: query_setting_def\<close>)
  with assms(2) show ?thesis by (auto simp: Get_setting_def split: option.splits)
qed


lemma catalog_new: "\<exists>svc. New (Defaults parse_url) cd = Inr svc"
  by (simp add: New_def Defaults_def int_def_def list_def_def text_def_def enum_def_def secret_def_def)


section \<open>Writes read back\<close>

text \<open>What a read gives after a value has been stored: an empty text falls back to the default.\<close>

definition stored_form :: "sdef \<Rightarrow> setting_value \<Rightarrow> setting_value" where
  "stored_form def v =
     (case sd_kind def of
        KindInt \<Rightarrow> VInt (the (toInt v))
      | KindString \<Rightarrow> if v = VString [] then sd_default def else v
      | KindSecret \<Rightarrow> if v = VString [] then redact def (sd_default def) else VString ''<set>''
      | _ \<Rightarrow> v)"

definition codec_ok :: "codec \<Rightarrow> setting_value \<Rightarrow> bool" where
  "codec_ok cd v \<longleftrightarrow>
     (\<forall>l. v = VList l \<longrightarrow> sc_list cd l \<noteq> [] \<and> sc_unlist cd (sc_list cd l) = Some l)
     \<and> (\<forall>s c. v = VString s \<and> sc_encrypt cd s = Inr c \<longrightarrow> c \<noteq> [] \<and> sc_decrypt cd c = Inr s)"

lemma ParseBool_Format [simp]: "ParseBool (FormatBool b) = Some b" "FormatBool b \<noteq> []"
  by (simp_all add: ParseBool_def FormatBool_def)

definition entry_after :: "codec \<Rightarrow> sdef \<Rightarrow> string \<Rightarrow> setting_value result" where
  "entry_after cd def value =
     (if value = [] then Inr (redact def (sd_default def))
      else ebind (decode cd def value) (\<lambda>v. Inr (redact def v)))"

lemma prepared_entry:
  assumes "prepare svc (key, v) = Inr u" "def_of svc key = Some def" "codec_ok (ss_codec svc) v"
  shows "entry_after (ss_codec svc) def (pu_value u) = Inr (stored_form def v)"
proof -
  from assms(1,2) obtain t where t: "encode_value (ss_codec svc) def v = Inr t" "prepareStored (ss_codec svc) def t = Inr u"
    by (auto simp: prepare_def tx_simps)
  show ?thesis
  proof (cases "sd_kind def")
    case KindInt
    with t obtain n where "toInt v = Some n" "t = show_int n" by (auto simp: encode_value_def split: option.splits)
    with t KindInt show ?thesis
      by (auto simp: prepareStored_def entry_after_def decode_def stored_form_def redact_def parse_show_int tx_simps split: if_splits)
  next
    case KindBool
    with t show ?thesis
      by (auto simp: encode_value_def prepareStored_def entry_after_def decode_def stored_form_def redact_def tx_simps
          split: setting_value.splits)
  next
    case KindStringList
    with t assms(3) show ?thesis
      by (auto simp: encode_value_def prepareStored_def entry_after_def decode_def stored_form_def redact_def codec_ok_def tx_simps
          split: setting_value.splits)
  next
    case KindString
    with t show ?thesis
      by (auto simp: encode_value_def prepareStored_def entry_after_def decode_def stored_form_def redact_def tx_simps
          split: setting_value.splits)
  next
    case KindSecret
    with t obtain s where v: "v = VString s" and st: "t = s" by (auto simp: encode_value_def split: setting_value.splits)
    show ?thesis
    proof (cases "s = []")
      case True
      with t v st KindSecret show ?thesis
        by (auto simp: prepareStored_def entry_after_def stored_form_def tx_simps)
    next
      case False
      with t v st KindSecret assms(3) have "pu_value u \<noteq> []" "sc_decrypt (ss_codec svc) (pu_value u) = Inr s"
        by (auto simp: prepareStored_def codec_ok_def tx_simps)
      with False v KindSecret show ?thesis by (simp add: entry_after_def decode_def stored_form_def redact_def)
    qed
  qed
qed

lemma prepare_all_nth:
  "prepare_all svc (us @ x # vs) = Inr ps \<Longrightarrow>
   \<exists>as p bs. ps = as @ p # bs \<and> prepare svc x = Inr p \<and> update_keys bs = map fst vs"
proof (induction us arbitrary: ps)
  case Nil
  then show ?case using prepare_all_ok[of svc vs] by (auto simp: tx_simps intro!: exI[of _ "[]"])
next
  case (Cons u us)
  then show ?case by (auto simp: tx_simps) (metis append_Cons)
qed

lemma Get_after_drop:
  assumes "def_of svc key = Some def" "key \<in> set keys"
  shows "fst (Get_setting svc (invalidate keys r) key) = spec_get svc (rg_rows r) key"
  using assms def_of_key[OF assms(1)]
  by (auto simp: Get_setting_def cached_def invalidate_def spec_get_def split: sum.splits)

text \<open>
  A batch of settings is stored as a whole or not at all: an unknown key, a value of the wrong kind or
  outside its constraints leaves rows, cache and generation as they were. After a batch has been
  stored, the last value given for a key is what the next read returns: integers of every
  width as \<open>int\<close>, the empty text as the default, a secret as the marker that it is set. Keys the batch does not name
  read as before.
\<close>

theorem set_batch_correct:
  assumes "SetBatch svc now r updates = (res, r')"
  shows "(\<forall>e. res = Inl e \<longrightarrow> r' = r)
    \<and> (\<forall>us key v vs def. res = Inr () \<and> updates = us @ (key, v) # vs \<and> key \<notin> fst ` set vs
         \<and> def_of svc key = Some def \<and> codec_ok (ss_codec svc) v \<longrightarrow>
         fst (Get_setting svc r' key) = Inr (stored_form def v))
    \<and> (\<forall>key. key \<notin> fst ` set updates \<longrightarrow> fst (Get_setting svc r' key) = fst (Get_setting svc r key))
    \<and> (res = Inr () \<longleftrightarrow> list_all (\<lambda>u. \<exists>p. prepare svc u = Inr p) updates)"
proof (intro conjI allI impI)
  show "r' = r" if "res = Inl e" for e
    using that assms by (auto simp: SetBatch_def split: sum.splits if_splits)
next
  fix us key v vs def
  assume a: "res = Inr () \<and> updates = us @ (key, v) # vs \<and> key \<notin> fst ` set vs
    \<and> def_of svc key = Some def \<and> codec_ok (ss_codec svc) v"
  from a assms obtain ps where ps: "prepare_all svc (us @ (key, v) # vs) = Inr ps" and ne: "ps \<noteq> []"
    and r': "r' = invalidate (update_keys ps) (r\<lparr>rg_rows := write_all now ps (rg_rows r)\<rparr>)"
    using prepare_all_nth by (fastforce simp: SetBatch_def split: sum.splits if_splits)
  from prepare_all_nth[OF ps] obtain as p bs where p: "ps = as @ p # bs" "prepare svc (key, v) = Inr p" "update_keys bs = map fst vs"
    by blast
  have key: "sd_key (pu_def p) = key" using prepare_ok[OF p(2)] by blast
  have "find_row st_key key (write_all now ps (rg_rows r)) =
      (if pu_value p = [] then None else Some \<lparr>st_key = key, st_value = pu_value p, st_updated = now\<rparr>)"
    unfolding p(1) using key a p(3) by (intro find_write_all_last) auto
  then have "spec_get svc (write_all now ps (rg_rows r)) key = entry_after (ss_codec svc) def (pu_value p)"
    using a def_of_key[of svc key def]
    by (auto simp: spec_get_def query_setting_def entry_after_def ebind_def split: sum.splits)
  moreover have "key \<in> set (update_keys ps)" using p(1) key by (simp add: update_keys_def)
  ultimately show "fst (Get_setting svc r' key) = Inr (stored_form def v)"
    using Get_after_drop[of svc key def] a prepared_entry[OF p(2)] by (simp add: r')
next
  fix key assume key: "key \<notin> fst ` set updates"
  show "fst (Get_setting svc r' key) = fst (Get_setting svc r key)"
  proof (cases "prepare_all svc updates")
    case (Inr ps)
    with prepare_all_ok have k: "update_keys ps = map fst updates" by blast
    then have "find_row st_key key (write_all now ps (rg_rows r)) = find_row st_key key (rg_rows r)"
      using key by (intro find_write_all_other) auto
    moreover have "r' = r \<or> r' = invalidate (update_keys ps) (r\<lparr>rg_rows := write_all now ps (rg_rows r)\<rparr>)"
      using assms Inr by (auto simp: SetBatch_def split: if_splits)
    ultimately show ?thesis
      using key k def_of_key[of svc key]
      by (auto simp: Get_setting_def cached_def invalidate_def query_setting_def split: option.splits sum.splits)
  qed (use assms in \<open>simp add: SetBatch_def\<close>)
next
  have "(\<exists>ps. prepare_all svc updates = Inr ps) \<longleftrightarrow> list_all (\<lambda>u. \<exists>p. prepare svc u = Inr p) updates"
    by (induction updates) (auto simp: tx_simps)
  then show "res = Inr () \<longleftrightarrow> list_all (\<lambda>u. \<exists>p. prepare svc u = Inr p) updates"
    using assms by (auto simp: SetBatch_def split: sum.splits if_splits)
qed

theorem set_batch_correct_witness:
  "fst (SetBatch tiny_settings 7 (new_registry []) [(''network.mtu'', VInt 1400)]) = Inr ()
   \<and> fst (Get_setting tiny_settings (snd (SetBatch tiny_settings 7 (new_registry []) [(''network.mtu'', VInt 1400)])) ''network.mtu'')
     = Inr (VInt 1400)"
proof -
  let ?d = "int_def ''network.mtu'' 1420 576 65535 ''networking''"
  obtain r' where b: "SetBatch tiny_settings 7 (new_registry []) [(''network.mtu'', VInt 1400)] = (Inr (), r')"
    by (simp add: SetBatch_def tiny_prepare del: prepare_all.simps)
  have d: "def_of tiny_settings ''network.mtu'' = Some ?d"
    by (simp add: tiny_settings_def def_of_def find_row_Cons int_def_def)
  have "fst (Get_setting tiny_settings r' ''network.mtu'') = Inr (stored_form ?d (VInt 1400))"
    using set_batch_correct[OF b, THEN conjunct2, THEN conjunct1, rule_format, of "[]" "''network.mtu''" "VInt 1400" "[]" ?d] d
    by (simp add: codec_ok_def)
  with b show ?thesis by (simp add: stored_form_def int_def_def toInt_def)
qed

end
