(* ===== verification/Interfaces.thy ===== *)
theory Interfaces
  imports Profiles Settings Reconcile
begin

text \<open>
  The interface service (\<open>src/internal/iface/iface.go\<close>, \<open>src/internal/iface/pools.go\<close>): names,
  listen ports, address pools and the parameter profile of a tunnel interface, and its removal
  together with the link. What the service holds besides the database is the record
  \<open>iface_service\<close>: the settings it reads, the readiness and host-route probes (\<open>None\<close> when not
  configured), the clock, the entropy of the profile generator, a fresh key pair and the cipher of
  the key ring.
\<close>

section \<open>The service and its requests\<close>

record iface_service =
  is_int :: "string \<Rightarrow> int result"
  is_string :: "string \<Rightarrow> string result"
  is_userspace :: "unit result option"
  is_routes :: "(string \<Rightarrow> prefix list result) option"
  is_now :: time
  is_entropy :: "byte list"
  is_keypair :: "(string \<times> string) result"
  is_encrypt :: "string \<Rightarrow> string result"

text \<open>The service reads its settings through the registry.\<close>

definition settings_int :: "settings_service \<Rightarrow> registry \<Rightarrow> string \<Rightarrow> int result" where
  "settings_int ss r key = fst (GetInt ss r key)"

definition settings_string :: "settings_service \<Rightarrow> registry \<Rightarrow> string \<Rightarrow> string result" where
  "settings_string ss r key = fst (GetString ss r key)"

record create_input =
  ci_name :: string
  ci_port :: int
  ci_subnet :: string
  ci_pools :: "string list option"
  ci_mtu :: int
  ci_obf :: obfuscation
  ci_preset :: string
  ci_generated :: bool
  ci_mode :: string
  ci_endpoint :: string

record iface =
  if_id :: string
  if_name :: string
  if_port :: int
  if_subnet :: string
  if_pools :: "string list"
  if_mtu :: int
  if_pubkey :: string
  if_privkey :: string
  if_obf :: obfuscation
  if_preset :: string
  if_enabled :: bool
  if_mode :: string
  if_endpoint :: string
  if_created :: time
  if_updated :: time
  if_automatic :: bool
  if_blocked :: "prefix list"

section \<open>Names, ports and pools\<close>

text \<open>The index of a name \<open>awgN\<close>, one to three digits.\<close>

definition iface_index :: "string \<Rightarrow> nat option" where
  "iface_index name =
     (if take 3 name = ''awg'' \<and> 4 \<le> length name \<and> length name \<le> 6 then parse_dec (drop 3 name) else None)"

definition ValidName :: "string \<Rightarrow> bool" where
  "ValidName name \<longleftrightarrow> iface_index name \<noteq> None"

definition ValidatePortRange :: "int \<Rightarrow> int \<Rightarrow> unit result" where
  "ValidatePortRange lo hi =
     (if lo < 1024 \<or> 65535 < lo \<or> hi < 1024 \<or> 65535 < hi then E CodeSettingInvalid
      else if hi < lo then E CodeSettingInvalid
      else Inr ())"

definition validatePort :: "int \<Rightarrow> unit result" where
  "validatePort p = (if p < 1024 \<or> 65535 < p then E CodeInvalidRequest else Inr ())"

definition MinUsefulPoolBits :: nat where
  "MinUsefulPoolBits = 29"

definition validatePoolSize :: "prefix \<Rightarrow> unit result" where
  "validatePoolSize p = (if MinUsefulPoolBits < p_bits p then E CodeSubnetInvalid else Inr ())"

text \<open>The ports tried, from a start the clock picks, around the window once.\<close>

definition port_candidates :: "int \<Rightarrow> int \<Rightarrow> int \<Rightarrow> int list" where
  "port_candidates lo span start = map (\<lambda>i. lo + (start + int i) mod span) [0..<nat span]"

definition allocatePort :: "iface_service \<Rightarrow> db \<Rightarrow> int result" where
  "allocatePort svc s =
     ebind (is_int svc ''network.port_min'') (\<lambda>lo.
     ebind (is_int svc ''network.port_max'') (\<lambda>hi.
     ebind (ValidatePortRange lo hi) (\<lambda>_.
       let span = hi - lo + 1; used = map i_port (ifaces s)
       in case find (\<lambda>p. p \<notin> set used) (port_candidates lo span (is_now svc mod span)) of
            Some p \<Rightarrow> Inr p
          | None \<Rightarrow> E CodePortInUse)))"

definition ladder_pool :: "nat \<Rightarrow> string" where
  "ladder_pool n = ''10.8.'' @ show_nat n @ ''.0/24''"

definition defaultPool :: "iface_service \<Rightarrow> nat \<Rightarrow> string" where
  "defaultPool svc n =
     (if n = 0 then
        (case is_string svc ''network.default_pool'' of
           Inr pool \<Rightarrow> if pool \<noteq> [] then pool else ladder_pool n
         | Inl _ \<Rightarrow> ladder_pool n)
      else ladder_pool n)"

definition NextAvailableName :: "iface_service \<Rightarrow> db \<Rightarrow> string result" where
  "NextAvailableName svc s =
     ebind (is_int svc ''interfaces.max_count'') (\<lambda>maxCount.
       let used = List.map_filter (iface_index \<circ> i_name) (ifaces s)
       in case find (\<lambda>n. n \<notin> set used) [0..<nat maxCount] of
            Some n \<Rightarrow> Inr (''awg'' @ show_nat n)
          | None \<Rightarrow> E CodeInvalidRequest)"

text \<open>
  \<open>MustParsePrefix\<close> panics on a text that is no prefix; the pools it is applied to have been validated,
  and an IPv6 host route never overlaps a pool.
\<close>

definition must_prefix :: "string \<Rightarrow> prefix" where
  "must_prefix s = (case parse_prefix s of Some p \<Rightarrow> p | None \<Rightarrow> \<lparr>p_addr = 0, p_bits = 0\<rparr>)"

definition checkHostPool :: "string \<Rightarrow> prefix list \<Rightarrow> unit result" where
  "checkHostPool pool routes =
     (if list_ex (\<lambda>route. overlaps (must_prefix pool) route) routes then E CodeSubnetOverlap else Inr ())"

fun overlap_scan :: "prefix \<Rightarrow> iface_row list \<Rightarrow> unit result" where
  "overlap_scan p [] = Inr ()"
| "overlap_scan p (r # rs) =
     ebind (Decode (i_subnet r) (i_extras r)) (\<lambda>pools.
       if list_ex (\<lambda>pool. overlaps p (must_prefix pool)) pools then E CodeSubnetOverlap
       else overlap_scan p rs)"

definition checkOverlaps :: "db \<Rightarrow> string \<Rightarrow> string \<Rightarrow> unit result" where
  "checkOverlaps s excludeID subnet =
     overlap_scan (must_prefix subnet) (filter (\<lambda>r. i_id r \<noteq> excludeID) (ifaces s))"

definition check_pool :: "db \<Rightarrow> iface \<Rightarrow> string \<Rightarrow> unit result" where
  "check_pool s ifc pool = ebind (checkHostPool pool (if_blocked ifc)) (\<lambda>_. checkOverlaps s (if_id ifc) pool)"

fun check_pools :: "db \<Rightarrow> iface \<Rightarrow> string list \<Rightarrow> unit result" where
  "check_pools s ifc [] = Inr ()"
| "check_pools s ifc (pool # pools) = ebind (check_pool s ifc pool) (\<lambda>_. check_pools s ifc pools)"

fun try_pools :: "db \<Rightarrow> iface \<Rightarrow> string list \<Rightarrow> iface result" where
  "try_pools s ifc [] = E CodeSubnetOverlap"
| "try_pools s ifc (pool # pools) =
     (case check_pool s ifc pool of
        Inr _ \<Rightarrow> Inr (ifc\<lparr>if_subnet := pool, if_pools := [pool]\<rparr>)
      | Inl e \<Rightarrow> if CodeOf e \<noteq> CodeSubnetOverlap then Inl e else try_pools s ifc pools)"

definition selectAutomaticPool :: "db \<Rightarrow> iface \<Rightarrow> iface result" where
  "selectAutomaticPool s ifc =
     (case check_pool s ifc (if_subnet ifc) of
        Inr _ \<Rightarrow> Inr ifc
      | Inl e \<Rightarrow> if CodeOf e \<noteq> CodeSubnetOverlap then Inl e else try_pools s ifc (map ladder_pool [0..<256]))"

section \<open>Stored form\<close>

definition nullInt :: "int \<Rightarrow> bool \<Rightarrow> int option" where
  "nullInt v present = (if present then Some v else None)"

definition null_text :: "string \<Rightarrow> string option" where
  "null_text t = (if t = [] then None else Some t)"

definition boolInt :: "bool \<Rightarrow> int" where
  "boolInt b = (if b then 1 else 0)"

definition obf_to_columns :: "obfuscation \<Rightarrow> obf_columns" where
  "obf_to_columns ob = \<lparr>oc_jc = nullInt (ob_jc ob) (ob_enabled ob), oc_jmin = nullInt (ob_jmin ob) (ob_enabled ob),
     oc_jmax = nullInt (ob_jmax ob) (ob_enabled ob), oc_s1 = nullInt (ob_s1 ob) (ob_enabled ob),
     oc_s2 = nullInt (ob_s2 ob) (ob_enabled ob),
     oc_h1 = range_value (ob_h1 ob), oc_h2 = range_value (ob_h2 ob), oc_h3 = range_value (ob_h3 ob), oc_h4 = range_value (ob_h4 ob),
     oc_i1 = null_text (ob_i1 ob), oc_i2 = null_text (ob_i2 ob), oc_i3 = null_text (ob_i3 ob),
     oc_i4 = null_text (ob_i4 ob), oc_i5 = null_text (ob_i5 ob), oc_s3 = ob_s3 ob, oc_s4 = ob_s4 ob, oc_hpk = ob_hpk ob,
     oc_padding = range_value (ob_padding ob), oc_rekey_after = range_value (ob_rekey_after ob),
     oc_rekey_timeout = range_value (ob_rekey_timeout ob), oc_reject_after = range_value (ob_reject_after ob),
     oc_keepalive = range_value (ob_keepalive ob), oc_max_handshake = range_value (ob_max_handshake ob),
     oc_trailers = boolInt (ob_trailers ob), oc_no_cookies = boolInt (ob_no_cookies ob)\<rparr>"

definition new_iface_row :: "iface \<Rightarrow> iface_row" where
  "new_iface_row ifc = \<lparr>i_id = if_id ifc, i_name = if_name ifc, i_port = if_port ifc, i_subnet = if_subnet ifc,
     i_extras = JsonValue [], i_mtu = if_mtu ifc, i_pubkey = if_pubkey ifc, i_privkey = if_privkey ifc,
     i_cols = obf_to_columns (if_obf ifc), i_preset = if_preset ifc, i_enabled = if_enabled ifc, i_mode = if_mode ifc,
     i_endpoint = if_endpoint ifc, i_created = if_created ifc, i_updated = if_updated ifc\<rparr>"

definition scanIface :: "iface_row \<Rightarrow> iface result" where
  "scanIface r =
     ebind (column_obfuscation (i_cols r)) (\<lambda>ob.
     ebind (Decode (i_subnet r) (i_extras r)) (\<lambda>pools.
       Inr \<lparr>if_id = i_id r, if_name = i_name r, if_port = i_port r, if_subnet = i_subnet r, if_pools = pools,
         if_mtu = i_mtu r, if_pubkey = i_pubkey r, if_privkey = i_privkey r, if_obf = ob, if_preset = i_preset r,
         if_enabled = i_enabled r, if_mode = i_mode r, if_endpoint = i_endpoint r, if_created = i_created r,
         if_updated = i_updated r, if_automatic = False, if_blocked = []\<rparr>))"

definition getBy :: "(iface_row \<Rightarrow> string) \<Rightarrow> db \<Rightarrow> string \<Rightarrow> iface result" where
  "getBy col s val =
     (case find_row col val (ifaces s) of
        None \<Rightarrow> E CodeInterfaceNotFound
      | Some r \<Rightarrow> scanIface r)"

definition Iface_Get :: "db \<Rightarrow> string \<Rightarrow> iface result" where
  "Iface_Get = getBy i_id"

definition GetByName :: "db \<Rightarrow> string \<Rightarrow> iface result" where
  "GetByName = getBy i_name"

definition Iface_List :: "db \<Rightarrow> iface list result" where
  "Iface_List s = load_all scanIface (sort_key i_name (ifaces s))"

section \<open>Creation\<close>

definition insertWithChecks :: "iface \<Rightarrow> db \<Rightarrow> (iface \<times> db) result" where
  "insertWithChecks ifc0 s =
     (if find_row i_name (if_name ifc0) (ifaces s) \<noteq> None then E CodeInterfaceNameTaken
      else if if_port ifc0 \<in> i_port ` set (ifaces s) then E CodePortInUse
      else ebind (if if_automatic ifc0 then selectAutomaticPool s ifc0 else Inr ifc0) (\<lambda>ifc.
        ebind (check_pools s ifc (if_pools ifc)) (\<lambda>_.
          if find_row i_id (if_id ifc) (ifaces s) \<noteq> None then E CodeInterfaceNameTaken
          else case Extras (if_pools ifc) of
            None \<Rightarrow> Inl (Foreign ''panic: slice bounds out of range'')
          | Some ex \<Rightarrow> Inr (ifc, s\<lparr>ifaces := update_rows (\<lambda>r. i_id r = if_id ifc) (\<lambda>r. r\<lparr>i_extras := ex\<rparr>)
              (ifaces s @ [new_iface_row ifc])\<rparr>))))"

definition resolveCreateProfile :: "iface_service \<Rightarrow> create_input \<Rightarrow> (obfuscation \<times> string) result" where
  "resolveCreateProfile svc inp =
     (let ob = ci_obf inp; given = trim_space (ci_preset inp);
          policy = (if given = [] then (if ob = plain_obf then ProfilePlain else ProfileCustom) else policy_of given)
      in ebind
        (if policy = ProfilePlain then (if ob \<noteq> plain_obf then E CodeParamConstraint else Inr ob)
         else if IsGeneratedProfilePolicy policy then
           (if ci_generated inp then ebind (ValidateGeneratedProfile policy ob) (\<lambda>_. Inr ob)
            else if ob \<noteq> plain_obf then E CodeParamConstraint
            else ebind (Generate policy (is_entropy svc)) (\<lambda>(profile, _). Inr profile))
         else if policy = ProfileCustom then
           (if ci_generated inp then E CodeParamConstraint
            else if ob = plain_obf then E CodeParamConstraint
            else ebind (ValidateObfuscation ob) (\<lambda>_. Inr ob))
         else E CodeParamConstraint)
        (\<lambda>ob'. ebind (ValidateObfuscation ob') (\<lambda>_. Inr (ob', policy_text policy))))"

definition choose_mode :: "iface_service \<Rightarrow> create_input \<Rightarrow> string result" where
  "choose_mode svc inp =
     (let mode = (if ci_mode inp = [] then ''kernel'' else ci_mode inp)
      in if mode \<noteq> ''kernel'' \<and> mode \<noteq> ''userspace'' then E CodeInvalidRequest
         else case (mode = ''userspace'', is_userspace svc) of
           (True, Some (Inl _)) \<Rightarrow> E CodeInvalidRequest
         | _ \<Rightarrow> Inr mode)"

definition choose_port :: "iface_service \<Rightarrow> db \<Rightarrow> create_input \<Rightarrow> int result" where
  "choose_port svc s inp =
     (if ci_port inp = 0 then allocatePort svc s
      else ebind (validatePort (ci_port inp)) (\<lambda>_. Inr (ci_port inp)))"

text \<open>The pools of a new interface and whether they were left to the service.\<close>

definition choose_pools :: "iface_service \<Rightarrow> nat \<Rightarrow> create_input \<Rightarrow> (string \<times> string list \<times> bool) result" where
  "choose_pools svc n inp =
     (let given = (case ci_pools inp of None \<Rightarrow> [] | Some ps \<Rightarrow> ps)
      in if ci_pools inp = Some [] then E CodeSubnetInvalid
         else if ci_subnet inp \<noteq> [] \<and> given \<noteq> [] then E CodeInvalidRequest
         else
           let subnet0 = (if given \<noteq> [] then hd given else ci_subnet inp);
               subnet = (if subnet0 = [] then defaultPool svc n else subnet0)
           in case ValidSubnet subnet of
                Inl _ \<Rightarrow> E CodeSubnetInvalid
              | Inr _ \<Rightarrow>
                  ebind (validatePoolSize (must_prefix subnet)) (\<lambda>_.
                  let pools = (if given = [] then [subnet] else given)
                  in ebind (Validate pools) (\<lambda>_. Inr (subnet, pools, given = [] \<and> ci_subnet inp = []))))"

definition choose_mtu :: "iface_service \<Rightarrow> create_input \<Rightarrow> int result" where
  "choose_mtu svc inp =
     ebind (if ci_mtu inp \<noteq> 0 then Inr (ci_mtu inp)
            else if policy_of (trim_space (ci_preset inp)) = ProfileSuggested then Inr SuggestedMTU
            else is_int svc ''network.mtu'') (\<lambda>mtu.
       if mtu < 576 \<or> 65535 < mtu then E CodeInvalidRequest else Inr mtu)"

definition build_iface :: "iface_service \<Rightarrow> db \<Rightarrow> string \<Rightarrow> create_input \<Rightarrow> iface result" where
  "build_iface svc s new_id inp =
     (case iface_index (ci_name inp) of
        None \<Rightarrow> E CodeInvalidRequest
      | Some n \<Rightarrow>
          ebind (is_int svc ''interfaces.max_count'') (\<lambda>maxCount.
          if maxCount \<le> int n then E CodeInvalidRequest
          else
            ebind (choose_mode svc inp) (\<lambda>mode.
            ebind (choose_port svc s inp) (\<lambda>port.
            ebind (choose_pools svc n inp) (\<lambda>(subnet, pools, automatic).
            ebind (choose_mtu svc inp) (\<lambda>mtu.
            if \<not> ValidEndpoint (ci_endpoint inp) then E CodeInvalidRequest
            else
              ebind (resolveCreateProfile svc inp) (\<lambda>(ob, preset).
              ebind (is_keypair svc) (\<lambda>(priv, pub).
              ebind (is_encrypt svc priv) (\<lambda>sealed.
              ebind (case is_routes svc of None \<Rightarrow> Inr [] | Some probe \<Rightarrow> probe (ci_name inp)) (\<lambda>routes.
                Inr \<lparr>if_id = new_id, if_name = ci_name inp, if_port = port, if_subnet = subnet, if_pools = pools,
                  if_mtu = mtu, if_pubkey = pub, if_privkey = sealed, if_obf = ob, if_preset = preset,
                  if_enabled = True, if_mode = mode, if_endpoint = trim_space (ci_endpoint inp),
                  if_created = is_now svc, if_updated = is_now svc, if_automatic = automatic,
                  if_blocked = routes\<rparr>)))))))))) "

definition Iface_Create :: "iface_service \<Rightarrow> db \<Rightarrow> string \<Rightarrow> create_input \<Rightarrow> iface result \<times> db" where
  "Iface_Create svc s new_id inp =
     (case build_iface svc s new_id inp of
        Inl e \<Rightarrow> (Inl e, s)
      | Inr ifc \<Rightarrow> WithTx s (insertWithChecks ifc))"

section \<open>Changes\<close>

definition Iface_SetEnabled :: "iface_service \<Rightarrow> db \<Rightarrow> string \<Rightarrow> bool \<Rightarrow> unit result \<times> db" where
  "Iface_SetEnabled svc s ident on =
     (if find_row i_id ident (ifaces s) = None then (E CodeInterfaceNotFound, s)
      else (Inr (), s\<lparr>ifaces := update_rows (\<lambda>r. i_id r = ident) (\<lambda>r. r\<lparr>i_enabled := on, i_updated := is_now svc\<rparr>) (ifaces s)\<rparr>))"

record update_input =
  ui_pools :: "string list option"
  ui_mtu :: "int option"
  ui_enabled :: "bool option"
  ui_endpoint :: "string option"
  ui_obf :: "obfuscation option"
  ui_preset :: "string option"
  ui_generated :: bool

definition classifySubmittedProfile :: "obfuscation \<Rightarrow> string option \<Rightarrow> bool \<Rightarrow> string result" where
  "classifySubmittedProfile profile requested by_server =
     (case requested of
        None \<Rightarrow>
          if by_server then E CodeParamConstraint
          else ebind (ValidateObfuscation profile) (\<lambda>_.
            Inr (policy_text (if profile = plain_obf then ProfilePlain else ProfileCustom)))
      | Some t \<Rightarrow>
          (let policy = policy_of (trim_space t) in
           if policy = ProfilePlain then
             (if by_server \<or> profile \<noteq> plain_obf then E CodeParamConstraint else Inr (policy_text policy))
           else if IsGeneratedProfilePolicy policy then
             (if \<not> by_server then E CodeParamConstraint
              else ebind (ValidateGeneratedProfile policy profile) (\<lambda>_. Inr (policy_text policy)))
           else if policy = ProfileCustom then
             (if by_server \<or> profile = plain_obf then E CodeParamConstraint
              else ebind (ValidateObfuscation profile) (\<lambda>_. Inr (policy_text policy)))
           else E CodeParamConstraint))"

definition edit_iface :: "iface_service \<Rightarrow> iface \<Rightarrow> update_input \<Rightarrow> iface result" where
  "edit_iface svc ifc inp =
     ebind (case (ui_pools inp, is_routes svc) of (Some _, Some probe) \<Rightarrow> probe (if_name ifc) | _ \<Rightarrow> Inr (if_blocked ifc)) (\<lambda>routes.
     ebind (case ui_mtu inp of None \<Rightarrow> Inr (if_mtu ifc)
            | Some m \<Rightarrow> if m < 576 \<or> 65535 < m then E CodeInvalidRequest else Inr m) (\<lambda>mtu.
     ebind (case ui_endpoint inp of None \<Rightarrow> Inr (if_endpoint ifc)
            | Some t \<Rightarrow> if ValidEndpoint t then Inr t else E CodeInvalidRequest) (\<lambda>endpoint.
     ebind (case ui_obf inp of
              Some ob \<Rightarrow> ebind (classifySubmittedProfile ob (ui_preset inp) (ui_generated inp)) (\<lambda>preset. Inr (ob, preset))
            | None \<Rightarrow> if ui_preset inp \<noteq> None \<or> ui_generated inp then E CodeParamConstraint
                      else Inr (if_obf ifc, if_preset ifc)) (\<lambda>(ob, preset).
       Inr (ifc\<lparr>if_blocked := routes, if_mtu := mtu, if_enabled := (case ui_enabled inp of None \<Rightarrow> if_enabled ifc | Some b \<Rightarrow> b),
         if_endpoint := endpoint, if_obf := ob, if_preset := preset, if_updated := is_now svc\<rparr>)))))"

text \<open>A registered address that no longer parses, or lies in a pool that goes away, stops the change.\<close>

fun stranded_scan :: "prefix list \<Rightarrow> device list \<Rightarrow> unit result" where
  "stranded_scan gone [] = Inr ()"
| "stranded_scan gone (d # ds) =
     (case parse_prefix (d_ipv4 d) of
        None \<Rightarrow> Inl (Foreign ''netip: parse prefix'')
      | Some p \<Rightarrow> if list_ex (\<lambda>q. contains q (p_addr p)) gone then E CodeSubnetOverlap else stranded_scan gone ds)"

definition updatePoolsTx :: "iface \<Rightarrow> string list \<Rightarrow> db \<Rightarrow> (iface \<times> db) result" where
  "updatePoolsTx ifc pools s =
     ebind (Validate pools) (\<lambda>_.
     case find_row i_id (if_id ifc) (ifaces s) of
       None \<Rightarrow> Inl (Foreign ''sql: no rows in result set'')
     | Some r \<Rightarrow>
         if hd pools \<noteq> i_subnet r then E CodeSubnetInvalid
         else ebind (Decode (i_subnet r) (i_extras r)) (\<lambda>old.
           ebind (check_pools s ifc pools) (\<lambda>_.
           let gone = map must_prefix (filter (\<lambda>pool. pool \<notin> set pools) old)
           in ebind (if gone = [] then Inr () else stranded_scan gone (filter (\<lambda>d. d_iface d = if_id ifc) (devices s))) (\<lambda>_.
             case Extras pools of
               None \<Rightarrow> Inl (Foreign ''panic: slice bounds out of range'')
             | Some ex \<Rightarrow> Inr (ifc\<lparr>if_pools := pools\<rparr>,
                 s\<lparr>ifaces := update_rows (\<lambda>r. i_id r = if_id ifc) (\<lambda>r. r\<lparr>i_extras := ex\<rparr>) (ifaces s)\<rparr>)))))"

definition iface_columns :: "iface \<Rightarrow> iface_row \<Rightarrow> iface_row" where
  "iface_columns ifc r = r\<lparr>i_mtu := if_mtu ifc, i_enabled := if_enabled ifc, i_endpoint := if_endpoint ifc,
     i_cols := obf_to_columns (if_obf ifc), i_preset := if_preset ifc, i_updated := if_updated ifc\<rparr>"

definition Iface_Update_from :: "iface_service \<Rightarrow> db \<Rightarrow> iface \<Rightarrow> update_input \<Rightarrow> iface result \<times> db" where
  "Iface_Update_from svc s ifc0 inp =
     (case edit_iface svc ifc0 inp of
        Inl e \<Rightarrow> (Inl e, s)
      | Inr ifc \<Rightarrow> WithTx s (\<lambda>s.
          ebind (case ui_pools inp of None \<Rightarrow> Inr (ifc, s) | Some pools \<Rightarrow> updatePoolsTx ifc pools s) (\<lambda>(ifc', s').
            Inr (ifc', s'\<lparr>ifaces := update_rows (\<lambda>r. i_id r = if_id ifc') (iface_columns ifc') (ifaces s')\<rparr>))))"

definition Iface_Update :: "iface_service \<Rightarrow> db \<Rightarrow> string \<Rightarrow> update_input \<Rightarrow> iface result \<times> db" where
  "Iface_Update svc s ident inp =
     (case Iface_Get s ident of
        Inl e \<Rightarrow> (Inl e, s)
      | Inr ifc \<Rightarrow> Iface_Update_from svc s ifc inp)"

section \<open>Removal\<close>

definition ensureNoDevices :: "db \<Rightarrow> string \<Rightarrow> unit result" where
  "ensureNoDevices s ident = (if list_ex (\<lambda>d. d_iface d = ident) (devices s) then E CodeInvalidRequest else Inr ())"

text \<open>
  The row goes with its queue of retired keys, and accounts lose it as their preferred interface; a
  device that still refers to it makes the statement fail.
\<close>

definition delete_iface_row :: "db \<Rightarrow> string \<Rightarrow> unit result \<times> db" where
  "delete_iface_row s ident =
     (if find_row i_id ident (ifaces s) = None then (E CodeInterfaceNotFound, s)
      else if list_ex (\<lambda>d. d_iface d = ident) (devices s) then (Inl (Foreign ''FOREIGN KEY constraint failed''), s)
      else (Inr (), s\<lparr>ifaces := delete_rows (\<lambda>r. i_id r = ident) (ifaces s),
        retired := filter (\<lambda>(i, _). i \<noteq> ident) (retired s),
        users := update_rows (\<lambda>u. u_interface u = Some ident) (\<lambda>u. u\<lparr>u_interface := None\<rparr>) (users s)\<rparr>))"

definition Iface_Delete :: "db \<Rightarrow> string \<Rightarrow> unit result \<times> db" where
  "Iface_Delete s ident =
     (case ensureNoDevices s ident of
        Inl e \<Rightarrow> (Inl e, s)
      | Inr _ \<Rightarrow> delete_iface_row s ident)"

text \<open>
  \<open>reconcile\<close> is the pass the caller supplies, \<open>None\<close> for a nil function. The joined errors of a failed
  removal are represented by the first one.
\<close>

definition rollback_enabled ::
  "iface_service \<Rightarrow> (db \<times> 'b \<Rightarrow> unit result \<times> db \<times> 'b) option \<Rightarrow> iface \<Rightarrow> error \<Rightarrow> db \<times> 'b \<Rightarrow> unit result \<times> db \<times> 'b" where
  "rollback_enabled svc reconcile ifc cause w =
     (if \<not> if_enabled ifc then (Inl cause, w)
      else case Iface_SetEnabled svc (fst w) (if_id ifc) True of
             (Inl _, s) \<Rightarrow> (Inl cause, s, snd w)
           | (Inr _, s) \<Rightarrow>
               (case reconcile of None \<Rightarrow> (Inl cause, s, snd w) | Some f \<Rightarrow> (Inl cause, snd (f (s, snd w)))))"

definition DeleteReconciled ::
  "iface_service \<Rightarrow> db \<times> 'b \<Rightarrow> string \<Rightarrow> (db \<times> 'b \<Rightarrow> unit result \<times> db \<times> 'b) option \<Rightarrow> unit result \<times> db \<times> 'b" where
  "DeleteReconciled svc w ident reconcile =
     (case Iface_Get (fst w) ident of
        Inl e \<Rightarrow> (Inl e, w)
      | Inr ifc \<Rightarrow>
          (case ensureNoDevices (fst w) ident of
             Inl e \<Rightarrow> (Inl e, w)
           | Inr _ \<Rightarrow>
               (case (if if_enabled ifc then Iface_SetEnabled svc (fst w) ident False else (Inr (), fst w)) of
                  (Inl e, s) \<Rightarrow> (Inl e, s, snd w)
                | (Inr _, s) \<Rightarrow>
                    (case (case reconcile of None \<Rightarrow> (Inr (), s, snd w) | Some f \<Rightarrow> f (s, snd w)) of
                       (Inl e, w1) \<Rightarrow> rollback_enabled svc reconcile ifc e w1
                     | (Inr _, w1) \<Rightarrow>
                         (case Iface_Delete (fst w1) ident of
                            (Inl e, s2) \<Rightarrow> rollback_enabled svc reconcile ifc e (s2, snd w1)
                          | (Inr _, s2) \<Rightarrow> (Inr (), s2, snd w1))))))"

section \<open>Occupancy\<close>

record pool_usage =
  us_cidr :: string
  us_capacity :: int
  us_used :: int
  us_free :: int

fun count_into :: "addr \<Rightarrow> pool_usage list \<Rightarrow> pool_usage list" where
  "count_into a [] = []"
| "count_into a (u # us) =
     (if contains (must_prefix (us_cidr u)) a then u\<lparr>us_used := us_used u + 1\<rparr> # us else u # count_into a us)"

fun count_devices :: "device list \<Rightarrow> pool_usage list \<Rightarrow> pool_usage list result" where
  "count_devices [] us = Inr us"
| "count_devices (d # ds) us =
     (case parse_prefix (d_ipv4 d) of
        None \<Rightarrow> E CodeSubnetInvalid
      | Some p \<Rightarrow> count_devices ds (count_into (p_addr p) us))"

definition Pool_Capacity :: "db \<Rightarrow> string \<Rightarrow> pool_usage list result" where
  "Pool_Capacity s ident =
     ebind (Iface_Get s ident) (\<lambda>ifc.
     ebind (count_devices (filter (\<lambda>d. d_iface d = ident) (devices s))
       (map (\<lambda>pool. \<lparr>us_cidr = pool, us_capacity = Capacity (must_prefix pool), us_used = 0, us_free = 0\<rparr>) (if_pools ifc))) (\<lambda>us.
       Inr (map (\<lambda>u. if us_used u \<le> us_capacity u then u\<lparr>us_free := us_capacity u - us_used u\<rparr> else u) us)))"

section \<open>The stored profile reads back\<close>

lemma scan_range_value:
  fixes r :: "'n::len word urange"
  assumes "r_low r \<le> r_high r"
  shows "scan_range (range_value r) = Inr r"
  using assms by (cases "range_is_zero r") (auto simp: range_value_def parse_show_range scalar_def range_is_zero_def)

lemma scan_range_ordered: "scan_range v = Inr (r :: 'n::len word urange) \<Longrightarrow> r_low r \<le> r_high r"
  by (cases v) (auto simp: scalar_def parse_range_ordered split: if_splits)

lemma columns_ordered: "column_obfuscation c = Inr ob \<Longrightarrow> ob_ordered ob"
  by (auto simp: column_obfuscation_def ob_ordered_def profile_headers_def scanU32_def scanU16_def Let_def tx_simps
      dest!: scan_range_ordered)

lemma columns_roundtrip:
  assumes "ob_ordered ob" "ValidateObfuscation ob = Inr ()"
  shows "column_obfuscation (obf_to_columns ob) = Inr ob"
proof -
  have unset: "\<not> ob_enabled ob \<Longrightarrow> ob = plain_obf"
    using assms(2) params_unset_iff[of ob] by (auto simp: ValidateObfuscation_def split: if_splits)
  have t: "(case null_text x of None \<Rightarrow> [] | Some v \<Rightarrow> v) = x" for x by (simp add: null_text_def)
  have b: "(boolInt x = 1) = x" for x by (simp add: boolInt_def)
  from assms(1) have o: "r_low (ob_h1 ob) \<le> r_high (ob_h1 ob)" "r_low (ob_h2 ob) \<le> r_high (ob_h2 ob)"
    "r_low (ob_h3 ob) \<le> r_high (ob_h3 ob)" "r_low (ob_h4 ob) \<le> r_high (ob_h4 ob)"
    "r_low (ob_padding ob) \<le> r_high (ob_padding ob)" "r_low (ob_rekey_after ob) \<le> r_high (ob_rekey_after ob)"
    "r_low (ob_rekey_timeout ob) \<le> r_high (ob_rekey_timeout ob)" "r_low (ob_reject_after ob) \<le> r_high (ob_reject_after ob)"
    "r_low (ob_keepalive ob) \<le> r_high (ob_keepalive ob)" "r_low (ob_max_handshake ob) \<le> r_high (ob_max_handshake ob)"
    by (simp_all add: ob_ordered_def profile_headers_def)
  show ?thesis
  proof (cases "ob_enabled ob")
    case True
    then show ?thesis
      using o by (simp add: column_obfuscation_def obf_to_columns_def scanU32_def scanU16_def scan_range_value nullInt_def t b)
  next
    case False
    from unset[OF this] show ?thesis
      using o by (simp add: column_obfuscation_def obf_to_columns_def scanU32_def scanU16_def scan_range_value nullInt_def t b)
        (simp add: plain_obf_def)
  qed
qed

section \<open>The automatic ladder\<close>

definition ladder_prefix :: "nat \<Rightarrow> prefix" where
  "ladder_prefix n = \<lparr>p_addr = addr_of 10 8 n 0, p_bits = 24\<rparr>"

lemma unat_addr_of:
  assumes "a < 256" "b < 256" "c < 256" "d < 256"
  shows "unat (addr_of a b c d) = ((a * 256 + b) * 256 + c) * 256 + d"
  unfolding addr_of_def unat_of_nat by (rule mod_less) (use assms in simp)

lemma octets_of:
  assumes "a < 256" "b < 256" "c < 256" "d < 256"
  shows "octet 24 (addr_of a b c d) = a" "octet 16 (addr_of a b c d) = b" "octet 8 (addr_of a b c d) = c" "octet 0 (addr_of a b c d) = d"
proof -
  have q: "(x * 256 + y) div 256 = x" "(x * 256 + y) mod 256 = y" if "y < 256" for x y :: nat using that by simp_all
  have k: "(2::nat) ^ 24 = 256 * (256 * 256)" "(2::nat) ^ 16 = 256 * 256" "(2::nat) ^ 8 = 256" by simp_all
  show "octet 24 (addr_of a b c d) = a" "octet 16 (addr_of a b c d) = b" "octet 8 (addr_of a b c d) = c" "octet 0 (addr_of a b c d) = d"
    using assms unfolding octet_def unat_addr_of[OF assms] k div_mult2_eq power_0 div_by_1
    by (simp_all only: q mod_less)
qed

lemma ladder_show:
  assumes "n < 256"
  shows "ladder_pool n = show_prefix (ladder_prefix n)"
proof -
  have "show_nat 10 = ''10''" "show_nat 8 = ''8''" "show_nat 0 = ''0''" "show_nat 24 = ''24''"
    by (simp_all add: show_literals)
  with assms show ?thesis
    by (simp add: ladder_pool_def ladder_prefix_def show_prefix_def show_addr_def octets_of)
qed

lemma ladder_parse:
  assumes "n < 256"
  shows "Parse (ladder_pool n) = Inr (ladder_prefix n)"
proof -
  let ?p = "ladder_prefix n"
  have h: "host_bits ?p = 8" by (simp add: host_bits_def ladder_prefix_def)
  have u: "unat (p_addr ?p) = ((10 * 256 + 8) * 256 + n) * 256"
    using assms by (simp add: ladder_prefix_def unat_addr_of)
  have "unat (masked_addr ?p) = unat (p_addr ?p)" unfolding unat_masked h u by simp
  then have m: "masked_addr ?p = p_addr ?p" by (simp add: word_unat_eq_iff)
  have lst: "unat (Last ?p) = ((10 * 256 + 8) * 256 + n) * 256 + 255" unfolding unat_Last m h u by simp
  have pr: "is_private (p_addr ?p)" "is_private (Last ?p)"
    using assms unfolding is_private_ranges private_range_def u lst by simp_all
  have "parse_prefix (ladder_pool n) = Some ?p"
    unfolding ladder_show[OF assms] by (rule parse_show_prefix) (simp add: ladder_prefix_def)
  with m pr show ?thesis by (simp add: Parse_def masked_def ladder_prefix_def)
qed

lemma ladder_valid: "n < 256 \<Longrightarrow> Validate [ladder_pool n] = Inr ()"
  by (simp add: Validate_def MaxPools_def ladder_parse)

section \<open>The interface table\<close>

definition pools_of :: "iface_row \<Rightarrow> string list" where
  "pools_of r = (case Decode (i_subnet r) (i_extras r) of Inr ps \<Rightarrow> ps | Inl _ \<Rightarrow> [])"

definition iface_row_ok :: "iface_row \<Rightarrow> bool" where
  "iface_row_ok r \<longleftrightarrow> ValidName (i_name r) \<and> 1024 \<le> i_port r \<and> i_port r \<le> 65535 \<and> 576 \<le> i_mtu r \<and> i_mtu r \<le> 65535
     \<and> (i_mode r = ''kernel'' \<or> i_mode r = ''userspace'') \<and> ValidEndpoint (i_endpoint r)
     \<and> (\<exists>ob. column_obfuscation (i_cols r) = Inr ob \<and> ValidateObfuscation ob = Inr ())
     \<and> Decode (i_subnet r) (i_extras r) = Inr (pools_of r)"

definition apart :: "string list \<Rightarrow> string list \<Rightarrow> bool" where
  "apart ps qs \<longleftrightarrow> (\<forall>p \<in> set ps. \<forall>q \<in> set qs. \<not> overlaps (must_prefix p) (must_prefix q))"

definition ifaces_inv :: "db \<Rightarrow> bool" where
  "ifaces_inv s \<longleftrightarrow> unique_on i_id (ifaces s) \<and> unique_on i_name (ifaces s) \<and> unique_on i_port (ifaces s)
     \<and> (\<forall>r \<in> set (ifaces s). iface_row_ok r)
     \<and> (\<forall>r \<in> set (ifaces s). \<forall>r' \<in> set (ifaces s). i_id r \<noteq> i_id r' \<longrightarrow> apart (pools_of r) (pools_of r'))"

lemma overlaps_sym: "overlaps p q \<longleftrightarrow> overlaps q p"
  by (auto simp: overlaps_iff_common)

lemma apart_sym: "apart ps qs \<longleftrightarrow> apart qs ps"
  unfolding apart_def using overlaps_sym by blast

lemma row_loads:
  assumes "iface_row_ok r" "decrypt (i_privkey r) = Inr pt"
  shows "\<exists>d. load_interface decrypt r = Inr d \<and> di_name d = i_name r \<and> di_pools d = pools_of r \<and> di_enabled d = i_enabled r"
  using assms by (auto simp: iface_row_ok_def load_interface_def)

lemma row_scans:
  assumes "iface_row_ok r"
  shows "\<exists>ifc. scanIface r = Inr ifc \<and> if_id ifc = i_id r \<and> if_name ifc = i_name r \<and> if_mtu ifc = i_mtu r
    \<and> if_endpoint ifc = i_endpoint r \<and> if_enabled ifc = i_enabled r
    \<and> ob_ordered (if_obf ifc) \<and> ValidateObfuscation (if_obf ifc) = Inr ()"
  using assms by (auto simp: iface_row_ok_def scanIface_def columns_ordered)

lemma overlap_scan_ok:
  "overlap_scan p rs = Inr () \<Longrightarrow> r \<in> set rs \<Longrightarrow>
     Decode (i_subnet r) (i_extras r) = Inr (pools_of r) \<and> (\<forall>q \<in> set (pools_of r). \<not> overlaps p (must_prefix q))"
  by (induction rs) (auto simp: tx_simps pools_of_def list_ex_iff)

lemma checkOverlaps_ok:
  "checkOverlaps s ident pool = Inr () \<Longrightarrow> r \<in> set (ifaces s) \<Longrightarrow> i_id r \<noteq> ident \<Longrightarrow> apart [pool] (pools_of r)"
  using overlap_scan_ok[of "must_prefix pool" "filter (\<lambda>r. i_id r \<noteq> ident) (ifaces s)" r]
  by (auto simp: checkOverlaps_def apart_def)

lemma check_pools_ok:
  assumes "check_pools s ifc pools = Inr ()"
  shows "r \<in> set (ifaces s) \<Longrightarrow> i_id r \<noteq> if_id ifc \<Longrightarrow> apart pools (pools_of r)"
    and "p \<in> set pools \<Longrightarrow> \<not> (\<exists>route \<in> set (if_blocked ifc). overlaps (must_prefix p) route)"
  using assms
proof (induction pools)
  case (Cons pool pools)
  {
    case 1
    with Cons checkOverlaps_ok[of s "if_id ifc" pool r] show ?case
      by (auto simp: tx_simps check_pool_def apart_def)
  next
    case 2
    with Cons show ?case by (auto simp: tx_simps check_pool_def checkHostPool_def list_ex_iff split: if_splits)
  }
qed (auto simp: apart_def)

lemma try_pools_ok: "try_pools s ifc pools = Inr ifc' \<Longrightarrow> \<exists>pool \<in> set pools. ifc' = ifc\<lparr>if_subnet := pool, if_pools := [pool]\<rparr>"
  by (induction pools) (auto split: sum.splits if_splits)

lemma selectAutomaticPool_ok:
  assumes "selectAutomaticPool s ifc = Inr ifc'" "Validate [if_subnet ifc] = Inr ()" "if_pools ifc = [if_subnet ifc]"
  shows "\<exists>pool. ifc' = ifc\<lparr>if_subnet := pool, if_pools := [pool]\<rparr> \<and> Validate [pool] = Inr ()"
proof -
  have "ifc = ifc\<lparr>if_subnet := if_subnet ifc, if_pools := [if_subnet ifc]\<rparr>" using assms(3) by (cases ifc) simp
  moreover have "ifc' = ifc \<or> try_pools s ifc (map ladder_pool [0..<256]) = Inr ifc'"
    using assms(1) by (auto simp: selectAutomaticPool_def split: sum.splits if_splits)
  moreover have "\<exists>pool. ifc' = ifc\<lparr>if_subnet := pool, if_pools := [pool]\<rparr> \<and> Validate [pool] = Inr ()"
    if "try_pools s ifc (map ladder_pool [0..<256]) = Inr ifc'"
    using try_pools_ok[OF that] ladder_valid by auto
  ultimately show ?thesis using assms(2) by metis
qed

text \<open>What the checks before the transaction establish of a new interface.\<close>

definition draft_ok :: "iface \<Rightarrow> bool" where
  "draft_ok ifc \<longleftrightarrow> ValidName (if_name ifc) \<and> 1024 \<le> if_port ifc \<and> if_port ifc \<le> 65535
     \<and> 576 \<le> if_mtu ifc \<and> if_mtu ifc \<le> 65535
     \<and> (if_mode ifc = ''kernel'' \<or> if_mode ifc = ''userspace'') \<and> ValidEndpoint (if_endpoint ifc)
     \<and> ob_ordered (if_obf ifc) \<and> ValidateObfuscation (if_obf ifc) = Inr ()
     \<and> Validate (if_pools ifc) = Inr () \<and> if_pools ifc \<noteq> [] \<and> hd (if_pools ifc) = if_subnet ifc
     \<and> (if_automatic ifc \<longrightarrow> if_pools ifc = [if_subnet ifc])"

definition stored_row :: "iface \<Rightarrow> iface_row" where
  "stored_row ifc = (new_iface_row ifc)\<lparr>i_extras := JsonValue (tl (if_pools ifc))\<rparr>"

lemma stored_row_sel [simp]:
  "i_id (stored_row ifc) = if_id ifc" "i_name (stored_row ifc) = if_name ifc" "i_port (stored_row ifc) = if_port ifc"
  "i_privkey (stored_row ifc) = if_privkey ifc" "i_enabled (stored_row ifc) = if_enabled ifc" "i_mtu (stored_row ifc) = if_mtu ifc"
  "i_mode (stored_row ifc) = if_mode ifc" "i_endpoint (stored_row ifc) = if_endpoint ifc" "i_subnet (stored_row ifc) = if_subnet ifc"
  by (simp_all add: stored_row_def new_iface_row_def)

lemma stored_pools:
  assumes "draft_ok ifc"
  shows "pools_of (stored_row ifc) = if_pools ifc"
    "Decode (i_subnet (stored_row ifc)) (i_extras (stored_row ifc)) = Inr (if_pools ifc)"
proof -
  have "if_subnet ifc # tl (if_pools ifc) = if_pools ifc" using assms by (cases "if_pools ifc") (auto simp: draft_ok_def)
  then show "Decode (i_subnet (stored_row ifc)) (i_extras (stored_row ifc)) = Inr (if_pools ifc)"
    using assms by (simp add: Decode_def stored_row_def new_iface_row_def draft_ok_def)
  then show "pools_of (stored_row ifc) = if_pools ifc" by (simp add: pools_of_def)
qed

lemma stored_row_ok: "draft_ok ifc \<Longrightarrow> iface_row_ok (stored_row ifc)"
  using stored_pools[of ifc] columns_roundtrip[of "if_obf ifc"]
  by (auto simp: iface_row_ok_def draft_ok_def stored_row_def new_iface_row_def)

lemma insert_ok:
  assumes "insertWithChecks ifc0 s = Inr (ifc, s')" "draft_ok ifc0"
  shows "draft_ok ifc" "s' = s\<lparr>ifaces := ifaces s @ [stored_row ifc]\<rparr>" "check_pools s ifc (if_pools ifc) = Inr ()"
    "if_name ifc \<notin> i_name ` set (ifaces s)" "if_port ifc \<notin> i_port ` set (ifaces s)" "if_id ifc \<notin> i_id ` set (ifaces s)"
    "\<exists>pool. ifc = (if if_automatic ifc0 then ifc0\<lparr>if_subnet := pool, if_pools := [pool]\<rparr> else ifc0)"
proof -
  from assms(1) have n: "find_row i_name (if_name ifc0) (ifaces s) = None" "if_port ifc0 \<notin> i_port ` set (ifaces s)"
    and sel: "(if if_automatic ifc0 then selectAutomaticPool s ifc0 else Inr ifc0) = Inr ifc"
    and chk: "check_pools s ifc (if_pools ifc) = Inr ()" and fresh: "find_row i_id (if_id ifc) (ifaces s) = None"
    and ins: "\<exists>ex. Extras (if_pools ifc) = Some ex \<and> s' = s\<lparr>ifaces := update_rows (\<lambda>r. i_id r = if_id ifc) (\<lambda>r. r\<lparr>i_extras := ex\<rparr>)
      (ifaces s @ [new_iface_row ifc])\<rparr>"
    by (auto simp: insertWithChecks_def tx_simps split: if_splits option.splits)
  have one: "\<exists>pool. ifc = (if if_automatic ifc0 then ifc0\<lparr>if_subnet := pool, if_pools := [pool]\<rparr> else ifc0)
      \<and> (if_automatic ifc0 \<longrightarrow> Validate [pool] = Inr ())"
  proof (cases "if_automatic ifc0")
    case True
    with assms(2) have "Validate [if_subnet ifc0] = Inr ()" "if_pools ifc0 = [if_subnet ifc0]" by (auto simp: draft_ok_def)
    with True sel selectAutomaticPool_ok[of s ifc0 ifc] show ?thesis by auto
  qed (use sel in simp)
  then show d: "draft_ok ifc" using assms(2) by (auto simp: draft_ok_def split: if_splits)
  show "check_pools s ifc (if_pools ifc) = Inr ()" by fact
  show id_fresh: "if_id ifc \<notin> i_id ` set (ifaces s)" using fresh by (simp add: find_row_None_iff)
  show "if_name ifc \<notin> i_name ` set (ifaces s)" "if_port ifc \<notin> i_port ` set (ifaces s)"
    using n one by (auto simp: find_row_None_iff split: if_splits)
  show "\<exists>pool. ifc = (if if_automatic ifc0 then ifc0\<lparr>if_subnet := pool, if_pools := [pool]\<rparr> else ifc0)" using one by blast
  from d ins obtain ps where ps: "if_pools ifc = if_subnet ifc # ps" by (cases "if_pools ifc") (auto simp: draft_ok_def)
  have same: "update_rows (\<lambda>r. i_id r = if_id ifc) f (ifaces s) = ifaces s" for f
    using id_fresh unfolding update_rows_def by (intro map_idI) (auto simp: image_iff)
  have "update_rows (\<lambda>r. i_id r = if_id ifc) (\<lambda>r. r\<lparr>i_extras := JsonValue ps\<rparr>) (ifaces s @ [new_iface_row ifc])
      = ifaces s @ [stored_row ifc]"
    using same[of "\<lambda>r. r\<lparr>i_extras := JsonValue ps\<rparr>"] ps
    by (simp add: update_rows_def stored_row_def new_iface_row_def)
  with ins ps show "s' = s\<lparr>ifaces := ifaces s @ [stored_row ifc]\<rparr>" by auto
qed

lemma insert_inv:
  assumes "ifaces_inv s" "insertWithChecks ifc0 s = Inr (ifc, s')" "draft_ok ifc0"
  shows "ifaces_inv s'"
proof -
  note ok = insert_ok[OF assms(2,3)]
  have "apart (pools_of (stored_row ifc)) (pools_of r)" if "r \<in> set (ifaces s)" for r
    using check_pools_ok(1)[OF ok(3) that] ok(6) that by (auto simp: stored_pools[OF ok(1)] image_iff)
  with assms(1) ok stored_row_ok[OF ok(1)] show ?thesis
    by (auto simp: ifaces_inv_def unique_on_append_one apart_sym)
qed

section \<open>Ports\<close>

lemma set_port_candidates:
  assumes "0 < span"
  shows "set (port_candidates lo span start) = {lo ..< lo + span}"
proof
  show "set (port_candidates lo span start) \<subseteq> {lo ..< lo + span}"
    using assms by (auto simp: port_candidates_def)
  show "{lo ..< lo + span} \<subseteq> set (port_candidates lo span start)"
  proof
    fix p assume p: "p \<in> {lo ..< lo + span}"
    define i where "i = nat ((p - lo - start) mod span)"
    have i: "int i = (p - lo - start) mod span" "i < nat span"
      using assms pos_mod_bound[OF assms, of "p - lo - start"] by (simp_all add: i_def nat_less_iff)
    have "(start + int i) mod span = (p - lo) mod span" unfolding i(1) by (simp add: mod_simps)
    also have "\<dots> = p - lo" using p by simp
    finally have "p = lo + (start + int i) mod span" by simp
    with i(2) show "p \<in> set (port_candidates lo span start)" by (auto simp: port_candidates_def image_iff)
  qed
qed

lemma allocatePort_cases:
  assumes "is_int svc ''network.port_min'' = Inr lo" "is_int svc ''network.port_max'' = Inr hi"
  shows "allocatePort svc s =
    (if ValidatePortRange lo hi \<noteq> Inr () then E CodeSettingInvalid
     else case find (\<lambda>p. p \<notin> i_port ` set (ifaces s)) (port_candidates lo (hi - lo + 1) (is_now svc mod (hi - lo + 1))) of
       Some p \<Rightarrow> Inr p | None \<Rightarrow> E CodePortInUse)"
  using assms by (auto simp: allocatePort_def ValidatePortRange_def Let_def)

lemma allocatePort_ok:
  assumes "allocatePort svc s = Inr p"
  shows "1024 \<le> p \<and> p \<le> 65535 \<and> p \<notin> i_port ` set (ifaces s)"
proof -
  from assms obtain lo hi where r: "is_int svc ''network.port_min'' = Inr lo" "is_int svc ''network.port_max'' = Inr hi"
    "ValidatePortRange lo hi = Inr ()"
    by (auto simp: allocatePort_def tx_simps)
  from r(3) have b: "1024 \<le> lo" "lo \<le> hi" "hi \<le> 65535" by (auto simp: ValidatePortRange_def split: if_splits)
  from assms[unfolded allocatePort_cases[OF r(1,2)]] r(3) obtain
    "p \<in> set (port_candidates lo (hi - lo + 1) (is_now svc mod (hi - lo + 1)))" "p \<notin> i_port ` set (ifaces s)"
    by (auto simp: find_Some_iff split: option.splits)
  with b show ?thesis by (auto simp: set_port_candidates)
qed

text \<open>
  Automatic port allocation is complete: within a valid window it returns a port of the window that no
  interface listens on, whatever the clock says, and it reports that the ports are used up exactly
  when every port of the window is taken. A window that is not valid is refused.
\<close>

theorem allocate_port_correct:
  assumes "is_int svc ''network.port_min'' = Inr lo" "is_int svc ''network.port_max'' = Inr hi"
  shows "if 1024 \<le> lo \<and> lo \<le> hi \<and> hi \<le> 65535
    then (\<exists>p. allocatePort svc s = Inr p \<and> lo \<le> p \<and> p \<le> hi \<and> p \<notin> i_port ` set (ifaces s))
       \<or> (allocatePort svc s = E CodePortInUse \<and> {lo..hi} \<subseteq> i_port ` set (ifaces s))
    else allocatePort svc s = E CodeSettingInvalid"
proof (cases "1024 \<le> lo \<and> lo \<le> hi \<and> hi \<le> 65535")
  case True
  then have v: "ValidatePortRange lo hi = Inr ()" by (auto simp: ValidatePortRange_def)
  let ?c = "port_candidates lo (hi - lo + 1) (is_now svc mod (hi - lo + 1))"
  have set_c: "set ?c = {lo..hi}" using True by (auto simp: set_port_candidates)
  show ?thesis
  proof (cases "find (\<lambda>p. p \<notin> i_port ` set (ifaces s)) ?c")
    case None
    with set_c have "{lo..hi} \<subseteq> i_port ` set (ifaces s)" by (auto simp: find_None_iff)
    moreover have "allocatePort svc s = E CodePortInUse" by (simp add: allocatePort_cases[OF assms] v None)
    ultimately show ?thesis using True by simp
  next
    case (Some p)
    then have "p \<in> set ?c" "p \<notin> i_port ` set (ifaces s)" by (auto simp: find_Some_iff)
    with set_c v True Some show ?thesis by (auto simp: allocatePort_cases[OF assms])
  qed
next
  case False
  then show ?thesis by (auto simp: allocatePort_cases[OF assms] ValidatePortRange_def)
qed

section \<open>Creation\<close>

lemma space_char:
  assumes "is_space c"
  shows "[c] \<in> set space_texts"
proof -
  have "char_of (9::nat) = CHR 0x09" "char_of (10::nat) = CHR 0x0A" "char_of (11::nat) = CHR 0x0B"
    "char_of (12::nat) = CHR 0x0C" "char_of (13::nat) = CHR 0x0D" "char_of (32::nat) = CHR 0x20"
    by (simp_all add: char_of_def bit_0)
  moreover have "c = char_of (of_char c :: nat)" by simp
  ultimately have "c \<in> {CHR 0x09, CHR 0x0A, CHR 0x0B, CHR 0x0C, CHR 0x0D, CHR 0x20}"
    using assms unfolding is_space_def by (metis insert_iff singletonD)
  then show ?thesis by (auto simp: space_texts_def)
qed

lemma trimmed_trim_space: "trimmed s \<Longrightarrow> trim_space s = s"
proof -
  assume t: "trimmed s"
  show ?thesis
  proof (cases "s = []")
    case False
    have "\<not> is_space (hd s)"
    proof
      assume "is_space (hd s)"
      with space_char t have "take (length [hd s]) s \<noteq> [hd s]" unfolding trimmed_def list_ex_iff by blast
      with False show False by (cases s) auto
    qed
    moreover have "\<not> is_space (last s)"
    proof
      assume "is_space (last s)"
      with space_char t have "drop (length s - length [last s]) s \<noteq> [last s]" unfolding trimmed_def list_ex_iff by blast
      with False show False by (cases s rule: rev_cases) auto
    qed
    ultimately have "dropWhile is_space s = s" "dropWhile is_space (rev s) = rev s"
      using False by (auto simp: dropWhile_eq_self_iff hd_rev)
    then show ?thesis by (simp add: trim_space_def)
  qed (simp add: trim_space_def)
qed

lemma ValidEndpoint_trim: "ValidEndpoint t \<Longrightarrow> trim_space t = t"
  by (cases "t = []") (auto simp: ValidEndpoint_def trim_space_def trimmed_trim_space[unfolded trim_space_def] split: if_splits)

lemma resolve_ok:
  assumes "resolveCreateProfile svc inp = Inr (ob, preset)" "ob_ordered (ci_obf inp)"
  shows "ob_ordered ob \<and> ValidateObfuscation ob = Inr ()"
proof -
  from assms(1) have v: "ValidateObfuscation ob = Inr ()"
    by (auto simp: resolveCreateProfile_def Let_def tx_simps)
  have "ob = ci_obf inp \<or> (\<exists>policy bs. IsGeneratedProfilePolicy policy \<and> Generate policy (is_entropy svc) = Inr (ob, bs))"
    using assms(1) unfolding resolveCreateProfile_def Let_def
    by (auto simp: tx_simps split: if_splits)
  with assms(2) yields_post[OF yields_Generate] v show ?thesis by (auto simp: accepted_def)
qed

lemma Validate_hd:
  assumes "Validate pools = Inr ()"
  shows "pools \<noteq> []" "hd pools \<noteq> []"
proof -
  show "pools \<noteq> []" using assms by (auto simp: Validate_def)
  have "Parse [] \<noteq> Inr p" for p by (simp add: Parse_def parse_prefix_def)
  then show "hd pools \<noteq> []" using assms by (cases pools) (auto simp: Validate_def tx_simps split: if_splits)
qed

lemma choose_pools_ok:
  assumes "choose_pools svc n inp = Inr (subnet, pools, automatic)"
  shows "Validate pools = Inr () \<and> pools \<noteq> [] \<and> hd pools = subnet \<and> (automatic \<longrightarrow> pools = [subnet])"
proof -
  from assms have v: "Validate pools = Inr ()"
    by (auto simp: choose_pools_def Let_def tx_simps split: if_splits sum.splits)
  from assms Validate_hd[OF v] v show ?thesis
    by (auto simp: choose_pools_def Let_def tx_simps split: if_splits sum.splits)
qed

lemma choose_port_ok: "choose_port svc s inp = Inr p \<Longrightarrow> 1024 \<le> p \<and> p \<le> 65535"
  by (auto simp: choose_port_def validatePort_def tx_simps dest: allocatePort_ok split: if_splits)

lemma choose_mode_ok: "choose_mode svc inp = Inr m \<Longrightarrow> m = ''kernel'' \<or> m = ''userspace''"
  by (auto simp: choose_mode_def Let_def split: if_splits option.splits sum.splits bool.splits)

lemma build_draft:
  assumes "build_iface svc s new_id inp = Inr ifc" "ob_ordered (ci_obf inp)"
  shows "draft_ok ifc" "if_id ifc = new_id" "if_name ifc = ci_name inp" "if_enabled ifc" "if_preset ifc \<noteq> []"
proof -
  from assms(1) obtain n maxCount mode port subnet pools auto mtu ob preset priv pub key routes where
    n: "iface_index (ci_name inp) = Some n" and mode: "choose_mode svc inp = Inr mode"
    and port: "choose_port svc s inp = Inr port" and pools: "choose_pools svc n inp = Inr (subnet, pools, auto)"
    and mtu: "choose_mtu svc inp = Inr mtu" and ep: "ValidEndpoint (ci_endpoint inp)"
    and prof: "resolveCreateProfile svc inp = Inr (ob, preset)"
    and ifc: "ifc = \<lparr>if_id = new_id, if_name = ci_name inp, if_port = port, if_subnet = subnet, if_pools = pools,
                  if_mtu = mtu, if_pubkey = pub, if_privkey = key, if_obf = ob, if_preset = preset,
                  if_enabled = True, if_mode = mode, if_endpoint = trim_space (ci_endpoint inp),
                  if_created = is_now svc, if_updated = is_now svc, if_automatic = auto,
                  if_blocked = routes\<rparr>"
    by (auto simp: build_iface_def tx_simps split: option.splits if_splits)
  have "576 \<le> mtu \<and> mtu \<le> 65535" using mtu by (auto simp: choose_mtu_def tx_simps split: if_splits)
  with n mode port pools ep prof show "draft_ok ifc"
    unfolding draft_ok_def ifc
    using choose_mode_ok choose_port_ok choose_pools_ok resolve_ok[OF prof assms(2)] ValidEndpoint_trim[OF ep]
    by (auto simp: ValidName_def)
  show "if_id ifc = new_id" "if_name ifc = ci_name inp" "if_enabled ifc" by (simp_all add: ifc)
  have "policy_text p \<noteq> []" if "p = ProfilePlain \<or> IsGeneratedProfilePolicy p \<or> p = ProfileCustom" for p
    using that by (auto simp: policy_text_def policy_texts_def IsGeneratedProfilePolicy_def)
  with prof show "if_preset ifc \<noteq> []"
    by (auto simp: ifc resolveCreateProfile_def Let_def tx_simps split: if_splits)
qed

text \<open>
  C23. Creating an interface leaves the table sound. On error nothing changes. On success exactly one row is
  added under the requested name, with a listen port of its own between 1024 and 65535 and pools
  that no other interface and no host route reaches into; the table invariant (valid, disjoint,
  loadable rows) is kept, so that reconciliation can load the new interface with exactly these
  pools, and reading it got gives the profile that was stored.
\<close>

theorem iface_create_correct:
  assumes "ifaces_inv s" "ob_ordered (ci_obf inp)" "Iface_Create svc s new_id inp = (res, s')"
  shows "(\<forall>e. res = Inl e \<longrightarrow> s' = s)
    \<and> (\<forall>ifc. res = Inr ifc \<longrightarrow> ifaces_inv s' \<and> (\<exists>row. s' = s\<lparr>ifaces := ifaces s @ [row]\<rparr>
         \<and> i_id row = new_id \<and> i_name row = ci_name inp \<and> i_port row = if_port ifc \<and> i_enabled row
         \<and> 1024 \<le> i_port row \<and> i_port row \<le> 65535 \<and> i_port row \<notin> i_port ` set (ifaces s)
         \<and> (\<forall>r \<in> set (ifaces s). apart (pools_of row) (pools_of r))
         \<and> (\<forall>p \<in> set (pools_of row). \<forall>route \<in> set (if_blocked ifc). \<not> overlaps (must_prefix p) route)
         \<and> (\<forall>decrypt pt. decrypt (i_privkey row) = Inr pt \<longrightarrow>
              (\<exists>d. load_interface decrypt row = Inr d \<and> di_pools d = if_pools ifc \<and> di_obf d = if_obf ifc))
         \<and> (\<exists>got. Iface_Get s' new_id = Inr got \<and> if_obf got = if_obf ifc \<and> if_pools got = if_pools ifc)))"
proof (intro conjI allI impI)
  show "s' = s" if "res = Inl e" for e
    using assms(3) that by (auto simp: Iface_Create_def WithTx_Inl split: sum.splits)
next
  fix ifc assume r: "res = Inr ifc"
  with assms(3) obtain ifc0 where b: "build_iface svc s new_id inp = Inr ifc0" and i: "insertWithChecks ifc0 s = Inr (ifc, s')"
    by (auto simp: Iface_Create_def tx_simps split: sum.splits)
  note d0 = build_draft[OF b assms(2)]
  note ok = insert_ok[OF i d0(1)]
  show "ifaces_inv s'" by (rule insert_inv[OF assms(1) i d0(1)])
  let ?row = "stored_row ifc"
  have sel: "if_id ifc = new_id" "if_name ifc = ci_name inp" "if_enabled ifc" using ok(7) d0(2-4) by (auto split: if_splits)
  have cols: "column_obfuscation (i_cols ?row) = Inr (if_obf ifc)"
    using columns_roundtrip[of "if_obf ifc"] ok(1) by (simp add: draft_ok_def stored_row_def new_iface_row_def)
  note pools = stored_pools[OF ok(1)]
  have "load_interface decrypt ?row = Inr \<lparr>di_id = if_id ifc, di_name = if_name ifc, di_mode = if_mode ifc, di_port = if_port ifc,
      di_subnet = if_subnet ifc, di_pools = if_pools ifc, di_mtu = if_mtu ifc, di_obf = if_obf ifc, di_enabled = if_enabled ifc,
      di_private = pt\<rparr>" if "decrypt (i_privkey ?row) = Inr pt" for decrypt pt
    using that cols pools(2) ok(1) by (auto simp: load_interface_def draft_ok_def)
  then have load: "\<forall>decrypt pt. decrypt (i_privkey ?row) = Inr pt \<longrightarrow>
      (\<exists>d. load_interface decrypt ?row = Inr d \<and> di_pools d = if_pools ifc \<and> di_obf d = if_obf ifc)" by fastforce
  have "find_row i_id new_id (ifaces s') = Some ?row"
    using ok(2,6) sel(1) by (auto simp: find_row_append find_row_Cons find_row_None_iff[THEN iffD2] split: option.splits)
  then have get: "\<exists>got. Iface_Get s' new_id = Inr got \<and> if_obf got = if_obf ifc \<and> if_pools got = if_pools ifc"
    using cols pools(2) by (simp add: Iface_Get_def getBy_def scanIface_def)
  have ap: "\<forall>r \<in> set (ifaces s). apart (pools_of ?row) (pools_of r)"
    using check_pools_ok(1)[OF ok(3)] ok(6) pools(1) by (auto simp: image_iff)
  have host: "\<forall>p \<in> set (pools_of ?row). \<forall>route \<in> set (if_blocked ifc). \<not> overlaps (must_prefix p) route"
    using check_pools_ok(2)[OF ok(3)] pools(1) by auto
  show "\<exists>row. s' = s\<lparr>ifaces := ifaces s @ [row]\<rparr>
         \<and> i_id row = new_id \<and> i_name row = ci_name inp \<and> i_port row = if_port ifc \<and> i_enabled row
         \<and> 1024 \<le> i_port row \<and> i_port row \<le> 65535 \<and> i_port row \<notin> i_port ` set (ifaces s)
         \<and> (\<forall>r \<in> set (ifaces s). apart (pools_of row) (pools_of r))
         \<and> (\<forall>p \<in> set (pools_of row). \<forall>route \<in> set (if_blocked ifc). \<not> overlaps (must_prefix p) route)
         \<and> (\<forall>decrypt pt. decrypt (i_privkey row) = Inr pt \<longrightarrow>
              (\<exists>d. load_interface decrypt row = Inr d \<and> di_pools d = if_pools ifc \<and> di_obf d = if_obf ifc))
         \<and> (\<exists>got. Iface_Get s' new_id = Inr got \<and> if_obf got = if_obf ifc \<and> if_pools got = if_pools ifc)"
    by (rule exI[of _ ?row]) (use ok(1,2,5) sel ap host load get in \<open>simp add: draft_ok_def\<close>)
qed

section \<open>Example interfaces\<close>

definition example_service :: iface_service where
  "example_service = \<lparr>is_int = (\<lambda>k. if k = ''network.port_min'' then Inr 51820 else if k = ''network.port_max'' then Inr 51830
       else if k = ''network.mtu'' then Inr 1420 else Inr 8),
     is_string = (\<lambda>_. Inr []), is_userspace = None, is_routes = None, is_now = 0, is_entropy = [],
     is_keypair = Inr (''private'', ''public''), is_encrypt = Inr\<rparr>"

definition example_request :: create_input where
  "example_request = \<lparr>ci_name = ''awg5'', ci_port = 0, ci_subnet = [], ci_pools = None, ci_mtu = 0, ci_obf = plain_obf,
     ci_preset = [], ci_generated = False, ci_mode = [], ci_endpoint = []\<rparr>"

definition one_link_db :: db where
  "one_link_db = empty_db\<lparr>ifaces := [example_iface]\<rparr>"

lemma one_link_ifaces: "ifaces one_link_db = [example_iface]" "devices one_link_db = []"
  by (simp_all add: one_link_db_def empty_db_def)

lemma plain_valid: "ValidateObfuscation plain_obf = Inr ()" "ob_ordered plain_obf"
  by (simp_all add: ValidateObfuscation_def plain_obf_def params_unset_def range_zero_def range_is_zero_def scalar_def ob_ordered_def profile_headers_def)

lemma example_iface_pools: "pools_of example_iface = [show_prefix example_pool]"
  by (simp add: pools_of_def example_iface_def example_pool_Decode)

lemma awg_names: "iface_index ''awg0'' = Some 0" "iface_index ''awg5'' = Some 5"
  by (simp_all add: iface_index_def parse_dec_def is_digit_def digit_val_def)

lemma one_link_inv: "ifaces_inv one_link_db"
proof -
  have "iface_row_ok example_iface"
    unfolding iface_row_ok_def example_iface_pools
    by (simp add: example_iface_def ValidName_def awg_names plain_columns_ok plain_valid example_pool_Decode ValidEndpoint_def)
  then show ?thesis by (simp add: ifaces_inv_def one_link_ifaces unique_on_def)
qed

lemma must_ladder: "n < 256 \<Longrightarrow> must_prefix (ladder_pool n) = ladder_prefix n"
  using ladder_parse[of n] by (auto simp: must_prefix_def Parse_def split: option.splits if_splits)

lemma ladder_five_apart: "\<not> overlaps (ladder_prefix 5) example_pool"
  by (subst overlaps_div[OF refl]) (simp add: ladder_prefix_def example_pool_def unat_addr_of host_bits_def)

lemma example_choices:
  "choose_mode example_service example_request = Inr ''kernel''"
  "choose_port example_service one_link_db example_request = Inr 51821"
  "choose_pools example_service 5 example_request = Inr (ladder_pool 5, [ladder_pool 5], True)"
  "choose_mtu example_service example_request = Inr 1420"
  "resolveCreateProfile example_service example_request = Inr (plain_obf, policy_text ProfilePlain)"
proof -
  show "choose_mode example_service example_request = Inr ''kernel''"
    by (simp add: choose_mode_def example_service_def example_request_def)
  have "allocatePort example_service one_link_db = Inr 51821"
    by (simp add: allocatePort_def example_service_def ValidatePortRange_def one_link_ifaces port_candidates_def example_iface_def upt_conv_Cons)
  then show "choose_port example_service one_link_db example_request = Inr 51821"
    by (simp add: choose_port_def example_request_def)
  have p: "Parse (ladder_pool 5) = Inr (ladder_prefix 5)" by (rule ladder_parse) simp
  then have "ValidSubnet (ladder_pool 5) = Inr ()"
    by (auto simp: ValidSubnet_def Parse_def split: option.splits if_splits)
  with ladder_valid[of 5] must_ladder[of 5]
  show "choose_pools example_service 5 example_request = Inr (ladder_pool 5, [ladder_pool 5], True)"
    by (simp add: choose_pools_def example_request_def defaultPool_def Let_def validatePoolSize_def MinUsefulPoolBits_def ladder_prefix_def)
  show "choose_mtu example_service example_request = Inr 1420"
    by (simp add: choose_mtu_def example_request_def example_service_def trim_space_def policy_of_def policy_texts_def)
  show "resolveCreateProfile example_service example_request = Inr (plain_obf, policy_text ProfilePlain)"
    by (simp add: resolveCreateProfile_def example_request_def trim_space_def plain_valid)
qed

definition example_draft :: iface where
  "example_draft = \<lparr>if_id = ''if-2'', if_name = ''awg5'', if_port = 51821, if_subnet = ladder_pool 5, if_pools = [ladder_pool 5],
     if_mtu = 1420, if_pubkey = ''public'', if_privkey = ''private'', if_obf = plain_obf, if_preset = policy_text ProfilePlain,
     if_enabled = True, if_mode = ''kernel'', if_endpoint = [], if_created = 0, if_updated = 0, if_automatic = True, if_blocked = []\<rparr>"

lemma example_build: "build_iface example_service one_link_db ''if-2'' example_request = Inr example_draft"
proof -
  have "ci_name example_request = ''awg5''" "ci_endpoint example_request = []" by (simp_all add: example_request_def)
  moreover have "is_int example_service ''interfaces.max_count'' = Inr 8" "is_keypair example_service = Inr (''private'', ''public'')"
    "is_encrypt example_service = Inr" "is_routes example_service = None" "is_now example_service = 0" by (simp_all add: example_service_def)
  moreover have "ValidEndpoint []" by (simp add: ValidEndpoint_def)
  ultimately show ?thesis
    by (simp add: build_iface_def awg_names example_choices example_draft_def trim_space_def)
qed

lemma example_check: "check_pool one_link_db example_draft (ladder_pool 5) = Inr ()"
proof -
  have "must_prefix (ladder_pool 5) = ladder_prefix 5" by (rule must_ladder) simp
  moreover have "must_prefix (show_prefix example_pool) = example_pool" by (simp add: must_prefix_def parse_show_prefix example_pool_def)
  moreover have "Decode (i_subnet example_iface) (i_extras example_iface) = Inr [show_prefix example_pool]"
    by (simp add: example_iface_def example_pool_Decode)
  moreover have "i_id example_iface \<noteq> if_id example_draft" by (simp add: example_iface_def example_draft_def)
  moreover have "if_blocked example_draft = []" by (simp add: example_draft_def)
  ultimately show ?thesis
    by (simp add: check_pool_def checkHostPool_def checkOverlaps_def one_link_ifaces ladder_five_apart)
qed

lemma example_iface_created:
  "Iface_Create example_service one_link_db ''if-2'' example_request =
     (Inr example_draft, one_link_db\<lparr>ifaces := [example_iface, stored_row example_draft]\<rparr>)"
proof -
  have "if_subnet example_draft = ladder_pool 5" "if_pools example_draft = [ladder_pool 5]" "if_automatic example_draft"
    "if_name example_draft = ''awg5''" "if_port example_draft = 51821" "if_id example_draft = ''if-2''" by (simp_all add: example_draft_def)
  moreover from this have "selectAutomaticPool one_link_db example_draft = Inr example_draft"
    by (simp add: selectAutomaticPool_def example_check)
  moreover have "i_name example_iface = ''awg0''" "i_port example_iface = 51820" "i_id example_iface = ''if-1''" by (simp_all add: example_iface_def)
  ultimately have "insertWithChecks example_draft one_link_db =
      Inr (example_draft, one_link_db\<lparr>ifaces := [example_iface, stored_row example_draft]\<rparr>)"
    by (simp add: insertWithChecks_def one_link_ifaces find_row_Cons example_check update_rows_def stored_row_def new_iface_row_def)
  then show ?thesis by (simp add: Iface_Create_def example_build)
qed

theorem allocate_port_correct_witness:
  "allocatePort example_service one_link_db \<noteq> E CodePortInUse
     \<and> (\<exists>p. allocatePort example_service one_link_db = Inr p \<and> p \<notin> i_port ` set (ifaces one_link_db))"
proof -
  have r: "is_int example_service ''network.port_min'' = Inr 51820" "is_int example_service ''network.port_max'' = Inr 51830"
    by (simp_all add: example_service_def)
  have "(51821::int) \<in> {51820..51830}" "(51821::int) \<notin> i_port ` set (ifaces one_link_db)"
    by (simp_all add: one_link_ifaces example_iface_def)
  then have "\<not> {51820..51830} \<subseteq> i_port ` set (ifaces one_link_db)" by blast
  with allocate_port_correct[OF r, of one_link_db] show ?thesis by auto
qed

theorem iface_create_correct_witness:
  "\<exists>ifc s'. Iface_Create example_service one_link_db ''if-2'' example_request = (Inr ifc, s') \<and> ifaces_inv s'
     \<and> length (ifaces s') = 2 \<and> (\<exists>got. Iface_Get s' ''if-2'' = Inr got \<and> if_pools got = [ladder_pool 5])"
proof -
  have o: "ob_ordered (ci_obf example_request)" by (simp add: example_request_def plain_valid)
  from iface_create_correct[OF one_link_inv o example_iface_created]
  show ?thesis unfolding example_iface_created by (auto simp: example_draft_def)
qed

end
