(* ===== verification/Runtime.thy ===== *)
theory Runtime
  imports Reconcile
begin

text \<open>
  Application of the desired state (\<open>src/internal/runtimeapply/runtime.go\<close>): the adapter \<open>Attempt\<close>
  of the web and API handlers, and the coordinator that serializes passes and keeps the observation
  of what has been applied. The coordinator is a step relation over any number of callers, one rule
  for every critical section and every select case of \<open>Run\<close>; a cancelled context is the choice of a
  rule. The revision counters keep their 64 bits.
\<close>

section \<open>One attempt\<close>

datatype runtime_status = NotConfigured | Applied | Pending

text \<open>What a runner returns: the report (\<open>None\<close> for nil) and the error.\<close>

type_synonym run_result = "report option \<times> error option"

record apply_outcome =
  ao_status :: runtime_status
  ao_report :: "report option"
  ao_err :: "error option"

definition Attempt :: "('w \<Rightarrow> run_result \<times> 'w) option \<Rightarrow> 'w \<Rightarrow> apply_outcome \<times> 'w" where
  "Attempt runner w =
     (case runner of
        None \<Rightarrow> (\<lparr>ao_status = NotConfigured, ao_report = None, ao_err = None\<rparr>, w)
      | Some run \<Rightarrow>
          (case run w of
             ((rep, err0), w') \<Rightarrow>
               let err = (case (err0, rep) of
                            (None, Some r) \<Rightarrow>
                              (case re_errors r of [] \<Rightarrow> None | (n, _) # _ \<Rightarrow> Some (Foreign (''reconcile interface '' @ n)))
                          | _ \<Rightarrow> err0)
               in (\<lparr>ao_status = (if err = None then Applied else Pending), ao_report = rep, ao_err = err\<rparr>, w')))"

text \<open>The engine as a runner over the database and the backend.\<close>

definition engine_runner :: "engine \<Rightarrow> 'b backend \<Rightarrow> db \<times> 'b \<Rightarrow> run_result \<times> db \<times> 'b" where
  "engine_runner en bk w =
     (case Run en bk (fst w) (snd w) of
        (Inl e, w') \<Rightarrow> ((None, Some e), w')
      | (Inr rep, w') \<Rightarrow> ((Some rep, None), w'))"

text \<open>The reconcile callback of the handlers: the error of one attempt.\<close>

definition reconcile_now :: "engine \<Rightarrow> 'b backend \<Rightarrow> db \<times> 'b \<Rightarrow> unit result \<times> db \<times> 'b" where
  "reconcile_now en bk w =
     (case Attempt (Some (engine_runner en bk)) w of
        (out, w') \<Rightarrow> (case ao_err out of None \<Rightarrow> Inr () | Some e \<Rightarrow> Inl e, w'))"

lemma reconcile_now_ok:
  "reconcile_now en bk (s, b) = (Inr (), s', b') \<longleftrightarrow> (\<exists>rep. Run en bk s b = (Inr rep, s', b') \<and> re_errors rep = [])"
  by (auto simp: reconcile_now_def Attempt_def engine_runner_def Let_def split: prod.splits sum.splits list.splits option.splits)

lemma reconcile_now_state:
  "reconcile_now en bk (s, b) = (r, s', b') \<Longrightarrow> \<exists>res. Run en bk s b = (res, s', b')"
  by (auto simp: reconcile_now_def Attempt_def engine_runner_def Let_def split: prod.splits sum.splits list.splits option.splits)

section \<open>The coordinator\<close>

record observation =
  ob_status :: runtime_status
  ob_at :: time
  ob_desired :: "64 word"
  ob_applied :: "64 word"
  ob_inflight :: bool
  ob_lastfailed :: bool

text \<open>Where a caller of \<open>Run\<close> is; the revision it read belongs to its frame.\<close>

datatype phase = Idle | Waiting | Holding | Armed "64 word" | Passing "64 word" | Leaving

record coordinator =
  co_inner :: bool
  co_gate :: "nat option"
  co_ready :: "bool option"
  co_last :: observation
  co_phase :: "nat \<Rightarrow> phase"

definition New_coordinator :: "bool \<Rightarrow> bool \<Rightarrow> coordinator" where
  "New_coordinator inner hook = \<lparr>co_inner = inner, co_gate = None, co_ready = (if hook then Some False else None),
     co_last = \<lparr>ob_status = NotConfigured, ob_at = 0, ob_desired = 0, ob_applied = 0, ob_inflight = False, ob_lastfailed = False\<rparr>,
     co_phase = (\<lambda>_. Idle)\<rparr>"

definition set_ready :: "bool \<Rightarrow> coordinator \<Rightarrow> coordinator" where
  "set_ready v y = y\<lparr>co_ready := map_option (\<lambda>_. v) (co_ready y)\<rparr>"

definition at_phase :: "nat \<Rightarrow> phase \<Rightarrow> coordinator \<Rightarrow> coordinator" where
  "at_phase c p y = y\<lparr>co_phase := (co_phase y)(c := p)\<rparr>"

definition request_obs :: "observation \<Rightarrow> observation" where
  "request_obs ob = ob\<lparr>ob_desired := ob_desired ob + 1, ob_status := Pending\<rparr>"

definition good_result :: "run_result \<Rightarrow> bool" where
  "good_result r \<longleftrightarrow> snd r = None \<and> (case fst r of None \<Rightarrow> True | Some rep \<Rightarrow> re_errors rep = [])"

definition finish_obs :: "time \<Rightarrow> 64 word \<Rightarrow> bool \<Rightarrow> observation \<Rightarrow> observation" where
  "finish_obs now revision good ob =
     ob\<lparr>ob_inflight := False, ob_lastfailed := \<not> good, ob_applied := (if good then revision else ob_applied ob),
       ob_status := (if good \<and> ob_desired ob = revision then Applied else Pending), ob_at := now\<rparr>"

datatype co_event = Req | Start | Finish bool | Cancel | Internal

inductive co_step :: "coordinator \<Rightarrow> co_event \<Rightarrow> coordinator \<Rightarrow> bool" where
  refuse: "\<lbrakk>co_phase y c = Idle; \<not> co_inner y\<rbrakk> \<Longrightarrow> co_step y Cancel y"
| request: "\<lbrakk>co_phase y c = Idle; co_inner y\<rbrakk> \<Longrightarrow>
    co_step y Req (at_phase c Waiting (set_ready False (y\<lparr>co_last := request_obs (co_last y)\<rparr>)))"
| acquire: "\<lbrakk>co_phase y c = Waiting; co_gate y = None\<rbrakk> \<Longrightarrow> co_step y Internal (at_phase c Holding (y\<lparr>co_gate := Some c\<rparr>))"
| give_up: "co_phase y c = Waiting \<Longrightarrow> co_step y Cancel (at_phase c Idle y)"
| cancelled: "co_phase y c = Holding \<Longrightarrow> co_step y Cancel (at_phase c Leaving y)"
| read_revision: "co_phase y c = Holding \<Longrightarrow> co_step y Start (at_phase c (Armed (ob_desired (co_last y))) y)"
| enter: "co_phase y c = Armed revn \<Longrightarrow> co_step y Internal (at_phase c (Passing revn) (y\<lparr>co_last := (co_last y)\<lparr>ob_inflight := True\<rparr>\<rparr>))"
| finish: "\<lbrakk>co_phase y c = Passing revn; good = good_result res; after = finish_obs now revn good (co_last y)\<rbrakk> \<Longrightarrow>
    co_step y (Finish good) (at_phase c Leaving (set_ready (ob_status after = Applied) (y\<lparr>co_last := after\<rparr>)))"
| release: "co_phase y c = Leaving \<Longrightarrow> co_step y Internal (at_phase c Idle (y\<lparr>co_gate := None\<rparr>))"

inductive_cases co_stepE: "co_step y e y'"

text \<open>A run of the coordinator with its events, the oldest first.\<close>

inductive co_run :: "coordinator \<Rightarrow> co_event list \<Rightarrow> coordinator \<Rightarrow> bool" where
  start: "co_run y [] y"
| step: "\<lbrakk>co_run y0 tr y; co_step y e y'\<rbrakk> \<Longrightarrow> co_run y0 (tr @ [e]) y'"

section \<open>What the observation promises\<close>

text \<open>
  The abstract view: \<open>fresh\<close>, no request since the last pass took its revision; \<open>applied\<close>, the last
  finished pass was good and fresh and nothing has been requested since.
\<close>

record promise =
  fresh :: bool
  applied :: bool

fun promise_step :: "co_event \<Rightarrow> promise \<Rightarrow> promise" where
  "promise_step Req p = \<lparr>fresh = False, applied = False\<rparr>"
| "promise_step Start p = p\<lparr>fresh := True\<rparr>"
| "promise_step (Finish good) p = p\<lparr>applied := good \<and> fresh p\<rparr>"
| "promise_step Cancel p = p"
| "promise_step Internal p = p"

definition promised :: "co_event list \<Rightarrow> promise" where
  "promised tr = fold promise_step tr \<lparr>fresh = True, applied = False\<rparr>"

lemma promised_snoc [simp]: "promised (tr @ [e]) = promise_step e (promised tr)" "promised [] = \<lparr>fresh = True, applied = False\<rparr>"
  by (simp_all add: promised_def)

definition requests :: "co_event list \<Rightarrow> nat" where
  "requests tr = length (filter (\<lambda>e. e = Req) tr)"

lemma requests_snoc [simp]: "requests (tr @ [e]) = (if e = Req then Suc (requests tr) else requests tr)" "requests [] = 0"
  by (simp_all add: requests_def)

lemma requests_le: "requests tr \<le> length tr"
  by (simp add: requests_def)

text \<open>The number of requests before the last revision was read.\<close>

fun seen_step :: "co_event \<Rightarrow> nat \<times> nat \<Rightarrow> nat \<times> nat" where
  "seen_step Req (n, k) = (Suc n, k)"
| "seen_step Start (n, k) = (n, n)"
| "seen_step (Finish g) x = x"
| "seen_step Cancel x = x"
| "seen_step Internal x = x"

definition seen :: "co_event list \<Rightarrow> nat" where
  "seen tr = snd (fold seen_step tr (0, 0))"

lemma seen_requests: "fst (fold seen_step tr (0, 0)) = requests tr"
proof (induction tr rule: rev_induct)
  case (snoc e tr)
  then show ?case by (cases e; cases "fold seen_step tr (0, 0)") auto
qed simp

lemma seen_snoc [simp]: "seen (tr @ [e]) = (if e = Start then requests tr else seen tr)" "seen [] = 0"
proof -
  show "seen (tr @ [e]) = (if e = Start then requests tr else seen tr)"
    using seen_requests[of tr] by (cases e; cases "fold seen_step tr (0, 0)") (auto simp: seen_def)
qed (simp add: seen_def)

lemma fresh_seen: "fresh (promised tr) \<longleftrightarrow> seen tr = requests tr" and seen_le: "seen tr \<le> requests tr"
proof (induction tr rule: rev_induct)
  case (snoc e tr)
  { case 1 from snoc show ?case by (cases e) auto next case 2 from snoc show ?case by (cases e) auto }
qed simp_all

section \<open>The invariant of the coordinator\<close>

definition inside :: "phase \<Rightarrow> bool" where
  "inside p \<longleftrightarrow> p \<noteq> Idle \<and> p \<noteq> Waiting"

lemma inside_simps [simp]: "\<not> inside Idle" "\<not> inside Waiting" "inside Holding" "inside (Armed r)" "inside (Passing r)" "inside Leaving"
  by (simp_all add: inside_def)

text \<open>
  The gate belongs to the one caller that is past it; the counter is the number of requests; a
  revision that is being applied is the number of requests before it was read; the status and the
  readiness flag are what the abstract view says.
\<close>

definition co_inv :: "co_event list \<Rightarrow> coordinator \<Rightarrow> bool" where
  "co_inv tr y \<longleftrightarrow> (\<forall>c. inside (co_phase y c) \<longleftrightarrow> co_gate y = Some c)
     \<and> ob_desired (co_last y) = of_nat (requests tr)
     \<and> (\<forall>c revn. co_phase y c = Armed revn \<or> co_phase y c = Passing revn \<longrightarrow> revn = of_nat (seen tr))
     \<and> (ob_status (co_last y) = Applied \<longleftrightarrow> applied (promised tr))
     \<and> (co_ready y = None \<or> co_ready y = Some (ob_status (co_last y) = Applied))
     \<and> (ob_inflight (co_last y) \<longleftrightarrow> (\<exists>c revn. co_phase y c = Passing revn))"

lemma co_inv_start: "co_inv [] (New_coordinator inner hook)"
  by (simp add: co_inv_def New_coordinator_def)

lemma co_update_sel [simp]:
  "co_phase (at_phase c p y) = (co_phase y)(c := p)" "co_gate (at_phase c p y) = co_gate y" "co_last (at_phase c p y) = co_last y"
  "co_ready (at_phase c p y) = co_ready y" "co_phase (set_ready v y) = co_phase y" "co_gate (set_ready v y) = co_gate y"
  "co_last (set_ready v y) = co_last y" "co_ready (set_ready v y) = map_option (\<lambda>_. v) (co_ready y)"
  "co_inner (at_phase c p y) = co_inner y" "co_inner (set_ready v y) = co_inner y"
  by (simp_all add: at_phase_def set_ready_def)

lemma obs_sel [simp]:
  "ob_desired (request_obs ob) = ob_desired ob + 1" "ob_status (request_obs ob) = Pending" "ob_inflight (request_obs ob) = ob_inflight ob"
  "ob_desired (finish_obs now r g ob) = ob_desired ob" "\<not> ob_inflight (finish_obs now r g ob)"
  "ob_status (finish_obs now r g ob) = Applied \<longleftrightarrow> g \<and> ob_desired ob = r"
  by (simp_all add: request_obs_def finish_obs_def)

lemma word_count_eq: "n < 2 ^ 64 \<Longrightarrow> k \<le> n \<Longrightarrow> (of_nat n :: 64 word) = of_nat k \<longleftrightarrow> k = n"
  by (auto simp: word_of_nat_eq_iff take_bit_nat_eq_self)

lemma gate_excl: "co_inv tr y \<Longrightarrow> inside (co_phase y c) \<Longrightarrow> inside (co_phase y d) \<Longrightarrow> c = d"
  by (simp add: co_inv_def)

lemma alone: "co_inv tr y \<Longrightarrow> inside (co_phase y c) \<Longrightarrow> d \<noteq> c \<Longrightarrow> co_phase y d = Idle \<or> co_phase y d = Waiting"
  using gate_excl inside_def by blast

lemma passing_upd:
  assumes "\<And>r. f c \<noteq> Passing r" "\<And>r. p \<noteq> Passing r"
  shows "(\<exists>d r. (f(c := p)) d = Passing r) \<longleftrightarrow> (\<exists>d r. f d = Passing r)"
  using assms by (metis fun_upd_apply)

lemma co_step_inv:
  assumes "co_step y e y'" "co_inv tr y" "length tr < 2 ^ 64"
  shows "co_inv (tr @ [e]) y'"
  using assms(1)
proof (cases rule: co_step.cases)
  case (finish c revn good res after now)
  have "requests tr < 2 ^ 64" using requests_le[of tr] assms(3) by linarith
  then have "(of_nat (requests tr) :: 64 word) = of_nat (seen tr) \<longleftrightarrow> fresh (promised tr)"
    using word_count_eq[OF _ seen_le] fresh_seen by simp
  moreover have "revn = of_nat (seen tr)" "ob_desired (co_last y) = of_nat (requests tr)"
    using assms(2) finish(3) unfolding co_inv_def by simp_all
  ultimately have ap: "ob_status after = Applied \<longleftrightarrow> good \<and> fresh (promised tr)" unfolding finish(5) by simp
  have "co_phase y d \<noteq> Armed r \<and> co_phase y d \<noteq> Passing r" if "d \<noteq> c" for d r
    using alone[OF assms(2) _ that] finish(3) by auto
  moreover have "inside (co_phase y c)" unfolding finish(3) by simp
  moreover have "ob_desired after = ob_desired (co_last y)" "\<not> ob_inflight after" unfolding finish(5) by simp_all
  ultimately show ?thesis using assms(2) ap unfolding co_inv_def finish(1,2) by auto
next
  case (release c)
  have "\<not> inside (co_phase y d)" if "d \<noteq> c" for d
    using alone[OF assms(2) _ that] release by auto
  moreover note passing_upd[of "co_phase y" c Idle]
  ultimately show ?thesis using assms(2) release unfolding co_inv_def by (simp del: fun_upd_apply) (auto simp: fun_upd_def)
next
  case (enter c revn)
  have "co_phase y d \<noteq> Armed r \<and> co_phase y d \<noteq> Passing r" if "d \<noteq> c" for d r
    using alone[OF assms(2) _ that] enter by auto
  then show ?thesis using assms(2) enter unfolding co_inv_def by auto
next
  case (read_revision c)
  have "co_phase y d \<noteq> Armed r \<and> co_phase y d \<noteq> Passing r" for d r
    using alone[OF assms(2), of c d] read_revision by (cases "d = c") auto
  then show ?thesis using assms(2) read_revision unfolding co_inv_def by auto
next
  case (request c)
  have "inside (co_phase y c) \<longleftrightarrow> co_gate y = Some c" using assms(2) by (simp add: co_inv_def)
  with request show ?thesis using assms(2) passing_upd[of "co_phase y" c Waiting]
    unfolding co_inv_def by (simp del: fun_upd_apply) (auto simp: fun_upd_def)
next
  case (acquire c)
  have "inside (co_phase y c) \<longleftrightarrow> co_gate y = Some c" using assms(2) by (simp add: co_inv_def)
  with acquire show ?thesis using assms(2) passing_upd[of "co_phase y" c Holding]
    unfolding co_inv_def by (simp del: fun_upd_apply) (auto simp: fun_upd_def)
next
  case (give_up c)
  have "inside (co_phase y c) \<longleftrightarrow> co_gate y = Some c" using assms(2) by (simp add: co_inv_def)
  with give_up show ?thesis using assms(2) passing_upd[of "co_phase y" c Idle]
    unfolding co_inv_def by (simp del: fun_upd_apply) (auto simp: fun_upd_def)
next
  case (cancelled c)
  have "inside (co_phase y c) \<longleftrightarrow> co_gate y = Some c" using assms(2) by (simp add: co_inv_def)
  with cancelled show ?thesis using assms(2) passing_upd[of "co_phase y" c Leaving]
    unfolding co_inv_def by (simp del: fun_upd_apply) (auto simp: fun_upd_def)
qed (use assms(2) in \<open>auto simp: co_inv_def\<close>)

lemma co_run_inv: "co_run (New_coordinator inner hook) tr y \<Longrightarrow> length tr < 2 ^ 64 \<Longrightarrow> co_inv tr y"
  by (induction "New_coordinator inner hook" tr y rule: co_run.induct) (auto simp: co_inv_start intro: co_step_inv)

section \<open>What the abstract view says of the events\<close>

text \<open>
  \<open>applied\<close> unfolded: some pass took its revision after every request, finished well, and no later
  pass has finished badly or without success.
\<close>

lemma fresh_trace: "fresh (promised tr) \<longleftrightarrow> Req \<notin> set tr \<or> (\<exists>xs ys. tr = xs @ Start # ys \<and> Req \<notin> set ys)"
proof (induction tr rule: rev_induct)
  case (snoc e tr)
  show ?case
  proof (cases "e = Req \<or> e = Start")
    case True
    then show ?thesis
    proof
      assume "e = Req"
      moreover have "tr @ [Req] \<noteq> xs @ Start # ys" if "Req \<notin> set ys" for xs ys
        using that by (cases ys rule: rev_cases) auto
      ultimately show ?thesis by auto
    next
      assume "e = Start"
      then show ?thesis by (auto intro: exI[of _ tr])
    qed
  next
    case False
    then have "fresh (promised (tr @ [e])) = fresh (promised tr)" by (cases e) auto
    moreover have "(\<exists>xs ys. tr @ [e] = xs @ Start # ys \<and> Req \<notin> set ys) \<longleftrightarrow> (\<exists>xs ys. tr = xs @ Start # ys \<and> Req \<notin> set ys)"
    proof
      assume "\<exists>xs ys. tr @ [e] = xs @ Start # ys \<and> Req \<notin> set ys"
      then obtain xs ys where "tr @ [e] = xs @ Start # ys" "Req \<notin> set ys" by blast
      with False show "\<exists>xs ys. tr = xs @ Start # ys \<and> Req \<notin> set ys" by (cases ys rule: rev_cases) auto
    next
      assume "\<exists>xs ys. tr = xs @ Start # ys \<and> Req \<notin> set ys"
      then obtain xs ys where "tr = xs @ Start # ys" "Req \<notin> set ys" by blast
      with False have "tr @ [e] = xs @ Start # (ys @ [e])" "Req \<notin> set (ys @ [e])" by auto
      then show "\<exists>xs ys. tr @ [e] = xs @ Start # ys \<and> Req \<notin> set ys" by blast
    qed
    ultimately show ?thesis using snoc False by auto
  qed
qed simp

definition unfinished :: "co_event list \<Rightarrow> bool" where
  "unfinished tr \<longleftrightarrow> Req \<notin> set tr \<and> (\<forall>g. Finish g \<notin> set tr)"

lemma applied_trace:
  "applied (promised tr) \<longleftrightarrow> (\<exists>xs ys. tr = xs @ Finish True # ys \<and> fresh (promised xs) \<and> unfinished ys)"
proof (induction tr rule: rev_induct)
  case (snoc e tr)
  show ?case
  proof (cases "e = Req \<or> (\<exists>g. e = Finish g)")
    case True
    have last: "(\<exists>xs ys. tr @ [e] = xs @ Finish True # ys \<and> fresh (promised xs) \<and> unfinished ys)
        \<longleftrightarrow> e = Finish True \<and> fresh (promised tr)"
    proof
      assume "\<exists>xs ys. tr @ [e] = xs @ Finish True # ys \<and> fresh (promised xs) \<and> unfinished ys"
      then obtain xs ys where "tr @ [e] = xs @ Finish True # ys" "fresh (promised xs)" "unfinished ys" by blast
      with True show "e = Finish True \<and> fresh (promised tr)" by (cases ys rule: rev_cases) (auto simp: unfinished_def)
    next
      assume "e = Finish True \<and> fresh (promised tr)"
      then have "tr @ [e] = tr @ Finish True # [] \<and> fresh (promised tr) \<and> unfinished []" by (simp add: unfinished_def)
      then show "\<exists>xs ys. tr @ [e] = xs @ Finish True # ys \<and> fresh (promised xs) \<and> unfinished ys" by blast
    qed
    show ?thesis unfolding last using True by auto
  next
    case False
    then have "applied (promised (tr @ [e])) = applied (promised tr)" by (cases e) auto
    moreover have "(\<exists>xs ys. tr @ [e] = xs @ Finish True # ys \<and> fresh (promised xs) \<and> unfinished ys)
        \<longleftrightarrow> (\<exists>xs ys. tr = xs @ Finish True # ys \<and> fresh (promised xs) \<and> unfinished ys)"
    proof
      assume "\<exists>xs ys. tr @ [e] = xs @ Finish True # ys \<and> fresh (promised xs) \<and> unfinished ys"
      then obtain xs ys where "tr @ [e] = xs @ Finish True # ys" "fresh (promised xs)" "unfinished ys" by blast
      with False show "\<exists>xs ys. tr = xs @ Finish True # ys \<and> fresh (promised xs) \<and> unfinished ys"
        by (cases ys rule: rev_cases) (auto simp: unfinished_def)
    next
      assume "\<exists>xs ys. tr = xs @ Finish True # ys \<and> fresh (promised xs) \<and> unfinished ys"
      then obtain xs ys where "tr = xs @ Finish True # ys" "fresh (promised xs)" "unfinished ys" by blast
      with False have "tr @ [e] = xs @ Finish True # (ys @ [e])" "unfinished (ys @ [e])" by (auto simp: unfinished_def)
      with \<open>fresh (promised xs)\<close> show "\<exists>xs ys. tr @ [e] = xs @ Finish True # ys \<and> fresh (promised xs) \<and> unfinished ys" by blast
    qed
    ultimately show ?thesis using snoc by simp
  qed
qed simp

text \<open>A finished pass had begun, so a fresh one began after the last request.\<close>

lemma passing_started: "co_run (New_coordinator inner hook) tr y \<Longrightarrow> (\<exists>r. co_phase y c = Armed r \<or> co_phase y c = Passing r) \<Longrightarrow> Start \<in> set tr"
proof (induction "New_coordinator inner hook" tr y arbitrary: c rule: co_run.induct)
  case (step tr y e y')
  from step.hyps(3) show ?case
    by (cases rule: co_step.cases) (use step.hyps(2) step.prems in \<open>auto split: if_splits\<close>)
qed (simp add: New_coordinator_def)

lemma co_run_snoc: "co_run y0 (tr @ [e]) y \<Longrightarrow> \<exists>y1. co_run y0 tr y1 \<and> co_step y1 e y"
  by (erule co_run.cases) auto

lemma finish_started:
  assumes "co_run (New_coordinator inner hook) (tr @ [Finish g]) y"
  shows "Start \<in> set tr"
proof -
  obtain y1 where r: "co_run (New_coordinator inner hook) tr y1" "co_step y1 (Finish g) y" using co_run_snoc[OF assms] by blast
  from r(2) show ?thesis by (cases rule: co_step.cases) (use passing_started[OF r(1)] in auto)
qed

lemma co_run_prefix: "co_run (New_coordinator inner hook) (xs @ ys) y \<Longrightarrow> \<exists>y1. co_run (New_coordinator inner hook) xs y1"
proof (induction ys arbitrary: y rule: rev_induct)
  case (snoc e ys)
  from snoc.prems have "\<exists>y1. co_run (New_coordinator inner hook) (xs @ ys) y1"
    using co_run_snoc[of _ "xs @ ys" e] by (simp only: append_assoc) blast
  then show ?case using snoc.IH by blast
qed auto

lemma started_fresh:
  assumes "fresh (promised xs)" "Start \<in> set xs"
  shows "\<exists>us vs. xs = us @ Start # vs \<and> Req \<notin> set vs"
proof -
  obtain us vs where "xs = us @ Start # vs" using assms(2) by (meson split_list)
  with assms(1) show ?thesis unfolding fresh_trace by auto
qed

text \<open>
  C26. The reported status never runs ahead of the node. Whatever the callers do and whichever of them are
  cancelled, in every state the coordinator reaches its status is \<open>applied\<close> exactly when some pass
  took its revision after the last request, that pass succeeded for every interface, and no pass
  has finished and nothing has been requested since; the readiness flag is the same
  statement, and at most one pass is ever in flight.
\<close>

theorem applied_status_exact:
  assumes "co_run (New_coordinator inner hook) tr y" "length tr < 2 ^ 64"
  shows "(ob_status (co_last y) = Applied \<longleftrightarrow>
      (\<exists>us vs ys. tr = us @ Start # vs @ Finish True # ys \<and> Req \<notin> set vs \<and> unfinished ys))
    \<and> (co_ready y = None \<or> co_ready y = Some (ob_status (co_last y) = Applied))
    \<and> (\<forall>c d r r'. co_phase y c = Passing r \<and> co_phase y d = Passing r' \<longrightarrow> c = d)
    \<and> (ob_inflight (co_last y) \<longleftrightarrow> (\<exists>c r. co_phase y c = Passing r))"
proof -
  note inv = co_run_inv[OF assms]
  have "applied (promised tr) \<longleftrightarrow> (\<exists>us vs ys. tr = us @ Start # vs @ Finish True # ys \<and> Req \<notin> set vs \<and> unfinished ys)"
  proof
    assume "applied (promised tr)"
    then obtain xs ys where x: "tr = xs @ Finish True # ys" "fresh (promised xs)" "unfinished ys"
      unfolding applied_trace by blast
    have "Start \<in> set xs"
      using co_run_prefix[of inner hook "xs @ [Finish True]" ys y] finish_started assms(1) x(1) by auto
    from started_fresh[OF x(2) this] x show "\<exists>us vs ys. tr = us @ Start # vs @ Finish True # ys \<and> Req \<notin> set vs \<and> unfinished ys"
      by fastforce
  next
    assume "\<exists>us vs ys. tr = us @ Start # vs @ Finish True # ys \<and> Req \<notin> set vs \<and> unfinished ys"
    then obtain us vs ys where x: "tr = (us @ Start # vs) @ Finish True # ys" "Req \<notin> set vs" "unfinished ys" by auto
    moreover have "fresh (promised (us @ Start # vs))" unfolding fresh_trace using x(2) by blast
    ultimately show "applied (promised tr)" unfolding applied_trace by blast
  qed
  with inv gate_excl[OF inv] show ?thesis unfolding co_inv_def by (metis inside_simps(5))
qed

section \<open>Draining\<close>

fun weight :: "phase \<Rightarrow> nat" where
  "weight Idle = 0"
| "weight Leaving = 1"
| "weight (Passing _) = 2"
| "weight (Armed _) = 3"
| "weight Holding = 4"
| "weight Waiting = 5"

definition work :: "coordinator \<Rightarrow> nat" where
  "work y = (\<Sum>c | co_phase y c \<noteq> Idle. weight (co_phase y c))"

lemma weight_pos: "p \<noteq> Idle \<Longrightarrow> 0 < weight p"
  by (cases p) auto

lemma step_phase: "co_step y e y' \<Longrightarrow> \<exists>c p. co_phase y' = (co_phase y)(c := p)"
  by (erule co_step.cases) (auto, metis fun_upd_triv)

lemma finite_step:
  assumes "co_step y e y'" "finite {c. co_phase y c \<noteq> Idle}"
  shows "finite {c. co_phase y' c \<noteq> Idle}"
proof -
  obtain c p where "co_phase y' = (co_phase y)(c := p)" using step_phase[OF assms(1)] by blast
  then have "{d. co_phase y' d \<noteq> Idle} \<subseteq> insert c {d. co_phase y d \<noteq> Idle}" by auto
  with assms(2) show ?thesis by (meson finite.insertI finite_subset)
qed

lemma finite_callers: "co_run (New_coordinator inner hook) tr y \<Longrightarrow> finite {c. co_phase y c \<noteq> Idle}"
  by (induction "New_coordinator inner hook" tr y rule: co_run.induct) (auto simp: New_coordinator_def intro: finite_step)

lemma work_update:
  assumes "finite {c. co_phase y c \<noteq> Idle}" "co_phase y' = (co_phase y)(c := p)" "weight p < weight (co_phase y c)"
  shows "work y' < work y"
proof -
  let ?A = "{d. co_phase y d \<noteq> Idle}"
  have c: "c \<in> ?A" using assms(3) by (cases "co_phase y c") auto
  have sub: "{d. co_phase y' d \<noteq> Idle} \<subseteq> ?A" using assms(2) c by auto
  have "work y' = (\<Sum>d \<in> ?A. weight (co_phase y' d))"
    unfolding work_def by (rule sum.mono_neutral_left[OF assms(1) sub]) auto
  also have "\<dots> < (\<Sum>d \<in> ?A. weight (co_phase y d))"
    by (rule sum_strict_mono_ex1[OF assms(1)]) (use assms(2,3) c in \<open>auto intro!: bexI[of _ c]\<close>)
  finally show ?thesis by (simp add: work_def)
qed

lemma work_step: "co_step y e y' \<Longrightarrow> e \<noteq> Req \<Longrightarrow> e \<noteq> Cancel \<Longrightarrow> finite {c. co_phase y c \<noteq> Idle} \<Longrightarrow> work y' < work y"
  by (erule co_step.cases) (auto intro!: work_update)

lemma work_run:
  "co_run y tr y' \<Longrightarrow> Req \<notin> set tr \<Longrightarrow> Cancel \<notin> set tr \<Longrightarrow> finite {c. co_phase y c \<noteq> Idle} \<Longrightarrow>
     finite {c. co_phase y' c \<noteq> Idle} \<and> work y' + length tr \<le> work y"
proof (induction rule: co_run.induct)
  case (step y0 tr y e y')
  from step have f: "finite {c. co_phase y c \<noteq> Idle}" "work y + length tr \<le> work y0" by auto
  from work_step[OF step.hyps(2) _ _ f(1)] step.prems have "work y' < work y" by auto
  with f finite_step[OF step.hyps(2) f(1)] show ?case by simp
qed simp

lemma not_stuck:
  assumes "co_inv tr y" "co_phase y c \<noteq> Idle"
  shows "\<exists>e y'. co_step y e y' \<and> e \<noteq> Req \<and> e \<noteq> Cancel"
proof (cases "co_gate y")
  case None
  then have "co_phase y c = Waiting" using assms by (auto simp: co_inv_def inside_def)
  with None show ?thesis by (blast intro: co_step.acquire)
next
  case (Some d)
  then have "inside (co_phase y d)" using assms(1) by (simp add: co_inv_def)
  then show ?thesis
  proof (cases "co_phase y d")
    case Holding
    with co_step.read_revision[OF this] show ?thesis by blast
  next
    case (Armed r)
    with co_step.enter[OF this] show ?thesis by blast
  next
    case (Passing r)
    from co_step.finish[OF this refl refl] show ?thesis by blast
  next
    case Leaving
    with co_step.release[OF this] show ?thesis by blast
  qed simp_all
qed

text \<open>No cancellation and no failed pass since the last request.\<close>

fun calm_step :: "co_event \<Rightarrow> bool \<Rightarrow> bool" where
  "calm_step Req _ = True"
| "calm_step Cancel _ = False"
| "calm_step (Finish good) b = (b \<and> good)"
| "calm_step _ b = b"

definition calm :: "co_event list \<Rightarrow> bool" where
  "calm tr = fold calm_step tr False"

lemma calm_snoc [simp]: "calm (tr @ [e]) = calm_step e (calm tr)" "\<not> calm []"
  by (simp_all add: calm_def)

lemma calm_split: "Req \<notin> set vs \<Longrightarrow> Cancel \<notin> set vs \<Longrightarrow> Finish False \<notin> set vs \<Longrightarrow> calm (us @ Req # vs)"
proof (induction vs rule: rev_induct)
  case Nil
  then show ?case using calm_snoc(1)[of us Req] by simp
next
  case (snoc e vs)
  then show ?case using calm_snoc(1)[of "us @ Req # vs" e] by (cases e) auto
qed

text \<open>While nothing goes wrong somebody is about to bring the node up to date.\<close>

definition waits :: "phase \<Rightarrow> bool" where
  "waits p \<longleftrightarrow> p = Waiting \<or> p = Holding"

definition runs :: "phase \<Rightarrow> bool" where
  "runs p \<longleftrightarrow> (\<exists>r. p = Armed r \<or> p = Passing r)"

lemma phase_kinds [simp]:
  "waits Waiting" "waits Holding" "\<not> waits Idle" "\<not> waits Leaving" "\<not> waits (Armed r)" "\<not> waits (Passing r)"
  "runs (Armed r)" "runs (Passing r)" "\<not> runs Idle" "\<not> runs Waiting" "\<not> runs Holding" "\<not> runs Leaving"
  by (simp_all add: waits_def runs_def)

definition served :: "co_event list \<Rightarrow> coordinator \<Rightarrow> bool" where
  "served tr y \<longleftrightarrow> (fresh (promised tr) \<or> (\<exists>c. waits (co_phase y c)))
     \<and> (fresh (promised tr) \<and> \<not> applied (promised tr) \<longrightarrow> (\<exists>c. runs (co_phase y c)))"

lemma upd_new: "P p \<Longrightarrow> \<exists>d. P ((f(c := p)) d)"
  by (rule exI[of _ c]) simp

lemma upd_keeps: "\<exists>d. P (f d) \<Longrightarrow> \<not> P (f c) \<Longrightarrow> \<exists>d. P ((f(c := p)) d)"
  by (metis fun_upd_other)

lemma runs_inside: "co_inv tr y \<Longrightarrow> runs (co_phase y d) \<Longrightarrow> co_gate y = Some d"
  by (auto simp: runs_def co_inv_def)

lemma served_step:
  assumes "co_step y e y'" "co_inv tr y" "calm tr \<Longrightarrow> served tr y" "calm (tr @ [e])"
  shows "served (tr @ [e]) y'"
  using assms(1)
proof (cases rule: co_step.cases)
  case (acquire c)
  then have "served tr y" using assms(3,4) by simp
  moreover have "\<not> runs (co_phase y d)" for d using runs_inside[OF assms(2)] acquire by auto
  moreover have "\<exists>d. waits (co_phase y' d)" using acquire upd_new[of waits Holding] by (simp del: fun_upd_apply)
  ultimately show ?thesis unfolding served_def using acquire by simp
next
  case (enter c r)
  then have "served tr y" using assms(3,4) by simp
  moreover have "(\<exists>d. waits (co_phase y d)) \<Longrightarrow> (\<exists>d. waits (co_phase y' d))" "\<exists>d. runs (co_phase y' d)"
    using enter upd_keeps[of waits "co_phase y" c "Passing r"] upd_new[of runs "Passing r" "co_phase y" c] by (simp_all del: fun_upd_apply)
  ultimately show ?thesis unfolding served_def enter(1) by (simp del: fun_upd_apply) blast
next
  case (finish c r good res after now)
  then have "served tr y" "good" using assms(3,4) by auto
  moreover have "(\<exists>d. waits (co_phase y d)) \<Longrightarrow> (\<exists>d. waits (co_phase y' d))"
    using finish upd_keeps[of waits "co_phase y" c Leaving] by (simp del: fun_upd_apply)
  ultimately show ?thesis unfolding served_def finish(1) by (simp del: fun_upd_apply) blast
next
  case (release c)
  then have s: "served tr y" using assms(3,4) by simp
  have "inside (co_phase y c)" using release by simp
  then have g: "co_gate y = Some c" using assms(2) by (simp add: co_inv_def)
  have "\<not> runs (co_phase y d)" for d using runs_inside[OF assms(2), of d] g release by (cases "d = c") auto
  moreover have "(\<exists>d. waits (co_phase y d)) \<Longrightarrow> (\<exists>d. waits (co_phase y' d))"
    using release upd_keeps[of waits "co_phase y" c Idle] by (simp del: fun_upd_apply)
  ultimately show ?thesis using s unfolding served_def release(1) by (simp del: fun_upd_apply) blast
next
  case (read_revision c)
  then show ?thesis unfolding served_def using upd_new[of runs "Armed (ob_desired (co_last y))" "co_phase y" c] by (simp del: fun_upd_apply)
next
  case (request c)
  then show ?thesis unfolding served_def using upd_new[of waits Waiting "co_phase y" c] by (simp del: fun_upd_apply)
qed (use assms(4) in simp_all)

lemma served_run:
  "co_run (New_coordinator inner hook) tr y \<Longrightarrow> length tr < 2 ^ 64 \<Longrightarrow> calm tr \<Longrightarrow> served tr y"
  by (induction "New_coordinator inner hook" tr y rule: co_run.induct) (auto intro!: served_step co_run_inv)


section \<open>Example runs\<close>

text \<open>A caller passes; a second one asks while the first is passing and then gives up.\<close>

lemma co_run_Cons: "co_step y e y1 \<Longrightarrow> co_run y1 tr y' \<Longrightarrow> co_run y (e # tr) y'"
proof (rotate_tac 1, induction rule: co_run.induct)
  case (start z)
  then show ?case using co_run.step[OF co_run.start start] by simp
next
  case (step y1 tr z e' y')
  then show ?case using co_run.step[of y "e # tr" z e' y'] by simp
qed

abbreviation one_pass :: "co_event list" where
  "one_pass \<equiv> [Req, Internal, Start, Internal, Finish True, Internal]"

lemma one_pass_reached:
  "\<exists>y. co_run (New_coordinator True True) one_pass y \<and> (\<forall>c. co_phase y c = Idle) \<and> co_ready y \<noteq> None"
proof -
  define y0 where "y0 = New_coordinator True True"
  define y1 where "y1 = at_phase 0 Waiting (set_ready False (y0\<lparr>co_last := request_obs (co_last y0)\<rparr>))"
  define y2 where "y2 = at_phase 0 Holding (y1\<lparr>co_gate := Some 0\<rparr>)"
  define y3 where "y3 = at_phase 0 (Armed (ob_desired (co_last y2))) y2"
  define y4 where "y4 = at_phase 0 (Passing (ob_desired (co_last y2))) (y3\<lparr>co_last := (co_last y3)\<lparr>ob_inflight := True\<rparr>\<rparr>)"
  define ob where "ob = finish_obs 7 (ob_desired (co_last y2)) True (co_last y4)"
  define y5 where "y5 = at_phase 0 Leaving (set_ready (ob_status ob = Applied) (y4\<lparr>co_last := ob\<rparr>))"
  define y6 where "y6 = at_phase 0 Idle (y5\<lparr>co_gate := None\<rparr>)"
  have p0: "co_phase y0 = (\<lambda>_. Idle)" "co_gate y0 = None" "co_inner y0" "co_ready y0 = Some False"
    by (simp_all add: y0_def New_coordinator_def)
  have "co_step y0 Req y1" unfolding y1_def by (rule co_step.request) (simp_all add: p0)
  moreover have "co_step y1 Internal y2" unfolding y2_def by (rule co_step.acquire) (simp_all add: y1_def p0)
  moreover have "co_step y2 Start y3" unfolding y3_def by (rule co_step.read_revision) (simp add: y2_def)
  moreover have "co_step y3 Internal y4" unfolding y4_def by (rule co_step.enter) (simp add: y3_def)
  moreover have "co_step y4 (Finish True) y5"
    unfolding y5_def by (rule co_step.finish[where res = "(None, None)"]) (simp_all add: y4_def ob_def good_result_def)
  moreover have "co_step y5 Internal y6" unfolding y6_def by (rule co_step.release) (simp add: y5_def)
  ultimately have "co_run y0 one_pass y6" by (intro co_run_Cons) (assumption | rule co_run.start)+
  moreover have "\<forall>c. co_phase y6 c = Idle" "co_ready y6 \<noteq> None"
    by (simp_all add: y6_def y5_def y4_def y3_def y2_def y1_def p0)
  ultimately show ?thesis unfolding y0_def by blast
qed

theorem applied_status_exact_witness:
  "\<exists>y. co_run (New_coordinator True True) one_pass y \<and> ob_status (co_last y) = Applied \<and> co_ready y = Some True"
proof -
  obtain y where y: "co_run (New_coordinator True True) one_pass y" "co_ready y \<noteq> None" using one_pass_reached by blast
  have "length one_pass < 2 ^ 64" by simp
  note ex = applied_status_exact[OF y(1) this]
  have "one_pass = [Req, Internal] @ Start # [Internal] @ Finish True # [Internal] \<and> Req \<notin> set [Internal] \<and> unfinished [Internal]"
    by (simp add: unfinished_def)
  with ex have "ob_status (co_last y) = Applied" by blast
  with ex y show ?thesis by auto
qed


end
