(* ===== verification/IfaceChanges.thy ===== *)
theory IfaceChanges
  imports Interfaces Runtime
begin

text \<open>
  Changing and removing interfaces (\<open>Update\<close>, \<open>updatePoolsTx\<close>, \<open>DeleteReconciled\<close> of
  \<open>src/internal/iface/\<close>): the table invariant under a change, and the removal composed with the
  reconcile engine through the attempt of the handlers.
\<close>

section \<open>Update\<close>

text \<open>What an edit fixes of the interface it starts from.\<close>

lemma edit_ok:
  assumes "edit_iface svc ifc inp = Inr ifc'"
    and "576 \<le> if_mtu ifc" "if_mtu ifc \<le> 65535" "ValidEndpoint (if_endpoint ifc)"
    and "ob_ordered (if_obf ifc)" "ValidateObfuscation (if_obf ifc) = Inr ()"
    and "\<And>ob. ui_obf inp = Some ob \<Longrightarrow> ob_ordered ob"
  shows "if_id ifc' = if_id ifc" "576 \<le> if_mtu ifc'" "if_mtu ifc' \<le> 65535" "ValidEndpoint (if_endpoint ifc')"
    "ob_ordered (if_obf ifc')" "ValidateObfuscation (if_obf ifc') = Inr ()"
proof -
  have cl: "ValidateObfuscation ob = Inr ()" if "classifySubmittedProfile ob pr g = Inr t" for ob pr g t
    using that by (auto simp: classifySubmittedProfile_def ValidateGeneratedProfile_def Let_def tx_simps plain_valid split: option.splits if_splits)
  from assms(1) show "if_id ifc' = if_id ifc"
    by (auto simp: edit_iface_def tx_simps)
  from assms(1-4) show "576 \<le> if_mtu ifc'" "if_mtu ifc' \<le> 65535" "ValidEndpoint (if_endpoint ifc')"
    by (auto simp: edit_iface_def tx_simps split: option.splits if_splits)
  from assms(1,5-) cl show "ob_ordered (if_obf ifc')" "ValidateObfuscation (if_obf ifc') = Inr ()"
    by (auto simp: edit_iface_def tx_simps split: option.splits if_splits)
qed

lemma stranded_scan_ok:
  "stranded_scan gone ds = Inr () \<Longrightarrow> d \<in> set ds \<Longrightarrow>
     \<exists>p. parse_prefix (d_ipv4 d) = Some p \<and> (\<forall>q \<in> set gone. \<not> contains q (p_addr p))"
  by (induction ds) (auto simp: list_ex_iff split: option.splits if_splits)

lemma pools_tx_ok:
  assumes "updatePoolsTx ifc pools s = Inr (ifc', s')" "find_row i_id (if_id ifc) (ifaces s) = Some r"
  shows "ifc' = ifc\<lparr>if_pools := pools\<rparr>" "Validate pools = Inr ()" "pools = i_subnet r # tl pools"
    "check_pools s ifc pools = Inr ()"
    "s' = s\<lparr>ifaces := update_rows (\<lambda>r. i_id r = if_id ifc) (\<lambda>r. r\<lparr>i_extras := JsonValue (tl pools)\<rparr>) (ifaces s)\<rparr>"
    "\<And>d p q. d \<in> set (devices s) \<Longrightarrow> d_iface d = if_id ifc \<Longrightarrow> parse_prefix (d_ipv4 d) = Some p \<Longrightarrow> q \<in> set (pools_of r)
       \<Longrightarrow> contains (must_prefix q) (p_addr p) \<Longrightarrow> q \<in> set pools"
proof -
  from assms obtain old ex where v: "Validate pools = Inr ()" and h: "hd pools = i_subnet r"
    and old: "Decode (i_subnet r) (i_extras r) = Inr old" and chk: "check_pools s ifc pools = Inr ()"
    and str: "(if map must_prefix (filter (\<lambda>pool. pool \<notin> set pools) old) = [] then Inr ()
       else stranded_scan (map must_prefix (filter (\<lambda>pool. pool \<notin> set pools) old)) (filter (\<lambda>d. d_iface d = if_id ifc) (devices s))) = Inr ()"
    and ex: "Extras pools = Some ex" "ifc' = ifc\<lparr>if_pools := pools\<rparr>"
      "s' = s\<lparr>ifaces := update_rows (\<lambda>r. i_id r = if_id ifc) (\<lambda>r. r\<lparr>i_extras := ex\<rparr>) (ifaces s)\<rparr>"
    by (auto simp: updatePoolsTx_def Let_def tx_simps split: if_splits option.splits)
  show "ifc' = ifc\<lparr>if_pools := pools\<rparr>" "Validate pools = Inr ()" "check_pools s ifc pools = Inr ()" by fact+
  show p: "pools = i_subnet r # tl pools" using h Validate_hd(1)[OF v] by (cases pools) auto
  show "s' = s\<lparr>ifaces := update_rows (\<lambda>r. i_id r = if_id ifc) (\<lambda>r. r\<lparr>i_extras := JsonValue (tl pools)\<rparr>) (ifaces s)\<rparr>"
    using ex(1,3) p by (cases pools) auto
  show "q \<in> set pools" if "d \<in> set (devices s)" "d_iface d = if_id ifc" "parse_prefix (d_ipv4 d) = Some p" "q \<in> set (pools_of r)"
    "contains (must_prefix q) (p_addr p)" for d p q
  proof (rule ccontr)
    assume "q \<notin> set pools"
    with that old have g: "must_prefix q \<in> set (map must_prefix (filter (\<lambda>pool. pool \<notin> set pools) old))"
      by (auto simp: pools_of_def)
    then have "map must_prefix (filter (\<lambda>pool. pool \<notin> set pools) old) \<noteq> []" by force
    with str have "stranded_scan (map must_prefix (filter (\<lambda>pool. pool \<notin> set pools) old)) (filter (\<lambda>d. d_iface d = if_id ifc) (devices s)) = Inr ()"
      by presburger
    from stranded_scan_ok[OF this, of d] that g show False by fastforce
  qed
qed

text \<open>The row an update leaves in place of \<open>r\<close>.\<close>

definition updated_row :: "iface \<Rightarrow> string list option \<Rightarrow> iface_row \<Rightarrow> iface_row" where
  "updated_row ifc pools r = iface_columns ifc (case pools of None \<Rightarrow> r | Some ps \<Rightarrow> r\<lparr>i_extras := JsonValue (tl ps)\<rparr>)"

lemma updated_row_sel [simp]:
  "i_id (updated_row ifc ps r) = i_id r" "i_name (updated_row ifc ps r) = i_name r" "i_port (updated_row ifc ps r) = i_port r"
  "i_subnet (updated_row ifc ps r) = i_subnet r" "i_privkey (updated_row ifc ps r) = i_privkey r" "i_mode (updated_row ifc ps r) = i_mode r"
  "i_mtu (updated_row ifc ps r) = if_mtu ifc" "i_enabled (updated_row ifc ps r) = if_enabled ifc"
  "i_endpoint (updated_row ifc ps r) = if_endpoint ifc" "i_cols (updated_row ifc ps r) = obf_to_columns (if_obf ifc)"
  "i_extras (updated_row ifc ps r) = (case ps of None \<Rightarrow> i_extras r | Some ps \<Rightarrow> JsonValue (tl ps))"
  by (auto simp: updated_row_def iface_columns_def split: option.splits)

interpretation upd_id: row_update i_id "updated_row ifc ps"
  by unfold_locales simp

interpretation upd_name: row_update i_name "updated_row ifc ps"
  by unfold_locales simp

interpretation upd_port: row_update i_port "updated_row ifc ps"
  by unfold_locales simp

lemma update_rows_twice:
  "(\<And>r. i_id (f r) = i_id r) \<Longrightarrow>
     update_rows (\<lambda>r. i_id r = n) g (update_rows (\<lambda>r. i_id r = n) f rs) = update_rows (\<lambda>r. i_id r = n) (g \<circ> f) rs"
  by (auto simp: update_rows_def)

lemma updated_row_ok:
  assumes "iface_row_ok r" "576 \<le> if_mtu ifc" "if_mtu ifc \<le> 65535" "ValidEndpoint (if_endpoint ifc)"
    "ob_ordered (if_obf ifc)" "ValidateObfuscation (if_obf ifc) = Inr ()"
    "\<And>ps. pools = Some ps \<Longrightarrow> Validate ps = Inr () \<and> ps = i_subnet r # tl ps"
  shows "iface_row_ok (updated_row ifc pools r)" "pools_of (updated_row ifc pools r) = (case pools of None \<Rightarrow> pools_of r | Some ps \<Rightarrow> ps)"
proof -
  have d: "Decode (i_subnet (updated_row ifc pools r)) (i_extras (updated_row ifc pools r)) =
      Inr (case pools of None \<Rightarrow> pools_of r | Some ps \<Rightarrow> ps)"
    using assms(1) assms(7) by (cases pools) (auto simp: iface_row_ok_def Decode_def)
  then show p: "pools_of (updated_row ifc pools r) = (case pools of None \<Rightarrow> pools_of r | Some ps \<Rightarrow> ps)"
    by (simp add: pools_of_def)
  show "iface_row_ok (updated_row ifc pools r)"
    unfolding iface_row_ok_def p using d assms(1-6) columns_roundtrip[OF assms(5,6)] by (auto simp: iface_row_ok_def)
qed

lemma iface_update_cases:
  assumes "ifaces_inv s" "\<And>ob. ui_obf inp = Some ob \<Longrightarrow> ob_ordered ob" "Iface_Update svc s ident inp = (Inr ifc, s')"
  obtains r ifc0 where "find_row i_id ident (ifaces s) = Some r" "r \<in> set (ifaces s)" "i_id r = ident" "if_id ifc = ident"
    "s' = s\<lparr>ifaces := update_rows (\<lambda>r. i_id r = ident) (updated_row ifc (ui_pools inp)) (ifaces s)\<rparr>"
    "iface_row_ok (updated_row ifc (ui_pools inp) r)" "pools_of (updated_row ifc (ui_pools inp) r) = if_pools ifc"
    "column_obfuscation (obf_to_columns (if_obf ifc)) = Inr (if_obf ifc)"
    "\<And>r'. r' \<in> set (ifaces s) \<Longrightarrow> i_id r' \<noteq> ident \<Longrightarrow> apart (if_pools ifc) (pools_of r')"
    "\<And>d p q. d \<in> set (devices s) \<Longrightarrow> d_iface d = ident \<Longrightarrow> parse_prefix (d_ipv4 d) = Some p \<Longrightarrow> q \<in> set (pools_of r)
       \<Longrightarrow> contains (must_prefix q) (p_addr p) \<Longrightarrow> q \<in> set (if_pools ifc)"
proof -
  from assms(3) obtain got where g: "Iface_Get s ident = Inr got" and u: "Iface_Update_from svc s got inp = (Inr ifc, s')"
    by (auto simp: Iface_Update_def split: sum.splits)
  then obtain r where r: "find_row i_id ident (ifaces s) = Some r" "scanIface r = Inr got"
    by (auto simp: Iface_Get_def getBy_def split: option.splits)
  then have r': "r \<in> set (ifaces s)" "i_id r = ident" by auto
  have ok: "iface_row_ok r" using assms(1) r'(1) by (simp add: ifaces_inv_def)
  have got: "if_id got = ident" "576 \<le> if_mtu got" "if_mtu got \<le> 65535" "ValidEndpoint (if_endpoint got)"
    "ob_ordered (if_obf got)" "ValidateObfuscation (if_obf got) = Inr ()" "if_pools got = pools_of r"
    using row_scans[OF ok] ok r(2) r'(2) by (auto simp: iface_row_ok_def scanIface_def)
  from u obtain ifc1 where e: "edit_iface svc got inp = Inr ifc1" by (auto simp: Iface_Update_from_def split: sum.splits)
  note ed = edit_ok[OF e got(2-6) assms(2)]
  have pools1: "if_pools ifc1 = pools_of r" using e got(7) by (auto simp: edit_iface_def tx_simps)
  have inv: "apart (pools_of r) (pools_of q)" if "q \<in> set (ifaces s)" "i_id q \<noteq> ident" for q
    using assms(1) that r' by (auto simp: ifaces_inv_def)
  have id1: "if_id ifc1 = ident" using ed(1) got(1) by simp
  show ?thesis
  proof (cases "ui_pools inp")
    case None
    have n: "updated_row ifc None = iface_columns ifc" by (simp add: updated_row_def fun_eq_iff)
    from None u e id1 have f: "ifc = ifc1" "s' = s\<lparr>ifaces := update_rows (\<lambda>r. i_id r = ident) (updated_row ifc (ui_pools inp)) (ifaces s)\<rparr>"
      by (auto simp: Iface_Update_from_def n tx_simps)
    note row = updated_row_ok[OF ok ed(2-6), of None]
    show ?thesis
      by (rule that[OF r(1) r' _ f(2)])
        (use f(1) None id1 row columns_roundtrip[OF ed(5,6)] inv pools1 in auto)
  next
    case (Some ps)
    with u e id1 obtain s1 where t: "updatePoolsTx ifc1 ps s = Inr (ifc, s1)"
      and s': "s' = s1\<lparr>ifaces := update_rows (\<lambda>r. i_id r = if_id ifc) (iface_columns ifc) (ifaces s1)\<rparr>"
      by (auto simp: Iface_Update_from_def tx_simps)
    note p = pools_tx_ok[OF t, unfolded id1, OF r(1)]
    have f: "if_id ifc = ident" "if_pools ifc = ps" using p(1) id1 by simp_all
    have same: "if_mtu ifc = if_mtu ifc1" "if_endpoint ifc = if_endpoint ifc1" "if_obf ifc = if_obf ifc1" using p(1) by simp_all
    have ifs: "s' = s\<lparr>ifaces := update_rows (\<lambda>r. i_id r = ident) (updated_row ifc (ui_pools inp)) (ifaces s)\<rparr>"
    proof -
      have "updated_row ifc (Some ps) = iface_columns ifc \<circ> (\<lambda>r. r\<lparr>i_extras := JsonValue (tl ps)\<rparr>)"
        by (simp add: updated_row_def fun_eq_iff)
      then show ?thesis unfolding s' p(5) Some f(1) by (simp add: update_rows_twice)
    qed
    note row = updated_row_ok[OF ok, of ifc "Some ps", unfolded same, OF ed(2-6)]
    have row1: "iface_row_ok (updated_row ifc (ui_pools inp) r)" "pools_of (updated_row ifc (ui_pools inp) r) = if_pools ifc"
      using row p(2,3) f(2) Some by auto
    show ?thesis
      by (rule that[OF r(1) r' f(1) ifs row1])
        (use columns_roundtrip[OF ed(5,6)] same check_pools_ok(1)[OF p(4)] id1 p(6) f(2) in auto)
  qed
qed

text \<open>
  C24. Changing an interface keeps the table sound. On error nothing changes. On success exactly the named row
  is replaced: its name, listen port, primary pool and private key are those it had, the other rows
  and tables are untouched, the table invariant (valid rows, disjoint pools) still holds, every
  registered device address that lay in a pool of the interface still lies in one of its pools, and
  reading the row got gives the profile and pools that were reported.
\<close>

theorem iface_update_correct:
  assumes "ifaces_inv s" "\<And>ob. ui_obf inp = Some ob \<Longrightarrow> ob_ordered ob" "Iface_Update svc s ident inp = (res, s')"
  shows "(\<forall>e. res = Inl e \<longrightarrow> s' = s)
    \<and> (\<forall>ifc. res = Inr ifc \<longrightarrow> ifaces_inv s' \<and> (\<exists>r row. find_row i_id ident (ifaces s) = Some r
         \<and> s' = s\<lparr>ifaces := update_rows (\<lambda>r. i_id r = ident) (\<lambda>_. row) (ifaces s)\<rparr>
         \<and> i_id row = ident \<and> i_name row = i_name r \<and> i_port row = i_port r \<and> i_subnet row = i_subnet r \<and> i_privkey row = i_privkey r
         \<and> (\<forall>d \<in> set (devices s). \<forall>p. d_iface d = ident \<and> parse_prefix (d_ipv4 d) = Some p
              \<and> (\<exists>q \<in> set (pools_of r). contains (must_prefix q) (p_addr p))
              \<longrightarrow> (\<exists>q \<in> set (pools_of row). contains (must_prefix q) (p_addr p)))
         \<and> (\<exists>got. Iface_Get s' ident = Inr got \<and> if_obf got = if_obf ifc \<and> if_pools got = if_pools ifc)))"
proof (intro conjI allI impI)
  show "s' = s" if "res = Inl e" for e
    using assms(3) that by (auto simp: Iface_Update_def Iface_Update_from_def WithTx_Inl split: sum.splits)
next
  fix ifc assume "res = Inr ifc"
  with assms(3) have u: "Iface_Update svc s ident inp = (Inr ifc, s')" by simp
  have ui: "unique_on i_id (ifaces s)" using assms(1) by (simp add: ifaces_inv_def)
  show "ifaces_inv s'"
  proof (rule iface_update_cases[OF assms(1,2) u])
    fix r assume r: "find_row i_id ident (ifaces s) = Some r" "r \<in> set (ifaces s)" "i_id r = ident"
      and s': "s' = s\<lparr>ifaces := update_rows (\<lambda>r. i_id r = ident) (updated_row ifc (ui_pools inp)) (ifaces s)\<rparr>"
      and row: "iface_row_ok (updated_row ifc (ui_pools inp) r)" "pools_of (updated_row ifc (ui_pools inp) r) = if_pools ifc"
      and ap: "\<And>r'. r' \<in> set (ifaces s) \<Longrightarrow> i_id r' \<noteq> ident \<Longrightarrow> apart (if_pools ifc) (pools_of r')"
    have only: "x = r" if "x \<in> set (ifaces s)" "i_id x = ident" for x using unique_on_eq[OF ui that(1) r(2)] that(2) r(3) by simp
    have mem: "x = updated_row ifc (ui_pools inp) r \<or> x \<in> set (ifaces s) \<and> i_id x \<noteq> ident" if "x \<in> set (ifaces s')" for x
      using that only by (auto simp: s' update_rows_def split: if_splits)
    have old: "apart (pools_of x) (pools_of y)" if "x \<in> set (ifaces s)" "y \<in> set (ifaces s)" "i_id x \<noteq> i_id y" for x y
      using that assms(1) by (simp add: ifaces_inv_def)
    have new: "apart (if_pools ifc) (pools_of y) \<and> apart (pools_of y) (if_pools ifc)" if "y \<in> set (ifaces s)" "i_id y \<noteq> ident" for y
      using ap[OF that] apart_sym by blast
    have "apart (pools_of x) (pools_of y)" if "x \<in> set (ifaces s')" "y \<in> set (ifaces s')" "i_id x \<noteq> i_id y" for x y
      using mem[OF that(1)] mem[OF that(2)] that(3) old new row(2) r(3) by auto
    moreover have "iface_row_ok x" if "x \<in> set (ifaces s')" for x
      using mem[OF that] assms(1) row(1) by (auto simp: ifaces_inv_def)
    ultimately show ?thesis
      using assms(1) by (simp add: ifaces_inv_def s' upd_id.unique_update upd_name.unique_update upd_port.unique_update)
  qed
  show "\<exists>r row. find_row i_id ident (ifaces s) = Some r
         \<and> s' = s\<lparr>ifaces := update_rows (\<lambda>r. i_id r = ident) (\<lambda>_. row) (ifaces s)\<rparr>
         \<and> i_id row = ident \<and> i_name row = i_name r \<and> i_port row = i_port r \<and> i_subnet row = i_subnet r \<and> i_privkey row = i_privkey r
         \<and> (\<forall>d \<in> set (devices s). \<forall>p. d_iface d = ident \<and> parse_prefix (d_ipv4 d) = Some p
              \<and> (\<exists>q \<in> set (pools_of r). contains (must_prefix q) (p_addr p))
              \<longrightarrow> (\<exists>q \<in> set (pools_of row). contains (must_prefix q) (p_addr p)))
         \<and> (\<exists>got. Iface_Get s' ident = Inr got \<and> if_obf got = if_obf ifc \<and> if_pools got = if_pools ifc)"
  proof (rule iface_update_cases[OF assms(1,2) u])
    fix r assume r: "find_row i_id ident (ifaces s) = Some r" "r \<in> set (ifaces s)" "i_id r = ident"
      and s': "s' = s\<lparr>ifaces := update_rows (\<lambda>r. i_id r = ident) (updated_row ifc (ui_pools inp)) (ifaces s)\<rparr>"
      and row: "iface_row_ok (updated_row ifc (ui_pools inp) r)" "pools_of (updated_row ifc (ui_pools inp) r) = if_pools ifc"
      and cols: "column_obfuscation (obf_to_columns (if_obf ifc)) = Inr (if_obf ifc)"
      and str: "\<And>d p q. d \<in> set (devices s) \<Longrightarrow> d_iface d = ident \<Longrightarrow> parse_prefix (d_ipv4 d) = Some p \<Longrightarrow> q \<in> set (pools_of r)
       \<Longrightarrow> contains (must_prefix q) (p_addr p) \<Longrightarrow> q \<in> set (if_pools ifc)"
    let ?row = "updated_row ifc (ui_pools inp) r"
    have only: "x = r" if "x \<in> set (ifaces s)" "i_id x = ident" for x using unique_on_eq[OF ui that(1) r(2)] that(2) r(3) by simp
    have eq: "update_rows (\<lambda>r. i_id r = ident) (updated_row ifc (ui_pools inp)) (ifaces s) = update_rows (\<lambda>r. i_id r = ident) (\<lambda>_. ?row) (ifaces s)"
      unfolding update_rows_def by (rule map_cong[OF refl]) (auto dest: only)
    have "find_row i_id ident (ifaces s') = Some ?row"
      using r(1) by (simp add: s' upd_id.find_update_self)
    then have "\<exists>got. Iface_Get s' ident = Inr got \<and> if_obf got = if_obf ifc \<and> if_pools got = if_pools ifc"
      using cols row by (simp add: Iface_Get_def getBy_def scanIface_def iface_row_ok_def)
    with r s' eq row str show ?thesis
      by - (rule exI[of _ r], rule exI[of _ ?row], simp, blast)
  qed
qed

definition wider_pools :: "string list" where
  "wider_pools = [show_prefix example_pool, ladder_pool 5]"

definition example_change :: update_input where
  "example_change = \<lparr>ui_pools = Some wider_pools, ui_mtu = Some 1300, ui_enabled = None, ui_endpoint = None, ui_obf = None,
     ui_preset = None, ui_generated = False\<rparr>"

lemma metered_ifaces_inv: "ifaces_inv (metered_db l)"
  using one_link_inv by (simp add: ifaces_inv_def one_link_ifaces example_ifaces)

lemma wider_valid: "Validate wider_pools = Inr ()"
proof -
  have "\<not> overlaps example_pool (ladder_prefix 5)" using ladder_five_apart overlaps_sym by blast
  moreover have "Parse (ladder_pool 5) = Inr (ladder_prefix 5)" by (rule ladder_parse) simp
  ultimately show ?thesis
    by (simp add: Validate_def wider_pools_def MaxPools_def example_pool_Parse ladder_five_apart)
qed

lemma example_update:
  "\<exists>ifc s'. Iface_Update example_service (metered_db 100) ''if-1'' example_change = (Inr ifc, s') \<and> if_pools ifc = wider_pools"
proof -
  have r: "find_row i_id ''if-1'' (ifaces (metered_db 100)) = Some example_iface"
    by (simp add: example_ifaces find_row_Cons example_iface_def)
  have d: "Decode (i_subnet example_iface) (i_extras example_iface) = Inr [show_prefix example_pool]" "i_subnet example_iface = show_prefix example_pool"
    "i_id example_iface = ''if-1''" "i_cols example_iface = plain_columns"
    by (simp_all add: example_iface_def example_pool_Decode)
  then obtain ifc0 where g: "Iface_Get (metered_db 100) ''if-1'' = Inr ifc0" "if_id ifc0 = ''if-1''" "if_blocked ifc0 = []"
    using r by (auto simp: Iface_Get_def getBy_def scanIface_def plain_columns_ok)
  then obtain ifc1 where e: "edit_iface example_service ifc0 example_change = Inr ifc1" "if_id ifc1 = ''if-1''" "if_blocked ifc1 = []"
    by (simp add: edit_iface_def example_change_def example_service_def)
  have "check_pools (metered_db 100) ifc1 wider_pools = Inr ()"
    using e d by (simp add: wider_pools_def check_pool_def checkHostPool_def checkOverlaps_def example_ifaces)
  moreover have "hd wider_pools = show_prefix example_pool" "show_prefix example_pool \<in> set wider_pools" "Extras wider_pools = Some (JsonValue [ladder_pool 5])"
    by (simp_all add: wider_pools_def)
  ultimately have "\<exists>s1. updatePoolsTx ifc1 wider_pools (metered_db 100) = Inr (ifc1\<lparr>if_pools := wider_pools\<rparr>, s1)"
    using e(2) r d by (simp add: updatePoolsTx_def wider_valid)
  moreover have "ui_pools example_change = Some wider_pools" by (simp add: example_change_def)
  ultimately show ?thesis
    using g(1) e(1) by (auto simp: Iface_Update_def Iface_Update_from_def)
qed

theorem iface_update_correct_witness:
  "\<exists>ifc s'. Iface_Update example_service (metered_db 100) ''if-1'' example_change = (Inr ifc, s') \<and> ifaces_inv s'
     \<and> (\<exists>got. Iface_Get s' ''if-1'' = Inr got \<and> if_pools got = wider_pools)"
proof -
  obtain ifc s' where u: "Iface_Update example_service (metered_db 100) ''if-1'' example_change = (Inr ifc, s')" "if_pools ifc = wider_pools"
    using example_update by blast
  have "ui_obf example_change = Some ob \<Longrightarrow> ob_ordered ob" for ob by (simp add: example_change_def)
  from iface_update_correct[OF metered_ifaces_inv this u(1)] u show ?thesis by auto
qed

section \<open>Removal\<close>

text \<open>The row without its time of change.\<close>

definition timeless :: "iface_row \<Rightarrow> iface_row" where
  "timeless r = r\<lparr>i_updated := 0\<rparr>"

lemma SetEnabled_ok:
  assumes "find_row i_id ident (ifaces s) = Some r"
  shows "Iface_SetEnabled svc s ident on = (Inr (), s\<lparr>ifaces := update_rows (\<lambda>r. i_id r = ident)
    (\<lambda>r. r\<lparr>i_enabled := on, i_updated := is_now svc\<rparr>) (ifaces s)\<rparr>)"
  using assms by (simp add: Iface_SetEnabled_def)

interpretation enab_id: row_update i_id "\<lambda>r. r\<lparr>i_enabled := on, i_updated := now\<rparr>"
  by unfold_locales simp

interpretation enab_name: row_update i_name "\<lambda>r. r\<lparr>i_enabled := on, i_updated := now\<rparr>"
  by unfold_locales simp

lemma enable_twice:
  assumes "unique_on i_id rs" "find_row i_id ident rs = Some r" "i_enabled r = b"
  shows "map timeless (update_rows (\<lambda>r. i_id r = ident) (\<lambda>r. r\<lparr>i_enabled := b, i_updated := t1\<rparr>)
    (update_rows (\<lambda>r. i_id r = ident) (\<lambda>r. r\<lparr>i_enabled := c, i_updated := t0\<rparr>) rs)) = map timeless rs"
proof -
  have "x = r" if "x \<in> set rs" "i_id x = ident" for x
    using that find_row_unique[OF assms(1) that(1)] assms(2) by simp
  then show ?thesis using assms(3) by (auto simp: update_rows_def timeless_def)
qed

text \<open>The state in which the pass over the interface that is to go is made.\<close>

definition doomed :: "iface_service \<Rightarrow> string \<Rightarrow> iface_row \<Rightarrow> db \<Rightarrow> db" where
  "doomed svc ident r s = (if i_enabled r
     then s\<lparr>ifaces := update_rows (\<lambda>r. i_id r = ident) (\<lambda>r. r\<lparr>i_enabled := False, i_updated := is_now svc\<rparr>) (ifaces s)\<rparr> else s)"

lemma doomed_sel:
  assumes "find_row i_id ident (ifaces s) = Some r"
  shows "devices (doomed svc ident r s) = devices s" "users (doomed svc ident r s) = users s" "retired (doomed svc ident r s) = retired s"
    "\<exists>r'. find_row i_id ident (ifaces (doomed svc ident r s)) = Some r' \<and> \<not> i_enabled r' \<and> i_name r' = i_name r"
    "unique_on i_name (ifaces (doomed svc ident r s)) = unique_on i_name (ifaces s)"
    "unique_on i_id (ifaces (doomed svc ident r s)) = unique_on i_id (ifaces s)"
  using assms by (simp_all add: doomed_def enab_id.find_update_self enab_name.unique_update enab_id.unique_update)

lemma DeleteReconciled_unfold:
  assumes "Iface_Get s ident = Inr ifc" "find_row i_id ident (ifaces s) = Some r" "if_enabled ifc = i_enabled r" "if_id ifc = ident"
    "ensureNoDevices s ident = Inr ()" "f (doomed svc ident r s, b) = (pr, s1, b1)"
    "ifaces s1 = ifaces (doomed svc ident r s)" "devices s1 = devices s"
  shows "DeleteReconciled svc (s, b) ident (Some f) =
    (case pr of Inl e \<Rightarrow> rollback_enabled svc (Some f) ifc e (s1, b1)
     | Inr _ \<Rightarrow> (Inr (), snd (delete_iface_row s1 ident), b1))"
proof -
  have en: "(if if_enabled ifc then Iface_SetEnabled svc s ident False else (Inr (), s)) = (Inr (), doomed svc ident r s)"
    by (simp add: assms(3) doomed_def SetEnabled_ok[OF assms(2)])
  have nd: "\<not> list_ex (\<lambda>d. d_iface d = ident) (devices s)" using assms(5) by (auto simp: ensureNoDevices_def split: if_splits)
  obtain r' where "find_row i_id ident (ifaces s1) = Some r'" using doomed_sel(4)[OF assms(2), of svc] assms(7) by auto
  then have "Iface_Delete s1 ident = (Inr (), snd (delete_iface_row s1 ident))"
    using nd assms(8) by (simp add: Iface_Delete_def ensureNoDevices_def delete_iface_row_def)
  with assms(1,5,6) show ?thesis unfolding DeleteReconciled_def fst_conv by (cases pr) (simp_all add: en del: if_split)
qed

lemma rollback_ok:
  assumes "tunnel_backend bk ok" "ok b1" "unique_on d_pubkey (devices s1)" "unique_on i_name (ifaces s1)"
    "find_row i_id (if_id ifc) (ifaces s1) = Some r'"
    "rollback_enabled svc (Some (reconcile_now en bk)) ifc e (s1, b1) = (res, s', b')"
  shows "res = Inl e \<and> devices s' = devices s1 \<and> users s' = users s1
    \<and> ifaces s' = (if if_enabled ifc then update_rows (\<lambda>r. i_id r = if_id ifc) (\<lambda>r. r\<lparr>i_enabled := True, i_updated := is_now svc\<rparr>) (ifaces s1)
       else ifaces s1)"
proof (cases "if_enabled ifc")
  case True
  let ?s2 = "s1\<lparr>ifaces := update_rows (\<lambda>r. i_id r = if_id ifc) (\<lambda>r. r\<lparr>i_enabled := True, i_updated := is_now svc\<rparr>) (ifaces s1)\<rparr>"
  obtain pr s3 b3 where p: "reconcile_now en bk (?s2, b1) = (pr, s3, b3)" by (metis prod_cases3)
  obtain q where "Run en bk ?s2 b1 = (q, s3, b3)" using reconcile_now_state[OF p] by blast
  then have "users s3 = users s1 \<and> devices s3 = devices s1 \<and> ifaces s3 = ifaces ?s2"
    using tunnel_backend.pass_frame[OF assms(1,2), of ?s2 en q s3 b3] assms(3,4) by (simp add: enab_name.unique_update)
  moreover have "rollback_enabled svc (Some (reconcile_now en bk)) ifc e (s1, b1) = (Inl e, s3, b3)"
    using True p by (simp add: rollback_enabled_def SetEnabled_ok[OF assms(5)])
  ultimately show ?thesis using assms(6) True by auto
qed (use assms(6) in \<open>auto simp: rollback_enabled_def\<close>)

text \<open>
  C25. Removing an interface removes its link first. Over any backend that keeps the contract: on success the
  row existed and is gone, no device referred to it, the link is off the node, no other interface
  row changed and devices keep theirs. On failure the interface is still there exactly as it was,
  enabled flag included (only its time of change may move), and so are all devices, so the removal
  can be retried.
\<close>

theorem delete_reconciled_correct:
  assumes "tunnel_backend bk ok" "ok b" "devices_inv s" "unique_on i_id (ifaces s)" "unique_on i_name (ifaces s)"
    "DeleteReconciled svc (s, b) ident (Some (reconcile_now en bk)) = (res, s', b')"
  shows "devices s' = devices s
    \<and> (res = Inr () \<longrightarrow> (\<exists>r. find_row i_id ident (ifaces s) = Some r \<and> Dump bk b' (i_name r) = Inl ErrInterfaceNotFound
         \<and> ifaces s' = filter (\<lambda>r. i_id r \<noteq> ident) (ifaces s) \<and> (\<forall>d \<in> set (devices s'). d_iface d \<noteq> ident)
         \<and> (\<forall>u \<in> set (users s'). u_interface u \<noteq> Some ident)))
    \<and> (\<forall>e. res = Inl e \<longrightarrow> map timeless (ifaces s') = map timeless (ifaces s) \<and> users s' = users s)"
proof (cases "\<exists>ifc. Iface_Get s ident = Inr ifc \<and> ensureNoDevices s ident = Inr ()")
  case False
  then have "DeleteReconciled svc (s, b) ident (Some (reconcile_now en bk)) =
      (Inl (case Iface_Get s ident of Inl e \<Rightarrow> e | Inr _ \<Rightarrow> projl (ensureNoDevices s ident)), s, b)"
    by (auto simp: DeleteReconciled_def split: sum.splits)
  with assms(6) show ?thesis by auto
next
  case True
  then obtain ifc r where g: "Iface_Get s ident = Inr ifc" "ensureNoDevices s ident = Inr ()"
    and r: "find_row i_id ident (ifaces s) = Some r" "scanIface r = Inr ifc"
    by (auto simp: Iface_Get_def getBy_def split: option.splits)
  have f: "if_enabled ifc = i_enabled r" "if_id ifc = ident" "i_id r = ident"
    using r by (auto simp: scanIface_def tx_simps)
  let ?s0 = "doomed svc ident r s"
  note ds = doomed_sel[OF r(1), of svc]
  have ud: "unique_on d_pubkey (devices ?s0)" "unique_on i_name (ifaces ?s0)" using assms(3,5) ds by (simp_all add: devices_inv_def)
  obtain pr s1 b1 where p: "reconcile_now en bk (?s0, b) = (pr, s1, b1)" by (metis prod_cases3)
  obtain q where q: "Run en bk ?s0 b = (q, s1, b1)" using reconcile_now_state[OF p] by blast
  note fr = tunnel_backend.pass_frame[OF assms(1,2) ud q]
  obtain r' where r': "find_row i_id ident (ifaces ?s0) = Some r'" "\<not> i_enabled r'" "i_name r' = i_name r" using ds(4) by blast
  note un = DeleteReconciled_unfold[where f = "reconcile_now en bk" and svc = svc and b = b, OF g(1) r(1) f(1,2) g(2) p]
  have eq: "DeleteReconciled svc (s, b) ident (Some (reconcile_now en bk)) =
    (case pr of Inl e \<Rightarrow> rollback_enabled svc (Some (reconcile_now en bk)) ifc e (s1, b1)
     | Inr _ \<Rightarrow> (Inr (), snd (delete_iface_row s1 ident), b1))"
    by (rule un) (use fr ds in simp_all)
  show ?thesis
  proof (cases pr)
    case (Inl e)
    have "res = Inl e \<and> devices s' = devices s1 \<and> users s' = users s1
      \<and> ifaces s' = (if if_enabled ifc then update_rows (\<lambda>r. i_id r = if_id ifc) (\<lambda>r. r\<lparr>i_enabled := True, i_updated := is_now svc\<rparr>) (ifaces s1)
         else ifaces s1)"
      by (rule rollback_ok[where en = en and b' = b', OF assms(1)]) (use fr ds ud r' f(2) Inl eq assms(6) in auto)
    moreover have "ifaces s1 = ifaces ?s0" "users s1 = users s" "devices s1 = devices s" using fr ds by simp_all
    moreover have "map timeless (ifaces s') = map timeless (ifaces s)"
      using calculation enable_twice[OF assms(4) r(1)] f(1,2) by (simp add: doomed_def)
    ultimately show ?thesis by simp
  next
    case (Inr u)
    then obtain rep where rep: "Run en bk ?s0 b = (Inr rep, s1, b1)" "re_errors rep = []"
      using p reconcile_now_ok[of en bk ?s0 b s1 b1] by auto
    have gone: "Dump bk b1 (i_name r) = Inl ErrInterfaceNotFound"
      using tunnel_backend.pass_revokes[OF assms(1,2) ud rep(1), of r'] r' rep(2) by auto
    have nd: "\<forall>d \<in> set (devices s). d_iface d \<noteq> ident" using g(2) by (auto simp: ensureNoDevices_def list_ex_iff split: if_splits)
    have s': "s' = snd (delete_iface_row s1 ident)" "b' = b1" "res = Inr ()" using eq Inr assms(6) by simp_all
    have "\<not> list_ex (\<lambda>d. d_iface d = ident) (devices s1)" using nd fr ds by (simp add: list_ex_iff)
    then have s1': "s' = s1\<lparr>ifaces := delete_rows (\<lambda>r. i_id r = ident) (ifaces s1), retired := filter (\<lambda>(i, _). i \<noteq> ident) (retired s1),
        users := update_rows (\<lambda>u. u_interface u = Some ident) (\<lambda>u. u\<lparr>u_interface := None\<rparr>) (users s1)\<rparr>"
      using s'(1) r'(1) fr by (simp add: delete_iface_row_def)
    have "ifaces s' = filter (\<lambda>r. i_id r \<noteq> ident) (ifaces s)"
      using fr by (auto simp: s1' doomed_def delete_rows_def update_rows_def filter_map comp_def intro!: map_idI)
    moreover have "devices s' = devices s" using s1' fr ds by simp
    moreover have "\<forall>u \<in> set (users s'). u_interface u \<noteq> Some ident" by (auto simp: s1' update_rows_def)
    ultimately show ?thesis using s' nd gone r(1) by auto
  qed
qed

text \<open>A disabled interface without devices is removed from an empty node.\<close>

definition idle_db :: db where
  "idle_db = empty_db\<lparr>ifaces := [example_iface\<lparr>i_enabled := False\<rparr>]\<rparr>"

theorem delete_reconciled_correct_witness:
  "\<exists>s' b'. DeleteReconciled example_service (idle_db, fake_New) ''if-1'' (Some (reconcile_now example_engine fake_backend)) = (Inr (), s', b')
     \<and> ifaces s' = [] \<and> Dump fake_backend b' ''awg0'' = Inl ErrInterfaceNotFound"
proof -
  have sel: "ifaces idle_db = [example_iface\<lparr>i_enabled := False\<rparr>]" "devices idle_db = []" "users idle_db = []" "retired idle_db = []"
    by (simp_all add: idle_db_def empty_db_def)
  have row: "i_id example_iface = ''if-1''" "i_name example_iface = ''awg0''" by (simp_all add: example_iface_def)
  have load: "load_interface (en_decrypt example_engine) (example_iface\<lparr>i_enabled := False\<rparr>) = Inr (example_link\<lparr>di_enabled := False\<rparr>)"
    using example_link_loads by (simp add: load_interface_def tx_simps example_iface_def plain_columns_ok example_pool_Decode plain_valid example_engine_def example_link_def)
  have r: "find_row i_id ''if-1'' (ifaces idle_db) = Some (example_iface\<lparr>i_enabled := False\<rparr>)" by (simp add: sel find_row_Cons row)
  obtain ifc where g: "Iface_Get idle_db ''if-1'' = Inr ifc" "if_enabled ifc = False" "if_id ifc = ''if-1''"
    using r by (auto simp: Iface_Get_def getBy_def scanIface_def example_iface_def plain_columns_ok example_pool_Decode)
  have run: "\<exists>rep. Run example_engine fake_backend idle_db fake_New = (Inr rep, idle_db, fake_New) \<and> re_errors rep = []"
    by (simp add: Run_def loadInterfaces_def sel load loadDesiredPeers_def pass_interface_def Let_def example_link_def
        fake_Dump_def fake_New_def fake_List_def fake_fail_def new_report_def ackRetiredKeys_def)
  have d: "doomed example_service ''if-1'' (example_iface\<lparr>i_enabled := False\<rparr>) idle_db = idle_db" by (simp add: doomed_def)
  have p: "reconcile_now example_engine fake_backend (doomed example_service ''if-1'' (example_iface\<lparr>i_enabled := False\<rparr>) idle_db, fake_New)
      = (Inr (), idle_db, fake_New)"
    using run unfolding d reconcile_now_ok by blast
  have "DeleteReconciled example_service (idle_db, fake_New) ''if-1'' (Some (reconcile_now example_engine fake_backend))
      = (Inr (), snd (delete_iface_row idle_db ''if-1''), fake_New)"
    using DeleteReconciled_unfold[where f = "reconcile_now example_engine fake_backend" and svc = example_service and b = fake_New,
      OF g(1) r _ g(3) _ p] g(2) by (simp add: ensureNoDevices_def sel d)
  note del = this
  have u: "unique_on i_id (ifaces idle_db)" "unique_on i_name (ifaces idle_db)" "devices_inv idle_db"
    by (simp_all add: sel unique_on_def devices_inv_def)
  from delete_reconciled_correct[OF fake.tunnel_backend_axioms fake_new_ok u(3,1,2) del] r
  show ?thesis unfolding del by (simp add: sel row)
qed

end
