(* ===== verification/Scopes.thy ===== *)
theory Scopes
  imports Domain "HOL-Library.Sublist" "HOL-Library.List_Lexorder" "HOL-Library.Char_ord"
begin

text \<open>
  The permission registry (\<open>src/internal/auth/scopes.go\<close>): the registered scopes and their
  classification, grant lists with exact scopes and family wildcards, and the two decisions every
  caller makes, \<open>ValidateScopes\<close> on what may be granted and \<open>Allows\<close> on what a grant covers. Go's sets
  (\<open>map[string]bool\<close>) are lists here; their iteration order is never observable, because
  every listing is sorted.
\<close>

section \<open>The registry\<close>

abbreviation ScopeAPITokensManage :: string where
  "ScopeAPITokensManage \<equiv> ''api_tokens.manage''"

definition api_scopes :: "string list" where
  "api_scopes = [
     ''users.read'', ''users.create'', ''users.update'', ''users.delete'', ''users.bulk'',
     ''devices.read'', ''devices.write'', ''configs.read'', ''traffic.read'', ''traffic.update'',
     ''templates.read'', ''templates.write'', ''stats.read'', ''node.read'', ''node.settings'',
     ''webhooks.read'', ''webhooks.write'', ''interfaces.read'', ''interfaces.write'',
     ''purchases.create'', ''operations.read'', ''subscriptions.read'', ''subscriptions.rotate'',
     ''next_plans.read'', ''next_plans.write'']"

definition panel_only_scopes :: "string list" where
  "panel_only_scopes = [
     ''audit.view'', ScopeAPITokensManage, ''admins.manage'', ''server.view'', ''server.manage'',
     ''backup.manage'', ''update.manage'', ''update.read'', ''cleanup.manage'']"

definition scopes :: "string list" where
  "scopes = [
     ''users.read'', ''users.create'', ''users.update'', ''users.delete'', ''users.bulk'',
     ''devices.read'', ''devices.write'', ''configs.read'', ''traffic.read'', ''traffic.update'',
     ''templates.read'', ''templates.write'', ''stats.read'', ''node.read'', ''node.settings'',
     ''webhooks.read'', ''webhooks.write'', ''interfaces.read'', ''interfaces.write'',
     ''purchases.create'', ''operations.read'', ''subscriptions.read'', ''subscriptions.rotate'',
     ''next_plans.read'', ''next_plans.write'', ''audit.view'', ScopeAPITokensManage,
     ''admins.manage'', ''server.view'', ''server.manage'', ''backup.manage'', ''update.manage'',
     ''update.read'', ''cleanup.manage'']"

definition reseller_grantable :: "string list" where
  "reseller_grantable = [
     ''users.read'', ''users.create'', ''users.update'', ''users.delete'', ''users.bulk'',
     ''devices.read'', ''devices.write'', ''configs.read'', ''traffic.read'', ''traffic.update'',
     ''templates.read'', ''interfaces.read'', ''stats.read'', ''webhooks.read'', ''webhooks.write'',
     ScopeAPITokensManage, ''purchases.create'', ''operations.read'', ''subscriptions.read'',
     ''subscriptions.rotate'', ''next_plans.read'', ''next_plans.write'']"

definition ResellerGrantable :: "string \<Rightarrow> bool" where
  "ResellerGrantable scope \<longleftrightarrow> scope \<in> set reseller_grantable"

definition ValidResellerGrants :: "string list \<Rightarrow> bool" where
  "ValidResellerGrants granted = list_all ResellerGrantable granted"

definition ResellerScopes :: "string list" where
  "ResellerScopes = sort reseller_grantable"

definition AllScopes :: "string list" where
  "AllScopes = sort scopes"

definition APIScopes :: "string list" where
  "APIScopes = filter (\<lambda>s. s \<in> set api_scopes) AllScopes"

section \<open>Grants\<close>

definition familyExists :: "string \<Rightarrow> bool" where
  "familyExists family = list_ex (\<lambda>s. prefix (family @ ''.'') s) scopes"

text \<open>\<open>strings.TrimSuffix(g, t)\<close>.\<close>

definition trim_suffix :: "string \<Rightarrow> string \<Rightarrow> string" where
  "trim_suffix t g = (if suffix t g then take (length g - length t) g else g)"

fun ValidateScopes :: "string list \<Rightarrow> unit result" where
  "ValidateScopes [] = Inr ()"
| "ValidateScopes (g # gs) =
     (if g = ''*'' then Inl (Foreign ''wildcard * grants are not allowed'')
      else if suffix ''.*'' g then
        (if \<not> familyExists (trim_suffix ''.*'' g) then Inl (Foreign ''unknown scope family'')
         else ValidateScopes gs)
      else if g \<notin> set scopes then Inl (Foreign ''unknown scope'')
      else ValidateScopes gs)"

fun allows_loop :: "string \<Rightarrow> string list \<Rightarrow> bool" where
  "allows_loop required [] = False"
| "allows_loop required (g # gs) =
     (if g = required then True
      else if suffix ''.*'' g \<and> prefix (trim_suffix ''*'' g) required then True
      else allows_loop required gs)"

definition Allows :: "string list \<Rightarrow> string \<Rightarrow> bool" where
  "Allows granted required = (if required \<notin> set scopes then False else allows_loop required granted)"

datatype role = RoleOwner | RoleAdmin | RoleOther string

fun role_valid :: "role \<Rightarrow> bool" where
  "role_valid (RoleOther _) = False"
| "role_valid _ = True"

definition Authorized :: "role \<Rightarrow> string list \<Rightarrow> string \<Rightarrow> bool" where
  "Authorized r permissions required = (if r = RoleOwner then True else Allows permissions required)"

section \<open>What a grant covers\<close>

definition covers :: "string \<Rightarrow> string \<Rightarrow> bool" where
  "covers g s \<longleftrightarrow> g = s \<or> (\<exists>family. g = family @ ''.*'' \<and> prefix (family @ ''.'') s)"

lemma suffix_family: "suffix ''.*'' g \<longleftrightarrow> (\<exists>family. g = family @ ''.*'')"
  by (auto simp: suffix_def)

lemma trim_suffix_family [simp]:
  "trim_suffix ''.*'' (family @ ''.*'') = family" "trim_suffix ''*'' (family @ ''.*'') = family @ ''.''"
proof -
  have "suffix ''*'' (family @ ''.*'')" by (auto simp: suffix_def intro: exI[of _ "family @ ''.''"])
  then show "trim_suffix ''*'' (family @ ''.*'') = family @ ''.''"
    by (simp add: trim_suffix_def)
qed (simp add: trim_suffix_def suffix_def)

lemma allows_loop_iff: "allows_loop s gs \<longleftrightarrow> (\<exists>g \<in> set gs. covers g s)"
  by (induction gs) (auto simp: covers_def suffix_family)

theorem Allows_iff: "Allows gs s \<longleftrightarrow> s \<in> set scopes \<and> (\<exists>g \<in> set gs. covers g s)"
  by (simp add: Allows_def allows_loop_iff)

lemma ValidateScopes_iff:
  "ValidateScopes gs = Inr () \<longleftrightarrow>
     (\<forall>g \<in> set gs. g \<noteq> ''*'' \<and> (if suffix ''.*'' g then familyExists (trim_suffix ''.*'' g) else g \<in> set scopes))"
  by (induction gs) auto

lemma registered_no_wildcard:
  assumes "s \<in> set scopes" shows "\<not> suffix ''.*'' s" "s \<noteq> ''*''"
  using assms unfolding scopes_def by (auto simp: suffix_def)

text \<open>A list is accepted exactly when every entry covers something and no entry is the bare star.\<close>

theorem ValidateScopes_covers:
  "ValidateScopes gs = Inr () \<longleftrightarrow> (\<forall>g \<in> set gs. \<exists>s \<in> set scopes. covers g s)"
proof -
  have "(g \<noteq> ''*'' \<and> (if suffix ''.*'' g then familyExists (trim_suffix ''.*'' g) else g \<in> set scopes))
      \<longleftrightarrow> (\<exists>s \<in> set scopes. covers g s)" for g
  proof (cases "suffix ''.*'' g")
    case True
    then obtain family where g: "g = family @ ''.*''" by (auto simp: suffix_family)
    have "(\<exists>s \<in> set scopes. covers g s) \<longleftrightarrow> (\<exists>s \<in> set scopes. prefix (family @ ''.'') s)"
      using registered_no_wildcard(1) True by (auto simp: covers_def g)
    with True g show ?thesis by (auto simp: familyExists_def list_ex_iff)
  next
    case False
    then show ?thesis using registered_no_wildcard(2) by (auto simp: covers_def suffix_family)
  qed
  then show ?thesis by (simp only: ValidateScopes_iff)
qed

lemma set_AllScopes [simp]: "set AllScopes = set scopes"
  by (simp add: AllScopes_def)

lemma set_ResellerScopes [simp]: "set ResellerScopes = set reseller_grantable"
  by (simp add: ResellerScopes_def)

lemma grantable_registered: "s \<in> set reseller_grantable \<Longrightarrow> s \<in> set scopes"
  unfolding reseller_grantable_def scopes_def by auto

lemma Allows_registered: "Allows gs s \<Longrightarrow> s \<in> set scopes"
  by (simp add: Allows_iff)

text \<open>A grant a reseller may hold is one exact scope, so its lists have no wildcards.\<close>

lemma reseller_grants_exact:
  assumes "ValidResellerGrants gs" shows "Allows gs s \<longleftrightarrow> s \<in> set gs"
proof -
  have reg: "g \<in> set scopes" if "g \<in> set gs" for g
    using assms that by (auto simp: ValidResellerGrants_def list_all_iff ResellerGrantable_def intro: grantable_registered)
  then have "covers g s \<longleftrightarrow> g = s" if "g \<in> set gs" for g
    using registered_no_wildcard(1)[OF reg[OF that]] by (auto simp: covers_def suffix_family)
  with reg show ?thesis by (auto simp: Allows_iff)
qed

lemma reseller_grants_grantable: "ValidResellerGrants gs \<Longrightarrow> Allows gs s \<Longrightarrow> ResellerGrantable s"
  by (auto simp: reseller_grants_exact) (auto simp: ValidResellerGrants_def list_all_iff)

text \<open>
  The two classifications cover the registry without overlap, so a scope is offered to the
  token editor or is panel-only, and no grantable reseller scope administers the node.
\<close>

lemma scope_classification:
  "set scopes = set api_scopes \<union> set panel_only_scopes" "set api_scopes \<inter> set panel_only_scopes = {}"
  "set APIScopes = set api_scopes"
proof -
  show u: "set scopes = set api_scopes \<union> set panel_only_scopes"
    unfolding scopes_def api_scopes_def panel_only_scopes_def by auto
  show "set api_scopes \<inter> set panel_only_scopes = {}"
    unfolding api_scopes_def panel_only_scopes_def by auto
  show "set APIScopes = set api_scopes" using u by (auto simp: APIScopes_def)
qed

text \<open>The scopes a list authorizes are closed under extending the list.\<close>

lemma Allows_mono: "set gs \<subseteq> set hs \<Longrightarrow> Allows gs s \<Longrightarrow> Allows hs s"
  by (auto simp: Allows_iff)

lemma Allows_listed: "Allows (filter P AllScopes) s \<longleftrightarrow> s \<in> set scopes \<and> P s"
  using registered_no_wildcard(1) by (auto simp: Allows_iff covers_def suffix_family)

lemma Allows_listed_reseller: "Allows (filter P ResellerScopes) s \<longleftrightarrow> ResellerGrantable s \<and> P s"
  using registered_no_wildcard(1) grantable_registered
  by (auto simp: Allows_iff covers_def suffix_family ResellerGrantable_def)

end
