(* ===== verification/Allowlist.thy ===== *)
theory Allowlist
  imports Endpoints "HOL-Library.Sublist"
begin

text \<open>
  The address allowlist of API tokens (\<open>splitCIDR\<close>, \<open>ValidateCIDRList\<close> and \<open>ipInList\<close> of
  \<open>src/internal/token/token.go\<close>), over the values the standard library's parsers return:
  \<open>netip.ParseAddr\<close> with its IPv6 bytes and zone, \<open>net.ParseIP\<close>, \<open>net.ParseCIDR\<close> and
  \<open>IPNet.Contains\<close>. Acceptance of a text agrees with the family-only parser of \<open>Endpoints\<close>.
\<close>

unbundle bit_operations_syntax

section \<open>Trimming\<close>

text \<open>\<open>strings.TrimSpace\<close> on UTF-8 text.\<close>

function trim_left :: "string list \<Rightarrow> string \<Rightarrow> string" where
  "trim_left ws s =
     (case find (\<lambda>w. w \<noteq> [] \<and> prefix w s) ws of None \<Rightarrow> s | Some w \<Rightarrow> trim_left ws (drop (length w) s))"
  by pat_completeness auto
termination
proof (relation "measure (length \<circ> snd)")
  fix ws w and s :: string
  assume "find (\<lambda>w. w \<noteq> [] \<and> prefix w s) ws = Some w"
  then have "w \<noteq> []" "prefix w s" by (auto simp: find_Some_iff)
  then show "((ws, drop (length w) s), ws, s) \<in> measure (length \<circ> snd)"
    by (cases s) (auto simp: prefix_def)
qed simp

declare trim_left.simps [simp del]

definition TrimSpace :: "string \<Rightarrow> string" where
  "TrimSpace s = rev (trim_left (map rev space_texts) (rev (trim_left space_texts s)))"

section \<open>Addresses\<close>

datatype ip_addr = V4 addr | V6 "128 word" string

definition hex_value :: "string \<Rightarrow> nat" where
  "hex_value s = foldl (\<lambda>acc c. case hex_val c of None \<Rightarrow> acc | Some d \<Rightarrow> acc * 16 + d) 0 s"

definition octets4 :: "addr \<Rightarrow> nat list" where
  "octets4 a = [octet 24 a, octet 16 a, octet 8 a, octet 0 a]"

text \<open>
  The loop of \<open>parseIPv6\<close> with the bytes it fills: \<open>bs\<close> are the bytes so far and \<open>ell\<close> the position
  of the ellipsis.
\<close>

function ipv6_fields :: "nat list \<Rightarrow> nat option \<Rightarrow> string \<Rightarrow> (nat list \<times> nat option) option" where
  "ipv6_fields bs ell s =
     (if 16 \<le> length bs then (if s = [] then Some (bs, ell) else None)
      else case hex_group s of
        None \<Rightarrow> None
      | Some r \<Rightarrow>
          (let acc = hex_value (take (length s - length r) s);
               bs1 = bs @ [acc div 256, acc mod 256]
           in case r of
             [] \<Rightarrow> Some (bs1, ell)
           | c # r1 \<Rightarrow>
               if c = CHR ''.'' then
                 (if ell = None \<and> length bs \<noteq> 12 \<or> 16 < length bs + 4 then None
                  else (case parse_addr s of None \<Rightarrow> None | Some a \<Rightarrow> Some (bs @ octets4 a, ell)))
               else if c \<noteq> CHR '':'' then None
               else (case r1 of
                  [] \<Rightarrow> None
                | d # r2 \<Rightarrow>
                    if d = CHR '':'' then
                      (if ell \<noteq> None then None
                       else if r2 = [] then Some (bs1, Some (length bs1))
                       else ipv6_fields bs1 (Some (length bs1)) r2)
                    else ipv6_fields bs1 ell r1)))"
  by pat_completeness auto
termination by (relation "measure (\<lambda>(bs, _, _). 16 - length bs)") auto

declare ipv6_fields.simps [simp del]

text \<open>The ellipsis stands for the missing bytes, of which there must be at least one.\<close>

definition ipv6_expand :: "nat list \<times> nat option \<Rightarrow> nat list option" where
  "ipv6_expand = (\<lambda>(bs, ell).
     case ell of
       None \<Rightarrow> if length bs < 16 then None else Some bs
     | Some e \<Rightarrow> if length bs < 16 then Some (take e bs @ replicate (16 - length bs) 0 @ drop e bs) else None)"

definition ipv6_bytes :: "string \<Rightarrow> nat list option" where
  "ipv6_bytes s =
     (case s of
        a # b # r \<Rightarrow>
          if a = CHR '':'' \<and> b = CHR '':'' then
            (if r = [] then Some (replicate 16 0) else Option.bind (ipv6_fields [] (Some 0) r) ipv6_expand)
          else Option.bind (ipv6_fields [] None s) ipv6_expand
      | _ \<Rightarrow> Option.bind (ipv6_fields [] None s) ipv6_expand)"

definition word_of_bytes :: "nat list \<Rightarrow> 128 word" where
  "word_of_bytes bs = of_nat (foldl (\<lambda>acc b. acc * 256 + b) 0 bs)"

definition parseIPv6 :: "string \<Rightarrow> ip_addr option" where
  "parseIPv6 s =
     (case index_of CHR ''%'' s of
        None \<Rightarrow> map_option (\<lambda>bs. V6 (word_of_bytes bs) []) (ipv6_bytes s)
      | Some i \<Rightarrow>
          if drop (Suc i) s = [] then None
          else map_option (\<lambda>bs. V6 (word_of_bytes bs) (drop (Suc i) s)) (ipv6_bytes (take i s)))"

fun netip_from :: "string \<Rightarrow> string \<Rightarrow> ip_addr option" where
  "netip_from whole [] = None"
| "netip_from whole (c # cs) =
     (if c = CHR ''.'' then map_option V4 (parse_addr whole)
      else if c = CHR '':'' then parseIPv6 whole
      else if c = CHR ''%'' then None
      else netip_from whole cs)"

definition netip_ParseAddr :: "string \<Rightarrow> ip_addr option" where
  "netip_ParseAddr s = netip_from s s"

text \<open>\<open>Addr.As16\<close> and \<open>IP.To4\<close>: an IPv4 address and its IPv4-mapped IPv6 form are the same 16 bytes.\<close>

fun As16 :: "ip_addr \<Rightarrow> 128 word" where
  "As16 (V4 a) = push_bit 32 0xFFFF OR ucast a"
| "As16 (V6 x z) = x"

definition To4 :: "128 word \<Rightarrow> addr option" where
  "To4 x = (if drop_bit 32 x = 0xFFFF then Some (ucast x) else None)"

fun ip_zone :: "ip_addr \<Rightarrow> string" where
  "ip_zone (V4 a) = []"
| "ip_zone (V6 x z) = z"

definition ParseIP :: "string \<Rightarrow> (128 word) option" where
  "ParseIP s = (case netip_ParseAddr s of None \<Rightarrow> None | Some a \<Rightarrow> if ip_zone a \<noteq> [] then None else Some (As16 a))"

section \<open>Networks\<close>

text \<open>
  The \<open>*IPNet\<close> of \<open>ParseCIDR\<close>: a 4-byte or a 16-byte network address with a mask of that
  length and the given number of leading ones.
\<close>

datatype ip_net = Net4 addr nat | Net6 "128 word" nat

definition leading :: "nat \<Rightarrow> nat \<Rightarrow> 'a::len word" where
  "leading width ones = push_bit (width - ones) (- 1)"

definition ParseCIDR :: "string \<Rightarrow> ip_net option" where
  "ParseCIDR s =
     (case index_of CHR ''/'' s of
        None \<Rightarrow> None
      | Some i \<Rightarrow>
          (case netip_ParseAddr (take i s) of
             None \<Rightarrow> None
           | Some a \<Rightarrow>
               if ip_zone a \<noteq> [] then None
               else (case parse_dec (drop (Suc i) s) of
                 None \<Rightarrow> None
               | Some n \<Rightarrow>
                   (case a of
                      V4 x \<Rightarrow> if 32 < n then None else Some (Net4 (x AND leading 32 n) n)
                    | V6 x z \<Rightarrow> if 128 < n then None else Some (Net6 (x AND leading 128 n) n)))))"

text \<open>\<open>networkNumberAndMask\<close> turns an IPv4-mapped network into its 4-byte form, keeping the last bytes of the mask.\<close>

fun net_number :: "ip_net \<Rightarrow> ip_net" where
  "net_number (Net4 a n) = Net4 a n"
| "net_number (Net6 x n) = (case To4 x of Some a \<Rightarrow> Net4 a (n - 96) | None \<Rightarrow> Net6 x n)"

definition Contains :: "ip_net \<Rightarrow> 128 word \<Rightarrow> bool" where
  "Contains n ip =
     (case (net_number n, To4 ip) of
        (Net4 a k, Some b) \<Rightarrow> a AND leading 32 k = b AND leading 32 k
      | (Net6 x k, None) \<Rightarrow> x AND leading 128 k = ip AND leading 128 k
      | _ \<Rightarrow> False)"

section \<open>The allowlist\<close>

definition splitCIDR :: "string \<Rightarrow> string list" where
  "splitCIDR raw = (if raw = [] then [] else filter (\<lambda>p. p \<noteq> []) (map TrimSpace (split_on CHR '','' raw)))"

definition ValidateCIDRList :: "string \<Rightarrow> unit result" where
  "ValidateCIDRList raw =
     (let l = splitCIDR raw in
      if l = [] then Inl (Foreign ''empty allowlist'')
      else if list_ex (\<lambda>c. ParseCIDR c = None) l then Inl (Foreign ''not a valid CIDR'')
      else Inr ())"

fun ipInList :: "128 word \<Rightarrow> string list \<Rightarrow> bool" where
  "ipInList ip [] = False"
| "ipInList ip (c # cs) =
     (case ParseCIDR c of
        None \<Rightarrow> ipInList ip cs
      | Some n \<Rightarrow> if Contains n ip then True else ipInList ip cs)"

section \<open>Agreement with the family parser\<close>

lemma hex_group_length: "hex_group s = Some r \<Longrightarrow> length r < length s \<or> s = []"
  by (auto simp: hex_group_def Let_def split: if_splits)

lemma ipv6_fields_groups:
  "map_option (\<lambda>(bs, e). (length bs, e \<noteq> None)) (ipv6_fields bs ell s) = ipv6_groups (length bs) (ell \<noteq> None) s"
proof (induction bs ell s rule: ipv6_fields.induct)
  case (1 bs ell s)
  show ?case
  proof (cases "16 \<le> length bs")
    case True
    then show ?thesis by (subst ipv6_fields.simps, subst ipv6_groups.simps) simp
  next
    case False
    show ?thesis
    proof (cases "hex_group s")
      case None
      with False show ?thesis by (subst ipv6_fields.simps, subst ipv6_groups.simps) simp
    next
      case (Some r)
      note IH = 1[OF False Some refl refl]
      show ?thesis
        using False Some IH
        by (subst ipv6_fields.simps, subst ipv6_groups.simps)
          (auto simp: Let_def octets4_def split: list.splits option.splits)
    qed
  qed
qed

lemma ipv6_groups_ell: "ipv6_groups i ell t = Some (j, el) \<Longrightarrow> ell \<Longrightarrow> el"
proof (induction i ell t arbitrary: j el rule: ipv6_groups.induct)
  case (1 i ell s)
  have IH: el' if "\<not> 16 \<le> i" "hex_group s = Some (CHR '':'' # d # r)" "d \<noteq> CHR '':''"
      "ipv6_groups (i + 2) ell (d # r) = Some (j', el')" for d r j' el'
    using 1(2)[OF that(1,2) refl _ _ refl that(3,4)] 1(4) by simp
  show ?case
  proof (cases "16 \<le> i")
    case True
    with 1(3,4) show ?thesis by (subst (asm) ipv6_groups.simps) (auto split: if_splits)
  next
    case False
    with 1(3,4) show ?thesis
      by (subst (asm) ipv6_groups.simps) (auto split: if_splits option.splits list.splits dest: IH[OF False])
  qed
qed

lemma ipv6_bytes_body: "ipv6_bytes s \<noteq> None \<longleftrightarrow> ipv6_body s"
proof -
  have e: "Option.bind (ipv6_fields [] ell t) ipv6_expand \<noteq> None \<longleftrightarrow>
      (case ipv6_groups 0 (ell \<noteq> None) t of None \<Rightarrow> False | Some (i, el) \<Rightarrow> (i < 16) = el)" for ell t
    using ipv6_fields_groups[of "[]" ell t]
    by (cases "ipv6_fields [] ell t") (auto simp: ipv6_expand_def split: option.splits if_splits)
  note g = ipv6_groups_ell
  show ?thesis
    using e[of "Some 0"] e[of None] g
    by (auto simp: ipv6_bytes_def ipv6_body_def split: list.splits option.splits)
qed

theorem netip_ParseAddr_family:
  "map_option (\<lambda>a. case a of V4 x \<Rightarrow> IPv4 | V6 x z \<Rightarrow> IPv6) (netip_ParseAddr s) = ParseAddr s"
proof -
  have p: "map_option (\<lambda>a. case a of V4 x \<Rightarrow> IPv4 | V6 x z \<Rightarrow> IPv6) (parseIPv6 w) = (if parse_ipv6 w then Some IPv6 else None)" for w
    using ipv6_bytes_body[of w] ipv6_bytes_body[of "take (the (index_of CHR ''%'' w)) w"]
    by (auto simp: parseIPv6_def parse_ipv6_def split: option.splits)
  have "map_option (\<lambda>a. case a of V4 x \<Rightarrow> IPv4 | V6 x z \<Rightarrow> IPv6) (netip_from w t) = ParseAddr_from w t" for w t
    by (induction t) (auto simp: p)
  then show ?thesis by (simp add: netip_ParseAddr_def ParseAddr_def)
qed

section \<open>What an entry admits\<close>

lemma and_leading_eq:
  fixes a b :: "'a::len word"
  shows "a AND leading w n = b AND leading w n \<longleftrightarrow> drop_bit (w - n) a = drop_bit (w - n) b"
  (is "?l \<longleftrightarrow> ?r")
proof -
  have bits: "bit (x AND leading w n) i \<longleftrightarrow> w - n \<le> i \<and> bit x i" for x :: "'a word" and i
    using bit_imp_le_length[of x i] by (auto simp: leading_def bit_simps)
  show ?thesis
  proof
    assume ?l
    then have "bit a i = bit b i" if "w - n \<le> i" for i
      using bits[of a i] bits[of b i] that by simp
    then show ?r by (intro bit_eqI) (simp add: bit_drop_bit_eq)
  next
    assume r: ?r
    have "bit a i = bit b i" if "w - n \<le> i" for i
      using arg_cong[OF r, of "\<lambda>z. bit z (i - (w - n))"] that by (simp add: bit_drop_bit_eq)
    then show ?l by (intro bit_eqI) (auto simp: bits)
  qed
qed

lemma and_leading_idem [simp]: "(a AND leading w n) AND leading w n = a AND leading w n"
  by (simp add: and.assoc)

lemma drop_leading [simp]:
  "drop_bit (w - n) ((a :: 'a::len word) AND leading w n) = drop_bit (w - n) a"
  using and_leading_eq[of "a AND leading w n" w n a] by simp

lemma bit_As16_V4: "bit (As16 (V4 a)) n \<longleftrightarrow> 32 \<le> n \<and> n < 48 \<or> bit a n"
proof -
  have m: "(0xFFFF :: 128 word) = mask 16" by (simp add: mask_eq_exp_minus_1)
  show ?thesis
    unfolding As16.simps m by (auto simp: bit_simps dest: bit_imp_le_length)
qed

declare As16.simps(1) [simp del]

lemma To4_As16 [simp]: "To4 (As16 (V4 a)) = Some a"
proof -
  have m: "(0xFFFF :: 128 word) = mask 16" by (simp add: mask_eq_exp_minus_1)
  have "drop_bit 32 (As16 (V4 a)) = 0xFFFF"
    unfolding m by (rule bit_eqI) (auto simp: bit_As16_V4 bit_simps dest: bit_imp_le_length)
  moreover have "ucast (As16 (V4 a)) = a"
    by (rule bit_eqI) (auto simp: bit_As16_V4 bit_ucast_iff dest: bit_imp_le_length)
  ultimately show ?thesis by (simp add: To4_def)
qed

lemma Contains_Net4:
  "Contains (Net4 (x AND leading 32 n) n) ip \<longleftrightarrow> (\<exists>b. To4 ip = Some b \<and> drop_bit (32 - n) b = drop_bit (32 - n) x)"
  by (auto simp: Contains_def and_leading_eq split: option.splits)

lemma ipInList_iff: "ipInList ip l \<longleftrightarrow> (\<exists>c \<in> set l. \<exists>n. ParseCIDR c = Some n \<and> Contains n ip)"
  by (induction l) (auto split: option.splits)

lemma index_of_append: "c \<notin> set s \<Longrightarrow> index_of c (s @ c # t) = Some (length s)"
  by (induction s) (auto simp: index_of_def)

lemma netip_show_addr: "netip_ParseAddr (show_addr a) = Some (V4 a)"
proof -
  have d: "netip_from w (s @ CHR ''.'' # t) = map_option V4 (parse_addr w)" if "\<forall>c \<in> set s. is_digit c" for w s t
    using that by (induction s) (auto simp: is_digit_def)
  show ?thesis
    unfolding netip_ParseAddr_def
    by (subst (2) show_addr_def) (simp add: d show_nat_digits)
qed

lemma ParseCIDR_show_prefix:
  "p_bits p \<le> 32 \<Longrightarrow> ParseCIDR (show_prefix p) = Some (Net4 (p_addr p AND leading 32 (p_bits p)) (p_bits p))"
  by (simp add: ParseCIDR_def show_prefix_def index_of_append slash_not_in_addr netip_show_addr)

text \<open>
  A canonical IPv4 entry admits exactly the addresses of its prefix, whether the client's address
  is written in IPv4 or in IPv4-mapped IPv6 form: \<open>net.IPNet.Contains\<close> and \<open>netip.Prefix.Contains\<close> agree.
\<close>

lemma xor_word_eq: "(a :: 'a::len word) XOR b = 0 \<longleftrightarrow> a = b"
  by (metis xor.assoc xor.left_neutral xor.right_neutral xor_self_eq)

theorem entry_contains_prefix:
  assumes "p_bits p \<le> 32"
  shows "ipInList (As16 (V4 a)) [show_prefix p] \<longleftrightarrow> contains p a"
  using assms
  by (auto simp: ParseCIDR_show_prefix Contains_Net4 contains_def host_bits_def drop_bit_xor xor_word_eq)

end
