(* ===== verification/Accounts.thy ===== *)
theory Accounts
  imports Scopes Allowlist Instants Obfuscation
begin

text \<open>
  Accounts and sessions: the reseller registry (\<open>src/internal/reseller/reseller.go\<close>), the panel
  accounts (\<open>src/internal/admin/admin.go\<close>) and the session store
  (\<open>src/internal/auth/session.go\<close>), over their tables of the database.

  Every operation takes the clock and the digest functions from \<open>access_env\<close> and its random
  material (identifiers, salts, session tokens) as arguments. The account operations read the
  database and write it in separate statements; they take the state their reads saw (\<open>seen\<close>) beside
  the state their write acts on (\<open>s\<close>), so that other requests may run in between. Calling an operation
  on one state twice is the sequential call.
\<close>

section \<open>Tables\<close>

text \<open>
  A JSON grant column: the empty text, \<open>null\<close>, a list of strings, or a text that does not decode; for
  the last, the list is what \<open>json.Unmarshal\<close> leaves in its target before it reports the error.
\<close>

datatype grants_text = TextEmpty | TextNull | TextList "string list" | TextBad "string list"

fun unmarshal :: "grants_text \<Rightarrow> string list option" where
  "unmarshal TextNull = Some []"
| "unmarshal (TextList l) = Some l"
| "unmarshal _ = None"

fun unmarshal_lax :: "grants_text \<Rightarrow> string list" where
  "unmarshal_lax (TextList l) = l"
| "unmarshal_lax (TextBad l) = l"
| "unmarshal_lax _ = []"

record admin_row =
  ad_id :: string
  ad_username :: string
  ad_hash :: string
  ad_role :: role
  ad_permissions :: grants_text
  ad_enabled :: bool
  ad_created :: time
  ad_updated :: time
  ad_reseller :: "string option"
  ad_locale :: string
  ad_preset :: string
  ad_digits :: string

record reseller_row =
  rs_id :: string
  rs_slug :: string
  rs_display :: string
  rs_permissions :: grants_text
  rs_enabled :: bool
  rs_created :: time
  rs_updated :: time

record session_row =
  sn_id :: string
  sn_admin :: string
  sn_hash :: string
  sn_created :: time
  sn_last_seen :: time
  sn_expires :: time
  sn_source :: string

record token_row =
  tk_id :: string
  tk_name :: string
  tk_prefix :: string
  tk_hash :: string
  tk_scopes :: grants_text
  tk_expires :: "time option"
  tk_enabled :: bool
  tk_cidr :: string
  tk_last_used :: "time option"
  tk_created :: time
  tk_reseller :: "string option"
  tk_issuer :: "string option"

record access_db =
  au_admins :: "admin_row list"
  au_resellers :: "reseller_row list"
  au_sessions :: "session_row list"
  au_tokens :: "token_row list"
  au_templates :: "(string \<times> bool) list"
  au_assigned :: "(string \<times> string) list"

text \<open>
  \<open>ae_sha\<close> is the hexadecimal SHA-256 digest, \<open>ae_phc\<close> the argon2id text of a password and a salt and
  \<open>ae_verify\<close> its check (\<open>None\<close> for a text that does not parse).
\<close>

record access_env =
  ae_now :: time
  ae_idle :: duration
  ae_absolute :: duration
  ae_sha :: "string \<Rightarrow> string"
  ae_phc :: "string \<Rightarrow> string \<Rightarrow> string"
  ae_verify :: "string \<Rightarrow> string \<Rightarrow> bool option"

text \<open>\<open>t.Sub(u)\<close> saturates at the range of a \<open>Duration\<close>.\<close>

definition time_sub :: "time \<Rightarrow> time \<Rightarrow> duration" where
  "time_sub t u = max (- 9223372036854775808) (min MaxInt64 (t - u))"

abbreviation minute :: duration where
  "minute \<equiv> 60000000000"

section \<open>Resellers\<close>

definition lower_text :: "string \<Rightarrow> string" where
  "lower_text s = map (\<lambda>c. if 65 \<le> (of_char c :: nat) \<and> (of_char c :: nat) \<le> 90 then char_of (of_char c + 32 :: nat) else c) s"

definition slug_char :: "char \<Rightarrow> bool" where
  "slug_char c \<longleftrightarrow> (let n = of_char c :: nat in 97 \<le> n \<and> n \<le> 122 \<or> 48 \<le> n \<and> n \<le> 57 \<or> c = CHR ''-'')"

definition slugPattern :: "string \<Rightarrow> bool" where
  "slugPattern s \<longleftrightarrow> 3 \<le> length s \<and> length s \<le> 32 \<and> 97 \<le> (of_char (hd s) :: nat) \<and> (of_char (hd s) :: nat) \<le> 122
     \<and> list_all slug_char (tl s)"

text \<open>The number of runes of a text: an invalid byte counts as one.\<close>

definition rune_width :: "string \<Rightarrow> nat" where
  "rune_width s =
     (case find (\<lambda>k. k \<le> length s \<and> (case utf8_decode (take k s) of Some [r] \<Rightarrow> True | _ \<Rightarrow> False)) [1, 2, 3, 4] of
        None \<Rightarrow> 1 | Some k \<Rightarrow> k)"

lemma rune_width_pos: "0 < rune_width s"
proof (cases "find (\<lambda>k. k \<le> length s \<and> (case utf8_decode (take k s) of Some [r] \<Rightarrow> True | _ \<Rightarrow> False)) [1, 2, 3, 4]")
  case None
  then show ?thesis by (simp add: rune_width_def del: find.simps)
next
  case (Some k)
  then have "k \<in> set [1, 2, 3, 4]" by (metis (no_types, lifting) find_Some_iff nth_mem)
  with Some show ?thesis by (auto simp add: rune_width_def simp del: find.simps)
qed

function rune_count :: "string \<Rightarrow> nat" where
  "rune_count s = (if s = [] then 0 else Suc (rune_count (drop (rune_width s) s)))"
  by pat_completeness auto
termination by (relation "measure length") (auto simp: rune_width_pos)

declare rune_count.simps [simp del]

definition ValidatePermissions :: "string list \<Rightarrow> string list result" where
  "ValidatePermissions granted =
     (if list_all ResellerGrantable granted then Inr (sort (remdups granted)) else E CodeInvalidRequest)"

definition reseller_create ::
  "access_env \<Rightarrow> string \<Rightarrow> string \<Rightarrow> string \<Rightarrow> string list \<Rightarrow> access_db \<Rightarrow> reseller_row result \<times> access_db" where
  "reseller_create env nid slug0 display0 granted s =
     (let slug = TrimSpace (lower_text slug0); display = TrimSpace display0 in
      if \<not> slugPattern slug \<or> 80 < rune_count display then (E CodeInvalidRequest, s)
      else case ValidatePermissions granted of
        Inl e \<Rightarrow> (Inl e, s)
      | Inr grants \<Rightarrow>
          (let a = \<lparr>rs_id = nid, rs_slug = slug, rs_display = display, rs_permissions = TextList grants,
                    rs_enabled = True, rs_created = ae_now env, rs_updated = ae_now env\<rparr> in
           if nid \<in> rs_id ` set (au_resellers s) then (Inl (Foreign ''UNIQUE constraint failed: resellers.id''), s)
           else if slug \<in> rs_slug ` set (au_resellers s) then (E CodeInvalidRequest, s)
           else (Inr a, s\<lparr>au_resellers := au_resellers s @ [a]\<rparr>)))"

text \<open>\<open>Get\<close> through \<open>scanAccount\<close>: the row and its decoded grants.\<close>

definition reseller_get :: "access_db \<Rightarrow> string \<Rightarrow> (reseller_row \<times> string list) result" where
  "reseller_get s rid =
     (case find_row rs_id rid (au_resellers s) of
        None \<Rightarrow> E CodeNotFound
      | Some r \<Rightarrow> (case unmarshal (rs_permissions r) of
          None \<Rightarrow> Inl (Foreign ''reseller: permissions JSON'')
        | Some l \<Rightarrow> Inr (r, l)))"

definition reseller_update :: "string \<Rightarrow> (reseller_row \<Rightarrow> reseller_row) \<Rightarrow> access_db \<Rightarrow> unit result \<times> access_db" where
  "reseller_update rid f s =
     (if rid \<in> rs_id ` set (au_resellers s)
      then (Inr (), s\<lparr>au_resellers := update_rows (\<lambda>r. rs_id r = rid) f (au_resellers s)\<rparr>)
      else (E CodeNotFound, s))"

definition reseller_SetPermissions :: "access_env \<Rightarrow> string \<Rightarrow> string list \<Rightarrow> access_db \<Rightarrow> unit result \<times> access_db" where
  "reseller_SetPermissions env rid granted s =
     (case ValidatePermissions granted of
        Inl e \<Rightarrow> (Inl e, s)
      | Inr grants \<Rightarrow> reseller_update rid (\<lambda>r. r\<lparr>rs_permissions := TextList grants, rs_updated := ae_now env\<rparr>) s)"

definition reseller_SetEnabled :: "access_env \<Rightarrow> string \<Rightarrow> bool \<Rightarrow> access_db \<Rightarrow> unit result \<times> access_db" where
  "reseller_SetEnabled env rid enabled s =
     reseller_update rid (\<lambda>r. r\<lparr>rs_enabled := enabled, rs_updated := ae_now env\<rparr>) s"

fun template_checks :: "access_db \<Rightarrow> string list \<Rightarrow> string list \<Rightarrow> unit result" where
  "template_checks s seen_ids [] = Inr ()"
| "template_checks s seen_ids (t # ts) =
     (if t = [] \<or> t \<in> set seen_ids then E CodeInvalidRequest
      else case map_of (au_templates s) t of
        None \<Rightarrow> E CodeInvalidRequest
      | Some enabled \<Rightarrow> if \<not> enabled then E CodeInvalidRequest else template_checks s (t # seen_ids) ts)"

definition SetTemplates :: "string \<Rightarrow> string list \<Rightarrow> access_db \<Rightarrow> unit result \<times> access_db" where
  "SetTemplates rid ids s =
     (if 128 < length ids then (E CodeInvalidRequest, s)
      else if rid \<notin> rs_id ` set (au_resellers s) then (E CodeNotFound, s)
      else case template_checks s [] ids of
        Inl e \<Rightarrow> (Inl e, s)
      | Inr _ \<Rightarrow> (Inr (), s\<lparr>au_assigned := filter (\<lambda>a. fst a \<noteq> rid) (au_assigned s) @ map (Pair rid) ids\<rparr>))"

definition assigned_templates :: "access_db \<Rightarrow> string \<Rightarrow> string list" where
  "assigned_templates s rid = sort (map snd (filter (\<lambda>a. fst a = rid) (au_assigned s)))"

section \<open>Sessions\<close>

text \<open>\<open>auth.Admin\<close>: what a valid session resolves to.\<close>

record account =
  ac_id :: string
  ac_username :: string
  ac_role :: role
  ac_permissions :: "string list"
  ac_reseller :: "string option"
  ac_locale :: string
  ac_preset :: string
  ac_digits :: string

definition session_create ::
  "access_env \<Rightarrow> string \<Rightarrow> string \<Rightarrow> string \<Rightarrow> string \<Rightarrow> access_db \<Rightarrow> (string \<times> time) result \<times> access_db" where
  "session_create env nid tok adminID sourceIP s =
     (let exp = ae_now env + ae_absolute env in
      if adminID \<notin> ad_id ` set (au_admins s) then (Inl (Foreign ''FOREIGN KEY constraint failed''), s)
      else if nid \<in> sn_id ` set (au_sessions s) \<or> ae_sha env tok \<in> sn_hash ` set (au_sessions s)
      then (Inl (Foreign ''UNIQUE constraint failed''), s)
      else (Inr (tok, exp), s\<lparr>au_sessions := au_sessions s @
        [\<lparr>sn_id = nid, sn_admin = adminID, sn_hash = ae_sha env tok, sn_created = ae_now env,
          sn_last_seen = ae_now env, sn_expires = exp, sn_source = sourceIP\<rparr>]\<rparr>))"

definition revoke_hash :: "string \<Rightarrow> access_db \<Rightarrow> access_db" where
  "revoke_hash h s = s\<lparr>au_sessions := delete_rows (\<lambda>r. sn_hash r = h) (au_sessions s)\<rparr>"

definition session_revoke :: "access_env \<Rightarrow> string \<Rightarrow> access_db \<Rightarrow> access_db" where
  "session_revoke env tok s = revoke_hash (ae_sha env tok) s"

definition RevokeAllForAdmin :: "string \<Rightarrow> access_db \<Rightarrow> access_db" where
  "RevokeAllForAdmin adminID s = s\<lparr>au_sessions := delete_rows (\<lambda>r. sn_admin r = adminID) (au_sessions s)\<rparr>"

definition session_prune :: "time \<Rightarrow> access_db \<Rightarrow> nat \<times> access_db" where
  "session_prune now s =
     (let gone = (\<lambda>r. text_key (sn_expires r) < text_key now) in
      (length (filter gone (au_sessions s)), s\<lparr>au_sessions := delete_rows gone (au_sessions s)\<rparr>))"

text \<open>The reseller part of \<open>Validate\<close>: the ceiling of a tenant account.\<close>

definition tenant_grants :: "access_db \<Rightarrow> role \<Rightarrow> string list \<Rightarrow> string \<Rightarrow> string list result" where
  "tenant_grants s r perms rid =
     (case find_row rs_id rid (au_resellers s) of
        None \<Rightarrow> E CodeForbidden
      | Some rr \<Rightarrow>
          if r = RoleOwner \<or> \<not> rs_enabled rr then E CodeForbidden
          else case unmarshal (rs_permissions rr) of
            None \<Rightarrow> Inl (Foreign ''auth: reseller permissions JSON'')
          | Some ceil \<Rightarrow>
              if \<not> ValidResellerGrants ceil then E CodeForbidden
              else Inr (filter (\<lambda>sc. Allows perms sc \<and> Allows ceil sc) ResellerScopes))"

definition session_account :: "access_db \<Rightarrow> admin_row \<Rightarrow> account result" where
  "session_account s a =
     (if \<not> ad_enabled a then E CodeForbidden
      else if unmarshal (ad_permissions a) = None \<and> ad_permissions a \<noteq> TextEmpty
      then Inl (Foreign ''auth: permissions JSON'')
      else let perms = unmarshal_lax (ad_permissions a);
               acct = (\<lambda>ps. \<lparr>ac_id = ad_id a, ac_username = ad_username a, ac_role = ad_role a,
                 ac_permissions = ps, ac_reseller = ad_reseller a, ac_locale = ad_locale a,
                 ac_preset = ad_preset a, ac_digits = ad_digits a\<rparr>) in
        (case ad_reseller a of
           None \<Rightarrow> Inr (acct perms)
         | Some rid \<Rightarrow> ebind (tenant_grants s (ad_role a) perms rid) (\<lambda>ps. Inr (acct ps))))"

definition session_validate :: "access_env \<Rightarrow> string \<Rightarrow> access_db \<Rightarrow> account result \<times> access_db" where
  "session_validate env tok s =
     (let h = ae_sha env tok; now = ae_now env in
      case find_row sn_hash h (au_sessions s) of
        None \<Rightarrow> (E CodeSessionExpired, s)
      | Some r \<Rightarrow>
          (case find_row ad_id (sn_admin r) (au_admins s) of
             None \<Rightarrow> (E CodeSessionExpired, s)
           | Some a \<Rightarrow>
               if sn_expires r < now then (E CodeSessionExpired, revoke_hash h s)
               else if ae_idle env < time_sub now (sn_last_seen r) then (E CodeSessionExpired, revoke_hash h s)
               else (case session_account s a of
                 Inl e \<Rightarrow> (Inl e, s)
               | Inr acct \<Rightarrow>
                   (Inr acct,
                    if minute < time_sub now (sn_last_seen r)
                    then s\<lparr>au_sessions := update_rows (\<lambda>x. sn_hash x = h) (\<lambda>x. x\<lparr>sn_last_seen := now\<rparr>) (au_sessions s)\<rparr>
                    else s))))"

section \<open>Panel accounts\<close>

text \<open>\<open>admin.Admin\<close>: an account without its password hash.\<close>

record admin =
  am_id :: string
  am_reseller :: "string option"
  am_username :: string
  am_role :: role
  am_permissions :: "string list"
  am_enabled :: bool
  am_created :: time

definition admin_of :: "admin_row \<Rightarrow> admin" where
  "admin_of r = \<lparr>am_id = ad_id r, am_reseller = ad_reseller r, am_username = ad_username r, am_role = ad_role r,
     am_permissions = unmarshal_lax (ad_permissions r), am_enabled = ad_enabled r, am_created = ad_created r\<rparr>"

definition admin_get :: "access_db \<Rightarrow> string \<Rightarrow> admin result" where
  "admin_get s aid =
     (case find_row ad_id aid (au_admins s) of None \<Rightarrow> E CodeAdminNotFound | Some r \<Rightarrow> Inr (admin_of r))"

definition HasOwner :: "access_db \<Rightarrow> bool" where
  "HasOwner s \<longleftrightarrow> 0 < length (filter (\<lambda>r. ad_role r = RoleOwner) (au_admins s))"

definition username_char :: "char \<Rightarrow> bool" where
  "username_char c \<longleftrightarrow> (let n = of_char c :: nat in
     97 \<le> n \<and> n \<le> 122 \<or> 65 \<le> n \<and> n \<le> 90 \<or> 48 \<le> n \<and> n \<le> 57 \<or> c = CHR ''_'' \<or> c = CHR ''-'')"

definition ValidateUsername :: "string \<Rightarrow> unit result" where
  "ValidateUsername u =
     (if length u < 3 \<or> 32 < length u then E CodeInvalidRequest
      else if list_all username_char u then Inr () else E CodeInvalidRequest)"

definition MinPasswordLength :: nat where
  "MinPasswordLength = 10"

definition ValidatePassword :: "string \<Rightarrow> unit result" where
  "ValidatePassword password = (if length password < MinPasswordLength then E CodeInvalidRequest else Inr ())"

definition HashPassword :: "access_env \<Rightarrow> string \<Rightarrow> string \<Rightarrow> string result" where
  "HashPassword env salt password = ebind (ValidatePassword password) (\<lambda>_. Inr (ae_phc env password salt))"

definition validateResellerGrants :: "access_db \<Rightarrow> string \<Rightarrow> string list \<Rightarrow> unit result" where
  "validateResellerGrants s rid permissions =
     ebind (ValidatePermissions permissions) (\<lambda>_.
     ebind (reseller_get s rid) (\<lambda>(acct, grants).
       if \<not> rs_enabled acct then E CodeForbidden
       else if list_ex (\<lambda>p. \<not> Allows grants p) permissions then E CodeForbidden
       else Inr ()))"

text \<open>The checks of \<open>create\<close> before its insert; the result is the list of grants to store.\<close>

definition admin_create_checks ::
  "access_db \<Rightarrow> string \<Rightarrow> role \<Rightarrow> string list \<Rightarrow> string option \<Rightarrow> string list result" where
  "admin_create_checks seen username r permissions rid =
     (if \<not> role_valid r then E CodeInvalidRequest
      else ebind (case rid of None \<Rightarrow> Inr () | Some i \<Rightarrow> validateResellerGrants seen i permissions) (\<lambda>_.
        ebind (if r = RoleOwner then
                 (if rid \<noteq> None then E CodeInvalidRequest
                  else if HasOwner seen then E CodeOwnerProtected else Inr [])
               else (case ValidateScopes permissions of Inl _ \<Rightarrow> E CodeInvalidRequest | Inr _ \<Rightarrow> Inr permissions))
          (\<lambda>perms. ebind (ValidateUsername username) (\<lambda>_. Inr perms))))"

text \<open>
  The guarded \<open>INSERT .. SELECT .. WHERE\<close>: one statement that inserts the row unless it would be a second
  owner or its reseller is not enabled.
\<close>

definition admin_insert :: "admin_row \<Rightarrow> access_db \<Rightarrow> admin result \<times> access_db" where
  "admin_insert row s =
     (if \<not> ((ad_role row \<noteq> RoleOwner \<or> \<not> HasOwner s)
            \<and> (case ad_reseller row of None \<Rightarrow> True
               | Some i \<Rightarrow> list_ex (\<lambda>r. rs_id r = i \<and> rs_enabled r) (au_resellers s)))
      then (if ad_reseller row \<noteq> None then E CodeForbidden else E CodeOwnerProtected, s)
      else if ad_username row \<in> ad_username ` set (au_admins s) \<or> ad_id row \<in> ad_id ` set (au_admins s)
      then (E CodeAdminExists, s)
      else (Inr (admin_of row), s\<lparr>au_admins := au_admins s @ [row]\<rparr>))"

definition admin_create ::
  "access_env \<Rightarrow> string \<Rightarrow> string \<Rightarrow> access_db \<Rightarrow> string \<Rightarrow> string \<Rightarrow> role \<Rightarrow> string list \<Rightarrow> string option
     \<Rightarrow> access_db \<Rightarrow> admin result \<times> access_db" where
  "admin_create env nid salt seen username password r permissions rid s =
     (case ebind (admin_create_checks seen username r permissions rid) (\<lambda>perms.
             ebind (HashPassword env salt password) (\<lambda>hash. Inr (perms, hash))) of
        Inl e \<Rightarrow> (Inl e, s)
      | Inr (perms, hash) \<Rightarrow>
          admin_insert \<lparr>ad_id = nid, ad_username = username, ad_hash = hash, ad_role = r,
            ad_permissions = TextList perms, ad_enabled = True, ad_created = ae_now env,
            ad_updated = ae_now env, ad_reseller = rid, ad_locale = ''fa'', ad_preset = [], ad_digits = []\<rparr> s)"

definition CreateForReseller ::
  "access_env \<Rightarrow> string \<Rightarrow> string \<Rightarrow> access_db \<Rightarrow> string \<Rightarrow> string \<Rightarrow> string \<Rightarrow> string list
     \<Rightarrow> access_db \<Rightarrow> admin result \<times> access_db" where
  "CreateForReseller env nid salt seen rid username password permissions s =
     (if rid = [] then (E CodeInvalidRequest, s)
      else admin_create env nid salt seen username password RoleAdmin permissions (Some rid) s)"

definition BootstrapOwner ::
  "access_env \<Rightarrow> string \<Rightarrow> string \<Rightarrow> access_db \<Rightarrow> string \<Rightarrow> string \<Rightarrow> access_db \<Rightarrow> bool result \<times> access_db" where
  "BootstrapOwner env nid salt seen username password s =
     (if HasOwner seen then (Inr False, s)
      else case admin_create env nid salt seen username password RoleOwner [] None s of
        (Inl e, s') \<Rightarrow> (if CodeOf e = CodeOwnerProtected then Inr False else Inl e, s')
      | (Inr _, s') \<Rightarrow> (Inr True, s'))"

definition Authenticate :: "access_env \<Rightarrow> access_db \<Rightarrow> string \<Rightarrow> string \<Rightarrow> admin result" where
  "Authenticate env s username password =
     (case find_row ad_username username (au_admins s) of
        None \<Rightarrow> E CodeCredentialInvalid
      | Some a \<Rightarrow>
          if ae_verify env password (ad_hash a) \<noteq> Some True then E CodeCredentialInvalid
          else if \<not> ad_enabled a
            \<or> (case ad_reseller a of None \<Rightarrow> False
               | Some i \<Rightarrow> (case find_row rs_id i (au_resellers s) of None \<Rightarrow> True | Some r \<Rightarrow> \<not> rs_enabled r))
          then E CodeForbidden
          else Inr (admin_of a))"

definition admin_update :: "string \<Rightarrow> (admin_row \<Rightarrow> admin_row) \<Rightarrow> access_db \<Rightarrow> access_db" where
  "admin_update aid f s = s\<lparr>au_admins := update_rows (\<lambda>r. ad_id r = aid) f (au_admins s)\<rparr>"

text \<open>An update that reports whether it found the row.\<close>

definition admin_update_found ::
  "string \<Rightarrow> (admin_row \<Rightarrow> admin_row) \<Rightarrow> access_db \<Rightarrow> unit result \<times> access_db" where
  "admin_update_found aid f s =
     (if aid \<in> ad_id ` set (au_admins s) then (Inr (), admin_update aid f s) else (E CodeAdminNotFound, s))"

definition SetLocale :: "access_env \<Rightarrow> string \<Rightarrow> string \<Rightarrow> access_db \<Rightarrow> unit result \<times> access_db" where
  "SetLocale env aid locale s =
     (if locale \<noteq> ''fa'' \<and> locale \<noteq> ''en'' then (E CodeInvalidRequest, s)
      else admin_update_found aid (\<lambda>r. r\<lparr>ad_locale := locale, ad_updated := ae_now env\<rparr>) s)"

definition SetAppearancePreset :: "access_env \<Rightarrow> string \<Rightarrow> string \<Rightarrow> access_db \<Rightarrow> unit result \<times> access_db" where
  "SetAppearancePreset env aid preset s =
     admin_update_found aid (\<lambda>r. r\<lparr>ad_preset := preset, ad_updated := ae_now env\<rparr>) s"

definition SetAppearanceDigits :: "access_env \<Rightarrow> string \<Rightarrow> string \<Rightarrow> access_db \<Rightarrow> unit result \<times> access_db" where
  "SetAppearanceDigits env aid digits s =
     (if digits \<noteq> [] \<and> digits \<noteq> ''latin'' \<and> digits \<noteq> ''persian'' then (E CodeInvalidRequest, s)
      else admin_update_found aid (\<lambda>r. r\<lparr>ad_digits := digits, ad_updated := ae_now env\<rparr>) s)"

definition ResetAppearance :: "access_env \<Rightarrow> string \<Rightarrow> access_db \<Rightarrow> access_db" where
  "ResetAppearance env aid s =
     admin_update aid (\<lambda>r. r\<lparr>ad_preset := [], ad_digits := [], ad_updated := ae_now env\<rparr>) s"

definition SetPassword :: "access_env \<Rightarrow> string \<Rightarrow> string \<Rightarrow> string \<Rightarrow> access_db \<Rightarrow> unit result \<times> access_db" where
  "SetPassword env salt aid newPassword s =
     (case HashPassword env salt newPassword of
        Inl e \<Rightarrow> (Inl e, s)
      | Inr hash \<Rightarrow>
          (case admin_update_found aid (\<lambda>r. r\<lparr>ad_hash := hash, ad_updated := ae_now env\<rparr>) s of
             (Inl e, s') \<Rightarrow> (Inl e, s')
           | (Inr _, s') \<Rightarrow> (Inr (), RevokeAllForAdmin aid s')))"

definition admin_SetPermissions ::
  "access_env \<Rightarrow> access_db \<Rightarrow> string \<Rightarrow> string list \<Rightarrow> access_db \<Rightarrow> unit result \<times> access_db" where
  "admin_SetPermissions env seen aid permissions s =
     (case ValidateScopes permissions of
        Inl _ \<Rightarrow> (E CodeInvalidRequest, s)
      | Inr _ \<Rightarrow>
          (case admin_get seen aid of
             Inl e \<Rightarrow> (Inl e, s)
           | Inr a \<Rightarrow>
               if am_role a = RoleOwner then (E CodeOwnerProtected, s)
               else (case (case am_reseller a of None \<Rightarrow> Inr () | Some i \<Rightarrow> validateResellerGrants seen i permissions) of
                 Inl e \<Rightarrow> (Inl e, s)
               | Inr _ \<Rightarrow>
                   (Inr (), admin_update aid (\<lambda>r. r\<lparr>ad_permissions := TextList permissions, ad_updated := ae_now env\<rparr>) s))))"

definition admin_SetEnabled ::
  "access_env \<Rightarrow> access_db \<Rightarrow> string \<Rightarrow> bool \<Rightarrow> access_db \<Rightarrow> unit result \<times> access_db" where
  "admin_SetEnabled env seen aid enabled s =
     (case admin_get seen aid of
        Inl e \<Rightarrow> (Inl e, s)
      | Inr a \<Rightarrow>
          if am_role a = RoleOwner then (if \<not> enabled then E CodeOwnerProtected else Inr (), s)
          else let s' = admin_update aid (\<lambda>r. r\<lparr>ad_enabled := enabled, ad_updated := ae_now env\<rparr>) s in
            (Inr (), if \<not> enabled then RevokeAllForAdmin aid s' else s'))"

text \<open>
  \<open>DELETE FROM admins\<close>: the schema deletes the account's sessions with it and clears the issuer of the
  tokens it minted.
\<close>

definition admin_remove :: "string \<Rightarrow> access_db \<Rightarrow> access_db" where
  "admin_remove aid s =
     (if aid \<notin> ad_id ` set (au_admins s) then s
      else s\<lparr>au_admins := delete_rows (\<lambda>r. ad_id r = aid) (au_admins s),
             au_sessions := delete_rows (\<lambda>r. sn_admin r = aid) (au_sessions s),
             au_tokens := update_rows (\<lambda>r. tk_issuer r = Some aid) (\<lambda>r. r\<lparr>tk_issuer := None\<rparr>) (au_tokens s)\<rparr>)"

definition admin_delete :: "access_db \<Rightarrow> string \<Rightarrow> access_db \<Rightarrow> unit result \<times> access_db" where
  "admin_delete seen aid s =
     (case admin_get seen aid of
        Inl e \<Rightarrow> (Inl e, s)
      | Inr a \<Rightarrow>
          if am_role a = RoleOwner then (E CodeOwnerProtected, s)
          else (Inr (), RevokeAllForAdmin aid (admin_remove aid s)))"

section \<open>Keys and lookups\<close>

text \<open>The keys of the account tables that the schema makes unique.\<close>

definition access_keys :: "access_db \<Rightarrow> bool" where
  "access_keys s \<longleftrightarrow> unique_on ad_id (au_admins s) \<and> unique_on ad_username (au_admins s)
     \<and> unique_on rs_id (au_resellers s) \<and> unique_on sn_hash (au_sessions s)
     \<and> unique_on tk_id (au_tokens s) \<and> unique_on tk_prefix (au_tokens s)"

lemma admin_disable_Inr:
  assumes "admin_SetEnabled env seen aid False s = (Inr (), s')"
  shows "s' = RevokeAllForAdmin aid (admin_update aid (\<lambda>r. r\<lparr>ad_enabled := False, ad_updated := ae_now env\<rparr>) s)"
    and "au_tokens s' = au_tokens s" "au_resellers s' = au_resellers s"
    and "au_admins s' = update_rows (\<lambda>r. ad_id r = aid) (\<lambda>r. r\<lparr>ad_enabled := False, ad_updated := ae_now env\<rparr>) (au_admins s)"
proof -
  show e: "s' = RevokeAllForAdmin aid (admin_update aid (\<lambda>r. r\<lparr>ad_enabled := False, ad_updated := ae_now env\<rparr>) s)"
    using assms unfolding admin_SetEnabled_def Let_def
    by (cases "admin_get seen aid") (simp_all split: if_splits)
  show "au_tokens s' = au_tokens s" "au_resellers s' = au_resellers s"
    "au_admins s' = update_rows (\<lambda>r. ad_id r = aid) (\<lambda>r. r\<lparr>ad_enabled := False, ad_updated := ae_now env\<rparr>) (au_admins s)"
    unfolding e by (simp_all add: RevokeAllForAdmin_def admin_update_def)
qed

end
