(* ===== verification/Tokens.thy ===== *)
theory Tokens
  imports Accounts Keys
begin

text \<open>
  API tokens (\<open>src/internal/token/token.go\<close>): minting, the ceiling that the issuer's and the
  reseller's current grants put on a token at every verification, revocation and listing. The random
  part of a token and its identifier are arguments, the digest is \<open>ae_sha\<close>.
\<close>

section \<open>Tokens\<close>

record api_token =
  to_id :: string
  to_name :: string
  to_prefix :: string
  to_scopes :: "string list"
  to_reseller :: "string option"
  to_issuer :: "string option"
  to_owner_authority :: bool
  to_expires :: "time option"
  to_enabled :: bool
  to_cidr :: "string list"
  to_last_used :: "time option"
  to_created :: time

definition token_scheme :: string where
  "token_scheme = ''wg_''"

definition lookupLen :: nat where
  "lookupLen = 8"

definition token_create ::
  "access_env \<Rightarrow> string \<Rightarrow> string \<Rightarrow> string \<Rightarrow> string list \<Rightarrow> time option \<Rightarrow> string \<Rightarrow> string option \<Rightarrow> string option
     \<Rightarrow> access_db \<Rightarrow> (api_token \<times> string) result \<times> access_db" where
  "token_create env nid rnd name granted expiresAt cidr issuer rid s =
     (if TrimSpace name = [] then (E CodeInvalidRequest, s)
      else if ValidateScopes granted \<noteq> Inr () then (E CodeInvalidRequest, s)
      else if cidr \<noteq> [] \<and> ValidateCIDRList cidr \<noteq> Inr () then (E CodeInvalidRequest, s)
      else let plaintext = token_scheme @ rnd;
               hash = ae_sha env plaintext;
               pre = take (length token_scheme + lookupLen) plaintext;
               t = \<lparr>to_id = nid, to_name = name, to_prefix = pre, to_scopes = granted, to_reseller = rid,
                    to_issuer = issuer, to_owner_authority = False, to_expires = expiresAt, to_enabled = True,
                    to_cidr = splitCIDR cidr, to_last_used = None, to_created = ae_now env\<rparr>
           in
        if nid \<in> tk_id ` set (au_tokens s) \<or> pre \<in> tk_prefix ` set (au_tokens s) \<or> hash \<in> tk_hash ` set (au_tokens s)
        then (Inl (Foreign ''UNIQUE constraint failed''), s)
        else if (case rid of None \<Rightarrow> False | Some i \<Rightarrow> i \<notin> rs_id ` set (au_resellers s))
             \<or> (case issuer of None \<Rightarrow> False | Some i \<Rightarrow> i \<notin> ad_id ` set (au_admins s))
        then (Inl (Foreign ''FOREIGN KEY constraint failed''), s)
        else (Inr (t, plaintext), s\<lparr>au_tokens := au_tokens s @
          [\<lparr>tk_id = nid, tk_name = name, tk_prefix = pre, tk_hash = hash, tk_scopes = TextList granted,
            tk_expires = expiresAt, tk_enabled = True, tk_cidr = cidr, tk_last_used = None,
            tk_created = ae_now env, tk_reseller = rid, tk_issuer = issuer\<rparr>]\<rparr>))"

text \<open>The issuer of \<open>CreateForAdmin\<close>: role, grants and tenant, and the tenant the token gets.\<close>

definition issuer_target ::
  "access_db \<Rightarrow> string \<Rightarrow> string option \<Rightarrow> (role \<times> string list \<times> string option) result" where
  "issuer_target seen adminID target =
     (case find_row ad_id adminID (au_admins seen) of
        None \<Rightarrow> E CodeForbidden
      | Some a \<Rightarrow>
          if \<not> ad_enabled a then E CodeForbidden
          else case unmarshal (ad_permissions a) of
            None \<Rightarrow> E CodeForbidden
          | Some grants \<Rightarrow>
              if \<not> role_valid (ad_role a) \<or> \<not> Authorized (ad_role a) grants ScopeAPITokensManage then E CodeForbidden
              else if ad_role a = RoleOwner \<and> ad_reseller a \<noteq> None then E CodeForbidden
              else (case ad_reseller a of
                 Some own \<Rightarrow>
                   if target \<noteq> None \<and> target \<noteq> Some own then E CodeForbidden
                   else Inr (ad_role a, grants, Some own)
               | None \<Rightarrow>
                   if target \<noteq> None \<and> ad_role a \<noteq> RoleOwner then E CodeForbidden
                   else Inr (ad_role a, grants, target)))"

definition reseller_ceiling :: "access_db \<Rightarrow> string \<Rightarrow> string list result" where
  "reseller_ceiling s rid =
     (case find_row rs_id rid (au_resellers s) of
        None \<Rightarrow> E CodeForbidden
      | Some r \<Rightarrow>
          if \<not> rs_enabled r then E CodeForbidden
          else case unmarshal (rs_permissions r) of
            None \<Rightarrow> E CodeForbidden
          | Some l \<Rightarrow> if \<not> ValidResellerGrants l then E CodeForbidden else Inr l)"

definition mint_ceiling :: "access_db \<Rightarrow> role \<Rightarrow> string option \<Rightarrow> string list \<Rightarrow> string list result" where
  "mint_ceiling seen r rid granted =
     (case rid of
        None \<Rightarrow> Inr []
      | Some i \<Rightarrow>
          ebind (reseller_ceiling seen i) (\<lambda>l.
            if \<not> Authorized RoleAdmin l ScopeAPITokensManage \<and> r \<noteq> RoleOwner then E CodeForbidden
            else if \<not> ValidResellerGrants granted then E CodeForbidden
            else Inr l))"

definition CreateForAdmin ::
  "access_env \<Rightarrow> string \<Rightarrow> string \<Rightarrow> access_db \<Rightarrow> string \<Rightarrow> string option \<Rightarrow> string \<Rightarrow> string list \<Rightarrow> time option \<Rightarrow> string
     \<Rightarrow> access_db \<Rightarrow> (api_token \<times> string) result \<times> access_db" where
  "CreateForAdmin env nid rnd seen adminID target name granted expiresAt cidr s =
     (case ebind (issuer_target seen adminID target) (\<lambda>(r, issuerGrants, rid).
             if ValidateScopes granted \<noteq> Inr () then E CodeInvalidRequest
             else ebind (mint_ceiling seen r rid granted) (\<lambda>resellerGrants.
               if list_ex (\<lambda>sc. Allows granted sc \<and>
                    ((r \<noteq> RoleOwner \<and> \<not> Allows issuerGrants sc) \<or> (rid \<noteq> None \<and> \<not> Allows resellerGrants sc))) AllScopes
               then E CodeForbidden else Inr rid)) of
        Inl e \<Rightarrow> (Inl e, s)
      | Inr rid \<Rightarrow> token_create env nid rnd name granted expiresAt cidr (Some adminID) rid s)"

section \<open>Verification\<close>

text \<open>\<open>subtleXOR\<close>: the accumulated differences of two texts, in constant time; true when they differ.\<close>

definition byte_of :: "char \<Rightarrow> byte" where
  "byte_of c = of_nat (of_char c)"

fun xor_fold :: "byte \<Rightarrow> string \<Rightarrow> string \<Rightarrow> byte" where
  "xor_fold v (a # as) (b # bs) = xor_fold (v OR (byte_of a XOR byte_of b)) as bs"
| "xor_fold v _ _ = v"

definition subtleXOR :: "string \<Rightarrow> string \<Rightarrow> bool" where
  "subtleXOR a b = (if length a \<noteq> length b then True else xor_fold 0 a b \<noteq> 0)"

text \<open>The issuer part of \<open>applyPrincipalCeiling\<close>: no issuer is the legacy node-wide token.\<close>

definition issuer_ceiling :: "access_db \<Rightarrow> api_token \<Rightarrow> (role \<times> string list) option result" where
  "issuer_ceiling s t =
     (case to_issuer t of
        None \<Rightarrow> if to_reseller t \<noteq> None then E CodeForbidden else Inr None
      | Some i \<Rightarrow>
          (case find_row ad_id i (au_admins s) of
             None \<Rightarrow> E CodeForbidden
           | Some a \<Rightarrow>
               if \<not> ad_enabled a then E CodeForbidden
               else if \<not> role_valid (ad_role a)
                 \<or> (ad_reseller a \<noteq> None \<and> (to_reseller t = None \<or> ad_reseller a \<noteq> to_reseller t))
                 \<or> (to_reseller t \<noteq> None \<and> ad_reseller a = None \<and> ad_role a \<noteq> RoleOwner)
               then E CodeForbidden
               else (case unmarshal (ad_permissions a) of
                 None \<Rightarrow> E CodeForbidden
               | Some grants \<Rightarrow> Inr (Some (ad_role a, grants)))))"

definition applyPrincipalCeiling :: "access_db \<Rightarrow> api_token \<Rightarrow> api_token result" where
  "applyPrincipalCeiling s t =
     ebind (issuer_ceiling s t) (\<lambda>issuer.
     ebind (case to_reseller t of None \<Rightarrow> Inr [] | Some i \<Rightarrow> reseller_ceiling s i) (\<lambda>resellerGrants.
       Inr (t\<lparr>
         to_scopes := filter (\<lambda>sc. \<not> (\<not> Allows (to_scopes t) sc
           \<or> (case issuer of None \<Rightarrow> False | Some (r, grants) \<Rightarrow> r \<noteq> RoleOwner \<and> \<not> Allows grants sc)
           \<or> (to_reseller t \<noteq> None \<and> (\<not> ResellerGrantable sc \<or> \<not> Allows resellerGrants sc)))) AllScopes,
         to_owner_authority := (case issuer of None \<Rightarrow> True | Some (r, _) \<Rightarrow> r = RoleOwner)\<rparr>)))"

definition token_of_row :: "token_row \<Rightarrow> string list \<Rightarrow> api_token" where
  "token_of_row r sc = \<lparr>to_id = tk_id r, to_name = tk_name r, to_prefix = tk_prefix r, to_scopes = sc,
     to_reseller = tk_reseller r, to_issuer = tk_issuer r, to_owner_authority = False,
     to_expires = tk_expires r, to_enabled = True, to_cidr = splitCIDR (tk_cidr r),
     to_last_used = tk_last_used r, to_created = tk_created r\<rparr>"

text \<open>The checks of \<open>Verify\<close> on the fetched row.\<close>

definition verify_row :: "access_env \<Rightarrow> string \<Rightarrow> string \<Rightarrow> access_db \<Rightarrow> token_row \<Rightarrow> api_token result" where
  "verify_row env plaintext remoteIP s r =
     (if subtleXOR (tk_hash r) (ae_sha env plaintext) then E CodeTokenInvalid
      else if \<not> tk_enabled r then E CodeForbidden
      else if (case tk_expires r of None \<Rightarrow> False | Some exp \<Rightarrow> exp < ae_now env) then E CodeForbidden
      else case unmarshal (tk_scopes r) of
        None \<Rightarrow> Inl (Foreign ''token: scopes'')
      | Some listed \<Rightarrow>
          ebind (applyPrincipalCeiling s (token_of_row r (if ValidateScopes listed = Inr () then listed else []))) (\<lambda>t.
            if to_cidr t \<noteq> [] \<and> (case ParseIP remoteIP of None \<Rightarrow> True | Some ip \<Rightarrow> \<not> ipInList ip (to_cidr t))
            then E CodeForbidden else Inr t))"

definition Verify :: "access_env \<Rightarrow> string \<Rightarrow> string \<Rightarrow> access_db \<Rightarrow> api_token result \<times> access_db" where
  "Verify env plaintext remoteIP s =
     (if take (length token_scheme) plaintext \<noteq> token_scheme \<or> length plaintext \<noteq> length token_scheme + 43
      then (E CodeTokenInvalid, s)
      else case find_row tk_prefix (take (length token_scheme + lookupLen) plaintext) (au_tokens s) of
        None \<Rightarrow> (E CodeTokenInvalid, s)
      | Some r \<Rightarrow>
          (case verify_row env plaintext remoteIP s r of
             Inl e \<Rightarrow> (Inl e, s)
           | Inr t \<Rightarrow>
               (Inr t,
                if (case to_last_used t of None \<Rightarrow> True | Some u \<Rightarrow> minute < time_sub (ae_now env) u)
                then s\<lparr>au_tokens := update_rows (\<lambda>x. tk_id x = to_id t) (\<lambda>x. x\<lparr>tk_last_used := Some (ae_now env)\<rparr>) (au_tokens s)\<rparr>
                else s)))"

definition NodeOwnerAuthority :: "api_token \<Rightarrow> bool" where
  "NodeOwnerAuthority v \<longleftrightarrow> to_reseller v = None \<and> to_owner_authority v"

definition Authorize :: "api_token \<Rightarrow> string \<Rightarrow> bool" where
  "Authorize v required = Allows (to_scopes v) required"

section \<open>Listing and revocation\<close>

definition listed_token :: "token_row \<Rightarrow> api_token" where
  "listed_token r = (token_of_row r (unmarshal_lax (tk_scopes r)))\<lparr>to_enabled := tk_enabled r\<rparr>"

definition token_list :: "(token_row \<Rightarrow> bool) \<Rightarrow> access_db \<Rightarrow> api_token list" where
  "token_list P s = map listed_token (sort_key (\<lambda>r. text_key (tk_created r)) (filter P (au_tokens s)))"

definition ListGlobal :: "access_db \<Rightarrow> api_token list" where
  "ListGlobal s = token_list (\<lambda>r. tk_reseller r = None) s"

definition ListForReseller :: "string \<Rightarrow> access_db \<Rightarrow> api_token list result" where
  "ListForReseller rid s =
     (if rid = [] then E CodeInvalidRequest else Inr (token_list (\<lambda>r. tk_reseller r = Some rid) s))"

definition revoke_where :: "(token_row \<Rightarrow> bool) \<Rightarrow> access_db \<Rightarrow> unit result \<times> access_db" where
  "revoke_where P s =
     (if list_ex P (au_tokens s)
      then (Inr (), s\<lparr>au_tokens := update_rows P (\<lambda>r. r\<lparr>tk_enabled := False\<rparr>) (au_tokens s)\<rparr>)
      else (E CodeNotFound, s))"

definition token_Revoke :: "string \<Rightarrow> access_db \<Rightarrow> unit result \<times> access_db" where
  "token_Revoke tid s = revoke_where (\<lambda>r. tk_id r = tid) s"

definition RevokeForReseller :: "string \<Rightarrow> string \<Rightarrow> access_db \<Rightarrow> unit result \<times> access_db" where
  "RevokeForReseller tid rid s =
     (if rid = [] then (E CodeInvalidRequest, s)
      else revoke_where (\<lambda>r. tk_id r = tid \<and> tk_reseller r = Some rid) s)"

definition RevokeGlobal :: "string \<Rightarrow> access_db \<Rightarrow> unit result \<times> access_db" where
  "RevokeGlobal tid s = revoke_where (\<lambda>r. tk_id r = tid \<and> tk_reseller r = None) s"

section \<open>The digest comparison\<close>

lemma or_zero_word: "(a :: 'a::len word) OR b = 0 \<longleftrightarrow> a = 0 \<and> b = 0"
  by (auto simp: bit_eq_iff bit_or_iff)

lemma byte_of_eq: "byte_of a = byte_of b \<longleftrightarrow> a = b"
proof -
  have "unat (byte_of c) = of_char c" for c
    unfolding byte_of_def by (simp only: unsigned_of_nat) (simp add: take_bit_nat_eq_self)
  then show ?thesis by (metis of_char_eq_iff)
qed

lemma xor_fold_zero:
  "length a = length b \<Longrightarrow> xor_fold v a b = 0 \<longleftrightarrow> v = 0 \<and> a = b"
  by (induction v a b rule: xor_fold.induct) (auto simp: or_zero_word xor_word_eq byte_of_eq)

lemma subtleXOR_iff [simp]: "subtleXOR a b \<longleftrightarrow> a \<noteq> b"
  by (auto simp: subtleXOR_def xor_fold_zero)

section \<open>What a verified token may do\<close>

text \<open>
  The specification of a token's rights in a database: the scope is registered and covered by the
  list on the token, and the current issuer and the current reseller, where the token has them, grant it too.
\<close>

definition issuer_grants :: "access_db \<Rightarrow> token_row \<Rightarrow> string \<Rightarrow> bool" where
  "issuer_grants s r sc \<longleftrightarrow>
     (case tk_issuer r of
        None \<Rightarrow> True
      | Some i \<Rightarrow> (\<exists>a \<in> set (au_admins s). ad_id a = i \<and> ad_enabled a
          \<and> (ad_reseller a = None \<or> ad_reseller a = tk_reseller r)
          \<and> (ad_role a = RoleOwner \<or> (ad_reseller a = tk_reseller r
             \<and> (\<exists>g. unmarshal (ad_permissions a) = Some g \<and> Allows g sc)))))"

definition reseller_grants :: "access_db \<Rightarrow> token_row \<Rightarrow> string \<Rightarrow> bool" where
  "reseller_grants s r sc \<longleftrightarrow>
     (case tk_reseller r of
        None \<Rightarrow> True
      | Some i \<Rightarrow> (\<exists>rr \<in> set (au_resellers s). rs_id rr = i \<and> rs_enabled rr \<and> ResellerGrantable sc
          \<and> (\<exists>g. unmarshal (rs_permissions rr) = Some g \<and> sc \<in> set g)))"

definition token_grants :: "access_db \<Rightarrow> token_row \<Rightarrow> string \<Rightarrow> bool" where
  "token_grants s r sc \<longleftrightarrow> sc \<in> set scopes
     \<and> (\<exists>l. unmarshal (tk_scopes r) = Some l \<and> ValidateScopes l = Inr () \<and> Allows l sc)
     \<and> issuer_grants s r sc \<and> reseller_grants s r sc"

definition owner_token :: "access_db \<Rightarrow> token_row \<Rightarrow> bool" where
  "owner_token s r \<longleftrightarrow> tk_reseller r = None
     \<and> (case tk_issuer r of None \<Rightarrow> True
        | Some i \<Rightarrow> (\<exists>a \<in> set (au_admins s). ad_id a = i \<and> ad_role a = RoleOwner))"

definition unexpired :: "time \<Rightarrow> token_row \<Rightarrow> bool" where
  "unexpired now r \<longleftrightarrow> (case tk_expires r of None \<Rightarrow> True | Some exp \<Rightarrow> now \<le> exp)"

definition source_allowed :: "string \<Rightarrow> string \<Rightarrow> bool" where
  "source_allowed remoteIP cidr \<longleftrightarrow> splitCIDR cidr = []
     \<or> (\<exists>ip. ParseIP remoteIP = Some ip \<and> ipInList ip (splitCIDR cidr))"

lemma issuer_ceiling_Inr:
  "issuer_ceiling s t = Inr is \<longleftrightarrow>
     (case to_issuer t of
        None \<Rightarrow> to_reseller t = None \<and> is = None
      | Some i \<Rightarrow> (\<exists>a g. find_row ad_id i (au_admins s) = Some a \<and> ad_enabled a \<and> role_valid (ad_role a)
          \<and> (ad_reseller a = None \<or> ad_reseller a = to_reseller t)
          \<and> (ad_role a = RoleOwner \<or> ad_reseller a = to_reseller t)
          \<and> unmarshal (ad_permissions a) = Some g \<and> is = Some (ad_role a, g)))"
  by (auto simp: issuer_ceiling_def split: option.splits if_splits)

lemma reseller_ceiling_Inr:
  "reseller_ceiling s i = Inr l \<longleftrightarrow>
     (\<exists>r. find_row rs_id i (au_resellers s) = Some r \<and> rs_enabled r
        \<and> unmarshal (rs_permissions r) = Some l \<and> ValidResellerGrants l)"
  by (auto simp: reseller_ceiling_def split: option.splits if_splits)

lemma applyPrincipalCeiling_Inr:
  assumes "applyPrincipalCeiling s (token_of_row r l) = Inr t" "access_keys s"
  shows "Allows (to_scopes t) sc \<longleftrightarrow> Allows l sc \<and> issuer_grants s r sc \<and> reseller_grants s r sc"
    and "to_reseller t = None \<and> to_owner_authority t \<longleftrightarrow> owner_token s r"
    and "t = (token_of_row r l)\<lparr>to_scopes := to_scopes t, to_owner_authority := to_owner_authority t\<rparr>"
proof -
  obtain "is" rg where is_ok: "issuer_ceiling s (token_of_row r l) = Inr is"
    and rg: "(case tk_reseller r of None \<Rightarrow> Inr [] | Some i \<Rightarrow> reseller_ceiling s i) = (Inr rg :: string list result)"
    and t: "t = (token_of_row r l)\<lparr>
         to_scopes := filter (\<lambda>sc. \<not> (\<not> Allows l sc
           \<or> (case is of None \<Rightarrow> False | Some (r, grants) \<Rightarrow> r \<noteq> RoleOwner \<and> \<not> Allows grants sc)
           \<or> (tk_reseller r \<noteq> None \<and> (\<not> ResellerGrantable sc \<or> \<not> Allows rg sc)))) AllScopes,
         to_owner_authority := (case is of None \<Rightarrow> True | Some (r, _) \<Rightarrow> r = RoleOwner)\<rparr>"
    using assms(1) by (auto simp: applyPrincipalCeiling_def ebind_Inr_iff token_of_row_def)
  have u: "unique_on ad_id (au_admins s)" "unique_on rs_id (au_resellers s)"
    using assms(2) by (simp_all add: access_keys_def)
  have ig: "issuer_grants s r sc \<longleftrightarrow> \<not> (case is of None \<Rightarrow> False | Some (r, grants) \<Rightarrow> r \<noteq> RoleOwner \<and> \<not> Allows grants sc)"
  proof (cases "tk_issuer r")
    case None
    with is_ok show ?thesis by (simp add: issuer_ceiling_Inr issuer_grants_def token_of_row_def)
  next
    case (Some i)
    with is_ok obtain a g where a: "find_row ad_id i (au_admins s) = Some a" "ad_enabled a"
      "ad_reseller a = None \<or> ad_reseller a = tk_reseller r"
      "ad_role a = RoleOwner \<or> ad_reseller a = tk_reseller r" "unmarshal (ad_permissions a) = Some g" "is = Some (ad_role a, g)"
      by (auto simp: issuer_ceiling_Inr token_of_row_def)
    then show ?thesis
      using Some by (auto simp: issuer_grants_def bex_find_row[OF a(1) u(1)])
  qed
  have rr: "reseller_grants s r sc \<longleftrightarrow> \<not> (tk_reseller r \<noteq> None \<and> (\<not> ResellerGrantable sc \<or> \<not> Allows rg sc))"
  proof (cases "tk_reseller r")
    case None
    then show ?thesis by (simp add: reseller_grants_def)
  next
    case (Some i)
    with rg obtain x where x: "find_row rs_id i (au_resellers s) = Some x" "rs_enabled x"
      "unmarshal (rs_permissions x) = Some rg" "ValidResellerGrants rg"
      by (auto simp: reseller_ceiling_Inr)
    show ?thesis
      using Some x by (auto simp: reseller_grants_def reseller_grants_exact bex_find_row[OF x(1) u(2)])
  qed
  show "Allows (to_scopes t) sc \<longleftrightarrow> Allows l sc \<and> issuer_grants s r sc \<and> reseller_grants s r sc"
    unfolding ig rr t by (simp add: Allows_listed) (auto dest: Allows_registered)
  show "t = (token_of_row r l)\<lparr>to_scopes := to_scopes t, to_owner_authority := to_owner_authority t\<rparr>"
    by (simp add: t)
  show "to_reseller t = None \<and> to_owner_authority t \<longleftrightarrow> owner_token s r"
  proof (cases "tk_issuer r")
    case None
    with is_ok show ?thesis by (simp add: t issuer_ceiling_Inr owner_token_def token_of_row_def)
  next
    case (Some i)
    with is_ok obtain a g where a: "find_row ad_id i (au_admins s) = Some a" "is = Some (ad_role a, g)"
      by (auto simp: issuer_ceiling_Inr token_of_row_def)
    then show ?thesis
      using Some by (auto simp: t owner_token_def token_of_row_def bex_find_row[OF a(1) u(1)])
  qed
qed

lemma token_lens [simp]: "length token_scheme = 3" "lookupLen = 8"
  by (simp_all add: token_scheme_def lookupLen_def)

lemma Verify_Inr:
  "Verify env plaintext remoteIP s = (Inr t, s') \<longleftrightarrow>
     take 3 plaintext = token_scheme \<and> length plaintext = 46 \<and>
     (\<exists>r. find_row tk_prefix (take 11 plaintext) (au_tokens s) = Some r \<and> verify_row env plaintext remoteIP s r = Inr t
        \<and> s' = (if (case to_last_used t of None \<Rightarrow> True | Some u \<Rightarrow> minute < time_sub (ae_now env) u)
                then s\<lparr>au_tokens := update_rows (\<lambda>x. tk_id x = to_id t) (\<lambda>x. x\<lparr>tk_last_used := Some (ae_now env)\<rparr>) (au_tokens s)\<rparr>
                else s))"
proof -
  have i: "take 3 plaintext \<noteq> token_scheme \<or> length plaintext \<noteq> 3 + 43 \<longleftrightarrow> \<not> (take 3 plaintext = token_scheme \<and> length plaintext = 46)"
    "3 + 8 = (11 :: nat)" by simp_all
  show ?thesis
    unfolding Verify_def token_lens i
    by (cases "find_row tk_prefix (take 11 plaintext) (au_tokens s)") (auto split: sum.splits)
qed

lemma verify_row_Inr:
  "verify_row env plaintext remoteIP s r = Inr t \<longleftrightarrow>
     tk_hash r = ae_sha env plaintext \<and> tk_enabled r \<and> unexpired (ae_now env) r \<and>
     (\<exists>l. unmarshal (tk_scopes r) = Some l
        \<and> applyPrincipalCeiling s (token_of_row r (if ValidateScopes l = Inr () then l else [])) = Inr t)
     \<and> (to_cidr t = [] \<or> (\<exists>ip. ParseIP remoteIP = Some ip \<and> ipInList ip (to_cidr t)))"
  by (auto simp: verify_row_def unexpired_def ebind_Inr_iff split: option.splits if_splits)

text \<open>
  C8. A token that verifies is a stored, enabled and unexpired token with this digest, used from an
  allowed source, and it authorizes exactly the scopes its own list, its current issuer and its
  current reseller all grant at this moment; it has the owner's node-wide authority only when it belongs to
  no reseller and its issuer, if it has one, is the owner. Verification changes nothing but the
  last-used time.
\<close>

theorem verified_token_exact:
  assumes "access_keys s" "Verify env plaintext remoteIP s = (Inr t, s')"
  shows "(\<exists>r \<in> set (au_tokens s). tk_hash r = ae_sha env plaintext \<and> tk_enabled r \<and> unexpired (ae_now env) r
       \<and> source_allowed remoteIP (tk_cidr r) \<and> (\<forall>sc. Authorize t sc \<longleftrightarrow> token_grants s r sc)
       \<and> (NodeOwnerAuthority t \<longleftrightarrow> owner_token s r) \<and> to_id t = tk_id r \<and> to_reseller t = tk_reseller r)
    \<and> (\<exists>col. (\<forall>x. (col x)\<lparr>tk_last_used := tk_last_used x\<rparr> = x) \<and> s' = s\<lparr>au_tokens := map col (au_tokens s)\<rparr>)"
proof -
  obtain r l where r: "find_row tk_prefix (take 11 plaintext) (au_tokens s) = Some r"
    and v: "tk_hash r = ae_sha env plaintext" "tk_enabled r" "unexpired (ae_now env) r"
      "unmarshal (tk_scopes r) = Some l"
      "applyPrincipalCeiling s (token_of_row r (if ValidateScopes l = Inr () then l else [])) = Inr t"
      "to_cidr t = [] \<or> (\<exists>ip. ParseIP remoteIP = Some ip \<and> ipInList ip (to_cidr t))"
    and s': "s' = s \<or> s' = s\<lparr>au_tokens := update_rows (\<lambda>x. tk_id x = to_id t)
        (\<lambda>x. x\<lparr>tk_last_used := Some (ae_now env)\<rparr>) (au_tokens s)\<rparr>"
    using assms(2) by (auto simp: Verify_Inr verify_row_Inr)
  note c = applyPrincipalCeiling_Inr[OF v(5) assms(1)]
  have f: "to_cidr t = splitCIDR (tk_cidr r)" "to_id t = tk_id r" "to_reseller t = tk_reseller r"
    by (subst c(3), simp add: token_of_row_def)+
  have "Authorize t sc \<longleftrightarrow> token_grants s r sc" for sc
    using c(1)[of sc] v(4) by (auto simp: Authorize_def token_grants_def Allows_iff)
  moreover have "NodeOwnerAuthority t \<longleftrightarrow> owner_token s r" using c(2) by (simp add: NodeOwnerAuthority_def)
  moreover have "source_allowed remoteIP (tk_cidr r)" using v(6) f(1) by (simp add: source_allowed_def)
  moreover have "\<exists>col. (\<forall>x. (col x)\<lparr>tk_last_used := tk_last_used x\<rparr> = x) \<and> s' = s\<lparr>au_tokens := map col (au_tokens s)\<rparr>"
    using s'
  proof
    assume "s' = s"
    then show ?thesis by (intro exI[of _ "\<lambda>x. x"]) simp
  next
    assume "s' = s\<lparr>au_tokens := update_rows (\<lambda>x. tk_id x = to_id t)
        (\<lambda>x. x\<lparr>tk_last_used := Some (ae_now env)\<rparr>) (au_tokens s)\<rparr>"
    then show ?thesis
      by (intro exI[of _ "\<lambda>x. if tk_id x = to_id t then x\<lparr>tk_last_used := Some (ae_now env)\<rparr> else x"])
        (simp add: update_rows_def)
  qed
  ultimately show ?thesis using find_row_Some[OF r] v(1-3) f by blast
qed

section \<open>Minting\<close>

lemma token_create_Inr:
  "token_create env nid rnd name granted expiresAt cidr issuer rid s = (Inr (t, plaintext), s') \<Longrightarrow>
     ValidateScopes granted = Inr () \<and> plaintext = token_scheme @ rnd
     \<and> take 11 plaintext \<notin> tk_prefix ` set (au_tokens s)
     \<and> s' = s\<lparr>au_tokens := au_tokens s @
          [\<lparr>tk_id = nid, tk_name = name, tk_prefix = take 11 plaintext, tk_hash = ae_sha env plaintext,
            tk_scopes = TextList granted, tk_expires = expiresAt, tk_enabled = True, tk_cidr = cidr,
            tk_last_used = None, tk_created = ae_now env, tk_reseller = rid, tk_issuer = issuer\<rparr>]\<rparr>"
  by (auto simp: token_create_def Let_def split: if_splits)

lemma issuer_target_Inr:
  "issuer_target s adminID target = Inr (r, g, rid) \<longleftrightarrow>
     (\<exists>a. find_row ad_id adminID (au_admins s) = Some a \<and> ad_enabled a \<and> unmarshal (ad_permissions a) = Some g
        \<and> r = ad_role a \<and> role_valid r \<and> Authorized r g ScopeAPITokensManage
        \<and> (ad_reseller a \<noteq> None \<longrightarrow> r \<noteq> RoleOwner \<and> rid = ad_reseller a \<and> (target = None \<or> target = rid))
        \<and> (ad_reseller a = None \<longrightarrow> rid = target \<and> (target = None \<or> r = RoleOwner)))"
  by (auto simp: issuer_target_def split: option.splits if_splits)

lemma CreateForAdmin_Inr:
  assumes "CreateForAdmin env nid rnd seen adminID target name granted expiresAt cidr s = (Inr (t, plaintext), s')"
  obtains r g rid l where "issuer_target seen adminID target = Inr (r, g, rid)"
    "mint_ceiling seen r rid granted = Inr l"
    "\<forall>sc. Allows granted sc \<longrightarrow> (r = RoleOwner \<or> Allows g sc) \<and> (rid = None \<or> Allows l sc)"
    "token_create env nid rnd name granted expiresAt cidr (Some adminID) rid s = (Inr (t, plaintext), s')"
proof -
  define chk where "chk = ebind (issuer_target seen adminID target) (\<lambda>(r, issuerGrants, rid).
             if ValidateScopes granted \<noteq> Inr () then E CodeInvalidRequest
             else ebind (mint_ceiling seen r rid granted) (\<lambda>resellerGrants.
               if list_ex (\<lambda>sc. Allows granted sc \<and>
                    ((r \<noteq> RoleOwner \<and> \<not> Allows issuerGrants sc) \<or> (rid \<noteq> None \<and> \<not> Allows resellerGrants sc))) AllScopes
               then E CodeForbidden else Inr rid))"
  from assms obtain rid where c: "chk = Inr rid"
    and t: "token_create env nid rnd name granted expiresAt cidr (Some adminID) rid s = (Inr (t, plaintext), s')"
    unfolding CreateForAdmin_def chk_def[symmetric] by (auto split: sum.splits)
  from c obtain r g l where p: "issuer_target seen adminID target = Inr (r, g, rid)" "mint_ceiling seen r rid granted = Inr l"
    "\<not> list_ex (\<lambda>sc. Allows granted sc \<and> ((r \<noteq> RoleOwner \<and> \<not> Allows g sc) \<or> (rid \<noteq> None \<and> \<not> Allows l sc))) AllScopes"
    unfolding chk_def by (auto simp: ebind_Inr_iff split: if_splits)
  have "\<forall>sc. Allows granted sc \<longrightarrow> (r = RoleOwner \<or> Allows g sc) \<and> (rid = None \<or> Allows l sc)"
    using p(3) Allows_registered[of granted] by (auto simp: list_ex_iff)
  with p(1,2) t show thesis using that by blast
qed

text \<open>
  C10. A token minted for an account through \<open>CreateForAdmin\<close> verifies at once and until it expires from every
  allowed source, and it authorizes exactly the scopes that were requested; it carries the owner's
  node-wide authority exactly when the owner issued it for no reseller.
\<close>

theorem minted_token_exact:
  assumes mint: "CreateForAdmin env nid rnd s adminID target name granted expiresAt cidr s = (Inr (t, plaintext), s')"
    and len: "length rnd = 43"
    and fresh: "case expiresAt of None \<Rightarrow> True | Some exp \<Rightarrow> now \<le> exp"
    and src: "source_allowed remoteIP cidr"
  shows "\<exists>v s''. Verify (env\<lparr>ae_now := now\<rparr>) plaintext remoteIP s' = (Inr v, s'')
      \<and> (\<forall>sc. Authorize v sc \<longleftrightarrow> Allows granted sc)
      \<and> (NodeOwnerAuthority v \<longleftrightarrow> target = None \<and> (\<exists>a. find_row ad_id adminID (au_admins s) = Some a \<and> ad_role a = RoleOwner))"
proof -
  from mint obtain r g rid l where it: "issuer_target s adminID target = Inr (r, g, rid)"
    and mc: "mint_ceiling s r rid granted = Inr l"
    and ok: "\<forall>sc. Allows granted sc \<longrightarrow> (r = RoleOwner \<or> Allows g sc) \<and> (rid = None \<or> Allows l sc)"
    and tc: "token_create env nid rnd name granted expiresAt cidr (Some adminID) rid s = (Inr (t, plaintext), s')"
    by (rule CreateForAdmin_Inr)
  define row where "row = \<lparr>tk_id = nid, tk_name = name, tk_prefix = take 11 plaintext, tk_hash = ae_sha env plaintext,
            tk_scopes = TextList granted, tk_expires = expiresAt, tk_enabled = True, tk_cidr = cidr,
            tk_last_used = None, tk_created = ae_now env, tk_reseller = rid, tk_issuer = Some adminID\<rparr>"
  have c: "ValidateScopes granted = Inr ()" "plaintext = token_scheme @ rnd"
      "take 11 plaintext \<notin> tk_prefix ` set (au_tokens s)" "s' = s\<lparr>au_tokens := au_tokens s @ [row]\<rparr>"
    using token_create_Inr[OF tc] unfolding row_def by blast+
  from it obtain a where a: "find_row ad_id adminID (au_admins s) = Some a" "ad_enabled a"
    "unmarshal (ad_permissions a) = Some g" "r = ad_role a" "role_valid r"
    "ad_reseller a \<noteq> None \<longrightarrow> r \<noteq> RoleOwner \<and> rid = ad_reseller a \<and> (target = None \<or> target = rid)"
    "ad_reseller a = None \<longrightarrow> rid = target \<and> (target = None \<or> r = RoleOwner)"
    by (auto simp: issuer_target_Inr)
  have found: "find_row tk_prefix (take 11 plaintext) (au_tokens s') = Some row"
  proof -
    have "find_row tk_prefix (take 11 plaintext) (au_tokens s) = None" using c(3) by (simp add: find_row_None_iff)
    then show ?thesis by (simp add: c(4) find_row_append find_row_Cons row_def)
  qed
  have ic: "issuer_ceiling s' (token_of_row row granted) = Inr (Some (r, g))"
    using a by (auto simp: issuer_ceiling_Inr token_of_row_def row_def c(4))
  have rc: "(case rid of None \<Rightarrow> Inr [] | Some i \<Rightarrow> reseller_ceiling s' i) = Inr l"
    and gr: "rid \<noteq> None \<Longrightarrow> ValidResellerGrants granted"
    using mc by (auto simp: mint_ceiling_def ebind_Inr_iff c(4) reseller_ceiling_def split: option.splits if_splits)
  define v where "v = (token_of_row row granted)\<lparr>
         to_scopes := filter (\<lambda>sc. \<not> (\<not> Allows granted sc \<or> (r \<noteq> RoleOwner \<and> \<not> Allows g sc)
           \<or> (rid \<noteq> None \<and> (\<not> ResellerGrantable sc \<or> \<not> Allows l sc)))) AllScopes,
         to_owner_authority := (r = RoleOwner)\<rparr>"
  have ap: "applyPrincipalCeiling s' (token_of_row row granted) = Inr v"
    using ic rc by (simp add: applyPrincipalCeiling_def v_def) (simp add: token_of_row_def row_def)
  have vr: "verify_row (env\<lparr>ae_now := now\<rparr>) plaintext remoteIP s' row = Inr v"
    unfolding verify_row_Inr using ap src fresh c(1)
    by (auto simp: row_def unexpired_def v_def token_of_row_def source_allowed_def split: option.splits)
  have "\<exists>s''. Verify (env\<lparr>ae_now := now\<rparr>) plaintext remoteIP s' = (Inr v, s'')"
    using found vr len unfolding Verify_Inr c(2) by (simp add: token_scheme_def)
  moreover have "Authorize v sc \<longleftrightarrow> Allows granted sc" for sc
    using ok[rule_format, of sc] gr reseller_grants_grantable[of granted sc]
    by (auto simp: Authorize_def v_def Allows_listed dest: Allows_registered)
  moreover have "NodeOwnerAuthority v \<longleftrightarrow> target = None \<and> r = RoleOwner"
    using a(6,7) by (cases "ad_reseller a") (auto simp: NodeOwnerAuthority_def v_def token_of_row_def row_def)
  ultimately show ?thesis using a(1,4) by auto
qed

section \<open>Cutting a token off\<close>

lemma verified_token_issuer:
  assumes "access_keys s" "Verify env plaintext remoteIP s = (Inr t, s')"
  shows "\<exists>r \<in> set (au_tokens s). tk_prefix r = take 11 plaintext \<and> to_issuer t = tk_issuer r \<and> to_reseller t = tk_reseller r"
proof -
  obtain r l where r: "find_row tk_prefix (take 11 plaintext) (au_tokens s) = Some r"
    and v: "applyPrincipalCeiling s (token_of_row r l) = Inr t"
    using assms(2) by (auto simp: Verify_Inr verify_row_Inr)
  have "to_issuer t = tk_issuer r" "to_reseller t = tk_reseller r"
    by (subst applyPrincipalCeiling_Inr(3)[OF v assms(1)], simp add: token_of_row_def)+
  then show ?thesis using find_row_Some[OF r] by auto
qed

lemma Verify_same_tokens_error:
  assumes "Verify env plaintext remoteIP s = (Inr t, s1)" "access_keys s"
    and row: "\<And>r. r \<in> set (au_tokens s) \<Longrightarrow> tk_id r = to_id t \<Longrightarrow> tk_reseller r = to_reseller t \<Longrightarrow> tk_issuer r = to_issuer t \<Longrightarrow>
       find_row tk_prefix (tk_prefix r) (au_tokens s2) = Some (col r) \<and> tk_hash (col r) = tk_hash r
       \<and> tk_scopes (col r) = tk_scopes r \<and>
       (\<not> tk_enabled (col r) \<or> (\<forall>l. applyPrincipalCeiling s2 (token_of_row (col r) l) = E CodeForbidden))"
  shows "Verify (env\<lparr>ae_now := now\<rparr>) plaintext ip2 s2 = (E CodeForbidden, s2)"
proof -
  obtain r l where r: "take 3 plaintext = token_scheme" "length plaintext = 46"
      "find_row tk_prefix (take 11 plaintext) (au_tokens s) = Some r"
    and v: "tk_hash r = ae_sha env plaintext" "unmarshal (tk_scopes r) = Some l"
      "applyPrincipalCeiling s (token_of_row r (if ValidateScopes l = Inr () then l else [])) = Inr t"
    using assms(1) by (auto simp: Verify_Inr verify_row_Inr)
  have t: "to_id t = tk_id r" "to_reseller t = tk_reseller r" "to_issuer t = tk_issuer r"
    by (subst applyPrincipalCeiling_Inr(3)[OF v(3) assms(2)], simp add: token_of_row_def)+
  have rin: "r \<in> set (au_tokens s)" "tk_prefix r = take 11 plaintext" using find_row_Some[OF r(3)] by auto
  from row[OF rin(1)] t rin(2) have c: "find_row tk_prefix (take 11 plaintext) (au_tokens s2) = Some (col r)"
    "tk_hash (col r) = ae_sha env plaintext" "unmarshal (tk_scopes (col r)) = Some l"
    "\<not> tk_enabled (col r) \<or> (\<forall>l. applyPrincipalCeiling s2 (token_of_row (col r) l) = E CodeForbidden)"
    using v by auto
  have "verify_row (env\<lparr>ae_now := now\<rparr>) plaintext ip2 s2 (col r) = E CodeForbidden"
    using c by (auto simp: verify_row_def split: option.splits)
  then show ?thesis using r c(1) unfolding Verify_def by simp
qed


section \<open>Deleting the issuer\<close>

lemma verify_no_issuer:
  assumes "tk_issuer r = None" "tk_reseller r = None" "tk_enabled r" "unexpired (ae_now env) r"
    "tk_hash r = ae_sha env plaintext" "source_allowed remoteIP (tk_cidr r)"
    "unmarshal (tk_scopes r) = Some l" "ValidateScopes l = Inr ()"
  shows "\<exists>v. verify_row env plaintext remoteIP s r = Inr v \<and> NodeOwnerAuthority v \<and> (\<forall>sc. Authorize v sc \<longleftrightarrow> Allows l sc)"
proof -
  define v where "v = (token_of_row r l)\<lparr>to_scopes := filter (\<lambda>sc. Allows l sc) AllScopes, to_owner_authority := True\<rparr>"
  have "applyPrincipalCeiling s (token_of_row r l) = Inr v"
    using assms(1,2) by (simp add: applyPrincipalCeiling_def issuer_ceiling_def token_of_row_def v_def)
  then have "verify_row env plaintext remoteIP s r = Inr v"
    unfolding verify_row_Inr using assms by (auto simp: v_def token_of_row_def source_allowed_def)
  moreover have "Authorize v sc \<longleftrightarrow> Allows l sc" for sc
    by (auto simp: Authorize_def v_def Allows_listed dest: Allows_registered)
  moreover have "NodeOwnerAuthority v" using assms(2) by (simp add: NodeOwnerAuthority_def v_def token_of_row_def)
  ultimately show ?thesis by blast
qed

text \<open>
  C13. Deleting an account does not cut off the node-wide tokens it issued but raises them: the schema
  clears their issuer, so that the next verification takes them for tokens of the host's own command
  line. A token of an account that was no owner, and that carried no owner authority or was even refused
  because the account was disabled, then verifies with the owner's node-wide authority and with every
  scope on its list, whatever the account itself was still granted.
\<close>

theorem deleted_issuer_elevates:
  assumes keys: "access_keys s"
    and a: "a \<in> set (au_admins s)" "ad_role a = RoleAdmin"
    and r: "r \<in> set (au_tokens s)" "tk_issuer r = Some (ad_id a)" "tk_reseller r = None" "tk_enabled r"
      "unexpired (ae_now env) r" "unmarshal (tk_scopes r) = Some l" "ValidateScopes l = Inr ()"
    and p: "take 3 plaintext = token_scheme" "length plaintext = 46" "tk_prefix r = take 11 plaintext"
      "tk_hash r = ae_sha env plaintext" "source_allowed remoteIP (tk_cidr r)"
  shows "(\<exists>s' v s''. admin_delete s (ad_id a) s = (Inr (), s') \<and> Verify env plaintext remoteIP s' = (Inr v, s'')
        \<and> NodeOwnerAuthority v \<and> (\<forall>sc. Authorize v sc \<longleftrightarrow> Allows l sc))
    \<and> (\<forall>v s''. Verify env plaintext remoteIP s = (Inr v, s'') \<longrightarrow> \<not> NodeOwnerAuthority v)
    \<and> (\<not> ad_enabled a \<longrightarrow> Verify env plaintext remoteIP s = (E CodeForbidden, s))"
proof -
  let ?col = "\<lambda>x :: token_row. x\<lparr>tk_issuer := None\<rparr>"
  let ?P = "\<lambda>x. tk_issuer x = Some (ad_id a)"
  have u: "unique_on ad_id (au_admins s)" "unique_on tk_prefix (au_tokens s)" using keys by (simp_all add: access_keys_def)
  have fa: "find_row ad_id (ad_id a) (au_admins s) = Some a" by (rule find_row_unique[OF u(1) a(1)])
  have fr: "find_row tk_prefix (take 11 plaintext) (au_tokens s) = Some r"
    using find_row_unique[OF u(2) r(1)] p(3) by simp
  define s' where "s' = RevokeAllForAdmin (ad_id a) (admin_remove (ad_id a) s)"
  have del: "admin_delete s (ad_id a) s = (Inr (), s')"
    using fa a(2) by (simp add: admin_delete_def admin_get_def admin_of_def s'_def)
  have t': "au_tokens s' = update_rows ?P ?col (au_tokens s)"
    using a(1) by (simp add: s'_def RevokeAllForAdmin_def admin_remove_def)
  have "row_update tk_prefix ?col" by unfold_locales simp
  from row_update.find_update[OF this, of "take 11 plaintext" ?P "au_tokens s"]
  have fr': "find_row tk_prefix (take 11 plaintext) (au_tokens s') = Some (?col r)"
    using fr r(2) by (simp add: t')
  obtain v where v: "verify_row env plaintext remoteIP s' (?col r) = Inr v" "NodeOwnerAuthority v"
    "\<forall>sc. Authorize v sc \<longleftrightarrow> Allows l sc"
    using verify_no_issuer[of "?col r" env plaintext remoteIP l s'] r p by (auto simp: unexpired_def)
  have "\<exists>s''. Verify env plaintext remoteIP s' = (Inr v, s'')"
    using fr' v(1) p(1,2) by (simp add: Verify_Inr)
  moreover have "\<not> NodeOwnerAuthority w" if w: "Verify env plaintext remoteIP s = (Inr w, s'')" for w s''
  proof -
    from w obtain l' where "applyPrincipalCeiling s (token_of_row r l') = Inr w"
      using fr by (auto simp: Verify_Inr verify_row_Inr)
    from applyPrincipalCeiling_Inr(2)[OF this keys] show ?thesis
      using r(2,3) a(2) bex_find_row[OF fa u(1)] by (auto simp: NodeOwnerAuthority_def owner_token_def)
  qed
  moreover have "Verify env plaintext remoteIP s = (E CodeForbidden, s)" if "\<not> ad_enabled a"
  proof -
    have "applyPrincipalCeiling s (token_of_row r k) = E CodeForbidden" for k
      using that fa r(2) by (simp add: applyPrincipalCeiling_def issuer_ceiling_def token_of_row_def)
    then have "verify_row env plaintext remoteIP s r = E CodeForbidden"
      using r p by (auto simp: verify_row_def unexpired_def split: option.splits)
    then show ?thesis using fr p(1,2) by (simp add: Verify_def)
  qed
  ultimately show ?thesis using del v(2,3) by blast
qed

section \<open>An example node\<close>

definition demo_env :: access_env where
  "demo_env = \<lparr>ae_now = 0, ae_idle = 1800000000000, ae_absolute = 43200000000000, ae_sha = (\<lambda>t. t),
     ae_phc = (\<lambda>p salt. p), ae_verify = (\<lambda>p h. Some (p = h))\<rparr>"

definition demo_admin :: "string \<Rightarrow> role \<Rightarrow> string list \<Rightarrow> string option \<Rightarrow> admin_row" where
  "demo_admin i r g t = \<lparr>ad_id = i, ad_username = i, ad_hash = ''correct horse'', ad_role = r,
     ad_permissions = TextList g, ad_enabled = True, ad_created = 0, ad_updated = 0, ad_reseller = t,
     ad_locale = ''fa'', ad_preset = [], ad_digits = []\<rparr>"

definition demo_plain :: string where
  "demo_plain = token_scheme @ replicate 43 CHR ''x''"

definition demo_token :: token_row where
  "demo_token = \<lparr>tk_id = ''t1'', tk_name = ''bot'', tk_prefix = take 11 demo_plain, tk_hash = demo_plain,
     tk_scopes = TextList [''users.*'', ''node.read''], tk_expires = None, tk_enabled = True, tk_cidr = [], tk_last_used = None,
     tk_created = 0, tk_reseller = None, tk_issuer = Some ''helper''\<rparr>"

definition demo_access :: access_db where
  "demo_access = \<lparr>au_admins = [demo_admin ''root1'' RoleOwner [] None,
       demo_admin ''helper'' RoleAdmin [''users.read'', ''api_tokens.manage''] None,
       demo_admin ''tenant'' RoleAdmin [''users.read'', ''api_tokens.manage''] (Some ''r1'')],
     au_resellers = [\<lparr>rs_id = ''r1'', rs_slug = ''shop'', rs_display = [], rs_permissions = TextList [''api_tokens.manage'', ''users.read''],
       rs_enabled = True, rs_created = 0, rs_updated = 0\<rparr>],
     au_sessions = [], au_tokens = [demo_token], au_templates = [], au_assigned = []\<rparr>"

lemma demo_keys: "access_keys demo_access"
  by (simp add: access_keys_def demo_access_def unique_on_def demo_admin_def)

lemma demo_verify: "case fst (Verify demo_env demo_plain [] demo_access) of Inl _ \<Rightarrow> False | Inr t \<Rightarrow> to_id t = ''t1''"
  by code_simp

lemma demo_scopes: "ValidateScopes [''users.*'', ''node.read''] = Inr ()" "Allows [''users.*'', ''node.read''] ''users.delete''"
  "\<not> Allows [''users.*'', ''node.read''] ''node.settings''"
  by code_simp+

section \<open>Witnesses\<close>

text \<open>The tokens of the example node: the helper's token has two of its listed rights, the third is beyond its issuer.\<close>

theorem verified_token_exact_witness:
  "\<exists>t s'. Verify demo_env demo_plain [] demo_access = (Inr t, s') \<and> Authorize t ''users.read''
     \<and> \<not> Authorize t ''users.delete'' \<and> \<not> NodeOwnerAuthority t"
proof -
  obtain t s' where v: "Verify demo_env demo_plain [] demo_access = (Inr t, s')"
    using demo_verify by (cases "Verify demo_env demo_plain [] demo_access") (auto split: sum.splits)
  from verified_token_exact[OF demo_keys v]
  have "\<forall>sc. Authorize t sc \<longleftrightarrow> token_grants demo_access demo_token sc"
    and "NodeOwnerAuthority t \<longleftrightarrow> owner_token demo_access demo_token"
    by (auto simp: demo_access_def)
  moreover have "token_grants demo_access demo_token ''users.read''"
  proof -
    have "Allows [''users.*'', ''node.read''] ''users.read''" "Allows [''users.read'', ''api_tokens.manage''] ''users.read''"
      "''users.read'' \<in> set scopes" by code_simp+
    then show ?thesis using demo_scopes(1)
      by (simp add: token_grants_def issuer_grants_def reseller_grants_def demo_access_def demo_token_def demo_admin_def)
  qed
  moreover have "\<not> token_grants demo_access demo_token ''users.delete''"
  proof -
    have "\<not> Allows [''users.read'', ''api_tokens.manage''] ''users.delete''" by code_simp
    then show ?thesis
      by (simp add: token_grants_def issuer_grants_def demo_access_def demo_token_def demo_admin_def)
  qed
  moreover have "\<not> owner_token demo_access demo_token"
    by (simp add: owner_token_def demo_access_def demo_token_def demo_admin_def)
  ultimately show ?thesis using v by blast
qed

theorem minted_token_exact_witness:
  "\<exists>t plaintext s' v s''.
     CreateForAdmin demo_env ''t2'' (replicate 43 CHR ''y'') demo_access ''tenant'' None ''bot'' [''users.read''] (Some 60) [] demo_access
       = (Inr (t, plaintext), s')
     \<and> Verify (demo_env\<lparr>ae_now := 60\<rparr>) plaintext [] s' = (Inr v, s'') \<and> Authorize v ''users.read'' \<and> \<not> NodeOwnerAuthority v"
proof -
  let ?c = "CreateForAdmin demo_env ''t2'' (replicate 43 CHR ''y'') demo_access ''tenant'' None ''bot'' [''users.read''] (Some 60) [] demo_access"
  have "case fst ?c of Inl _ \<Rightarrow> False | Inr (t, p) \<Rightarrow> to_reseller t = Some ''r1''" by code_simp
  then obtain t p s' where m: "?c = (Inr (t, p), s')"
    by (cases ?c) (auto split: sum.splits)
  have "Allows [''users.read''] ''users.read''" by code_simp
  moreover have "source_allowed [] []" by (simp add: source_allowed_def splitCIDR_def)
  moreover have "find_row ad_id ''tenant'' (au_admins demo_access) = Some (demo_admin ''tenant'' RoleAdmin [''users.read'', ''api_tokens.manage''] (Some ''r1''))"
    by (simp add: demo_access_def find_row_Cons demo_admin_def)
  ultimately show ?thesis
    using minted_token_exact[OF m, of 60 "[]"] m by (auto simp: demo_admin_def)
qed


theorem deleted_issuer_elevates_witness:
  "\<exists>s' v s''. admin_delete demo_access ''helper'' demo_access = (Inr (), s')
     \<and> Verify demo_env demo_plain [] s' = (Inr v, s'') \<and> NodeOwnerAuthority v \<and> Authorize v ''users.delete''"
proof -
  let ?a = "demo_admin ''helper'' RoleAdmin [''users.read'', ''api_tokens.manage''] None"
  have "\<exists>s' v s''. admin_delete demo_access (ad_id ?a) demo_access = (Inr (), s')
     \<and> Verify demo_env demo_plain [] s' = (Inr v, s'') \<and> NodeOwnerAuthority v
     \<and> (\<forall>sc. Authorize v sc \<longleftrightarrow> Allows [''users.*'', ''node.read''] sc)"
    by (rule deleted_issuer_elevates[THEN conjunct1, of demo_access ?a demo_token])
      (use demo_keys demo_scopes in \<open>simp_all add: demo_access_def demo_token_def demo_admin_def demo_env_def
          demo_plain_def unexpired_def source_allowed_def splitCIDR_def token_scheme_def\<close>)
  then show ?thesis using demo_scopes(2) by (auto simp: demo_admin_def)
qed

end
