(* ===== verification/Logins.thy ===== *)
theory Logins
  imports Tokens
begin

text \<open>
  Logins and sessions: what a session token resolves to, which requests end the sessions of an
  account, and the way from a new account through its first login to a session.
\<close>

section \<open>Sessions and logins\<close>

definition resellers_ok :: "access_db \<Rightarrow> bool" where
  "resellers_ok s \<longleftrightarrow> (\<forall>r \<in> set (au_resellers s). \<exists>l. rs_permissions r = TextList l \<and> ValidResellerGrants l)"

lemma tenant_grants_Inr:
  "tenant_grants s r perms rid = Inr ps \<longleftrightarrow>
     (\<exists>rr ceil. find_row rs_id rid (au_resellers s) = Some rr \<and> r \<noteq> RoleOwner \<and> rs_enabled rr
        \<and> unmarshal (rs_permissions rr) = Some ceil \<and> ValidResellerGrants ceil
        \<and> ps = filter (\<lambda>sc. Allows perms sc \<and> Allows ceil sc) ResellerScopes)"
  by (auto simp: tenant_grants_def split: option.splits if_splits)

lemma session_account_Inr:
  "session_account s a = Inr acct \<longleftrightarrow>
     ad_enabled a \<and> (unmarshal (ad_permissions a) \<noteq> None \<or> ad_permissions a = TextEmpty)
     \<and> (\<exists>ps. (case ad_reseller a of None \<Rightarrow> ps = unmarshal_lax (ad_permissions a)
           | Some rid \<Rightarrow> tenant_grants s (ad_role a) (unmarshal_lax (ad_permissions a)) rid = Inr ps)
         \<and> acct = \<lparr>ac_id = ad_id a, ac_username = ad_username a, ac_role = ad_role a,
                 ac_permissions = ps, ac_reseller = ad_reseller a, ac_locale = ad_locale a,
                 ac_preset = ad_preset a, ac_digits = ad_digits a\<rparr>)"
  by (auto simp: session_account_def ebind_Inr_iff split: option.splits)

lemma session_validate_Inr:
  "session_validate env tok s = (Inr acct, s') \<longleftrightarrow>
     (\<exists>r a. find_row sn_hash (ae_sha env tok) (au_sessions s) = Some r
        \<and> find_row ad_id (sn_admin r) (au_admins s) = Some a \<and> ae_now env \<le> sn_expires r
        \<and> time_sub (ae_now env) (sn_last_seen r) \<le> ae_idle env \<and> session_account s a = Inr acct
        \<and> s' = (if minute < time_sub (ae_now env) (sn_last_seen r)
                then s\<lparr>au_sessions := update_rows (\<lambda>x. sn_hash x = ae_sha env tok) (\<lambda>x. x\<lparr>sn_last_seen := ae_now env\<rparr>) (au_sessions s)\<rparr>
                else s))"
  unfolding session_validate_def Let_def
  by (cases "find_row sn_hash (ae_sha env tok) (au_sessions s)") (auto split: option.splits sum.splits if_splits)

text \<open>
  C11. A session token resolves to an account only through a stored session that has passed neither its
  absolute expiry nor its idle limit, of an enabled account; a tenant account resolves only while its
  reseller is enabled and then holds exactly the grantable scopes that both the account and the
  reseller's current ceiling grant. Validation never moves the expiry.
\<close>

theorem session_exact:
  assumes "access_keys s" "session_validate env tok s = (Inr acct, s')"
  shows "\<exists>r \<in> set (au_sessions s). \<exists>a \<in> set (au_admins s).
       sn_hash r = ae_sha env tok \<and> sn_admin r = ad_id a \<and> ae_now env \<le> sn_expires r
       \<and> time_sub (ae_now env) (sn_last_seen r) \<le> ae_idle env \<and> ad_enabled a
       \<and> ac_id acct = ad_id a \<and> ac_role acct = ad_role a \<and> ac_reseller acct = ad_reseller a
       \<and> (case ad_reseller a of
            None \<Rightarrow> ac_permissions acct = unmarshal_lax (ad_permissions a)
          | Some rid \<Rightarrow> ad_role a \<noteq> RoleOwner \<and> (\<exists>rr \<in> set (au_resellers s). \<exists>ceil. rs_id rr = rid \<and> rs_enabled rr
              \<and> unmarshal (rs_permissions rr) = Some ceil
              \<and> (\<forall>sc. Allows (ac_permissions acct) sc \<longleftrightarrow>
                    ResellerGrantable sc \<and> sc \<in> set ceil \<and> Allows (unmarshal_lax (ad_permissions a)) sc)))
       \<and> map sn_expires (au_sessions s') = map sn_expires (au_sessions s) \<and> au_admins s' = au_admins s"
proof -
  obtain r a where r: "find_row sn_hash (ae_sha env tok) (au_sessions s) = Some r"
    and a: "find_row ad_id (sn_admin r) (au_admins s) = Some a"
    and t: "ae_now env \<le> sn_expires r" "time_sub (ae_now env) (sn_last_seen r) \<le> ae_idle env"
    and acct: "session_account s a = Inr acct"
    and s': "s' = (if minute < time_sub (ae_now env) (sn_last_seen r)
                then s\<lparr>au_sessions := update_rows (\<lambda>x. sn_hash x = ae_sha env tok) (\<lambda>x. x\<lparr>sn_last_seen := ae_now env\<rparr>) (au_sessions s)\<rparr>
                else s)"
    using assms(2) by (auto simp: session_validate_Inr)
  obtain ps where ps: "ad_enabled a"
      "case ad_reseller a of None \<Rightarrow> ps = unmarshal_lax (ad_permissions a)
       | Some rid \<Rightarrow> tenant_grants s (ad_role a) (unmarshal_lax (ad_permissions a)) rid = Inr ps"
    and f: "ac_id acct = ad_id a" "ac_role acct = ad_role a" "ac_reseller acct = ad_reseller a" "ac_permissions acct = ps"
    using acct by (auto simp: session_account_Inr)
  have tenant: "case ad_reseller a of
            None \<Rightarrow> ac_permissions acct = unmarshal_lax (ad_permissions a)
          | Some rid \<Rightarrow> ad_role a \<noteq> RoleOwner \<and> (\<exists>rr \<in> set (au_resellers s). \<exists>ceil. rs_id rr = rid \<and> rs_enabled rr
              \<and> unmarshal (rs_permissions rr) = Some ceil
              \<and> (\<forall>sc. Allows (ac_permissions acct) sc \<longleftrightarrow>
                    ResellerGrantable sc \<and> sc \<in> set ceil \<and> Allows (unmarshal_lax (ad_permissions a)) sc))"
  proof (cases "ad_reseller a")
    case None
    then show ?thesis using ps(2) f(4) by simp
  next
    case (Some rid)
    with ps(2) obtain rr ceil where c: "find_row rs_id rid (au_resellers s) = Some rr" "ad_role a \<noteq> RoleOwner" "rs_enabled rr"
        "unmarshal (rs_permissions rr) = Some ceil" "ValidResellerGrants ceil"
        "ps = filter (\<lambda>sc. Allows (unmarshal_lax (ad_permissions a)) sc \<and> Allows ceil sc) ResellerScopes"
      by (auto simp: tenant_grants_Inr)
    have "Allows ps sc \<longleftrightarrow> ResellerGrantable sc \<and> sc \<in> set ceil \<and> Allows (unmarshal_lax (ad_permissions a)) sc" for sc
      using c(5) by (auto simp: c(6) Allows_listed_reseller reseller_grants_exact)
    with Some c f(4) find_row_Some[OF c(1)] show ?thesis by auto
  qed
  have "map sn_expires (au_sessions s') = map sn_expires (au_sessions s)" "au_admins s' = au_admins s"
    by (simp_all add: s' update_rows_def)
  moreover have "r \<in> set (au_sessions s)" "a \<in> set (au_admins s)" "sn_hash r = ae_sha env tok" "sn_admin r = ad_id a"
    using find_row_Some[OF r] find_row_Some[OF a] by auto
  ultimately show ?thesis
    by (intro bexI[of _ r] bexI[of _ a] conjI t ps(1) f(1-3) tenant)
qed

text \<open>
  Changing an account's password, disabling it or deleting it logs it out everywhere: no session
  token resolves to it afterwards. Disabling a reseller does the same for all of its accounts.
\<close>

theorem sessions_cut_off:
  assumes "session_validate env' tok s' = (Inr acct, s'')"
  shows "(SetPassword env salt aid pw s = (Inr (), s') \<or> admin_SetEnabled env seen aid False s = (Inr (), s')
        \<or> admin_delete seen aid s = (Inr (), s') \<longrightarrow> ac_id acct \<noteq> aid)
    \<and> (reseller_SetEnabled env rid False s = (Inr (), s') \<longrightarrow> ac_reseller acct \<noteq> Some rid)"
proof -
  obtain r a where r: "find_row sn_hash (ae_sha env' tok) (au_sessions s') = Some r"
    and a: "find_row ad_id (sn_admin r) (au_admins s') = Some a" and acct: "session_account s' a = Inr acct"
    using assms by (auto simp: session_validate_Inr)
  have id: "ac_id acct = sn_admin r" "ac_reseller acct = ad_reseller a"
    using acct find_row_Some[OF a] by (auto simp: session_account_Inr)
  have "ac_reseller acct \<noteq> Some rid" if "reseller_SetEnabled env rid False s = (Inr (), s')"
  proof -
    have "au_resellers s' = update_rows (\<lambda>r. rs_id r = rid) (\<lambda>r. r\<lparr>rs_enabled := False, rs_updated := ae_now env\<rparr>) (au_resellers s)"
      using that by (auto simp: reseller_SetEnabled_def reseller_update_def split: if_splits)
    then have "find_row rs_id rid (au_resellers s') = map_option (\<lambda>r. r\<lparr>rs_enabled := False, rs_updated := ae_now env\<rparr>) (find_row rs_id rid (au_resellers s))"
      by (simp add: find_update_column)
    then have "tenant_grants s' x y rid \<noteq> Inr z" for x y z
      by (cases "find_row rs_id rid (au_resellers s)") (auto simp: tenant_grants_Inr)
    with acct id(2) show ?thesis by (auto simp: session_account_Inr split: option.splits)
  qed
  moreover have "ac_id acct \<noteq> aid" if "SetPassword env salt aid pw s = (Inr (), s') \<or> admin_SetEnabled env seen aid False s = (Inr (), s')
        \<or> admin_delete seen aid s = (Inr (), s')"
  proof -
    have "\<exists>u. s' = RevokeAllForAdmin aid u"
      using that admin_disable_Inr(1)[of env seen aid s s']
      by (auto simp: SetPassword_def admin_update_found_def admin_delete_def split: sum.splits if_splits)
    then have "r \<in> set (au_sessions s') \<Longrightarrow> sn_admin r \<noteq> aid" by (auto simp: RevokeAllForAdmin_def)
    with id(1) find_row_Some[OF r] show ?thesis by auto
  qed
  ultimately show ?thesis by blast
qed

lemma admin_create_Inr:
  assumes "admin_create env nid salt seen username password r permissions rid s = (Inr a, s')"
  obtains perms where "admin_create_checks seen username r permissions rid = Inr perms"
    "HashPassword env salt password = Inr (ae_phc env password salt)"
    "admin_insert \<lparr>ad_id = nid, ad_username = username, ad_hash = ae_phc env password salt, ad_role = r,
            ad_permissions = TextList perms, ad_enabled = True, ad_created = ae_now env,
            ad_updated = ae_now env, ad_reseller = rid, ad_locale = ''fa'', ad_preset = [], ad_digits = []\<rparr> s = (Inr a, s')"
proof -
  obtain perms hash where p: "admin_create_checks seen username r permissions rid = Inr perms"
    "HashPassword env salt password = Inr hash"
    "admin_insert \<lparr>ad_id = nid, ad_username = username, ad_hash = hash, ad_role = r,
            ad_permissions = TextList perms, ad_enabled = True, ad_created = ae_now env,
            ad_updated = ae_now env, ad_reseller = rid, ad_locale = ''fa'', ad_preset = [], ad_digits = []\<rparr> s = (Inr a, s')"
    using assms unfolding admin_create_def
    by (cases "admin_create_checks seen username r permissions rid"; cases "HashPassword env salt password") auto
  have "hash = ae_phc env password salt" using p(2) by (auto simp: HashPassword_def ebind_Inr_iff)
  with p that show thesis by blast
qed

lemma admin_insert_Inr:
  "admin_insert row s = (Inr a, s') \<longleftrightarrow>
     (ad_role row = RoleOwner \<longrightarrow> \<not> HasOwner s)
     \<and> (\<forall>i. ad_reseller row = Some i \<longrightarrow> (\<exists>r \<in> set (au_resellers s). rs_id r = i \<and> rs_enabled r))
     \<and> ad_username row \<notin> ad_username ` set (au_admins s) \<and> ad_id row \<notin> ad_id ` set (au_admins s)
     \<and> a = admin_of row \<and> s' = s\<lparr>au_admins := au_admins s @ [row]\<rparr>"
  by (auto simp: admin_insert_def list_ex_iff split: if_splits option.splits)

lemma admin_create_checks_Inr:
  "admin_create_checks seen username r permissions rid = Inr perms \<longleftrightarrow>
     (if r = RoleOwner then rid = None \<and> \<not> HasOwner seen \<and> perms = []
      else r = RoleAdmin \<and> ValidateScopes permissions = Inr () \<and> perms = permissions
        \<and> (\<forall>i. rid = Some i \<longrightarrow> validateResellerGrants seen i permissions = Inr ()))
     \<and> ValidateUsername username = Inr ()"
  by (cases r; cases rid) (auto simp: admin_create_checks_def ebind_Inr_iff split: sum.splits)

lemma validateResellerGrants_Inr:
  "validateResellerGrants s rid permissions = Inr () \<longleftrightarrow>
     list_all ResellerGrantable permissions \<and>
     (\<exists>r l. find_row rs_id rid (au_resellers s) = Some r \<and> unmarshal (rs_permissions r) = Some l \<and> rs_enabled r
        \<and> (\<forall>p \<in> set permissions. Allows l p))"
  by (auto simp: validateResellerGrants_def ValidatePermissions_def reseller_get_def ebind_Inr_iff list_ex_iff
      split: option.splits if_splits)

text \<open>
  A new account can log in with the password it was created with, and the session it is then
  given resolves to it until the session is idle for too long or expires, with exactly the
  permissions the account was created with (a tenant's are within its reseller's ceiling already).
  The hypothesis on the password digest is what argon2id promises: the digest of a password verifies it.
\<close>

theorem login_roundtrip:
  assumes create: "admin_create env nid salt s username password r permissions rid s = (Inr a, s1)"
    and ok: "resellers_ok s" "access_keys s"
    and argon: "ae_verify env password (ae_phc env password salt) = Some True"
    and login: "session_create env sid tok nid ip s1 = (Inr (tok', exp), s2)"
    and times: "now \<le> ae_now env + ae_absolute env" "time_sub now (ae_now env) \<le> ae_idle env"
  shows "Authenticate env s1 username password = Inr a \<and> tok' = tok \<and> exp = ae_now env + ae_absolute env
     \<and> (\<exists>acct s3. session_validate (env\<lparr>ae_now := now\<rparr>) tok s2 = (Inr acct, s3) \<and> ac_id acct = nid \<and> ac_reseller acct = rid
          \<and> (\<forall>sc. Authorized (ac_role acct) (ac_permissions acct) sc \<longleftrightarrow> r = RoleOwner \<or> Allows permissions sc))"
proof -
  from create obtain perms where chk: "admin_create_checks s username r permissions rid = Inr perms"
    and ins: "admin_insert \<lparr>ad_id = nid, ad_username = username, ad_hash = ae_phc env password salt, ad_role = r,
            ad_permissions = TextList perms, ad_enabled = True, ad_created = ae_now env,
            ad_updated = ae_now env, ad_reseller = rid, ad_locale = ''fa'', ad_preset = [], ad_digits = []\<rparr> s = (Inr a, s1)"
    by (rule admin_create_Inr)
  define row where "row = \<lparr>ad_id = nid, ad_username = username, ad_hash = ae_phc env password salt, ad_role = r,
            ad_permissions = TextList perms, ad_enabled = True, ad_created = ae_now env,
            ad_updated = ae_now env, ad_reseller = rid, ad_locale = ''fa'', ad_preset = [], ad_digits = []\<rparr>"
  have i: "\<forall>i. rid = Some i \<longrightarrow> (\<exists>x \<in> set (au_resellers s). rs_id x = i \<and> rs_enabled x)"
      "username \<notin> ad_username ` set (au_admins s)" "nid \<notin> ad_id ` set (au_admins s)"
      "a = admin_of row" "s1 = s\<lparr>au_admins := au_admins s @ [row]\<rparr>"
    using ins unfolding row_def[symmetric] admin_insert_Inr by (simp_all add: row_def)
  have fu: "find_row ad_username username (au_admins s1) = Some row" and fi: "find_row ad_id nid (au_admins s1) = Some row"
    using i(2,3) by (simp_all add: i(5) find_row_append find_row_None_iff[THEN iffD2] find_row_Cons row_def)
  have en: "rs_enabled x" if "rid = Some k" "find_row rs_id k (au_resellers s) = Some x" for k x
    using i(1) that ok(2) bex_find_row[of rs_id k "au_resellers s" x rs_enabled] by (auto simp: access_keys_def)
  have fr: "\<exists>x l. find_row rs_id k (au_resellers s) = Some x \<and> rs_permissions x = TextList l \<and> ValidResellerGrants l
      \<and> rs_enabled x \<and> list_all ResellerGrantable permissions \<and> (\<forall>p \<in> set permissions. Allows l p) \<and> r = RoleAdmin" if k: "rid = Some k" for k
  proof -
    have "r = RoleAdmin" "validateResellerGrants s k permissions = Inr ()"
      using chk k by (auto simp: admin_create_checks_Inr split: if_splits)
    then obtain x l where x: "find_row rs_id k (au_resellers s) = Some x" "unmarshal (rs_permissions x) = Some l"
      "rs_enabled x" "list_all ResellerGrantable permissions" "\<forall>p \<in> set permissions. Allows l p"
      by (auto simp: validateResellerGrants_Inr)
    moreover obtain l' where "rs_permissions x = TextList l'" "ValidResellerGrants l'"
      using ok(1) find_row_Some[OF x(1)] by (auto simp: resellers_ok_def)
    ultimately show ?thesis using \<open>r = RoleAdmin\<close> by auto
  qed
  have auth: "Authenticate env s1 username password = Inr a"
    unfolding Authenticate_def fu using argon en fr by (auto simp: row_def i(4,5) split: option.splits)
  define se where "se = \<lparr>sn_id = sid, sn_admin = nid, sn_hash = ae_sha env tok, sn_created = ae_now env,
          sn_last_seen = ae_now env, sn_expires = ae_now env + ae_absolute env, sn_source = ip\<rparr>"
  have l: "tok' = tok" "exp = ae_now env + ae_absolute env" "ae_sha env tok \<notin> sn_hash ` set (au_sessions s1)"
      "s2 = s1\<lparr>au_sessions := au_sessions s1 @ [se]\<rparr>"
    using login by (auto simp: session_create_def Let_def se_def split: if_splits)
  have fs: "find_row sn_hash (ae_sha env tok) (au_sessions s2) = Some se"
    using l(3) by (simp add: l(4) find_row_append find_row_None_iff[THEN iffD2] find_row_Cons se_def)
  define ps where "ps = (case rid of None \<Rightarrow> perms | Some k \<Rightarrow>
      filter (\<lambda>sc. Allows perms sc \<and> Allows (the (unmarshal (rs_permissions (the (find_row rs_id k (au_resellers s)))))) sc) ResellerScopes)"
  define acct where "acct = \<lparr>ac_id = nid, ac_username = username, ac_role = r, ac_permissions = ps,
      ac_reseller = rid, ac_locale = ''fa'', ac_preset = [], ac_digits = []\<rparr>"
  have sa: "session_account s2 row = Inr acct"
  proof (cases rid)
    case None
    then show ?thesis by (simp add: session_account_Inr row_def acct_def ps_def)
  next
    case (Some k)
    from fr[OF Some] obtain x l where "find_row rs_id k (au_resellers s) = Some x" "rs_permissions x = TextList l"
      "ValidResellerGrants l" "rs_enabled x" "r = RoleAdmin" by auto
    then show ?thesis
      using Some by (auto simp: session_account_Inr tenant_grants_Inr row_def acct_def ps_def l(4) i(5))
  qed
  have "Authorized r ps sc \<longleftrightarrow> r = RoleOwner \<or> Allows permissions sc" for sc
  proof (cases rid)
    case None
    then show ?thesis using chk by (auto simp: Authorized_def ps_def admin_create_checks_Inr split: if_splits)
  next
    case (Some k)
    from fr[OF Some] obtain x l where x: "find_row rs_id k (au_resellers s) = Some x" "rs_permissions x = TextList l"
      "ValidResellerGrants l" "list_all ResellerGrantable permissions" "\<forall>p \<in> set permissions. Allows l p" "r = RoleAdmin" by auto
    have "perms = permissions" using chk x(6) by (simp add: admin_create_checks_Inr)
    then show ?thesis
      using x Some reseller_grants_exact[of permissions sc]
      by (auto simp: Authorized_def ps_def Allows_listed_reseller ValidResellerGrants_def list_all_iff)
  qed
  moreover have "\<exists>s3. session_validate (env\<lparr>ae_now := now\<rparr>) tok s2 = (Inr acct, s3)"
    unfolding session_validate_Inr using fs fi sa times by (simp add: se_def l(4))
  moreover have "ac_id acct = nid" "ac_reseller acct = rid" "ac_role acct = r" "ac_permissions acct = ps" by (simp_all add: acct_def)
  ultimately show ?thesis using auth l(1,2) by auto
qed

section \<open>Witnesses\<close>

theorem login_roundtrip_witness:
  "\<exists>a s1 s2 acct s3. admin_create demo_env ''n1'' ''salt'' demo_access ''clerk'' ''long enough'' RoleAdmin [''users.read''] (Some ''r1'') demo_access = (Inr a, s1)
     \<and> Authenticate demo_env s1 ''clerk'' ''long enough'' = Inr a
     \<and> session_create demo_env ''s1'' ''tok'' ''n1'' [] s1 = (Inr (''tok'', 43200000000000), s2)
     \<and> session_validate (demo_env\<lparr>ae_now := 1000\<rparr>) ''tok'' s2 = (Inr acct, s3)
     \<and> Authorized (ac_role acct) (ac_permissions acct) ''users.read''"
proof -
  let ?c = "admin_create demo_env ''n1'' ''salt'' demo_access ''clerk'' ''long enough'' RoleAdmin [''users.read''] (Some ''r1'') demo_access"
  have c0: "case fst ?c of Inl _ \<Rightarrow> False | Inr _ \<Rightarrow> True" by code_simp
  then obtain a s1 where c: "?c = (Inr a, s1)" by (cases ?c) (auto split: sum.splits)
  have l0: "case fst (session_create demo_env ''s1'' ''tok'' ''n1'' [] (snd ?c)) of Inl _ \<Rightarrow> False
      | Inr (t, e) \<Rightarrow> t = ''tok'' \<and> e = 43200000000000" by code_simp
  then obtain s2 where l: "session_create demo_env ''s1'' ''tok'' ''n1'' [] s1 = (Inr (''tok'', 43200000000000), s2)"
    by (cases "session_create demo_env ''s1'' ''tok'' ''n1'' [] s1") (auto simp: c split: sum.splits)
  have rk: "resellers_ok demo_access"
    by (simp add: resellers_ok_def demo_access_def ValidResellerGrants_def ResellerGrantable_def reseller_grantable_def)
  have al: "Allows [''users.read''] ''users.read''" by code_simp
  from login_roundtrip[OF c rk demo_keys _ l, of 1000] al c l show ?thesis
    by (auto simp: demo_env_def time_sub_def)
qed

theorem session_exact_witness:
  "\<exists>s2 acct s3. session_create demo_env ''s1'' ''tok'' ''tenant'' [] demo_access = (Inr (''tok'', 43200000000000), s2)
     \<and> session_validate demo_env ''tok'' s2 = (Inr acct, s3) \<and> Allows (ac_permissions acct) ''users.read''"
proof -
  let ?c = "session_create demo_env ''s1'' ''tok'' ''tenant'' [] demo_access"
  let ?v = "session_validate demo_env ''tok'' (snd ?c)"
  have v0: "case fst ?v of Inl _ \<Rightarrow> False | Inr a \<Rightarrow> ac_id a = ''tenant''" by code_simp
  have c: "?c = (Inr (''tok'', 43200000000000), snd ?c)" by (simp add: session_create_def demo_access_def demo_admin_def demo_env_def Let_def)
  obtain acct s3 where v: "?v = (Inr acct, s3)" "ac_id acct = ''tenant''" using v0 by (cases ?v) (auto split: sum.splits)
  have k: "access_keys (snd ?c)"
    by (simp add: session_create_def demo_access_def demo_admin_def demo_env_def Let_def access_keys_def unique_on_def)
  have al: "Allows [''users.read'', ''api_tokens.manage''] ''users.read''" by code_simp
  from session_exact[OF k v(1)] v(2) al have "Allows (ac_permissions acct) ''users.read''"
    by (auto simp: session_create_def demo_access_def demo_admin_def demo_env_def Let_def ResellerGrantable_def reseller_grantable_def)
  then show ?thesis using c v(1) by blast
qed

theorem sessions_cut_off_witness:
  "\<exists>s2 s3 acct s4. session_create demo_env ''s1'' ''tok'' ''root1'' [] demo_access = (Inr (''tok'', 43200000000000), s2)
     \<and> SetPassword demo_env ''salt'' ''helper'' ''a new password'' s2 = (Inr (), s3)
     \<and> session_validate demo_env ''tok'' s3 = (Inr acct, s4) \<and> ac_id acct \<noteq> ''helper''"
proof -
  let ?c = "session_create demo_env ''s1'' ''tok'' ''root1'' [] demo_access"
  let ?p = "SetPassword demo_env ''salt'' ''helper'' ''a new password'' (snd ?c)"
  let ?v = "session_validate demo_env ''tok'' (snd ?p)"
  have v0: "case fst ?v of Inl _ \<Rightarrow> False | Inr a \<Rightarrow> True" by code_simp
  have p0: "fst ?p = Inr ()" by code_simp
  have c: "?c = (Inr (''tok'', 43200000000000), snd ?c)" by (simp add: session_create_def demo_access_def demo_admin_def demo_env_def Let_def)
  obtain acct s4 where v: "?v = (Inr acct, s4)" using v0 by (cases ?v) (auto split: sum.splits)
  have p: "?p = (Inr (), snd ?p)" using p0 by (metis prod.collapse)
  from sessions_cut_off[OF v, of demo_env "''salt''" "''helper''" "''a new password''" "snd ?c"] p have "ac_id acct \<noteq> ''helper''" by blast
  then show ?thesis using c p v by blast
qed

end
