(* ===== verification/AccessRun.thy ===== *)
theory AccessRun
  imports Logins
begin

text \<open>
  The accounts, sessions and tokens of a node over time. A run is the list of states the database
  went through, the newest first. A request writes the newest state; what it read before may be
  any earlier state of the run, so that requests interleave between their reads and their writes. New
  account identifiers have never been used in the run.
\<close>

section \<open>Requests\<close>

datatype access_request =
    ReqBootstrap string string string string
  | ReqCreateAdmin string string string string role "string list"
  | ReqCreateTenant string string string string string "string list"
  | ReqSetPassword string string string
  | ReqSetPermissions string "string list"
  | ReqSetEnabled string bool
  | ReqDelete string
  | ReqLocale string string
  | ReqPreset string string
  | ReqDigits string string
  | ReqResetAppearance string
  | ReqSession string string string string
  | ReqValidate string
  | ReqLogout string
  | ReqPruneSessions time
  | ReqReseller string string string "string list"
  | ReqResellerPermissions string "string list"
  | ReqResellerEnabled string bool
  | ReqTemplates string "string list"
  | ReqToken string string string "string list" "time option" string
  | ReqMint string string string "string option" string "string list" "time option" string
  | ReqVerify string string
  | ReqRevoke string
  | ReqRevokeTenant string string
  | ReqRevokeGlobal string

fun access_exec :: "access_env \<Rightarrow> access_db \<Rightarrow> access_request \<Rightarrow> access_db \<Rightarrow> access_db" where
  "access_exec env seen (ReqBootstrap nid salt u p) s = snd (BootstrapOwner env nid salt seen u p s)"
| "access_exec env seen (ReqCreateAdmin nid salt u p r g) s = snd (admin_create env nid salt seen u p r g None s)"
| "access_exec env seen (ReqCreateTenant nid salt rid u p g) s = snd (CreateForReseller env nid salt seen rid u p g s)"
| "access_exec env seen (ReqSetPassword salt aid p) s = snd (SetPassword env salt aid p s)"
| "access_exec env seen (ReqSetPermissions aid g) s = snd (admin_SetPermissions env seen aid g s)"
| "access_exec env seen (ReqSetEnabled aid b) s = snd (admin_SetEnabled env seen aid b s)"
| "access_exec env seen (ReqDelete aid) s = snd (admin_delete seen aid s)"
| "access_exec env seen (ReqLocale aid l) s = snd (SetLocale env aid l s)"
| "access_exec env seen (ReqPreset aid p) s = snd (SetAppearancePreset env aid p s)"
| "access_exec env seen (ReqDigits aid d) s = snd (SetAppearanceDigits env aid d s)"
| "access_exec env seen (ReqResetAppearance aid) s = ResetAppearance env aid s"
| "access_exec env seen (ReqSession sid tok aid ip) s = snd (session_create env sid tok aid ip s)"
| "access_exec env seen (ReqValidate tok) s = snd (session_validate env tok s)"
| "access_exec env seen (ReqLogout tok) s = session_revoke env tok s"
| "access_exec env seen (ReqPruneSessions now) s = snd (session_prune now s)"
| "access_exec env seen (ReqReseller nid slug d g) s = snd (reseller_create env nid slug d g s)"
| "access_exec env seen (ReqResellerPermissions rid g) s = snd (reseller_SetPermissions env rid g s)"
| "access_exec env seen (ReqResellerEnabled rid b) s = snd (reseller_SetEnabled env rid b s)"
| "access_exec env seen (ReqTemplates rid ids) s = snd (SetTemplates rid ids s)"
| "access_exec env seen (ReqToken nid rnd n g e c) s = snd (token_create env nid rnd n g e c None None s)"
| "access_exec env seen (ReqMint nid rnd aid t n g e c) s = snd (CreateForAdmin env nid rnd seen aid t n g e c s)"
| "access_exec env seen (ReqVerify p ip) s = snd (Verify env p ip s)"
| "access_exec env seen (ReqRevoke tid) s = snd (token_Revoke tid s)"
| "access_exec env seen (ReqRevokeTenant tid rid) s = snd (RevokeForReseller tid rid s)"
| "access_exec env seen (ReqRevokeGlobal tid) s = snd (RevokeGlobal tid s)"

text \<open>The account identifier a request draws.\<close>

fun new_account :: "access_request \<Rightarrow> string option" where
  "new_account (ReqBootstrap nid salt u p) = Some nid"
| "new_account (ReqCreateAdmin nid salt u p r g) = Some nid"
| "new_account (ReqCreateTenant nid salt rid u p g) = Some nid"
| "new_account _ = None"

definition used_ids :: "access_db list \<Rightarrow> string set" where
  "used_ids h = (\<Union>t \<in> set h. ad_id ` set (au_admins t))"

text \<open>\<open>lifetime\<close> is the absolute session lifetime, which the server reads once when it is wired.\<close>

inductive access_run :: "duration \<Rightarrow> access_db list \<Rightarrow> bool" for lifetime where
  start: "access_run lifetime [\<lparr>au_admins = [], au_resellers = [], au_sessions = [], au_tokens = [],
     au_templates = ts, au_assigned = []\<rparr>]"
| request: "access_run lifetime (s # h) \<Longrightarrow> seen \<in> set (s # h) \<Longrightarrow> ae_absolute env = lifetime \<Longrightarrow>
     (\<forall>nid. new_account req = Some nid \<longrightarrow> nid \<notin> used_ids (s # h)) \<Longrightarrow>
     access_run lifetime (access_exec env seen req s # s # h)"
| templates_edited: "access_run lifetime (s # h) \<Longrightarrow> access_run lifetime (s\<lparr>au_templates := ts\<rparr> # s # h)"

inductive_cases access_run_emptyE: "access_run lifetime []"

section \<open>What a request does to the accounts\<close>

text \<open>
  The identity of an account: the columns no request changes once the row exists, and for the
  owner its rights as well.
\<close>

definition same_account :: "admin_row \<Rightarrow> admin_row \<Rightarrow> bool" where
  "same_account a b \<longleftrightarrow> ad_id a = ad_id b \<and> ad_username a = ad_username b \<and> ad_role a = ad_role b
     \<and> ad_reseller a = ad_reseller b"

definition same_rights :: "admin_row \<Rightarrow> admin_row \<Rightarrow> bool" where
  "same_rights a b \<longleftrightarrow> same_account a b \<and> ad_permissions a = ad_permissions b \<and> ad_enabled a = ad_enabled b"

definition seen_non_owner :: "access_db \<Rightarrow> string \<Rightarrow> bool" where
  "seen_non_owner seen aid \<longleftrightarrow> (\<exists>a \<in> set (au_admins seen). ad_id a = aid \<and> ad_role a \<noteq> RoleOwner)"

definition new_row_ok :: "access_db \<Rightarrow> string option \<Rightarrow> admin_row \<Rightarrow> bool" where
  "new_row_ok s nid row \<longleftrightarrow> nid = Some (ad_id row) \<and> ad_enabled row \<and> role_valid (ad_role row)
     \<and> ad_username row \<notin> ad_username ` set (au_admins s) \<and> ad_id row \<notin> ad_id ` set (au_admins s)
     \<and> (ad_role row = RoleOwner \<longrightarrow> \<not> HasOwner s \<and> ad_reseller row = None)
     \<and> (\<forall>i. ad_reseller row = Some i \<longrightarrow> i \<in> rs_id ` set (au_resellers s))"

inductive admin_change :: "access_db \<Rightarrow> string option \<Rightarrow> access_db \<Rightarrow> admin_row list \<Rightarrow> bool" for seen nid s where
  same: "admin_change seen nid s (au_admins s)"
| insert_row: "new_row_ok s nid row \<Longrightarrow> admin_change seen nid s (au_admins s @ [row])"
| touch: "(\<And>r. same_rights (f r) r) \<Longrightarrow> admin_change seen nid s (update_rows (\<lambda>r. ad_id r = aid) f (au_admins s))"
| rights: "(\<And>r. same_account (f r) r) \<Longrightarrow> seen_non_owner seen aid \<Longrightarrow>
    admin_change seen nid s (update_rows (\<lambda>r. ad_id r = aid) f (au_admins s))"
| remove: "seen_non_owner seen aid \<Longrightarrow> admin_change seen nid s (delete_rows (\<lambda>r. ad_id r = aid) (au_admins s))"

lemma admin_create_change:
  assumes "new = Some nid"
  shows "admin_change seen new s (au_admins (snd (admin_create env nid salt seen u p r g rid s)))
     \<and> (\<exists>as. snd (admin_create env nid salt seen u p r g rid s) = s\<lparr>au_admins := as\<rparr>)"
proof (cases "fst (admin_create env nid salt seen u p r g rid s)")
  case (Inl e)
  then have "snd (admin_create env nid salt seen u p r g rid s) = s"
    by (auto simp: admin_create_def admin_insert_def split: sum.splits if_splits)
  then show ?thesis by (auto intro: admin_change.same exI[of _ "au_admins s"])
next
  case (Inr a)
  then obtain s' where c: "admin_create env nid salt seen u p r g rid s = (Inr a, s')" by (metis prod.collapse)
  then obtain perms where chk: "admin_create_checks seen u r g rid = Inr perms"
    and ins: "admin_insert \<lparr>ad_id = nid, ad_username = u, ad_hash = ae_phc env p salt, ad_role = r,
            ad_permissions = TextList perms, ad_enabled = True, ad_created = ae_now env,
            ad_updated = ae_now env, ad_reseller = rid, ad_locale = ''fa'', ad_preset = [], ad_digits = []\<rparr> s = (Inr a, s')"
    by (rule admin_create_Inr)
  have "role_valid r" "r = RoleOwner \<Longrightarrow> rid = None" using chk by (auto simp: admin_create_checks_Inr split: if_splits)
  then show ?thesis
    using ins assms unfolding admin_insert_Inr c
    by (auto intro!: admin_change.insert_row simp: new_row_ok_def)
qed

lemma seen_non_owner_get:
  "admin_get seen aid = Inr a \<Longrightarrow> am_role a \<noteq> RoleOwner \<Longrightarrow> seen_non_owner seen aid"
  by (auto simp: admin_get_def seen_non_owner_def admin_of_def split: option.splits)

lemma access_exec_admins: "admin_change seen (new_account req) s (au_admins (access_exec env seen req s))"
proof (cases req)
  case (ReqBootstrap nid salt u p)
  then show ?thesis
    using admin_create_change[of "new_account req" nid seen s env salt u p RoleOwner "[]" None]
    by (auto simp: BootstrapOwner_def split: prod.splits sum.splits intro: admin_change.same)
next
  case (ReqCreateAdmin nid salt u p r g)
  then show ?thesis using admin_create_change[of "new_account req" nid seen s env salt u p r g None] by simp
next
  case (ReqCreateTenant nid salt rid u p g)
  then show ?thesis
    using admin_create_change[of "new_account req" nid seen s env salt u p RoleAdmin g "Some rid"]
    by (auto simp: CreateForReseller_def intro: admin_change.same)
next
  case (ReqSetPassword salt aid p)
  then show ?thesis
    by (auto simp: SetPassword_def admin_update_found_def admin_update_def RevokeAllForAdmin_def same_rights_def same_account_def
        split: sum.splits intro: admin_change.same admin_change.touch)
next
  case (ReqSetPermissions aid g)
  then show ?thesis
    by (auto simp: admin_SetPermissions_def admin_update_def same_account_def
        split: sum.splits intro: admin_change.same intro!: admin_change.rights dest: seen_non_owner_get)
next
  case (ReqSetEnabled aid b)
  then show ?thesis
    by (auto simp: admin_SetEnabled_def admin_update_def RevokeAllForAdmin_def same_account_def Let_def
        split: sum.splits intro: admin_change.same intro!: admin_change.rights dest: seen_non_owner_get)
next
  case (ReqDelete aid)
  then show ?thesis
    by (auto simp: admin_delete_def admin_remove_def RevokeAllForAdmin_def
        split: sum.splits intro: admin_change.same admin_change.remove dest: seen_non_owner_get)
next
  case (ReqLocale aid l)
  then show ?thesis
    by (auto simp: SetLocale_def admin_update_found_def admin_update_def same_rights_def same_account_def
        intro: admin_change.same admin_change.touch)
next
  case (ReqPreset aid p)
  then show ?thesis
    by (auto simp: SetAppearancePreset_def admin_update_found_def admin_update_def same_rights_def same_account_def
        intro: admin_change.same admin_change.touch)
next
  case (ReqDigits aid d)
  then show ?thesis
    by (auto simp: SetAppearanceDigits_def admin_update_found_def admin_update_def same_rights_def same_account_def
        intro: admin_change.same admin_change.touch)
next
  case (ReqResetAppearance aid)
  then show ?thesis
    by (auto simp: ResetAppearance_def admin_update_def same_rights_def same_account_def intro: admin_change.touch)
qed (auto simp: session_create_def session_validate_def revoke_hash_def session_revoke_def session_prune_def reseller_create_def
      reseller_SetPermissions_def reseller_SetEnabled_def reseller_update_def SetTemplates_def token_create_def CreateForAdmin_def
      Verify_def token_Revoke_def RevokeForReseller_def RevokeGlobal_def revoke_where_def Let_def
      split: option.splits sum.splits if_splits intro: admin_change.same)

section \<open>The owner is protected\<close>

definition account_kind :: "admin_row \<Rightarrow> role \<times> string option" where
  "account_kind a = (ad_role a, ad_reseller a)"

definition stable_roles :: "access_db list \<Rightarrow> bool" where
  "stable_roles h \<longleftrightarrow> (\<forall>t \<in> set h. \<forall>u \<in> set h. \<forall>a \<in> set (au_admins t). \<forall>b \<in> set (au_admins u).
     ad_id a = ad_id b \<longrightarrow> account_kind a = account_kind b)"

lemma stable_rolesD:
  "stable_roles h \<Longrightarrow> t \<in> set h \<Longrightarrow> u \<in> set h \<Longrightarrow> a \<in> set (au_admins t) \<Longrightarrow> b \<in> set (au_admins u) \<Longrightarrow>
     ad_id a = ad_id b \<Longrightarrow> ad_role a = ad_role b \<and> ad_reseller a = ad_reseller b"
  unfolding stable_roles_def account_kind_def by blast

lemma other_than_owner:
  assumes "seen_non_owner seen aid" "seen \<in> set (s # h)" "stable_roles (s # h)" "a \<in> set (au_admins s)" "ad_role a = RoleOwner"
  shows "ad_id a \<noteq> aid"
  using assms stable_rolesD[OF assms(3), of s seen a] by (auto simp: seen_non_owner_def)

definition one_owner :: "access_db \<Rightarrow> bool" where
  "one_owner s \<longleftrightarrow> unique_on ad_id (au_admins s) \<and> unique_on ad_username (au_admins s)
     \<and> (\<forall>a \<in> set (au_admins s). \<forall>b \<in> set (au_admins s). ad_role a = RoleOwner \<longrightarrow> ad_role b = RoleOwner \<longrightarrow> a = b)
     \<and> (\<forall>a \<in> set (au_admins s). ad_role a = RoleOwner \<longrightarrow> ad_enabled a)"

lemma same_account_update:
  assumes "\<And>r. same_account (f r) r"
  shows "unique_on ad_id (update_rows P f t) \<longleftrightarrow> unique_on ad_id t"
    and "unique_on ad_username (update_rows P f t) \<longleftrightarrow> unique_on ad_username t"
  using assms by (auto simp: same_account_def intro!: unique_on_update_same)

lemma HasOwner_iff: "HasOwner s \<longleftrightarrow> (\<exists>a \<in> set (au_admins s). ad_role a = RoleOwner)"
  by (auto simp: HasOwner_def filter_empty_conv)

lemma same_rights_refl [simp]: "same_rights a a" "same_account a a"
  by (simp_all add: same_rights_def same_account_def)

lemma same_rights_trans: "same_rights a b \<Longrightarrow> same_rights b c \<Longrightarrow> same_rights a c"
  by (simp add: same_rights_def same_account_def)

lemma updated_account:
  assumes f: "\<And>r. same_account (f r) r" and b: "b \<in> set (update_rows P f t)"
  shows "\<exists>a \<in> set t. same_account b a"
proof -
  from b obtain a where a: "a \<in> set t" "b = (if P a then f a else a)" unfolding set_update_rows by blast
  then have "same_account b a" using f[of a] by simp
  with a(1) show ?thesis by blast
qed

lemma admin_change_origin:
  assumes "admin_change seen nid s as" "b \<in> set as"
  shows "(\<exists>a \<in> set (au_admins s). same_account b a) \<or> new_row_ok s nid b"
  using assms
proof cases
  case (touch f aid)
  have "\<And>r. same_account (f r) r" using touch(2) by (simp add: same_rights_def)
  then show ?thesis using updated_account[of f b] assms(2) touch(1) by blast
next
  case (rights f aid)
  then show ?thesis using updated_account[of f b] assms(2) by blast
qed (use assms(2) in \<open>auto intro: bexI[of _ b]\<close>)

lemma admin_change_owner_kept:
  assumes "admin_change seen nid s as" "seen \<in> set (s # h)" "stable_roles (s # h)"
    and a: "a \<in> set (au_admins s)" "ad_role a = RoleOwner"
  shows "\<exists>b \<in> set as. same_rights b a"
proof -
  note other = other_than_owner[OF _ assms(2,3) a]
  show ?thesis
    using assms(1)
  proof cases
    case (touch f aid)
    have "(if ad_id a = aid then f a else a) \<in> set as"
      unfolding touch(1) set_update_rows by (rule imageI[OF a(1)])
    then show ?thesis by (rule bexI[rotated]) (simp add: touch(2))
  next
    case (rights f aid)
    have "a \<in> set as"
      unfolding rights(1) set_update_rows using a(1) other[OF rights(3)] by (intro image_eqI[of _ _ a]) auto
    then show ?thesis by (rule bexI[rotated]) simp
  next
    case (remove aid)
    then show ?thesis using a(1) other[OF remove(2)] by (auto intro!: bexI[of _ a])
  qed (use a in \<open>auto intro: bexI[of _ a]\<close>)
qed

lemma admin_change_stable:
  assumes "admin_change seen nid s as" "stable_roles (s # h)" "\<forall>i. nid = Some i \<longrightarrow> i \<notin> used_ids (s # h)" "au_admins s' = as"
  shows "stable_roles (s' # s # h)"
proof -
  have 1: "account_kind b = account_kind c" if bc: "b \<in> set as" "u \<in> set (s # h)" "c \<in> set (au_admins u)" "ad_id b = ad_id c" for b u c
    using admin_change_origin[OF assms(1) bc(1)]
  proof
    assume "\<exists>a \<in> set (au_admins s). same_account b a"
    then obtain a where "a \<in> set (au_admins s)" "ad_id a = ad_id b" "account_kind a = account_kind b" by (auto simp: same_account_def account_kind_def)
    then show ?thesis using assms(2) bc(2-4) unfolding stable_roles_def by (metis list.set_intros(1))
  next
    assume "new_row_ok s nid b"
    then have "ad_id b \<notin> used_ids (s # h)" using assms(3) by (simp add: new_row_ok_def)
    then show ?thesis using bc(2-4) by (auto simp: used_ids_def)
  qed
  have 2: "account_kind b = account_kind c" if bc: "b \<in> set as" "c \<in> set as" "ad_id b = ad_id c" for b c
    using admin_change_origin[OF assms(1) bc(2)]
  proof
    assume "\<exists>a \<in> set (au_admins s). same_account c a"
    then obtain a where "a \<in> set (au_admins s)" "ad_id b = ad_id a" "account_kind a = account_kind c" using bc(3) by (auto simp: same_account_def account_kind_def)
    then show ?thesis using 1[OF bc(1), of s a] by simp
  next
    assume c: "new_row_ok s nid c"
    from admin_change_origin[OF assms(1) bc(1)] show ?thesis
    proof
      assume "\<exists>a \<in> set (au_admins s). same_account b a"
      then obtain a where "a \<in> set (au_admins s)" "ad_id a = ad_id c" using bc(3) by (auto simp: same_account_def)
      then have "ad_id c \<in> ad_id ` set (au_admins s)" by (metis imageI)
      then show ?thesis using c by (simp add: new_row_ok_def)
    next
      assume b: "new_row_ok s nid b"
      have new: "x \<notin> set (au_admins s)" "\<not> (\<exists>a \<in> set (au_admins s). same_account x a)" if "new_row_ok s nid x" for x
        using that by (auto simp: new_row_ok_def same_account_def)
      obtain row where "as = au_admins s @ [row]"
        using assms(1)
      proof cases
        case (touch f aid)
        have "\<And>r. same_account (f r) r" using touch(2) by (simp add: same_rights_def)
        then show ?thesis using updated_account[of f b] bc(1) touch(1) new(2)[OF b] by blast
      next
        case (rights f aid)
        then show ?thesis using updated_account[of f b] bc(1) new(2)[OF b] by blast
      qed (use new(1)[OF b] bc(1) that in auto)
      then show ?thesis using bc(1,2) new(1)[OF b] new(1)[OF c] by auto
    qed
  qed
  show ?thesis
    unfolding stable_roles_def
  proof (intro ballI impI)
    fix t u and a b :: admin_row
    assume m: "t \<in> set (s' # s # h)" "u \<in> set (s' # s # h)" "a \<in> set (au_admins t)" "b \<in> set (au_admins u)" "ad_id a = ad_id b"
    show "account_kind a = account_kind b"
    proof (cases "t = s'")
      case True
      then show ?thesis using m 1[of a u b] 2[of a b] assms(4) by (cases "u = s'") auto
    next
      case t: False
      show ?thesis
      proof (cases "u = s'")
        case True
        then show ?thesis using m t 1[of b t a] assms(4) by auto
      next
        case False
        then have "t \<in> set (s # h)" "u \<in> set (s # h)" using m(1,2) t by simp_all
        then show ?thesis using assms(2) m(3-5) unfolding stable_roles_def by blast
      qed
    qed
  qed
qed

lemma one_ownerD:
  assumes "one_owner s"
  shows "unique_on ad_id (au_admins s)" "unique_on ad_username (au_admins s)"
    and "a \<in> set (au_admins s) \<Longrightarrow> b \<in> set (au_admins s) \<Longrightarrow> ad_role a = RoleOwner \<Longrightarrow> ad_role b = RoleOwner \<Longrightarrow> a = b"
    and "a \<in> set (au_admins s) \<Longrightarrow> ad_role a = RoleOwner \<Longrightarrow> ad_enabled a"
  using assms unfolding one_owner_def by blast+

lemma one_owner_update:
  assumes one: "one_owner s" and f: "\<And>r. same_account (f r) r" and s': "au_admins s' = update_rows P f (au_admins s)"
    and en: "\<And>a. a \<in> set (au_admins s) \<Longrightarrow> ad_role a = RoleOwner \<Longrightarrow> P a \<Longrightarrow> ad_enabled (f a)"
  shows "one_owner s'"
proof -
  let ?g = "\<lambda>r. if P r then f r else r"
  have rl: "ad_role (?g r) = ad_role r" for r using f[of r] by (simp add: same_account_def)
  have owner: "\<exists>a \<in> set (au_admins s). x = ?g a \<and> ad_role a = RoleOwner" if "x \<in> set (au_admins s')" "ad_role x = RoleOwner" for x
  proof -
    from that(1) obtain a where "a \<in> set (au_admins s)" "x = ?g a" unfolding s' set_update_rows by blast
    with that(2) rl show ?thesis by metis
  qed
  show ?thesis
    unfolding one_owner_def
  proof (intro conjI ballI impI)
    show "unique_on ad_id (au_admins s')" "unique_on ad_username (au_admins s')"
      unfolding s' same_account_update[OF f] by (rule one_ownerD[OF one])+
  next
    fix x y assume xy: "x \<in> set (au_admins s')" "y \<in> set (au_admins s')" "ad_role x = RoleOwner" "ad_role y = RoleOwner"
    obtain a where "a \<in> set (au_admins s)" "x = ?g a" "ad_role a = RoleOwner" using owner[OF xy(1,3)] by blast
    moreover obtain b where "b \<in> set (au_admins s)" "y = ?g b" "ad_role b = RoleOwner" using owner[OF xy(2,4)] by blast
    ultimately show "x = y" using one_ownerD(3)[OF one, of a b] by simp
  next
    fix x assume "x \<in> set (au_admins s')" "ad_role x = RoleOwner"
    with owner obtain a where a: "a \<in> set (au_admins s)" "x = ?g a" "ad_role a = RoleOwner" by blast
    then show "ad_enabled x" using one_ownerD(4)[OF one a(1,3)] en[OF a(1,3)] by simp
  qed
qed

lemma admin_change_one_owner:
  assumes ch: "admin_change seen nid s (au_admins s')" and seen: "seen \<in> set (s # h)" and st: "stable_roles (s # h)" and one: "one_owner s"
  shows "one_owner s'"
proof -
  note other = other_than_owner[OF _ seen st]
  from ch show ?thesis
  proof cases
    case same
    then show ?thesis using one unfolding one_owner_def by simp
  next
    case (insert_row row)
    then show ?thesis
      using one_ownerD[OF one] unfolding one_owner_def insert_row(1)
      by (auto simp: unique_on_append_one new_row_ok_def HasOwner_iff)
  next
    case (touch f aid)
    show ?thesis
      by (rule one_owner_update[OF one _ touch(1)]) (use touch(2) one_ownerD(4)[OF one] in \<open>auto simp: same_rights_def\<close>)
  next
    case (rights f aid)
    show ?thesis
      by (rule one_owner_update[OF one rights(2) rights(1)]) (use other[OF rights(3)] in auto)
  next
    case (remove aid)
    then show ?thesis using one_ownerD[OF one] unfolding one_owner_def remove(1) by (auto simp: unique_on_delete)
  qed
qed

definition owner_kept :: "access_db list \<Rightarrow> bool" where
  "owner_kept h \<longleftrightarrow> (\<forall>t \<in> set h. \<forall>a \<in> set (au_admins t). ad_role a = RoleOwner \<longrightarrow>
     (\<exists>b \<in> set (au_admins (hd h)). same_rights b a))"

lemma owner_step:
  assumes ch: "admin_change seen nid s (au_admins n)" and seen: "seen \<in> set (s # h)"
    and fresh: "\<forall>i. nid = Some i \<longrightarrow> i \<notin> used_ids (s # h)"
    and st: "stable_roles (s # h)" and one: "\<forall>t \<in> set (s # h). one_owner t" and kept: "owner_kept (s # h)"
  shows "stable_roles (n # s # h) \<and> (\<forall>t \<in> set (n # s # h). one_owner t) \<and> owner_kept (n # s # h)"
proof (intro conjI)
  show "stable_roles (n # s # h)" by (rule admin_change_stable[OF ch st fresh refl])
  have "one_owner n" by (rule admin_change_one_owner[OF ch seen st]) (use one in simp)
  with one show "\<forall>t \<in> set (n # s # h). one_owner t" by simp
  have "\<exists>b \<in> set (au_admins n). same_rights b a" if m: "t \<in> set (n # s # h)" "a \<in> set (au_admins t)" "ad_role a = RoleOwner" for t a
  proof (cases "t = n")
    case True
    then show ?thesis using m(2) by (intro bexI[of _ a]) simp_all
  next
    case False
    then have "t \<in> set (s # h)" using m(1) by simp
    then obtain b where b: "b \<in> set (au_admins s)" "same_rights b a"
      using kept m(2,3) unfolding owner_kept_def list.sel by blast
    then have "ad_role b = RoleOwner" using m(3) by (simp add: same_rights_def same_account_def)
    with admin_change_owner_kept[OF ch seen st b(1)] b(2) show ?thesis using same_rights_trans by blast
  qed
  then show "owner_kept (n # s # h)" unfolding owner_kept_def list.sel by blast
qed

lemma access_run_owner:
  assumes "access_run lifetime h"
  shows "stable_roles h \<and> (\<forall>t \<in> set h. one_owner t) \<and> owner_kept h"
  using assms
proof induction
  case (start ts)
  then show ?case by (simp add: stable_roles_def one_owner_def unique_on_def owner_kept_def)
next
  case (request s h seen env req)
  then show ?case using owner_step[OF access_exec_admins request.hyps(2)] by blast
next
  case (templates_edited s h ts)
  have "admin_change s None s (au_admins (s\<lparr>au_templates := ts\<rparr>))" using admin_change.same[of s None s] by simp
  then show ?case using templates_edited.IH owner_step[where seen = s and nid = None] by (metis list.set_intros(1) option.distinct(1))
qed

text \<open>
  C9. Whatever requests a node serves, in whatever order and however their reads and writes
  interleave, there is never more than one owner, the owner is always enabled, and from the moment it
  exists no request deletes it, disables it, or changes its name, role or grants.
\<close>

theorem owner_protected:
  assumes "access_run lifetime (s # h)"
  shows "length (filter (\<lambda>a. ad_role a = RoleOwner) (au_admins s)) \<le> 1
    \<and> (\<forall>t \<in> set h. \<forall>a \<in> set (au_admins t). ad_role a = RoleOwner \<longrightarrow>
         (\<exists>b \<in> set (au_admins s). same_rights b a \<and> ad_enabled b))"
proof
  have one: "one_owner s"
    and kept: "owner_kept (s # h)"
    using access_run_owner[OF assms] by simp_all
  have d: "distinct (filter (\<lambda>a. ad_role a = RoleOwner) (au_admins s))"
    using one by (auto simp: one_owner_def unique_on_def distinct_map)
  show "length (filter (\<lambda>a. ad_role a = RoleOwner) (au_admins s)) \<le> 1"
  proof (rule ccontr)
    assume "\<not> ?thesis"
    then obtain a b xs where "filter (\<lambda>a. ad_role a = RoleOwner) (au_admins s) = a # b # xs"
      by (cases "filter (\<lambda>a. ad_role a = RoleOwner) (au_admins s)"; cases "tl (filter (\<lambda>a. ad_role a = RoleOwner) (au_admins s))") auto
    then have "{a, b} \<subseteq> set (filter (\<lambda>a. ad_role a = RoleOwner) (au_admins s))" "a \<noteq> b" using d by auto
    then show False using one unfolding one_owner_def by auto
  qed
  show "\<forall>t \<in> set h. \<forall>a \<in> set (au_admins t). ad_role a = RoleOwner \<longrightarrow> (\<exists>b \<in> set (au_admins s). same_rights b a \<and> ad_enabled b)"
  proof (intro ballI impI)
    fix t a assume a: "t \<in> set h" "a \<in> set (au_admins t)" "ad_role a = RoleOwner"
    then obtain b where b: "b \<in> set (au_admins s)" "same_rights b a" using kept unfolding owner_kept_def list.sel by (meson list.set_intros(2))
    then have "ad_role b = RoleOwner" using a(3) by (simp add: same_rights_def same_account_def)
    then have "ad_enabled b" using one b(1) by (simp add: one_owner_def)
    with b show "\<exists>b \<in> set (au_admins s). same_rights b a \<and> ad_enabled b" by blast
  qed
qed

section \<open>Well-formed account tables\<close>

definition admin_ok :: "access_db \<Rightarrow> admin_row \<Rightarrow> bool" where
  "admin_ok s a \<longleftrightarrow> role_valid (ad_role a)
     \<and> (\<exists>l. ad_permissions a = TextList l \<and> ValidateScopes l = Inr ()
          \<and> (ad_reseller a \<noteq> None \<longrightarrow> ValidResellerGrants l \<and> ad_role a = RoleAdmin))
     \<and> (\<forall>i. ad_reseller a = Some i \<longrightarrow> i \<in> rs_id ` set (au_resellers s))"

definition session_ok :: "duration \<Rightarrow> access_db \<Rightarrow> session_row \<Rightarrow> bool" where
  "session_ok lifetime s r \<longleftrightarrow> sn_expires r = sn_created r + lifetime \<and> sn_admin r \<in> ad_id ` set (au_admins s)"

definition token_ok :: "access_db \<Rightarrow> token_row \<Rightarrow> bool" where
  "token_ok s t \<longleftrightarrow> (\<exists>l. tk_scopes t = TextList l \<and> ValidateScopes l = Inr ())
     \<and> (\<forall>i. tk_issuer t = Some i \<longrightarrow> i \<in> ad_id ` set (au_admins s))
     \<and> (\<forall>i. tk_reseller t = Some i \<longrightarrow> i \<in> rs_id ` set (au_resellers s))"

definition access_wf :: "duration \<Rightarrow> access_db \<Rightarrow> bool" where
  "access_wf lifetime s \<longleftrightarrow> access_keys s \<and> resellers_ok s \<and> (\<forall>a \<in> set (au_admins s). admin_ok s a)
     \<and> (\<forall>r \<in> set (au_sessions s). session_ok lifetime s r) \<and> (\<forall>t \<in> set (au_tokens s). token_ok s t)"

named_theorems wf_intros \<open>statements that keep the account tables well formed\<close>

lemmas wf_defs = access_wf_def access_keys_def resellers_ok_def admin_ok_def session_ok_def token_ok_def

lemma wf_admin_update [wf_intros]:
  assumes "access_wf lifetime s" "\<And>r. same_account (f r) r"
    and "\<And>r. r \<in> set (au_admins s) \<Longrightarrow> ad_id r = aid \<Longrightarrow> admin_ok s (f r)"
  shows "access_wf lifetime (admin_update aid f s)"
proof -
  let ?as = "update_rows (\<lambda>r. ad_id r = aid) f (au_admins s)"
  have k: "ad_id ` set ?as = ad_id ` set (au_admins s)"
    by (rule keys_update_rows) (use assms(2) in \<open>simp add: same_account_def\<close>)
  have a: "\<forall>r \<in> set ?as. admin_ok s r"
    by (rule ball_update_rows) (use assms(1,3) in \<open>auto simp: access_wf_def\<close>)
  have ok: "admin_ok (s\<lparr>au_admins := ?as\<rparr>) = admin_ok s" "session_ok lifetime (s\<lparr>au_admins := ?as\<rparr>) = session_ok lifetime s"
    "token_ok (s\<lparr>au_admins := ?as\<rparr>) = token_ok s" "resellers_ok (s\<lparr>au_admins := ?as\<rparr>) = resellers_ok s"
    by (auto simp: fun_eq_iff admin_ok_def session_ok_def token_ok_def resellers_ok_def k)
  show ?thesis
    using assms(1) a unfolding access_wf_def admin_update_def ok
    by (simp add: access_keys_def same_account_update[OF assms(2)])
qed

lemma wf_touch:
  "access_wf lifetime s \<Longrightarrow> (\<And>r. same_rights (f r) r) \<Longrightarrow> access_wf lifetime (admin_update aid f s)"
proof (rule wf_admin_update)
  fix r assume "access_wf lifetime s" "r \<in> set (au_admins s)" and f: "\<And>r. same_rights (f r) r"
  then have "admin_ok s r" by (simp add: access_wf_def)
  then show "admin_ok s (f r)" using f[of r] by (simp add: same_rights_def same_account_def admin_ok_def)
qed (simp_all add: same_rights_def)

lemma wf_delete_sessions [wf_intros]:
  "access_wf lifetime s \<Longrightarrow> access_wf lifetime (s\<lparr>au_sessions := delete_rows P (au_sessions s)\<rparr>)"
  by (auto simp: wf_defs unique_on_delete)

lemma wf_RevokeAll [wf_intros]: "access_wf lifetime s \<Longrightarrow> access_wf lifetime (RevokeAllForAdmin aid s)"
  and wf_revoke_hash [wf_intros]: "access_wf lifetime s \<Longrightarrow> access_wf lifetime (revoke_hash hh s)"
  by (simp_all add: RevokeAllForAdmin_def revoke_hash_def wf_delete_sessions)

lemma wf_touch_sessions [wf_intros]:
  assumes "access_wf lifetime s"
  shows "access_wf lifetime (s\<lparr>au_sessions := update_rows P (\<lambda>x. x\<lparr>sn_last_seen := t\<rparr>) (au_sessions s)\<rparr>)"
proof -
  have "\<forall>r \<in> set (update_rows P (\<lambda>x. x\<lparr>sn_last_seen := t\<rparr>) (au_sessions s)). session_ok lifetime s r"
    by (rule ball_update_rows) (use assms in \<open>auto simp: access_wf_def session_ok_def\<close>)
  then show ?thesis using assms by (simp add: wf_defs unique_on_update_same)
qed

lemma wf_add_session [wf_intros]:
  assumes "access_wf lifetime s" "sn_hash r \<notin> sn_hash ` set (au_sessions s)" "session_ok lifetime s r"
  shows "access_wf lifetime (s\<lparr>au_sessions := au_sessions s @ [r]\<rparr>)"
  using assms by (simp add: wf_defs unique_on_append_one)

lemma wf_add_admin [wf_intros]:
  assumes "access_wf lifetime s" "admin_ok s row" "ad_username row \<notin> ad_username ` set (au_admins s)"
    "ad_id row \<notin> ad_id ` set (au_admins s)"
  shows "access_wf lifetime (s\<lparr>au_admins := au_admins s @ [row]\<rparr>)"
  using assms by (simp add: wf_defs unique_on_append_one)

lemma wf_admin_remove [wf_intros]:
  assumes "access_wf lifetime s" shows "access_wf lifetime (admin_remove aid s)"
proof (cases "aid \<in> ad_id ` set (au_admins s)")
  case True
  let ?P = "\<lambda>r. tk_issuer r = Some aid" and ?f = "\<lambda>r :: token_row. r\<lparr>tk_issuer := None\<rparr>"
  let ?n = "s\<lparr>au_admins := delete_rows (\<lambda>r. ad_id r = aid) (au_admins s),
             au_sessions := delete_rows (\<lambda>r. sn_admin r = aid) (au_sessions s),
             au_tokens := update_rows ?P ?f (au_tokens s)\<rparr>"
  have keep: "i \<noteq> aid \<Longrightarrow> i \<in> ad_id ` set (au_admins s) \<Longrightarrow> i \<in> ad_id ` set (au_admins ?n)" for i by auto
  have t: "\<forall>t \<in> set (au_tokens s). token_ok s t" and se: "\<forall>r \<in> set (au_sessions s). session_ok lifetime s r"
    using assms by (simp_all add: access_wf_def)
  have tok: "token_ok ?n (if ?P x then ?f x else x)" if "x \<in> set (au_tokens s)" for x
  proof -
    have "token_ok s x" using t that by blast
    then show ?thesis using keep by (auto simp: token_ok_def)
  qed
  have "\<forall>x \<in> set (update_rows ?P ?f (au_tokens s)). token_ok ?n x"
    unfolding set_update_rows using tok by blast
  moreover have "session_ok lifetime ?n r" if "r \<in> set (au_sessions ?n)" for r
    using that se keep[of "sn_admin r"] by (auto simp: session_ok_def)
  moreover have "\<forall>a \<in> set (au_admins ?n). admin_ok ?n a" using assms by (auto simp: access_wf_def admin_ok_def)
  moreover have "access_keys ?n" "resellers_ok ?n"
    using assms by (simp_all add: access_wf_def access_keys_def resellers_ok_def unique_on_delete unique_on_update_same)
  ultimately have "access_wf lifetime ?n" unfolding access_wf_def by simp
  then show ?thesis using True by (simp add: admin_remove_def)
qed (simp add: admin_remove_def assms)

lemma wf_resellers:
  assumes "access_wf lifetime s" "rs_id ` set (au_resellers s) \<subseteq> rs_id ` set rs" "unique_on rs_id rs"
    "\<forall>r \<in> set rs. \<exists>l. rs_permissions r = TextList l \<and> ValidResellerGrants l"
  shows "access_wf lifetime (s\<lparr>au_resellers := rs\<rparr>)"
  using assms unfolding access_wf_def access_keys_def resellers_ok_def admin_ok_def session_ok_def token_ok_def
  by (simp add: subset_iff)

lemma wf_reseller_update [wf_intros]:
  assumes "access_wf lifetime s" "\<And>r. rs_id (f r) = rs_id r"
    "\<And>r. \<exists>l. rs_permissions r = TextList l \<and> ValidResellerGrants l \<Longrightarrow> \<exists>l. rs_permissions (f r) = TextList l \<and> ValidResellerGrants l"
  shows "access_wf lifetime (snd (reseller_update rid f s))"
proof -
  have "access_wf lifetime (s\<lparr>au_resellers := update_rows (\<lambda>r. rs_id r = rid) f (au_resellers s)\<rparr>)"
  proof (rule wf_resellers[OF assms(1)])
    show "rs_id ` set (au_resellers s) \<subseteq> rs_id ` set (update_rows (\<lambda>r. rs_id r = rid) f (au_resellers s))"
      by (simp add: keys_update_rows assms(2))
    show "unique_on rs_id (update_rows (\<lambda>r. rs_id r = rid) f (au_resellers s))"
      using assms(1) by (simp add: unique_on_update_same assms(2) access_wf_def access_keys_def)
    show "\<forall>r \<in> set (update_rows (\<lambda>r. rs_id r = rid) f (au_resellers s)). \<exists>l. rs_permissions r = TextList l \<and> ValidResellerGrants l"
      by (rule ball_update_rows) (use assms(1,3) in \<open>auto simp: access_wf_def resellers_ok_def\<close>)
  qed
  then show ?thesis using assms(1) by (simp add: reseller_update_def)
qed

lemma wf_add_token [wf_intros]:
  assumes "access_wf lifetime s" "token_ok s t" "tk_id t \<notin> tk_id ` set (au_tokens s)" "tk_prefix t \<notin> tk_prefix ` set (au_tokens s)"
  shows "access_wf lifetime (s\<lparr>au_tokens := au_tokens s @ [t]\<rparr>)"
  using assms by (simp add: wf_defs unique_on_append_one)

lemma wf_touch_tokens [wf_intros]:
  assumes "access_wf lifetime s" "\<And>r. (f r)\<lparr>tk_enabled := tk_enabled r, tk_last_used := tk_last_used r\<rparr> = r"
  shows "access_wf lifetime (s\<lparr>au_tokens := update_rows P f (au_tokens s)\<rparr>)"
proof -
  have f: "tk_id (f r) = tk_id r" "tk_prefix (f r) = tk_prefix r" "tk_scopes (f r) = tk_scopes r" "tk_issuer (f r) = tk_issuer r"
    "tk_reseller (f r) = tk_reseller r" for r
    by (subst (2) assms(2)[of r, symmetric], simp)+
  have "\<forall>t \<in> set (update_rows P f (au_tokens s)). token_ok s t"
    by (rule ball_update_rows) (use assms(1) in \<open>auto simp: access_wf_def token_ok_def f\<close>)
  then show ?thesis using assms(1) by (simp add: wf_defs unique_on_update_same f)
qed

lemma wf_assigned [wf_intros]: "access_wf lifetime s \<Longrightarrow> access_wf lifetime (s\<lparr>au_assigned := xs\<rparr>)"
  and wf_templates [wf_intros]: "access_wf lifetime s \<Longrightarrow> access_wf lifetime (s\<lparr>au_templates := ts\<rparr>)"
  by (simp_all add: wf_defs)

section \<open>Every request keeps the tables well formed\<close>

text \<open>A request's account reads agree with the account it writes on its role and tenant.\<close>

definition agrees :: "access_db \<Rightarrow> access_db \<Rightarrow> bool" where
  "agrees seen s \<longleftrightarrow> (\<forall>a \<in> set (au_admins seen). \<forall>b \<in> set (au_admins s). ad_id a = ad_id b \<longrightarrow>
     ad_role a = ad_role b \<and> ad_reseller a = ad_reseller b)"

lemma ValidateScopes_Nil: "ValidateScopes [] = Inr ()" by simp

lemma wf_admin_create:
  assumes "access_wf lifetime s"
  shows "access_wf lifetime (snd (admin_create env nid salt seen u p r g rid s))"
proof (cases "fst (admin_create env nid salt seen u p r g rid s)")
  case (Inl e)
  then have "snd (admin_create env nid salt seen u p r g rid s) = s"
    by (auto simp: admin_create_def admin_insert_def split: sum.splits if_splits)
  then show ?thesis using assms by simp
next
  case (Inr a)
  then obtain s' where c: "admin_create env nid salt seen u p r g rid s = (Inr a, s')" by (metis prod.collapse)
  then obtain perms where chk: "admin_create_checks seen u r g rid = Inr perms"
    and ins: "admin_insert \<lparr>ad_id = nid, ad_username = u, ad_hash = ae_phc env p salt, ad_role = r,
            ad_permissions = TextList perms, ad_enabled = True, ad_created = ae_now env,
            ad_updated = ae_now env, ad_reseller = rid, ad_locale = ''fa'', ad_preset = [], ad_digits = []\<rparr> s = (Inr a, s')"
    by (rule admin_create_Inr)
  have p: "role_valid r" "ValidateScopes perms = Inr ()" "rid \<noteq> None \<Longrightarrow> ValidResellerGrants perms \<and> r = RoleAdmin"
    using chk by (auto simp: admin_create_checks_Inr validateResellerGrants_Inr ValidResellerGrants_def split: if_splits)
  show ?thesis
    using ins p unfolding admin_insert_Inr c
    by (auto intro!: wf_add_admin[OF assms] simp: admin_ok_def)
qed

lemma wf_SetPermissions:
  assumes "access_wf lifetime s" "agrees seen s"
  shows "access_wf lifetime (snd (admin_SetPermissions env seen aid g s))"
proof (cases "fst (admin_SetPermissions env seen aid g s)")
  case (Inl e)
  then have "snd (admin_SetPermissions env seen aid g s) = s"
    by (auto simp: admin_SetPermissions_def split: sum.splits if_splits)
  then show ?thesis using assms(1) by simp
next
  case (Inr x)
  let ?f = "\<lambda>r. r\<lparr>ad_permissions := TextList g, ad_updated := ae_now env\<rparr>"
  from Inr obtain a where a: "ValidateScopes g = Inr ()" "admin_get seen aid = Inr a" "am_role a \<noteq> RoleOwner"
      "\<forall>i. am_reseller a = Some i \<longrightarrow> validateResellerGrants seen i g = Inr ()"
      "snd (admin_SetPermissions env seen aid g s) = admin_update aid ?f s"
    by (auto simp: admin_SetPermissions_def split: sum.splits if_splits option.splits)
  from a(2) obtain q where q: "q \<in> set (au_admins seen)" "ad_id q = aid" "am_role a = ad_role q" "am_reseller a = ad_reseller q"
    by (auto simp: admin_get_def admin_of_def split: option.splits)
  have "admin_ok s (?f r)" if r: "r \<in> set (au_admins s)" "ad_id r = aid" for r
  proof -
    have "ad_role r = ad_role q" "ad_reseller r = ad_reseller q"
      using assms(2) q(1,2) r unfolding agrees_def by (metis)+
    moreover have "admin_ok s r" using assms(1) r(1) by (simp add: access_wf_def)
    ultimately show ?thesis
      using a(1,3,4) q by (auto simp: admin_ok_def validateResellerGrants_Inr ValidResellerGrants_def)
  qed
  then show ?thesis
    unfolding a(5) by (intro wf_admin_update[OF assms(1)]) (simp_all add: same_account_def)
qed

lemma wf_admin_SetEnabled:
  assumes "access_wf lifetime s"
  shows "access_wf lifetime (snd (admin_SetEnabled env seen aid b s))"
proof -
  have "access_wf lifetime (admin_update aid (\<lambda>r. r\<lparr>ad_enabled := b, ad_updated := ae_now env\<rparr>) s)"
    by (rule wf_admin_update[OF assms]) (use assms in \<open>auto simp: same_account_def access_wf_def admin_ok_def\<close>)
  then show ?thesis
    using assms by (auto simp: admin_SetEnabled_def Let_def intro: wf_intros split: sum.splits)
qed

lemma wf_update_found:
  "access_wf lifetime s \<Longrightarrow> (\<And>r. same_rights (f r) r) \<Longrightarrow> access_wf lifetime (snd (admin_update_found aid f s))"
  by (simp add: admin_update_found_def wf_touch)

lemma wf_SetPassword: "access_wf lifetime s \<Longrightarrow> access_wf lifetime (snd (SetPassword env salt aid p s))"
  unfolding SetPassword_def admin_update_found_def
  by (auto split: sum.splits intro!: wf_RevokeAll wf_touch simp: same_rights_def same_account_def)

lemma wf_session_create:
  assumes "access_wf (ae_absolute env) s"
  shows "access_wf (ae_absolute env) (snd (session_create env sid tok aid ip s))"
  using assms by (auto simp: session_create_def Let_def session_ok_def intro!: wf_add_session)

lemma wf_session_validate: "access_wf lifetime s \<Longrightarrow> access_wf lifetime (snd (session_validate env tok s))"
  by (auto simp: session_validate_def Let_def intro: wf_intros split: option.splits sum.splits)

lemma wf_add_reseller:
  assumes "access_wf lifetime s" "rs_id r \<notin> rs_id ` set (au_resellers s)" "rs_permissions r = TextList l" "ValidResellerGrants l"
  shows "access_wf lifetime (s\<lparr>au_resellers := au_resellers s @ [r]\<rparr>)"
  by (rule wf_resellers[OF assms(1)])
    (use assms in \<open>auto simp: access_wf_def access_keys_def resellers_ok_def unique_on_append_one\<close>)

lemma wf_reseller_create:
  "access_wf lifetime s \<Longrightarrow> access_wf lifetime (snd (reseller_create env nid slug d g s))"
  by (auto simp: reseller_create_def Let_def ValidatePermissions_def ValidResellerGrants_def list_all_iff
      intro!: wf_add_reseller split: sum.splits)

lemma wf_reseller_SetPermissions: "access_wf lifetime s \<Longrightarrow> access_wf lifetime (snd (reseller_SetPermissions env rid g s))"
  by (auto simp: reseller_SetPermissions_def ValidatePermissions_def ValidResellerGrants_def list_all_iff
      split: sum.splits if_splits intro!: wf_reseller_update)

lemma wf_reseller_SetEnabled: "access_wf lifetime s \<Longrightarrow> access_wf lifetime (snd (reseller_SetEnabled env rid b s))"
  by (auto simp: reseller_SetEnabled_def intro!: wf_reseller_update)

lemma wf_token_create:
  assumes "access_wf lifetime s"
  shows "access_wf lifetime (snd (token_create env nid rnd n g e c issuer rid s))"
  using assms by (auto simp: token_create_def Let_def token_ok_def intro!: wf_add_token split: option.splits)

lemma wf_revoke_where: "access_wf lifetime s \<Longrightarrow> access_wf lifetime (snd (revoke_where P s))"
  by (auto simp: revoke_where_def intro!: wf_touch_tokens)

lemma wf_Verify: "access_wf lifetime s \<Longrightarrow> access_wf lifetime (snd (Verify env p ip s))"
  by (auto simp: Verify_def intro!: wf_touch_tokens split: option.splits sum.splits)

lemma access_exec_wf:
  assumes "access_wf (ae_absolute env) s" "agrees seen s"
  shows "access_wf (ae_absolute env) (access_exec env seen req s)"
proof (cases req)
  case (ReqBootstrap nid salt u p)
  then show ?thesis
    using wf_admin_create[OF assms(1), of env nid salt seen u p RoleOwner "[]" None] assms(1)
    by (auto simp: BootstrapOwner_def split: prod.splits sum.splits)
qed (use assms in \<open>auto simp: CreateForReseller_def CreateForAdmin_def admin_delete_def SetLocale_def SetAppearancePreset_def
    SetAppearanceDigits_def ResetAppearance_def session_revoke_def session_prune_def Let_def SetTemplates_def
    token_Revoke_def RevokeForReseller_def RevokeGlobal_def same_rights_def same_account_def
    intro: wf_intros wf_admin_create wf_SetPermissions wf_admin_SetEnabled wf_SetPassword wf_session_create wf_session_validate
      wf_reseller_create wf_reseller_SetPermissions wf_reseller_SetEnabled wf_token_create wf_revoke_where wf_Verify
    intro!: wf_update_found wf_touch split: sum.splits option.splits\<close>)

lemma agrees_run:
  assumes "access_run lifetime (s # h)" "seen \<in> set (s # h)"
  shows "agrees seen s"
  unfolding agrees_def
proof (intro ballI impI)
  fix a b assume "a \<in> set (au_admins seen)" "b \<in> set (au_admins s)" "ad_id a = ad_id b"
  then show "ad_role a = ad_role b \<and> ad_reseller a = ad_reseller b"
    using stable_rolesD[OF conjunct1[OF access_run_owner[OF assms(1)]] assms(2), of s a b] by simp
qed

text \<open>
  In every state of every run the account tables are well formed: the unique keys hold, every
  account has a valid role and a valid list of grants, a tenant account is no owner, belongs to an
  existing reseller and holds only scopes a reseller may hold, resellers hold only such scopes, every
  session belongs to an existing account and expires exactly one lifetime after it was opened however
  often it was used, and every token carries a valid list of scopes and points to existing accounts.
\<close>

theorem access_tables_wf:
  assumes "access_run lifetime h" "s \<in> set h"
  shows "access_wf lifetime s"
proof -
  have "\<forall>t \<in> set h. access_wf lifetime t"
    using assms(1)
  proof induction
    case (start ts)
    then show ?case by (simp add: wf_defs unique_on_def)
  next
    case (request s h seen env req)
    have "access_wf lifetime (access_exec env seen req s)"
      using access_exec_wf[of env s seen req] request.IH agrees_run[OF request.hyps(1,2)] request.hyps(3) by simp
    with request.IH show ?case by simp
  next
    case (templates_edited s h ts)
    then show ?case by (simp add: wf_templates)
  qed
  with assms(2) show ?thesis by blast
qed

section \<open>Witnesses\<close>

definition demo_start :: access_db where
  "demo_start = \<lparr>au_admins = [], au_resellers = [], au_sessions = [], au_tokens = [], au_templates = [], au_assigned = []\<rparr>"

definition demo_boot :: access_db where
  "demo_boot = access_exec demo_env demo_start (ReqBootstrap ''o1'' ''salt'' ''owner'' ''correct horse'') demo_start"

definition demo_removed :: access_db where
  "demo_removed = access_exec demo_env demo_start (ReqDelete ''o1'') demo_boot"

lemma demo_run: "access_run 43200000000000 [demo_removed, demo_boot, demo_start]"
proof -
  have 0: "access_run 43200000000000 [demo_start]" unfolding demo_start_def by (rule access_run.start)
  have 1: "access_run 43200000000000 [demo_boot, demo_start]"
    unfolding demo_boot_def
    by (rule access_run.request[OF 0]) (simp_all add: demo_env_def used_ids_def demo_start_def)
  show ?thesis
    unfolding demo_removed_def
    by (rule access_run.request[OF 1]) (simp_all add: demo_env_def)
qed

lemma demo_boot_owner: "list_ex (\<lambda>a. ad_id a = ''o1'' \<and> ad_role a = RoleOwner) (au_admins demo_boot)"
  by code_simp

theorem owner_protected_witness:
  "\<exists>b \<in> set (au_admins demo_removed). ad_id b = ''o1'' \<and> ad_role b = RoleOwner \<and> ad_enabled b"
proof -
  obtain a where a: "a \<in> set (au_admins demo_boot)" "ad_id a = ''o1''" "ad_role a = RoleOwner"
    using demo_boot_owner by (auto simp: list_ex_iff)
  have "\<exists>b \<in> set (au_admins demo_removed). same_rights b a \<and> ad_enabled b"
    using owner_protected[OF demo_run] a(1,3) by simp
  then show ?thesis using a(2,3) by (auto simp: same_rights_def same_account_def)
qed

theorem access_tables_wf_witness: "access_wf 43200000000000 demo_boot \<and> HasOwner demo_boot"
proof
  show "access_wf 43200000000000 demo_boot" by (rule access_tables_wf[OF demo_run]) simp
  show "HasOwner demo_boot" by code_simp
qed

end
