(* ===== verification/Sales.thy ===== *)
theory Sales
  imports Corrections Allowlist
begin

text \<open>
  The tables of the sales side and how its transactions use the domain tables: plans and their
  assignment to resellers, subscription links, queued successors with their activation history, the
  journal of integration operations, and the audit lines the successor workflow writes. \<open>sl_db\<close> is
  the database of the domain services; its \<open>templates\<close> and \<open>resellers\<close> are the identifiers of the
  plan and reseller rows here. JSON columns hold their decoded values.
\<close>

section \<open>Rows\<close>

record plan =
  pl_id :: string
  pl_name :: string
  pl_limit :: "int option"
  pl_duration :: "int option"
  pl_policy :: start_policy
  pl_device_limit :: "int option"
  pl_speed_down :: "int option"
  pl_speed_up :: "int option"
  pl_interface :: "string option"
  pl_enabled :: bool
  pl_created :: time
  pl_updated :: time

record tenant =
  tn_id :: string
  tn_enabled :: bool

record sub_link =
  sb_user :: string
  sb_encrypted :: string
  sb_hash :: string
  sb_created :: time
  sb_rotated :: "time option"
  sb_revoked :: "time option"

record plan_terms =
  nt_name :: string
  nt_limit :: "int option"
  nt_duration :: "int option"
  nt_device_limit :: "int option"
  nt_speed_down :: "int option"
  nt_speed_up :: "int option"
  nt_interface :: "string option"

datatype queue_state = Queued | NeedsReview

record queue_row =
  nq_user :: string
  nq_template :: string
  nq_source :: "string option"
  nq_terms :: plan_terms
  nq_carry :: bool
  nq_state :: queue_state
  nq_reason :: string
  nq_scope :: string
  nq_created :: time
  nq_updated :: time

datatype trigger = ByTime | ByQuota

record entitlement_view =
  av_template :: "string option"
  av_expires :: "time option"
  av_limit :: "int option"
  av_used_rx :: int
  av_used_tx :: int
  av_status :: user_status

record activation =
  na_id :: string
  na_user :: string
  na_template :: string
  na_trigger :: trigger
  na_before :: entitlement_view
  na_after :: entitlement_view
  na_at :: time

record op_result =
  or_id :: string
  or_kind :: string
  or_user :: string
  or_device :: string
  or_devices :: "string list"
  or_template :: string
  or_before :: "quota_snapshot option"
  or_after :: "quota_snapshot option"
  or_created :: time

record operation =
  op_id :: string
  op_scope :: string
  op_key :: string
  op_kind :: string
  op_request :: string
  op_result :: op_result
  op_created :: time
  op_expires :: time

record audit_line =
  al_action :: string
  al_target :: string
  al_data :: payload

record sales =
  sl_db :: db
  sl_plans :: "plan list"
  sl_tenants :: "tenant list"
  sl_access :: "(string \<times> string) list"
  sl_links :: "sub_link list"
  sl_queue :: "queue_row list"
  sl_history :: "activation list"
  sl_operations :: "operation list"
  sl_audit :: "audit_line list"

section \<open>Transactions over the domain tables\<close>

text \<open>A transactional operation of a domain service inside a transaction of the sales side.\<close>

definition on_db :: "(db \<Rightarrow> ('a \<times> db) result) \<Rightarrow> sales \<Rightarrow> ('a \<times> sales) result" where
  "on_db f s = ebind (f (sl_db s)) (\<lambda>(x, d). Inr (x, s\<lparr>sl_db := d\<rparr>))"

lemma on_db_Inr [tx_simps]: "on_db f s = Inr (x, s') \<longleftrightarrow> (\<exists>d. f (sl_db s) = Inr (x, d) \<and> s' = s\<lparr>sl_db := d\<rparr>)"
  by (auto simp: on_db_def tx_simps split: prod.splits)

text \<open>The product a reseller may sell: enabled reseller, assigned plan.\<close>

definition assigned :: "sales \<Rightarrow> string \<Rightarrow> string \<Rightarrow> bool" where
  "assigned s rid tid \<longleftrightarrow> (rid, tid) \<in> set (sl_access s) \<and> list_ex (\<lambda>t. tn_id t = rid \<and> tn_enabled t) (sl_tenants s)"

text \<open>\<open>hex.EncodeToString\<close>.\<close>

definition hex_digit :: "nat \<Rightarrow> char" where
  "hex_digit n = char_of (if n < 10 then n + 48 else n + 87)"

fun hex_encode :: "byte list \<Rightarrow> string" where
  "hex_encode [] = []"
| "hex_encode (b # bs) = hex_digit (unat b div 16) # hex_digit (unat b mod 16) # hex_encode bs"

lemma length_hex_encode [simp]: "length (hex_encode bs) = 2 * length bs"
  by (induction bs) simp_all

text \<open>The part of the sales tables an operation on the domain database leaves alone.\<close>

definition same_sales :: "sales \<Rightarrow> sales \<Rightarrow> bool" where
  "same_sales s t \<longleftrightarrow> sl_plans t = sl_plans s \<and> sl_tenants t = sl_tenants s \<and> sl_access t = sl_access s
     \<and> sl_queue t = sl_queue s \<and> sl_history t = sl_history s \<and> sl_audit t = sl_audit s"

lemma same_sales_refl [simp]: "same_sales s s"
  by (simp add: same_sales_def)

end
