(* ===== verification/Plans.thy ===== *)
theory Plans
  imports Sales
begin

text \<open>
  Reusable presets (\<open>src/internal/plan/{plan,apply}.go\<close>). \<open>Update\<close> reads the row before it writes, so
  it is an operation on that snapshot; \<open>Delete\<close> counts before it deletes, so its counts are taken in
  an earlier state.
\<close>

section \<open>Input\<close>

record plan_input =
  pi_name :: string
  pi_limit :: "int opt"
  pi_duration :: "int option"
  pi_policy :: start_policy
  pi_device_limit :: "int opt"
  pi_speed_down :: "int opt"
  pi_speed_up :: "int opt"
  pi_interface :: "string opt"
  pi_enabled :: "bool option"

definition plan_validate :: "plan_input \<Rightarrow> unit result" where
  "plan_validate inp =
     (if TrimSpace (pi_name inp) = [] \<or> 64 < length (pi_name inp) then E CodeInvalidRequest
      else if opt_set (pi_limit inp) \<and> \<not> opt_null (pi_limit inp) \<and> opt_value (pi_limit inp) < 0
      then E CodeInvalidRequest
      else if \<exists>d \<in> set_option (pi_duration inp). d \<le> 0 then E CodeInvalidRequest
      else if \<exists>o1 \<in> set [pi_device_limit inp, pi_speed_down inp, pi_speed_up inp].
                opt_set o1 \<and> \<not> opt_null o1 \<and> opt_value o1 \<le> 0 then E CodeInvalidRequest
      else if pi_policy inp \<noteq> PolicyUnset \<and> \<not> policy_valid (pi_policy inp) then E CodeInvalidRequest
      else Inr ())"

definition optOfPtr :: "'a \<Rightarrow> 'a option \<Rightarrow> 'a opt" where
  "optOfPtr zero v = (case v of None \<Rightarrow> opt_absent zero
     | Some x \<Rightarrow> \<lparr>opt_set = True, opt_null = False, opt_value = x\<rparr>)"

section \<open>Operations\<close>

text \<open>The row \<open>INSERT INTO templates\<close> stores; an empty interface reference is NULL.\<close>

definition stored_plan :: "plan \<Rightarrow> plan" where
  "stored_plan p = p\<lparr>pl_interface := nullText (pl_interface p)\<rparr>"

definition plan_refs_ok :: "sales \<Rightarrow> plan \<Rightarrow> bool" where
  "plan_refs_ok s p \<longleftrightarrow> policy_valid (pl_policy p)
     \<and> (case nullText (pl_interface p) of None \<Rightarrow> True | Some i \<Rightarrow> i \<in> i_id ` set (ifaces (sl_db s)))"

definition plan_insert :: "plan \<Rightarrow> sales \<Rightarrow> unit result \<times> sales" where
  "plan_insert p s =
     (if pl_id p \<in> pl_id ` set (sl_plans s) \<or> pl_name p \<in> pl_name ` set (sl_plans s)
      then (E CodeInvalidRequest, s)
      else if \<not> plan_refs_ok s p then (Inl (Foreign ''plan: insert''), s)
      else (Inr (), s\<lparr>sl_plans := sl_plans s @ [stored_plan p],
                     sl_db := (sl_db s)\<lparr>templates := templates (sl_db s) @ [pl_id p]\<rparr>\<rparr>))"

definition plan_of_input :: "time \<Rightarrow> string \<Rightarrow> plan_input \<Rightarrow> plan" where
  "plan_of_input now new_id inp = \<lparr>pl_id = new_id, pl_name = TrimSpace (pi_name inp),
     pl_limit = opt_given (pi_limit inp), pl_duration = pi_duration inp,
     pl_policy = (if pi_policy inp = PolicyUnset then StartImmediate else pi_policy inp),
     pl_device_limit = opt_given (pi_device_limit inp),
     pl_speed_down = opt_given (pi_speed_down inp), pl_speed_up = opt_given (pi_speed_up inp),
     pl_interface = opt_resolve (pi_interface inp) None,
     pl_enabled = (case pi_enabled inp of None \<Rightarrow> True | Some b \<Rightarrow> b),
     pl_created = now, pl_updated = now\<rparr>"

definition Plan_Create :: "time \<Rightarrow> string \<Rightarrow> plan_input \<Rightarrow> sales \<Rightarrow> plan result \<times> sales" where
  "Plan_Create now new_id inp s =
     (case plan_validate inp of
        Inl e \<Rightarrow> (Inl e, s)
      | Inr _ \<Rightarrow>
          let p = plan_of_input now new_id inp
          in case plan_insert p s of (Inl e, s1) \<Rightarrow> (Inl e, s1) | (Inr _, s1) \<Rightarrow> (Inr p, s1))"

definition Plan_Get :: "sales \<Rightarrow> string \<Rightarrow> plan result" where
  "Plan_Get s pid = (case find_row pl_id pid (sl_plans s) of None \<Rightarrow> E CodePlanNotFound | Some p \<Rightarrow> Inr p)"

definition Plan_List :: "sales \<Rightarrow> plan list" where
  "Plan_List s = sort_key pl_name (sl_plans s)"

definition plan_merge :: "plan_input \<Rightarrow> plan \<Rightarrow> plan" where
  "plan_merge inp p = p\<lparr>
     pl_name := (if pi_name inp \<noteq> [] then TrimSpace (pi_name inp) else pl_name p),
     pl_limit := opt_resolve (pi_limit inp) (pl_limit p),
     pl_duration := (case pi_duration inp of None \<Rightarrow> pl_duration p | Some d \<Rightarrow> Some d),
     pl_policy := (if pi_policy inp \<noteq> PolicyUnset then pi_policy inp else pl_policy p),
     pl_device_limit := opt_resolve (pi_device_limit inp) (pl_device_limit p),
     pl_speed_down := opt_resolve (pi_speed_down inp) (pl_speed_down p),
     pl_speed_up := opt_resolve (pi_speed_up inp) (pl_speed_up p),
     pl_interface := opt_resolve (pi_interface inp) (pl_interface p),
     pl_enabled := (case pi_enabled inp of None \<Rightarrow> pl_enabled p | Some b \<Rightarrow> b)\<rparr>"

text \<open>The input \<open>Update\<close> validates: the merged row, without its duration and its start policy.\<close>

definition merged_input :: "plan \<Rightarrow> plan_input" where
  "merged_input p = \<lparr>pi_name = pl_name p, pi_limit = optOfPtr 0 (pl_limit p), pi_duration = None,
     pi_policy = PolicyUnset, pi_device_limit = optOfPtr 0 (pl_device_limit p),
     pi_speed_down = optOfPtr 0 (pl_speed_down p), pi_speed_up = optOfPtr 0 (pl_speed_up p),
     pi_interface = opt_absent [], pi_enabled = None\<rparr>"

definition plan_columns :: "plan \<Rightarrow> plan \<Rightarrow> plan" where
  "plan_columns p r = (stored_plan p)\<lparr>pl_id := pl_id r, pl_created := pl_created r\<rparr>"

definition plan_write :: "plan \<Rightarrow> sales \<Rightarrow> plan result \<times> sales" where
  "plan_write p s =
     (if pl_id p \<in> pl_id ` set (sl_plans s)
         \<and> (\<exists>r \<in> set (sl_plans s). pl_id r \<noteq> pl_id p \<and> pl_name r = pl_name p) then (E CodeInvalidRequest, s)
      else if pl_id p \<in> pl_id ` set (sl_plans s) \<and> \<not> plan_refs_ok s p then (Inl (Foreign ''plan: update''), s)
      else (Inr p, s\<lparr>sl_plans := update_rows (\<lambda>r. pl_id r = pl_id p) (plan_columns p) (sl_plans s)\<rparr>))"

definition Plan_Update_from :: "time \<Rightarrow> plan \<Rightarrow> plan_input \<Rightarrow> sales \<Rightarrow> plan result \<times> sales" where
  "Plan_Update_from now p inp s =
     (if pi_policy inp \<noteq> PolicyUnset \<and> \<not> policy_valid (pi_policy inp) then (E CodeInvalidRequest, s)
      else let p' = plan_merge inp p
           in case plan_validate (merged_input p') of
                Inl e \<Rightarrow> (Inl e, s)
              | Inr _ \<Rightarrow> plan_write (p'\<lparr>pl_updated := now\<rparr>) s)"

definition Plan_Update :: "time \<Rightarrow> string \<Rightarrow> plan_input \<Rightarrow> sales \<Rightarrow> plan result \<times> sales" where
  "Plan_Update now pid inp s =
     (case Plan_Get s pid of Inl e \<Rightarrow> (Inl e, s) | Inr p \<Rightarrow> Plan_Update_from now p inp s)"

text \<open>
  \<open>DELETE FROM templates\<close>: a queued successor restricts it, accounts lose their reference and
  assignments go with the row.
\<close>

definition plan_remove :: "string \<Rightarrow> sales \<Rightarrow> unit result \<times> sales" where
  "plan_remove pid s =
     (if pid \<notin> pl_id ` set (sl_plans s) then (E CodePlanNotFound, s)
      else if pid \<in> nq_template ` set (sl_queue s) then (Inl (Foreign ''plan: delete''), s)
      else (Inr (), s\<lparr>sl_plans := delete_rows (\<lambda>p. pl_id p = pid) (sl_plans s),
              sl_access := delete_rows (\<lambda>a. snd a = pid) (sl_access s),
              sl_db := (sl_db s)\<lparr>templates := removeAll pid (templates (sl_db s)),
                users := update_rows (\<lambda>u. u_template u = Some pid) (\<lambda>u. u\<lparr>u_template := None\<rparr>) (users (sl_db s))\<rparr>\<rparr>))"

definition Plan_Delete :: "sales \<Rightarrow> string \<Rightarrow> sales \<Rightarrow> unit result \<times> sales" where
  "Plan_Delete seen pid s =
     (if list_ex (\<lambda>u. u_template u = Some pid \<and> u_deleted u = None) (users (sl_db seen)) then (E CodePlanInUse, s)
      else if list_ex (\<lambda>q. nq_template q = pid) (sl_queue seen) then (E CodePlanInUse, s)
      else plan_remove pid s)"

section \<open>Provisioning from a plan\<close>

definition ApplyToUser :: "plan \<Rightarrow> user_input \<Rightarrow> user_input" where
  "ApplyToUser p inp = inp\<lparr>in_template := \<lparr>opt_set = True, opt_null = False, opt_value = pl_id p\<rparr>,
     in_limit := optOfPtr 0 (pl_limit p), in_device_limit := optOfPtr 0 (pl_device_limit p),
     in_speed_down := optOfPtr 0 (pl_speed_down p), in_speed_up := optOfPtr 0 (pl_speed_up p),
     in_interface := optOfPtr [] (pl_interface p), in_policy := pl_policy p,
     in_duration := pl_duration p, in_expires := None\<rparr>"

section \<open>The plan table\<close>

definition plan_ok :: "plan \<Rightarrow> bool" where
  "plan_ok p \<longleftrightarrow> pl_name p \<noteq> [] \<and> length (pl_name p) \<le> 64 \<and> policy_valid (pl_policy p)
     \<and> (\<forall>v \<in> set_option (pl_limit p). 0 \<le> v)
     \<and> positive (pl_device_limit p) \<and> positive (pl_speed_down p) \<and> positive (pl_speed_up p)"

definition plans_inv :: "sales \<Rightarrow> bool" where
  "plans_inv s \<longleftrightarrow> unique_on pl_id (sl_plans s) \<and> unique_on pl_name (sl_plans s)
     \<and> pl_id ` set (sl_plans s) = set (templates (sl_db s)) \<and> (\<forall>p \<in> set (sl_plans s). plan_ok p)"

lemma trim_left_length: "length (trim_left ws s) \<le> length s"
proof (induction ws s rule: trim_left.induct)
  case (1 ws s)
  then show ?case by (subst trim_left.simps) (auto split: option.splits)
qed

lemma TrimSpace_length: "length (TrimSpace s) \<le> length s"
  unfolding TrimSpace_def using trim_left_length[of "map rev space_texts" "rev (trim_left space_texts s)"]
    trim_left_length[of space_texts s] by simp

lemma TrimSpace_Nil [simp]: "TrimSpace [] = []"
  using TrimSpace_length[of "[]"] by simp

lemma optOfPtr_simps [simp]:
  "optOfPtr z None = opt_absent z" "opt_set (optOfPtr z (Some v))" "\<not> opt_null (optOfPtr z (Some v))"
  "opt_value (optOfPtr z (Some v)) = v" "opt_given (optOfPtr z m) = m" "opt_resolve (optOfPtr z m) None = m"
  by (auto simp: optOfPtr_def opt_absent_def opt_given_def opt_resolve_def split: option.splits)

lemma plan_validate_ok:
  assumes "plan_validate inp = Inr ()"
  shows "TrimSpace (pi_name inp) \<noteq> []" "length (pi_name inp) \<le> 64"
    "\<forall>v \<in> set_option (opt_given (pi_limit inp)). 0 \<le> v" "positive (pi_duration inp)"
    "positive (opt_given (pi_device_limit inp))" "positive (opt_given (pi_speed_down inp))"
    "positive (opt_given (pi_speed_up inp))" "pi_policy inp = PolicyUnset \<or> policy_valid (pi_policy inp)"
  using assms by (auto simp: plan_validate_def opt_given_def positive_def split: if_splits)

lemma plan_ok_created: "plan_validate inp = Inr () \<Longrightarrow> plan_ok (stored_plan (plan_of_input now new_id inp))"
  using plan_validate_ok[of inp] TrimSpace_length[of "pi_name inp"]
  by (auto simp: plan_ok_def stored_plan_def plan_of_input_def)

lemma plan_ok_merged:
  assumes "plan_validate (merged_input p) = Inr ()" "policy_valid (pl_policy p)"
  shows "plan_ok (plan_columns (p\<lparr>pl_updated := now\<rparr>) r)"
  using plan_validate_ok[OF assms(1)] assms(2)
  by (auto simp: plan_ok_def plan_columns_def stored_plan_def merged_input_def)

interpretation plan_row: row_update pl_id "plan_columns p"
  by unfold_locales (simp add: plan_columns_def)

lemma plan_write_ok:
  assumes "plan_write p s = (Inr p', s')"
  shows "p' = p" "s' = s\<lparr>sl_plans := update_rows (\<lambda>r. pl_id r = pl_id p) (plan_columns p) (sl_plans s)\<rparr>"
    "pl_id p \<in> pl_id ` set (sl_plans s) \<Longrightarrow> (\<forall>r \<in> set (sl_plans s). pl_id r \<noteq> pl_id p \<longrightarrow> pl_name r \<noteq> pl_name p)"
  using assms by (auto simp: plan_write_def split: if_splits)

lemma plan_write_inv:
  assumes "plans_inv s" "plan_write p s = (Inr p', s')" "\<And>r. plan_ok (plan_columns p r)"
  shows "plans_inv s'"
proof -
  note w = plan_write_ok[OF assms(2)]
  have u: "unique_on pl_id (sl_plans s)" "unique_on pl_name (sl_plans s)" using assms(1) by (simp_all add: plans_inv_def)
  have "unique_on pl_name (sl_plans s')"
  proof (cases "pl_id p \<in> pl_id ` set (sl_plans s)")
    case True
    then obtain r where r: "r \<in> set (sl_plans s)" "pl_id p = pl_id r" by auto
    have "unique_on pl_name (update_rows (\<lambda>x. pl_id x = pl_id r) (plan_columns p) (sl_plans s))"
      by (rule unique_on_update_one[OF u(2,1) r(1)]) (use w(3)[OF True] r(2) in \<open>auto simp: plan_columns_def stored_plan_def\<close>)
    with w(2) r(2) show ?thesis by simp
  next
    case False
    then have "update_rows (\<lambda>r. pl_id r = pl_id p) (plan_columns p) (sl_plans s) = sl_plans s"
      by (intro update_rows_none) (metis imageI)
    with w(2) u show ?thesis by simp
  qed
  moreover have "\<forall>r \<in> set (sl_plans s'). plan_ok r"
    using assms(1,3) by (auto simp: w(2) set_update_rows plans_inv_def)
  ultimately show ?thesis
    using assms(1) by (simp add: plans_inv_def w(2) plan_row.unique_update plan_row.keys_update)
qed

lemma plan_insert_ok:
  assumes "plan_insert p s = (Inr x, s')"
  shows "pl_id p \<notin> pl_id ` set (sl_plans s)" "pl_name p \<notin> pl_name ` set (sl_plans s)"
    "sl_plans s' = sl_plans s @ [stored_plan p]" "templates (sl_db s') = templates (sl_db s) @ [pl_id p]"
    "s' = s\<lparr>sl_plans := sl_plans s @ [stored_plan p], sl_db := (sl_db s)\<lparr>templates := templates (sl_db s) @ [pl_id p]\<rparr>\<rparr>"
  using assms by (auto simp: plan_insert_def split: if_splits)

lemma plan_insert_inv:
  assumes "plans_inv s" "plan_insert p s = (Inr x, s')" "plan_ok (stored_plan p)"
  shows "plans_inv s'"
  using assms plan_insert_ok[OF assms(2)]
  by (auto simp: plans_inv_def unique_on_append_one stored_plan_def)

lemma Plan_Get_Inr: "Plan_Get s pid = Inr p \<longleftrightarrow> find_row pl_id pid (sl_plans s) = Some p"
  by (auto simp: Plan_Get_def split: option.splits)

text \<open>What a plan created from an input has, and what a patch makes of an optional field.\<close>

definition described :: "plan_input \<Rightarrow> plan \<Rightarrow> bool" where
  "described inp p \<longleftrightarrow> pl_name p = TrimSpace (pi_name inp) \<and> pl_limit p = opt_given (pi_limit inp)
     \<and> pl_duration p = pi_duration inp \<and> (pi_policy inp \<noteq> PolicyUnset \<longrightarrow> pl_policy p = pi_policy inp)
     \<and> pl_device_limit p = opt_given (pi_device_limit inp) \<and> pl_speed_down p = opt_given (pi_speed_down inp)
     \<and> pl_speed_up p = opt_given (pi_speed_up inp) \<and> (pl_enabled p \<longleftrightarrow> pi_enabled inp \<noteq> Some False)"

definition patched :: "'a opt \<Rightarrow> 'a option \<Rightarrow> 'a option" where
  "patched v old = (if \<not> opt_set v then old else if opt_null v then None else Some (opt_value v))"

definition patched_plan :: "plan_input \<Rightarrow> plan \<Rightarrow> plan \<Rightarrow> bool" where
  "patched_plan inp p p' \<longleftrightarrow> pl_name p' = (if pi_name inp = [] then pl_name p else TrimSpace (pi_name inp))
     \<and> pl_limit p' = patched (pi_limit inp) (pl_limit p) \<and> pl_device_limit p' = patched (pi_device_limit inp) (pl_device_limit p)
     \<and> pl_speed_down p' = patched (pi_speed_down inp) (pl_speed_down p)
     \<and> pl_speed_up p' = patched (pi_speed_up inp) (pl_speed_up p)
     \<and> pl_interface p' = patched (pi_interface inp) (pl_interface p)
     \<and> (pi_duration inp = None \<longrightarrow> pl_duration p' = pl_duration p) \<and> (pi_policy inp = PolicyUnset \<longrightarrow> pl_policy p' = pl_policy p)
     \<and> (pi_enabled inp = None \<longrightarrow> pl_enabled p' = pl_enabled p) \<and> pl_created p' = pl_created p"

lemma plan_merge_patched: "patched_plan inp p ((plan_merge inp p)\<lparr>pl_updated := now\<rparr>)"
  by (simp add: patched_plan_def patched_def plan_merge_def opt_resolve_def)

lemma Plan_Create_ok:
  assumes "plans_inv s" "Plan_Create now new_id inp s = (Inr p, s')"
  shows "plans_inv s'" "Plan_Get s' new_id = Inr (stored_plan p)" "described inp p"
    "pl_name p \<notin> pl_name ` set (sl_plans s)" "positive (pl_duration p)"
    "other \<noteq> new_id \<Longrightarrow> Plan_Get s' other = Plan_Get s other"
proof -
  from assms(2) have v: "plan_validate inp = Inr ()" and p: "p = plan_of_input now new_id inp" and i: "plan_insert p s = (Inr (), s')"
    by (auto simp: Plan_Create_def Let_def split: sum.splits prod.splits)
  note ok = plan_insert_ok[OF i]
  have ids: "pl_id p = new_id" "pl_id (stored_plan p) = new_id" by (simp_all add: p plan_of_input_def stored_plan_def)
  have "find_row pl_id new_id (sl_plans s) = None" using ok(1) ids by (simp add: find_row_None_iff)
  then show "Plan_Get s' new_id = Inr (stored_plan p)"
    using ids by (simp add: Plan_Get_def ok(3) row_simps find_row_Cons)
  show "plans_inv s'" by (rule plan_insert_inv[OF assms(1) i]) (simp add: p plan_ok_created[OF v])
  show "other \<noteq> new_id \<Longrightarrow> Plan_Get s' other = Plan_Get s other"
    using ids by (auto simp: Plan_Get_def ok(3) row_simps find_row_Cons split: option.splits)
  show "pl_name p \<notin> pl_name ` set (sl_plans s)" by (fact ok(2))
  show "positive (pl_duration p)" "described inp p"
    using plan_validate_ok(4)[OF v] by (auto simp: p plan_of_input_def described_def split: option.splits)
qed

lemma Plan_Update_ok:
  assumes "plans_inv s" "Plan_Update now pid inp s = (Inr p', s')"
  obtains p where "Plan_Get s pid = Inr p" "p' = (plan_merge inp p)\<lparr>pl_updated := now\<rparr>" "plans_inv s'"
    "Plan_Get s' pid = Inr (stored_plan p')" "\<And>other. other \<noteq> pid \<Longrightarrow> Plan_Get s' other = Plan_Get s other"
    "sl_db s' = sl_db s"
proof -
  from assms(2) obtain p where g: "Plan_Get s pid = Inr p"
    and pol: "pi_policy inp = PolicyUnset \<or> policy_valid (pi_policy inp)"
    and v: "plan_validate (merged_input (plan_merge inp p)) = Inr ()"
    and w: "plan_write ((plan_merge inp p)\<lparr>pl_updated := now\<rparr>) s = (Inr p', s')"
    by (auto simp: Plan_Update_def Plan_Update_from_def Let_def split: sum.splits if_splits)
  note wo = plan_write_ok[OF w]
  have f: "find_row pl_id pid (sl_plans s) = Some p" using g by (simp add: Plan_Get_Inr)
  have pid: "pl_id p = pid" "p \<in> set (sl_plans s)" using f by auto
  have ids: "pl_id p' = pid" "pl_created p' = pl_created p" using pid by (simp_all add: wo(1) plan_merge_def)
  have rows: "sl_plans s' = update_rows (\<lambda>r. pl_id r = pid) (plan_columns p') (sl_plans s)" "sl_db s' = sl_db s"
    using wo(1,2) ids by simp_all
  have "policy_valid (pl_policy (plan_merge inp p))"
    using pol pid(2) assms(1) by (auto simp: plan_merge_def plans_inv_def plan_ok_def)
  then have "plans_inv s'" by (intro plan_write_inv[OF assms(1) w] plan_ok_merged[OF v])
  moreover have "Plan_Get s' pid = Inr (stored_plan p')"
    unfolding Plan_Get_def rows using f ids pid
    by (simp add: plan_row.find_update_self plan_columns_def stored_plan_def)
  moreover have "\<And>other. other \<noteq> pid \<Longrightarrow> Plan_Get s' other = Plan_Get s other"
    by (simp add: Plan_Get_def rows plan_row.find_update_other)
  ultimately show ?thesis using that g wo(1) rows(2) by blast
qed

lemma Plan_Delete_ok:
  assumes "Plan_Delete seen pid s = (Inr x, s')"
  shows "pid \<in> pl_id ` set (sl_plans s)" "pid \<notin> nq_template ` set (sl_queue s)"
    "Plan_Get s' pid = E CodePlanNotFound" "other \<noteq> pid \<Longrightarrow> Plan_Get s' other = Plan_Get s other"
    "u \<in> set (users (sl_db seen)) \<Longrightarrow> u_template u = Some pid \<Longrightarrow> u_deleted u \<noteq> None"
    "u \<in> set (users (sl_db s')) \<Longrightarrow> u_template u \<noteq> Some pid"
    "sl_plans s' = delete_rows (\<lambda>p. pl_id p = pid) (sl_plans s)" "templates (sl_db s') = removeAll pid (templates (sl_db s))"
  using assms
  by (auto simp: Plan_Delete_def plan_remove_def list_ex_iff Plan_Get_def find_row_delete_self
      find_row_delete_other set_update_rows split: if_splits option.splits)

lemma Plan_Delete_inv: "plans_inv s \<Longrightarrow> Plan_Delete seen pid s = (Inr x, s') \<Longrightarrow> plans_inv s'"
  using Plan_Delete_ok(7,8)[of seen pid s x s']
  by (simp add: plans_inv_def unique_on_delete keys_delete_rows)


section \<open>Example data\<close>

definition demo_terms :: plan_input where
  "demo_terms = \<lparr>pi_name = ''basic'', pi_limit = \<lparr>opt_set = True, opt_null = False, opt_value = 1000\<rparr>, pi_duration = Some 60,
     pi_policy = PolicyUnset, pi_device_limit = \<lparr>opt_set = True, opt_null = False, opt_value = 2\<rparr>,
     pi_speed_down = opt_absent 0, pi_speed_up = opt_absent 0, pi_interface = opt_absent [], pi_enabled = None\<rparr>"

definition demo_plan :: plan where
  "demo_plan = \<lparr>pl_id = ''p1'', pl_name = ''basic'', pl_limit = Some 1000, pl_duration = Some 60, pl_policy = StartImmediate,
     pl_device_limit = Some 2, pl_speed_down = None, pl_speed_up = None, pl_interface = None, pl_enabled = True,
     pl_created = 5, pl_updated = 5\<rparr>"

definition demo_sales :: sales where
  "demo_sales = \<lparr>sl_db = example_db\<lparr>templates := [''p1'']\<rparr>, sl_plans = [demo_plan],
     sl_tenants = [\<lparr>tn_id = ''r1'', tn_enabled = True\<rparr>], sl_access = [(''r1'', ''p1'')], sl_links = [], sl_queue = [],
     sl_history = [], sl_operations = [], sl_audit = []\<rparr>"

lemma demo_sales_inv: "plans_inv demo_sales"
  by (simp add: plans_inv_def demo_sales_def demo_plan_def unique_on_def plan_ok_def)

definition no_change :: plan_input where
  "no_change = \<lparr>pi_name = [], pi_limit = opt_absent 0, pi_duration = None, pi_policy = PolicyUnset,
     pi_device_limit = opt_absent 0, pi_speed_down = opt_absent 0, pi_speed_up = opt_absent 0,
     pi_interface = opt_absent [], pi_enabled = None\<rparr>"

lemma TrimSpace_basic [simp]: "TrimSpace ''basic'' = ''basic''"
  by (code_simp)

text \<open>
  A patched duration is not validated. \<^verbatim>\<open>Create\<close> refuses a plan whose duration is not positive; \<^verbatim>\<open>Update\<close> checks the
  merged plan without its duration, so a patch that carries only a zero or negative duration is stored,
  and from then on no account can be created from the plan.
\<close>

theorem update_stores_bad_duration:
  assumes "plans_inv s" "Plan_Get s pid = Inr p" "TrimSpace (pl_name p) \<noteq> []" "plan_refs_ok s p" "d \<le> 0"
  shows "(\<exists>p' s'. Plan_Update now pid (no_change\<lparr>pi_duration := Some d\<rparr>) s = (Inr p', s')
      \<and> Plan_Get s' pid = Inr (stored_plan p') \<and> pl_duration (stored_plan p') = Some d
      \<and> (\<forall>svc nid inp. CreateTx svc (sl_db s') nid (ApplyToUser (stored_plan p') inp) = E CodeInvalidRequest))
    \<and> (\<forall>inp new_id. pi_duration inp = Some d \<longrightarrow> Plan_Create now new_id inp s = (E CodeInvalidRequest, s))"
proof -
  let ?inp = "no_change\<lparr>pi_duration := Some d\<rparr>" and ?p = "p\<lparr>pl_duration := Some d\<rparr>"
  have m: "plan_merge ?inp p = ?p" by (simp add: plan_merge_def no_change_def opt_resolve_def opt_absent_def)
  have pol: "pi_policy ?inp = PolicyUnset" by (simp add: no_change_def)
  have f: "find_row pl_id pid (sl_plans s) = Some p" using assms(2) by (simp add: Plan_Get_Inr)
  then have p: "p \<in> set (sl_plans s)" "pl_id p = pid" by auto
  then have ok: "plan_ok p" using assms(1) by (simp add: plans_inv_def)
  have v: "plan_validate (merged_input ?p) = Inr ()"
    using ok assms(3)
    by (cases "pl_limit p"; cases "pl_device_limit p"; cases "pl_speed_down p"; cases "pl_speed_up p")
      (auto simp: plan_validate_def merged_input_def plan_ok_def opt_absent_def)
  have "\<not> (\<exists>r \<in> set (sl_plans s). pl_id r \<noteq> pl_id p \<and> pl_name r = pl_name p)"
    using assms(1) p(1) unique_on_eq[of pl_name "sl_plans s" _ p] by (auto simp: plans_inv_def)
  moreover have "plan_refs_ok s (?p\<lparr>pl_updated := now\<rparr>)" using assms(4) by (simp add: plan_refs_ok_def)
  ultimately obtain s' where u: "Plan_Update now pid ?inp s = (Inr (?p\<lparr>pl_updated := now\<rparr>), s')"
    using assms(2) by (simp add: Plan_Update_def Plan_Update_from_def Let_def m v plan_write_def pol)
  then have g: "Plan_Get s' pid = Inr (stored_plan (?p\<lparr>pl_updated := now\<rparr>))"
    by (rule Plan_Update_ok[OF assms(1)]) blast
  have "CreateTx svc t nid (ApplyToUser (stored_plan (?p\<lparr>pl_updated := now\<rparr>)) inp) = E CodeInvalidRequest" for svc t nid inp
    using assms(5) by (auto simp: CreateTx_def validateLimits_def ApplyToUser_def stored_plan_def)
  moreover have "pi_duration inp = Some d \<Longrightarrow> Plan_Create now new_id inp s = (E CodeInvalidRequest, s)" for inp new_id
    using assms(5) by (auto simp: Plan_Create_def plan_validate_def)
  ultimately show ?thesis using u g by (auto simp: stored_plan_def)
qed


theorem update_stores_bad_duration_witness:
  "\<exists>p' s'. Plan_Update 9 ''p1'' (no_change\<lparr>pi_duration := Some (- 5)\<rparr>) demo_sales = (Inr p', s')
     \<and> pl_duration (stored_plan p') = Some (- 5)"
proof -
  have "Plan_Get demo_sales ''p1'' = Inr demo_plan" "TrimSpace (pl_name demo_plan) \<noteq> []" "plan_refs_ok demo_sales demo_plan"
    by (simp_all add: Plan_Get_def demo_sales_def demo_plan_def find_row_def plan_refs_ok_def)
  from update_stores_bad_duration[OF demo_sales_inv this, of "- 5" 9, simplified] show ?thesis by blast
qed

end
