(* ===== verification/Links.thy ===== *)
theory Links
  imports Plans
begin

text \<open>
  Subscription links (\<open>src/internal/subscription/subscription.go\<close>): one capability token per account,
  kept encrypted for display and hashed for lookup. SHA-256, the key ring and the entropy of a new
  token are arguments. \<open>Ensure\<close> looks before it inserts and \<open>RotateAccess\<close> lists the devices before
  its transaction, so both read an earlier state \<open>seen\<close>.
\<close>

record link_service =
  ls_now :: time
  ls_encrypt :: "string \<Rightarrow> string result"
  ls_decrypt :: "string \<Rightarrow> string result"
  ls_sha256 :: "string \<Rightarrow> byte list"

record link =
  lk_user :: string
  lk_token :: string
  lk_created :: time
  lk_rotated :: "time option"
  lk_revoked :: "time option"

definition link_Revoked :: "link \<Rightarrow> bool" where
  "link_Revoked l \<longleftrightarrow> lk_revoked l \<noteq> None"

section \<open>Tokens\<close>

text \<open>\<open>base64.RawURLEncoding\<close>: the URL alphabet, no padding.\<close>

definition url_char :: "char \<Rightarrow> char" where
  "url_char c = (if c = CHR ''+'' then CHR ''-'' else if c = CHR ''/'' then CHR ''_'' else c)"

definition raw_url_encode :: "byte list \<Rightarrow> string" where
  "raw_url_encode bs = map url_char (filter (\<lambda>c. c \<noteq> CHR ''='') (b64_encode bs))"

text \<open>The argument is the 32-byte buffer \<open>rand.Read\<close> has filled, or its error.\<close>

definition NewToken :: "byte list result \<Rightarrow> string result" where
  "NewToken mint = ebind mint (\<lambda>buf. Inr (raw_url_encode buf))"

definition HashToken :: "link_service \<Rightarrow> string \<Rightarrow> string" where
  "HashToken svc token = hex_encode (ls_sha256 svc token)"

section \<open>Reading\<close>

definition scanLink :: "link_service \<Rightarrow> sub_link \<Rightarrow> link" where
  "scanLink svc r = \<lparr>lk_user = sb_user r, lk_token = (case ls_decrypt svc (sb_encrypted r) of Inr pt \<Rightarrow> pt | Inl _ \<Rightarrow> []),
     lk_created = sb_created r, lk_rotated = sb_rotated r, lk_revoked = sb_revoked r\<rparr>"

definition ForUser :: "link_service \<Rightarrow> sales \<Rightarrow> string \<Rightarrow> link option" where
  "ForUser svc s uid = map_option (scanLink svc) (find_row sb_user uid (sl_links s))"

definition ForUsers :: "link_service \<Rightarrow> sales \<Rightarrow> string list \<Rightarrow> string \<Rightarrow> link option" where
  "ForUsers svc s uids uid =
     (if uids = [] then None
      else map_option (scanLink svc) (find_row sb_user uid (filter (\<lambda>r. sb_user r \<in> set uids) (sl_links s))))"

definition Resolve :: "link_service \<Rightarrow> sales \<Rightarrow> string \<Rightarrow> string result" where
  "Resolve svc s token =
     (if token = [] \<or> 128 < length token then E CodeUserNotFound
      else case find_row sb_hash (HashToken svc token) (sl_links s) of
             None \<Rightarrow> E CodeUserNotFound
           | Some r \<Rightarrow> if sb_revoked r \<noteq> None then E CodeUserNotFound else Inr (sb_user r))"

section \<open>Issuing\<close>

definition unique_failed :: string where
  "unique_failed = ''UNIQUE constraint failed''"

definition insert_link :: "sub_link \<Rightarrow> sales \<Rightarrow> sales result" where
  "insert_link r s =
     (if sb_user r \<in> sb_user ` set (sl_links s) \<or> sb_hash r \<in> sb_hash ` set (sl_links s) then Inl (Foreign unique_failed)
      else if sb_user r \<notin> u_id ` set (users (sl_db s)) then Inl (Foreign ''FOREIGN KEY constraint failed'')
      else Inr (s\<lparr>sl_links := sl_links s @ [r]\<rparr>))"

definition new_link_row :: "link_service \<Rightarrow> string \<Rightarrow> string \<Rightarrow> string \<Rightarrow> sub_link" where
  "new_link_row svc uid token enc = \<lparr>sb_user = uid, sb_encrypted = enc, sb_hash = HashToken svc token,
     sb_created = ls_now svc, sb_rotated = None, sb_revoked = None\<rparr>"

definition issued :: "link_service \<Rightarrow> string \<Rightarrow> string \<Rightarrow> link" where
  "issued svc uid token = \<lparr>lk_user = uid, lk_token = token, lk_created = ls_now svc, lk_rotated = None, lk_revoked = None\<rparr>"

definition Ensure :: "link_service \<Rightarrow> byte list result \<Rightarrow> sales \<Rightarrow> string \<Rightarrow> sales \<Rightarrow> link option result \<times> sales" where
  "Ensure svc mint seen uid s =
     (case ForUser svc seen uid of
        Some l \<Rightarrow> (Inr (Some l), s)
      | None \<Rightarrow>
          (case ebind (NewToken mint) (\<lambda>token. ebind (ls_encrypt svc token) (\<lambda>enc. Inr (token, enc))) of
             Inl e \<Rightarrow> (Inl e, s)
           | Inr (token, enc) \<Rightarrow>
               (case insert_link (new_link_row svc uid token enc) s of
                  Inr s1 \<Rightarrow> (Inr (Some (issued svc uid token)), s1)
                | Inl e \<Rightarrow> if e = Foreign unique_failed then (Inr (ForUser svc s uid), s) else (Inl e, s))))"

definition Link_CreateTx :: "link_service \<Rightarrow> byte list result \<Rightarrow> string \<Rightarrow> sales \<Rightarrow> (link \<times> sales) result" where
  "Link_CreateTx svc mint uid s =
     ebind (NewToken mint) (\<lambda>token. ebind (ls_encrypt svc token) (\<lambda>enc.
       ebind (insert_link (new_link_row svc uid token enc) s) (\<lambda>s1. Inr (issued svc uid token, s1))))"

section \<open>Rotation and revocation\<close>

definition rotate_link :: "link_service \<Rightarrow> string \<Rightarrow> string \<Rightarrow> sub_link \<Rightarrow> sub_link" where
  "rotate_link svc token enc r = r\<lparr>sb_encrypted := enc, sb_hash := HashToken svc token,
     sb_rotated := Some (ls_now svc), sb_revoked := None\<rparr>"

definition RegenerateTx :: "link_service \<Rightarrow> byte list result \<Rightarrow> string \<Rightarrow> sales \<Rightarrow> (link \<times> sales) result" where
  "RegenerateTx svc mint uid s =
     ebind (NewToken mint) (\<lambda>token. ebind (ls_encrypt svc token) (\<lambda>enc.
       let l = (issued svc uid token)\<lparr>lk_rotated := Some (ls_now svc)\<rparr>
       in if uid \<in> sb_user ` set (sl_links s) then
            (if \<exists>r \<in> set (sl_links s). sb_user r \<noteq> uid \<and> sb_hash r = HashToken svc token then Inl (Foreign unique_failed)
             else Inr (l, s\<lparr>sl_links := update_rows (\<lambda>r. sb_user r = uid) (rotate_link svc token enc) (sl_links s)\<rparr>))
          else ebind (insert_link ((new_link_row svc uid token enc)\<lparr>sb_rotated := Some (ls_now svc)\<rparr>) s) (\<lambda>s1. Inr (l, s1))))"

definition Link_Regenerate :: "link_service \<Rightarrow> byte list result \<Rightarrow> string \<Rightarrow> sales \<Rightarrow> link result \<times> sales" where
  "Link_Regenerate svc mint uid s = WithTx s (RegenerateTx svc mint uid)"

definition SetRevoked :: "link_service \<Rightarrow> string \<Rightarrow> bool \<Rightarrow> sales \<Rightarrow> link option result \<times> sales" where
  "SetRevoked svc uid revoked s =
     (if uid \<notin> sb_user ` set (sl_links s) then (E CodeInvalidRequest, s)
      else let s1 = s\<lparr>sl_links := update_rows (\<lambda>r. sb_user r = uid)
                       (\<lambda>r. r\<lparr>sb_revoked := (if revoked then Some (ls_now svc) else None)\<rparr>) (sl_links s)\<rparr>
           in (Inr (ForUser svc s1 uid), s1))"

text \<open>
  The generated key pairs and preshared keys arrive by position; a device without a preshared key
  gets none.
\<close>

fun rotation_keys ::
  "link_service \<Rightarrow> (nat \<Rightarrow> (string \<times> string) result) \<Rightarrow> (nat \<Rightarrow> string result) \<Rightarrow> nat \<Rightarrow> device list \<Rightarrow> rotation list result" where
  "rotation_keys svc pairs psks n [] = Inr []"
| "rotation_keys svc pairs psks n (d # ds) =
     ebind (pairs n) (\<lambda>(public, private). ebind (ls_encrypt svc private) (\<lambda>privEnc.
       ebind (case d_psk d of
                None \<Rightarrow> Inr None
              | Some c \<Rightarrow> if c = [] then Inr None else ebind (psks n) (\<lambda>psk. ebind (ls_encrypt svc psk) (\<lambda>enc. Inr (Some enc))))
         (\<lambda>pskEnc. ebind (rotation_keys svc pairs psks (Suc n) ds) (\<lambda>rest.
           Inr ((d_id d, \<lparr>k_public = public, k_private = privEnc, k_psk = pskEnc\<rparr>) # rest)))))"

definition RotateAccess ::
  "link_service \<Rightarrow> device_service \<Rightarrow> (nat \<Rightarrow> (string \<times> string) result) \<Rightarrow> (nat \<Rightarrow> string result) \<Rightarrow> byte list result
     \<Rightarrow> sales \<Rightarrow> string \<Rightarrow> sales \<Rightarrow> (link \<times> nat) result \<times> sales" where
  "RotateAccess svc dsvc pairs psks mint seen uid s =
     (case ebind (ListForUser (sl_db seen) uid) (rotation_keys svc pairs psks 0) of
        Inl e \<Rightarrow> (Inl e, s)
      | Inr rotations \<Rightarrow>
          WithTx s (\<lambda>s. ebind (on_db (\<lambda>d. ReplaceUserCredentialsTx dsvc d uid rotations) s) (\<lambda>(_, s1).
            ebind (RegenerateTx svc mint uid s1) (\<lambda>(l, s2).
              if lk_token l = [] then E CodeNodeUnavailable else Inr ((l, length rotations), s2)))))"

section \<open>Tokens are distinct\<close>

lemma quantum_char_url: "quantum_char n k \<noteq> CHR ''-''" "quantum_char n k \<noteq> CHR ''_''"
proof -
  have "b64_value CHR ''-'' = None" "b64_value CHR ''_'' = None" by (simp_all add: b64_value_def)
  moreover have "b64_value (quantum_char n k) \<noteq> None" by (simp add: quantum_char_def)
  ultimately show "quantum_char n k \<noteq> CHR ''-''" "quantum_char n k \<noteq> CHR ''_''" by metis+
qed

lemma url_alphabet: "c \<in> set (b64_encode bs) \<Longrightarrow> c \<noteq> CHR ''-'' \<and> c \<noteq> CHR ''_''"
  by (induction bs rule: b64_encode.induct) (auto simp: Let_def quantum_char_url)

lemma b64_padding:
  "b64_encode bs = filter (\<lambda>c. c \<noteq> CHR ''='') (b64_encode bs) @ replicate ((3 - length bs mod 3) mod 3) CHR ''=''"
proof (induction bs rule: b64_encode.induct)
  case (4 x y z rest)
  have "(3 - length (x # y # z # rest) mod 3) mod 3 = (3 - length rest mod 3) mod 3"
    by (simp add: numeral_3_eq_3[symmetric])
  with 4 show ?case by (simp add: Let_def)
qed (simp_all add: Let_def numeral_2_eq_2)

lemma url_char_inj: "inj_on url_char {c. c \<noteq> CHR ''-'' \<and> c \<noteq> CHR ''_''}"
  by (auto simp: inj_on_def url_char_def split: if_splits)

lemma raw_url_encode_inj:
  assumes "raw_url_encode xs = raw_url_encode ys" "length xs = length ys"
  shows "xs = ys"
proof -
  let ?f = "filter (\<lambda>c. c \<noteq> CHR ''='')"
  have "?f (b64_encode xs) = ?f (b64_encode ys)"
    using assms(1) unfolding raw_url_encode_def
    by (subst (asm) inj_on_map_eq_map) (auto intro: inj_on_subset[OF url_char_inj] dest: url_alphabet)
  then have "b64_encode xs = b64_encode ys" by (metis assms(2) b64_padding)
  then show ?thesis by (metis b64_quanta_encode option.inject)
qed

lemma length_raw_url_encode: "length bs = 32 \<Longrightarrow> length (raw_url_encode bs) = 43"
  using arg_cong[OF b64_padding[of bs], of length] length_b64_encode[of bs]
  by (simp add: raw_url_encode_def)

section \<open>The link table\<close>

definition links_inv :: "sales \<Rightarrow> bool" where
  "links_inv s \<longleftrightarrow> unique_on sb_user (sl_links s) \<and> unique_on sb_hash (sl_links s)
     \<and> sb_user ` set (sl_links s) \<subseteq> u_id ` set (users (sl_db s))"

definition resolves :: "link_service \<Rightarrow> sales \<Rightarrow> string \<Rightarrow> string \<Rightarrow> bool" where
  "resolves svc s token uid \<longleftrightarrow> token \<noteq> [] \<and> length token \<le> 128
     \<and> (\<exists>r \<in> set (sl_links s). sb_hash r = HashToken svc token \<and> sb_user r = uid \<and> sb_revoked r = None)"

lemma Resolve_exact:
  assumes "unique_on sb_hash (sl_links s)"
  shows "Resolve svc s token = Inr uid \<longleftrightarrow> resolves svc s token uid"
proof (cases "find_row sb_hash (HashToken svc token) (sl_links s)")
  case None
  then have "\<forall>r \<in> set (sl_links s). sb_hash r \<noteq> HashToken svc token"
    unfolding find_row_None_iff by (metis imageI)
  with None show ?thesis by (auto simp: Resolve_def resolves_def)
next
  case (Some r)
  from bex_find_row[OF Some assms, of "\<lambda>r. sb_user r = uid \<and> sb_revoked r = None"] Some show ?thesis
    by (auto simp: Resolve_def resolves_def)
qed

lemma Resolve_refused: "(\<forall>uid. Resolve svc s token \<noteq> Inr uid) \<longleftrightarrow> Resolve svc s token = E CodeUserNotFound"
  by (auto simp: Resolve_def split: option.splits)

interpretation rotate_user: row_update sb_user "rotate_link svc token enc"
  by unfold_locales (simp add: rotate_link_def)

interpretation revoke_user: row_update sb_user "\<lambda>r :: sub_link. r\<lparr>sb_revoked := v\<rparr>"
  by unfold_locales simp

interpretation revoke_hash: row_update sb_hash "\<lambda>r :: sub_link. r\<lparr>sb_revoked := v\<rparr>"
  by unfold_locales simp

text \<open>What issuing or replacing the link of an account leaves behind: its one row holds the new token.\<close>

definition link_set :: "link_service \<Rightarrow> sales \<Rightarrow> sales \<Rightarrow> string \<Rightarrow> string \<Rightarrow> bool" where
  "link_set svc s s' uid token \<longleftrightarrow> (\<exists>r enc. ls_encrypt svc token = Inr enc
     \<and> find_row sb_user uid (sl_links s') = Some r \<and> sb_encrypted r = enc \<and> sb_hash r = HashToken svc token \<and> sb_revoked r = None
     \<and> {x \<in> set (sl_links s'). sb_user x \<noteq> uid} = {x \<in> set (sl_links s). sb_user x \<noteq> uid})"

lemma insert_link_ok:
  assumes "insert_link r s = Inr s'"
  shows "s' = s\<lparr>sl_links := sl_links s @ [r]\<rparr>" "sb_user r \<notin> sb_user ` set (sl_links s)"
    "sb_hash r \<notin> sb_hash ` set (sl_links s)" "sb_user r \<in> u_id ` set (users (sl_db s))"
    "links_inv s \<Longrightarrow> links_inv s'" "find_row sb_user (sb_user r) (sl_links s') = Some r"
proof -
  show o: "s' = s\<lparr>sl_links := sl_links s @ [r]\<rparr>" "sb_user r \<notin> sb_user ` set (sl_links s)"
    "sb_hash r \<notin> sb_hash ` set (sl_links s)" "sb_user r \<in> u_id ` set (users (sl_db s))"
    using assms by (auto simp: insert_link_def split: if_splits)
  show "links_inv s \<Longrightarrow> links_inv s'" using o by (simp add: links_inv_def unique_on_append_one)
  have "find_row sb_user (sb_user r) (sl_links s) = None" using o(2) by (simp add: find_row_None_iff)
  then show "find_row sb_user (sb_user r) (sl_links s') = Some r" by (simp add: o(1) row_simps find_row_Cons)
qed

lemma RegenerateTx_ok:
  assumes "RegenerateTx svc mint uid s = Inr (l, s')" "links_inv s"
  shows "links_inv s'" "link_set svc s s' uid (lk_token l)" "lk_user l = uid" "NewToken mint = Inr (lk_token l)"
    "sl_db s' = sl_db s" "s' = s\<lparr>sl_links := sl_links s'\<rparr>"
proof -
  from assms(1) obtain token enc where t: "NewToken mint = Inr token" and e: "ls_encrypt svc token = Inr enc"
    and l: "l = (issued svc uid token)\<lparr>lk_rotated := Some (ls_now svc)\<rparr>"
    by (auto simp: RegenerateTx_def Let_def tx_simps split: if_splits)
  have lt: "lk_token l = token" by (simp add: l issued_def)
  show "lk_user l = uid" "NewToken mint = Inr (lk_token l)" using t by (simp_all add: l issued_def)
  have u: "unique_on sb_user (sl_links s)" "unique_on sb_hash (sl_links s)" using assms(2) by (simp_all add: links_inv_def)
  have "links_inv s' \<and> link_set svc s s' uid token \<and> sl_db s' = sl_db s \<and> s' = s\<lparr>sl_links := sl_links s'\<rparr>"
  proof (cases "uid \<in> sb_user ` set (sl_links s)")
    case True
    with assms(1) t e have n: "\<forall>r \<in> set (sl_links s). sb_user r \<noteq> uid \<longrightarrow> sb_hash r \<noteq> HashToken svc token"
      and s': "s' = s\<lparr>sl_links := update_rows (\<lambda>r. sb_user r = uid) (rotate_link svc token enc) (sl_links s)\<rparr>"
      by (auto simp: RegenerateTx_def Let_def split: if_splits)
    from True obtain r where r: "r \<in> set (sl_links s)" "uid = sb_user r" by auto
    have f: "find_row sb_user uid (sl_links s) = Some r" using find_row_unique[OF u(1) r(1)] r(2) by simp
    have "unique_on sb_hash (sl_links s')"
      using unique_on_update_one[OF u(2,1) r(1), of "rotate_link svc token enc"] n r(2)
      by (simp add: s' rotate_link_def)
    then have "links_inv s'" using assms(2) by (simp add: links_inv_def s' rotate_user.unique_update rotate_user.keys_update)
    moreover have "link_set svc s s' uid token"
      using e f by (auto simp: link_set_def s' rotate_user.find_update_self set_update_rows rotate_link_def)
    ultimately show ?thesis by (simp add: s')
  next
    case False
    with assms(1) t e have i: "insert_link ((new_link_row svc uid token enc)\<lparr>sb_rotated := Some (ls_now svc)\<rparr>) s = Inr s'"
      by (auto simp: RegenerateTx_def Let_def tx_simps)
    note ok = insert_link_ok[OF i]
    have "link_set svc s s' uid token"
      using e ok(6) by (auto simp: link_set_def ok(1) new_link_row_def)
    with ok(5)[OF assms(2)] ok(1) show ?thesis by simp
  qed
  then show "links_inv s'" "link_set svc s s' uid (lk_token l)" "sl_db s' = sl_db s" "s' = s\<lparr>sl_links := sl_links s'\<rparr>"
    by (simp_all add: lt)
qed

lemma Link_CreateTx_ok:
  assumes "Link_CreateTx svc mint uid s = Inr (l, s')"
  shows "links_inv s \<Longrightarrow> links_inv s'" "link_set svc s s' uid (lk_token l)" "lk_user l = uid" "NewToken mint = Inr (lk_token l)"
    "s' = s\<lparr>sl_links := sl_links s'\<rparr>" "sl_db s' = sl_db s"
proof -
  from assms obtain token enc where t: "NewToken mint = Inr token" "ls_encrypt svc token = Inr enc" "l = issued svc uid token"
    "insert_link (new_link_row svc uid token enc) s = Inr s'"
    by (auto simp: Link_CreateTx_def tx_simps)
  note ok = insert_link_ok[OF t(4)]
  show "links_inv s \<Longrightarrow> links_inv s'" by (rule ok(5))
  show "link_set svc s s' uid (lk_token l)" using t ok(6) by (auto simp: link_set_def ok(1) new_link_row_def issued_def)
  show "lk_user l = uid" "NewToken mint = Inr (lk_token l)" "s' = s\<lparr>sl_links := sl_links s'\<rparr>" "sl_db s' = sl_db s"
    using t by (simp_all add: issued_def ok(1))
qed

lemma minted_length:
  "NewToken (Inr buf) = Inr token \<Longrightarrow> length buf = 32 \<Longrightarrow> token \<noteq> [] \<and> length token \<le> 128"
  using length_raw_url_encode[of buf] by (auto simp: NewToken_def)

text \<open>
  After the link of an account was set to a token, that token leads to the account, any other token
  of the account is dead, and the tokens of other accounts are as before.
\<close>

lemma link_set_resolve:
  assumes "link_set svc s s' uid token" "links_inv s" "links_inv s'" "token \<noteq> []" "length token \<le> 128"
  shows "Resolve svc s' token = Inr uid"
    "HashToken svc old \<noteq> HashToken svc token \<Longrightarrow> Resolve svc s' old \<noteq> Inr uid"
    "other \<noteq> uid \<Longrightarrow> Resolve svc s' tok = Inr other \<longleftrightarrow> Resolve svc s tok = Inr other"
proof -
  from assms(1) obtain r where f: "find_row sb_user uid (sl_links s') = Some r" "sb_hash r = HashToken svc token" "sb_revoked r = None"
    and rest: "{x \<in> set (sl_links s'). sb_user x \<noteq> uid} = {x \<in> set (sl_links s). sb_user x \<noteq> uid}"
    by (auto simp: link_set_def)
  have u: "unique_on sb_hash (sl_links s)" "unique_on sb_hash (sl_links s')" "unique_on sb_user (sl_links s')"
    using assms(2,3) by (simp_all add: links_inv_def)
  have r: "r \<in> set (sl_links s')" "sb_user r = uid" using f(1) by auto
  then show "Resolve svc s' token = Inr uid"
    using f assms(4,5) by (auto simp: Resolve_exact[OF u(2)] resolves_def)
  have only: "x = r" if "x \<in> set (sl_links s')" "sb_user x = uid" for x
    using unique_on_eq[OF u(3) that(1) r(1)] that(2) r(2) by simp
  then show "HashToken svc old \<noteq> HashToken svc token \<Longrightarrow> Resolve svc s' old \<noteq> Inr uid"
    using f(2) by (auto simp: Resolve_exact[OF u(2)] resolves_def)
  have "x \<in> set (sl_links s') \<longleftrightarrow> x \<in> set (sl_links s)" if "sb_user x \<noteq> uid" for x using rest that by blast
  then show "other \<noteq> uid \<Longrightarrow> Resolve svc s' tok = Inr other \<longleftrightarrow> Resolve svc s tok = Inr other"
    by (auto simp: Resolve_exact[OF u(1)] Resolve_exact[OF u(2)] resolves_def)
qed

lemma revoked_rows:
  "(\<exists>r \<in> set (update_rows (\<lambda>r. sb_user r = uid) (\<lambda>r. r\<lparr>sb_revoked := v\<rparr>) t). sb_hash r = h \<and> sb_user r = w \<and> sb_revoked r = None)
   \<longleftrightarrow> (\<exists>r \<in> set t. sb_hash r = h \<and> sb_user r = w \<and> (if w = uid then v = None else sb_revoked r = None))"
  unfolding set_update_rows bex_simps by (rule bex_cong) auto


section \<open>Rotating all access of an account\<close>

lemma rotation_keys_ids:
  "rotation_keys svc pairs psks n ds = Inr rotations \<Longrightarrow> map fst rotations = map d_id ds"
  by (induction svc pairs psks n ds arbitrary: rotations rule: rotation_keys.induct) (auto simp: tx_simps split: prod.splits)

text \<open>
  C21. Rotating an account's access is all or nothing. On success every device of the account has a new key
  (and keeps its address and its charged totals), every former key is queued for removal from the tunnel,
  the new link token works and former tokens do not, and the devices of other accounts are
  untouched; on any error nothing has changed. A device added or removed since the
  devices were listed makes the rotation fail instead of leaving an old credential in force.
\<close>

theorem rotate_access_correct:
  assumes inv: "links_inv s" "devices_inv (sl_db s)" and entropy: "length buf = 32"
    and run: "RotateAccess svc (wired_devices now) pairs psks (Inr buf) seen uid s = (res, s')"
  shows "(\<forall>e. res = Inl e \<longrightarrow> s' = s)
    \<and> (\<forall>l n. res = Inr (l, n) \<longrightarrow> n = CountForUser (sl_db s) uid \<and> links_inv s' \<and> devices_inv (sl_db s')
        \<and> (\<forall>d \<in> set (devices (sl_db s)). if d_user d = uid
             then (d_iface d, d_pubkey d) \<in> set (retired (sl_db s'))
               \<and> (\<exists>d'. find_row d_id (d_id d) (devices (sl_db s')) = Some d' \<and> d_pubkey d' \<noteq> d_pubkey d
                    \<and> d_ipv4 d' = d_ipv4 d \<and> d_rx d' = d_rx d \<and> d_tx d' = d_tx d)
             else find_row d_id (d_id d) (devices (sl_db s')) = Some d)
        \<and> Resolve svc s' (lk_token l) = Inr uid
        \<and> (\<forall>old. HashToken svc old \<noteq> HashToken svc (lk_token l) \<longrightarrow> Resolve svc s' old \<noteq> Inr uid))
    \<and> (\<forall>ds. ListForUser (sl_db seen) uid = Inr ds \<and> d_id ` set ds \<noteq> d_id ` {d \<in> set (devices (sl_db s)). d_user d = uid}
        \<longrightarrow> (\<exists>e. res = Inl e))"
proof -
  have err: "s' = s" if "res = Inl e" for e
    using run that by (auto simp: RotateAccess_def WithTx_def split: sum.splits prod.splits)
  have good: "n = CountForUser (sl_db s) uid \<and> links_inv s' \<and> devices_inv (sl_db s')
        \<and> (\<forall>d \<in> set (devices (sl_db s)). if d_user d = uid
             then (d_iface d, d_pubkey d) \<in> set (retired (sl_db s'))
               \<and> (\<exists>d'. find_row d_id (d_id d) (devices (sl_db s')) = Some d' \<and> d_pubkey d' \<noteq> d_pubkey d
                    \<and> d_ipv4 d' = d_ipv4 d \<and> d_rx d' = d_rx d \<and> d_tx d' = d_tx d)
             else find_row d_id (d_id d) (devices (sl_db s')) = Some d)
        \<and> Resolve svc s' (lk_token l) = Inr uid
        \<and> (\<forall>old. HashToken svc old \<noteq> HashToken svc (lk_token l) \<longrightarrow> Resolve svc s' old \<noteq> Inr uid)
        \<and> (\<forall>ds. ListForUser (sl_db seen) uid = Inr ds \<longrightarrow> d_id ` set ds = d_id ` {d \<in> set (devices (sl_db s)). d_user d = uid})"
    if "res = Inr (l, n)" for l n
  proof -
    from run that obtain ds rotations d1 where
      ls: "ListForUser (sl_db seen) uid = Inr ds" "rotation_keys svc pairs psks 0 ds = Inr rotations"
      and rep: "ReplaceUserCredentialsTx (wired_devices now) (sl_db s) uid rotations = Inr ((), d1)"
      and reg: "RegenerateTx svc (Inr buf) uid (s\<lparr>sl_db := d1\<rparr>) = Inr (l, s')" and n: "n = length rotations"
      by (auto simp: RotateAccess_def WithTx_def tx_simps split: sum.splits prod.splits if_splits)
    note rot = rotate_credentials_correct[OF inv(2), of now uid rotations]
    note ok = rot[THEN conjunct1, rule_format, OF rep]
    have "fst ` set rotations = d_id ` {d \<in> set (devices (sl_db s)). d_user d = uid}"
      using rot[THEN conjunct2] rep by (cases "fst ` set rotations = d_id ` {d \<in> set (devices (sl_db s)). d_user d = uid}") auto
    then have ids: "d_id ` set ds = d_id ` {d \<in> set (devices (sl_db s)). d_user d = uid}"
      using arg_cong[OF rotation_keys_ids[OF ls(2)], of set] by simp
    have i1: "links_inv (s\<lparr>sl_db := d1\<rparr>)" using inv(1) ok by (simp add: links_inv_def)
    note gen = RegenerateTx_ok[OF reg i1]
    note lr = link_set_resolve[OF gen(2) i1 gen(1)] and len = minted_length[OF gen(4) entropy]
    have d: "sl_db s' = d1" using gen(5) by simp
    have "\<forall>d \<in> set (devices (sl_db s)). if d_user d = uid
             then (d_iface d, d_pubkey d) \<in> set (retired d1)
               \<and> (\<exists>d'. find_row d_id (d_id d) (devices d1) = Some d' \<and> d_pubkey d' \<noteq> d_pubkey d
                    \<and> d_ipv4 d' = d_ipv4 d \<and> d_rx d' = d_rx d \<and> d_tx d' = d_tx d)
             else find_row d_id (d_id d) (devices d1) = Some d"
      using ok by (auto simp: new_keys_def)
    moreover have "length rotations = CountForUser (sl_db s) uid" "devices_inv d1" using ok by simp_all
    ultimately show ?thesis using gen(1) lr(1,2) len ids ls(1) by (simp add: n d)
  qed
  show ?thesis
  proof (cases res)
    case (Inl e)
    with err show ?thesis by blast
  next
    case (Inr ln)
    then obtain l n where ln: "res = Inr (l, n)" by (cases ln) simp
    from good[OF this] ln show ?thesis by blast
  qed
qed

section \<open>Example data\<close>

definition demo_links :: link_service where
  "demo_links = \<lparr>ls_now = 3, ls_encrypt = Inr, ls_decrypt = Inr, ls_sha256 = map (\<lambda>c. of_nat (of_char c))\<rparr>"

definition demo_store :: sales where
  "demo_store = demo_sales\<lparr>sl_db := (metered_db 100)\<lparr>templates := [''p1'']\<rparr>\<rparr>"

lemma demo_store_fields:
  "sl_links demo_store = []" "u_id ` set (users (sl_db demo_store)) = {''id-1''}" "links_inv demo_store"
  by (simp_all add: demo_store_def demo_sales_def metered_db_def stored_user_def buildCreate_def Let_def plain_input_def
      links_inv_def unique_on_def)

lemma demo_store_devices: "devices_inv (sl_db demo_store)"
  using metered_db_inv(2)[of 100] by (simp add: demo_store_def devices_inv_def device_ok_def)

lemma demo_regenerate:
  "\<exists>l s'. RegenerateTx demo_links (Inr (replicate 32 0)) ''id-1'' (demo_store\<lparr>sl_db := d\<rparr>) = Inr (l, s')"
  if "u_id ` set (users d) = {''id-1''}"
  using that by (simp add: RegenerateTx_def NewToken_def demo_links_def insert_link_def demo_store_fields new_link_row_def)


lemma demo_rotation: "fst (RotateAccess demo_links (wired_devices 9) (\<lambda>_. Inr (k_public (example_keys 2), ''new''))
    (\<lambda>_. Inr []) (Inr (replicate 32 0)) demo_store ''id-1'' demo_store) \<noteq> Inl e"
proof -
  have k: "k_public (example_keys 2) \<noteq> k_public (example_keys 1)" using example_key_inj[of 2 1] by simp
  have l: "ListForUser (sl_db demo_store) ''id-1'' = Inr (devices (sl_db demo_store))"
    by (simp add: ListForUser_def demo_store_def metered_db_def probe_device_def newest_first_def scanDevice_def)
  let ?rot = "[(''dev-1'', \<lparr>k_public = k_public (example_keys 2), k_private = ''new'', k_psk = None\<rparr>)]"
  have rk: "rotation_keys demo_links (\<lambda>_. Inr (k_public (example_keys 2), ''new'')) (\<lambda>_. Inr []) 0 (devices (sl_db demo_store)) = Inr ?rot"
    by (simp add: demo_store_def metered_db_def probe_device_def demo_links_def)
  obtain d1 where d1: "ReplaceUserCredentialsTx (wired_devices 9) (sl_db demo_store) ''id-1'' ?rot = Inr ((), d1)"
    "users d1 = users (sl_db demo_store)"
    using k by (simp add: ReplaceUserCredentialsTx_def rotate_one_def replace_keys_def demo_store_def metered_db_def probe_device_def
        retire_one_def)
  obtain l' s' where "RegenerateTx demo_links (Inr (replicate 32 0)) ''id-1'' (demo_store\<lparr>sl_db := d1\<rparr>) = Inr (l', s')"
    using demo_regenerate[of d1] d1(2) demo_store_fields(2) by auto
  moreover from calculation have "lk_token l' \<noteq> []"
    using RegenerateTx_ok(4) minted_length[of "replicate 32 0"] demo_store_fields(3) d1(2) by (fastforce simp: links_inv_def)
  ultimately show ?thesis by (simp add: RotateAccess_def l rk WithTx_def on_db_def d1(1))
qed

theorem rotate_access_correct_witness:
  "\<exists>l s'. RotateAccess demo_links (wired_devices 9) (\<lambda>_. Inr (k_public (example_keys 2), ''new'')) (\<lambda>_. Inr [])
       (Inr (replicate 32 0)) demo_store ''id-1'' demo_store = (Inr (l, 1), s')
     \<and> Resolve demo_links s' (lk_token l) = Inr ''id-1''"
proof -
  obtain l n s' where c: "RotateAccess demo_links (wired_devices 9) (\<lambda>_. Inr (k_public (example_keys 2), ''new'')) (\<lambda>_. Inr [])
       (Inr (replicate 32 0)) demo_store ''id-1'' demo_store = (Inr (l, n), s')"
    using demo_rotation by (metis old.prod.exhaust old.sum.exhaust fst_conv)
  have "CountForUser (sl_db demo_store) ''id-1'' = 1"
    by (simp add: CountForUser_def demo_store_def metered_db_def probe_device_def)
  with rotate_access_correct[OF demo_store_fields(3) demo_store_devices _ c] c show ?thesis by auto
qed

end
