(* ===== verification/Purchases.thy ===== *)
theory Purchases
  imports Links
begin

text \<open>
  Recoverable integration operations (\<open>src/internal/integration/purchase.go\<close>): a purchase creates an
  account with its devices and its link, a top-up raises a quota, and both record their result under
  the hash of the caller's key in the same transaction, so that a retry finds it. SHA-256, the JSON
  text of an order, fresh identifiers, the key material of the devices and the entropy of the link are arguments.
\<close>

section \<open>Requests\<close>

definition ResultRetention :: duration where
  "ResultRetention = 90 * 24 * 3600 * 1000000000"

definition MaxPurchaseDevices :: nat where
  "MaxPurchaseDevices = 100"

record entitlement =
  en_limit :: int
  en_duration :: int
  en_device_limit :: int
  en_policy :: start_policy
  en_speed_down :: "int option"
  en_speed_up :: "int option"
  en_interface :: string

record purchase_input =
  pu_key :: string
  pu_reseller :: "string option"
  pu_username :: string
  pu_template :: string
  pu_entitlement :: "entitlement option"
  pu_device_name :: string
  pu_keys :: "key_material list"

record top_up_input =
  tu_key :: string
  tu_reseller :: "string option"
  tu_user :: string
  tu_bytes :: int

text \<open>The structures whose JSON text is the fingerprint of a request.\<close>

datatype order =
    TemplateOrder string string string nat
  | DirectOrder string string entitlement nat
  | TopUpOrder string int

record 'b integration_service =
  is_users :: user_service
  is_devices :: device_service
  is_links :: link_service
  is_accounting :: "'b accounting_service option"
  is_now :: time
  is_sha256 :: "string \<Rightarrow> byte list"
  is_marshal :: "order \<Rightarrow> string"

record fresh =
  fr_user :: string
  fr_devices :: "nat \<Rightarrow> string"
  fr_operation :: string

definition entitlement_validate :: "entitlement \<Rightarrow> unit result" where
  "entitlement_validate t =
     (if en_limit t \<le> 0 then E CodeInvalidRequest
      else if en_duration t \<le> 0 \<or> 315360000 < en_duration t then E CodeInvalidRequest
      else if en_device_limit t \<le> 0 \<or> 100 < en_device_limit t then E CodeInvalidRequest
      else if (\<exists>v \<in> set_option (en_speed_down t). v \<le> 0) \<or> (\<exists>v \<in> set_option (en_speed_up t). v \<le> 0)
      then E CodeInvalidRequest
      else if en_policy t \<noteq> PolicyUnset \<and> \<not> policy_valid (en_policy t) then E CodeInvalidRequest
      else Inr ())"

section \<open>The journal\<close>

definition scopeKey :: "string option \<Rightarrow> string" where
  "scopeKey rid = (case rid of None \<Rightarrow> ''owner'' | Some r \<Rightarrow> ''reseller:'' @ r)"

definition hashedKey :: "'b integration_service \<Rightarrow> string \<Rightarrow> string \<Rightarrow> string" where
  "hashedKey svc scope key = hex_encode (is_sha256 svc (scope @ [CHR 0x00] @ key))"

definition requestHash :: "'b integration_service \<Rightarrow> order \<Rightarrow> string" where
  "requestHash svc ord = hex_encode (is_sha256 svc (is_marshal svc ord))"

text \<open>A rune outside the printable range has a byte outside it.\<close>

definition validKey :: "string \<Rightarrow> bool" where
  "validKey key \<longleftrightarrow> key \<noteq> [] \<and> length key \<le> 128
     \<and> list_all (\<lambda>c. 0x21 \<le> (of_char c :: nat) \<and> (of_char c :: nat) \<le> 0x7e) key"

definition find_operation :: "string \<Rightarrow> string \<Rightarrow> sales \<Rightarrow> operation option" where
  "find_operation scope keyHash s = find (\<lambda>r. op_key r = keyHash \<and> op_scope r = scope) (sl_operations s)"

definition replayTx ::
  "'b integration_service \<Rightarrow> string \<Rightarrow> string \<Rightarrow> string \<Rightarrow> string \<Rightarrow> sales \<Rightarrow> (op_result option \<times> sales) result" where
  "replayTx svc scope keyHash kind reqHash s =
     (case find_operation scope keyHash s of
        None \<Rightarrow> Inr (None, s)
      | Some r \<Rightarrow>
          if is_now svc < op_expires r then
            (if op_kind r \<noteq> kind \<or> op_request r \<noteq> reqHash then E CodeIdempotencyKeyReused
             else Inr (Some (op_result r), s))
          else Inr (None, s\<lparr>sl_operations := delete_rows (\<lambda>r. op_key r = keyHash \<and> op_scope r = scope) (sl_operations s)\<rparr>))"

definition recordResultTx :: "string \<Rightarrow> string \<Rightarrow> string \<Rightarrow> op_result \<Rightarrow> sales \<Rightarrow> sales result" where
  "recordResultTx scope keyHash reqHash res s =
     (if or_id res \<in> op_id ` set (sl_operations s) \<or> keyHash \<in> op_key ` set (sl_operations s)
      then Inl (Foreign ''integration: record result'')
      else Inr (s\<lparr>sl_operations := sl_operations s @ [\<lparr>op_id = or_id res, op_scope = scope, op_key = keyHash,
             op_kind = or_kind res, op_request = reqHash, op_result = res, op_created = or_created res,
             op_expires = or_created res + ResultRetention\<rparr>]\<rparr>))"

section \<open>Purchase\<close>

text \<open>The checks and the normalisation before the transaction.\<close>

definition normalize_purchase :: "'b integration_service \<Rightarrow> purchase_input \<Rightarrow> purchase_input result" where
  "normalize_purchase svc inp0 =
     (let n = length (pu_keys inp0) in
      if n < 1 \<or> MaxPurchaseDevices < n then E CodeInvalidRequest
      else let inp = inp0\<lparr>pu_template := TrimSpace (pu_template inp0)\<rparr> in
      if \<not> validKey (pu_key inp) \<or> (pu_template inp = []) = (pu_entitlement inp = None) \<or> pu_reseller inp = Some []
      then E CodeInvalidRequest
      else ebind (case pu_entitlement inp of
             None \<Rightarrow> Inr None
           | Some t \<Rightarrow>
               if pu_reseller inp \<noteq> None then E CodeForbidden
               else ebind (entitlement_validate t) (\<lambda>_.
                 Inr (Some (t\<lparr>en_policy := (if en_policy t = PolicyUnset then StartImmediate else en_policy t),
                              en_interface := TrimSpace (en_interface t)\<rparr>)))) (\<lambda>ent.
        let username = TrimSpace (pu_username inp); deviceName = TrimSpace (pu_device_name inp) in
        Inr (inp\<lparr>pu_entitlement := ent,
          pu_username := (if username = [] then CHR ''u'' # take 16 (hashedKey svc (scopeKey (pu_reseller inp)) (pu_key inp)) else username),
          pu_device_name := (if deviceName = [] then (if n = 1 then ''device-1'' else ''device'') else deviceName)\<rparr>)))"

text \<open>A single device keeps the fingerprint without a count.\<close>

definition purchase_order :: "purchase_input \<Rightarrow> order" where
  "purchase_order inp =
     (let n = length (pu_keys inp); extraCount = (if 1 < n then n else 0)
      in case pu_entitlement inp of
           None \<Rightarrow> TemplateOrder (pu_username inp) (pu_template inp) (pu_device_name inp) extraCount
         | Some t \<Rightarrow> DirectOrder (pu_username inp) (pu_device_name inp) t extraCount)"

definition bare_input :: "string \<Rightarrow> string option \<Rightarrow> user_input" where
  "bare_input username rid = \<lparr>in_username = username, in_reseller = rid, in_display_name = None,
     in_note = None, in_tags = None, in_limit = opt_absent 0, in_speed_down = opt_absent 0,
     in_speed_up = opt_absent 0, in_device_limit = opt_absent 0, in_template = opt_absent [],
     in_interface = opt_absent [], in_policy = PolicyUnset, in_duration = None,
     in_expires = None, in_enabled = None, in_metadata = []\<rparr>"

definition purchaseUserInput :: "purchase_input \<Rightarrow> sales \<Rightarrow> (user_input \<times> string \<times> string) result" where
  "purchaseUserInput inp s =
     (let input = bare_input (pu_username inp) (pu_reseller inp) in
      case pu_entitlement inp of
        Some t \<Rightarrow>
          Inr (input\<lparr>in_limit := \<lparr>opt_set = True, opt_null = False, opt_value = en_limit t\<rparr>,
                 in_duration := Some (en_duration t),
                 in_device_limit := \<lparr>opt_set = True, opt_null = False, opt_value = en_device_limit t\<rparr>,
                 in_policy := en_policy t, in_speed_down := optOfPtr 0 (en_speed_down t), in_speed_up := optOfPtr 0 (en_speed_up t),
                 in_interface := (if en_interface t \<noteq> [] then \<lparr>opt_set = True, opt_null = False, opt_value = en_interface t\<rparr>
                   else opt_absent [])\<rparr>, en_interface t, [])
      | None \<Rightarrow>
          ebind (Plan_Get s (pu_template inp)) (\<lambda>p.
            if \<not> pl_enabled p then E CodeForbidden
            else Inr (ApplyToUser p input, (case pl_interface p of None \<Rightarrow> [] | Some i \<Rightarrow> i), pl_id p)))"

fun create_devices ::
  "'b integration_service \<Rightarrow> fresh \<Rightarrow> nat \<Rightarrow> string \<Rightarrow> string \<Rightarrow> string \<Rightarrow> nat \<Rightarrow> key_material list \<Rightarrow> db \<Rightarrow> (string list \<times> db) result" where
  "create_devices svc fr n name uid ifc i [] s = Inr ([], s)"
| "create_devices svc fr n name uid ifc i (keys # rest) s =
     ebind (Device_CreateTx (is_devices svc) s (fr_devices fr i) uid
              (if 1 < n then name @ ''-'' @ show_nat (i + 1) else name) keys ifc) (\<lambda>(d, s1).
       ebind (create_devices svc fr n name uid ifc (i + 1) rest s1) (\<lambda>(ids, s2). Inr (d_id d # ids, s2)))"

definition purchase_body ::
  "'b integration_service \<Rightarrow> fresh \<Rightarrow> byte list result \<Rightarrow> purchase_input \<Rightarrow> sales \<Rightarrow> (op_result \<times> sales) result" where
  "purchase_body svc fr mint inp s =
     (let n = length (pu_keys inp) in
      if \<exists>rid \<in> set_option (pu_reseller inp). \<not> assigned s rid (pu_template inp) then E CodeForbidden
      else ebind (purchaseUserInput inp s) (\<lambda>(input, interfaceID, tid).
        if \<exists>l \<in> set_option (opt_given (in_device_limit input)). l < int n then E CodeDeviceLimitReached
        else ebind (on_db (\<lambda>d. CreateTx (is_users svc) d (fr_user fr) input) s) (\<lambda>(u, s1).
          ebind (on_db (create_devices svc fr n (pu_device_name inp) (u_id u) interfaceID 0 (pu_keys inp)) s1) (\<lambda>(ids, s2).
            ebind (Link_CreateTx (is_links svc) mint (u_id u) s2) (\<lambda>(_, s3).
              Inr (\<lparr>or_id = fr_operation fr, or_kind = ''purchase'', or_user = u_id u, or_device = hd ids, or_devices = ids,
                    or_template = tid, or_before = None, or_after = None, or_created = is_now svc\<rparr>, s3))))))"

definition purchaseTx ::
  "'b integration_service \<Rightarrow> fresh \<Rightarrow> byte list result \<Rightarrow> purchase_input \<Rightarrow> sales \<Rightarrow> ((op_result \<times> bool) \<times> sales) result" where
  "purchaseTx svc fr mint inp s =
     (let scope = scopeKey (pu_reseller inp); keyHash = hashedKey svc scope (pu_key inp);
          reqHash = requestHash svc (purchase_order inp)
      in ebind (replayTx svc scope keyHash ''purchase'' reqHash s) (\<lambda>(prior, s1).
        case prior of
          Some r \<Rightarrow> Inr ((r, True), s1)
        | None \<Rightarrow> ebind (purchase_body svc fr mint inp s1) (\<lambda>(r, s2).
            ebind (recordResultTx scope keyHash reqHash r s2) (\<lambda>s3. Inr ((r, False), s3)))))"

definition Purchase ::
  "'b integration_service \<Rightarrow> fresh \<Rightarrow> byte list result \<Rightarrow> purchase_input \<Rightarrow> sales \<Rightarrow> (op_result \<times> bool) result \<times> sales" where
  "Purchase svc fr mint inp0 s =
     (case normalize_purchase svc inp0 of
        Inl e \<Rightarrow> (Inl e, s)
      | Inr inp \<Rightarrow> WithTx s (purchaseTx svc fr mint inp))"

section \<open>Top-up\<close>

definition top_up_body ::
  "'b integration_service \<Rightarrow> 'b accounting_service \<Rightarrow> fresh \<Rightarrow> top_up_input \<Rightarrow> sales \<Rightarrow> (op_result \<times> sales) result" where
  "top_up_body svc acc fr inp s =
     (if \<exists>rid \<in> set_option (tu_reseller inp).
           \<not> list_ex (\<lambda>u. u_id u = tu_user inp \<and> u_reseller u = Some rid \<and> u_deleted u = None) (users (sl_db s))
      then E CodeUserNotFound
      else ebind (on_db (AddQuotaTx acc (tu_user inp) (tu_bytes inp)) s) (\<lambda>(c, s1).
        Inr (\<lparr>or_id = fr_operation fr, or_kind = ''quota_top_up'', or_user = tu_user inp, or_device = [], or_devices = [],
              or_template = [], or_before = Some (qc_before c), or_after = Some (qc_after c), or_created = is_now svc\<rparr>, s1)))"

definition top_upTx ::
  "'b integration_service \<Rightarrow> 'b accounting_service \<Rightarrow> fresh \<Rightarrow> top_up_input \<Rightarrow> sales \<Rightarrow> ((op_result \<times> bool) \<times> sales) result" where
  "top_upTx svc acc fr inp s =
     (let scope = scopeKey (tu_reseller inp); keyHash = hashedKey svc scope (tu_key inp);
          reqHash = requestHash svc (TopUpOrder (tu_user inp) (tu_bytes inp))
      in ebind (replayTx svc scope keyHash ''quota_top_up'' reqHash s) (\<lambda>(prior, s1).
        case prior of
          Some r \<Rightarrow> Inr ((r, True), s1)
        | None \<Rightarrow> ebind (top_up_body svc acc fr inp s1) (\<lambda>(r, s2).
            ebind (recordResultTx scope keyHash reqHash r s2) (\<lambda>s3. Inr ((r, False), s3)))))"

definition TopUpQuota ::
  "'b integration_service \<Rightarrow> fresh \<Rightarrow> top_up_input \<Rightarrow> sales \<Rightarrow> (op_result \<times> bool) result \<times> sales" where
  "TopUpQuota svc fr inp s =
     (if \<not> validKey (tu_key inp) \<or> tu_user inp = [] \<or> tu_bytes inp \<le> 0 \<or> tu_reseller inp = Some [] then (E CodeInvalidRequest, s)
      else case is_accounting svc of
             None \<Rightarrow> (Inl (Foreign ''integration: accounting unavailable''), s)
           | Some acc \<Rightarrow> WithTx s (top_upTx svc acc fr inp))"

section \<open>Lookup and retention\<close>

definition Lookup :: "'b integration_service \<Rightarrow> string option \<Rightarrow> string \<Rightarrow> sales \<Rightarrow> op_result result" where
  "Lookup svc rid key s =
     (if \<not> validKey key then E CodeInvalidRequest
      else case find_operation (scopeKey rid) (hashedKey svc (scopeKey rid) key) s of
             None \<Rightarrow> E CodeNotFound
           | Some r \<Rightarrow> if \<not> is_now svc < op_expires r then E CodeNotFound else Inr (op_result r))"

text \<open>At most 500 rows whose stored expiry text is not after the clock's, in the order of the expiry index.\<close>

definition operations_Prune :: "time \<Rightarrow> sales \<Rightarrow> nat \<times> sales" where
  "operations_Prune now s =
     (let ids = map op_id (take 500 (sort_key (\<lambda>r. text_key (op_expires r))
            (filter (\<lambda>r. text_key (op_expires r) \<le> text_key now) (sl_operations s))));
          rest = delete_rows (\<lambda>r. op_id r \<in> set ids) (sl_operations s)
      in (length (sl_operations s) - length rest, s\<lparr>sl_operations := rest\<rparr>))"

section \<open>The journal contract\<close>

definition ops_inv :: "sales \<Rightarrow> bool" where
  "ops_inv s \<longleftrightarrow> unique_on op_id (sl_operations s) \<and> unique_on op_key (sl_operations s)"

text \<open>What a transaction of the journal makes of an expired row of its own key.\<close>

definition without_key :: "string \<Rightarrow> string \<Rightarrow> sales \<Rightarrow> sales" where
  "without_key scope keyHash s =
     s\<lparr>sl_operations := delete_rows (\<lambda>r. op_key r = keyHash \<and> op_scope r = scope) (sl_operations s)\<rparr>"

lemma find_append: "find P (xs @ ys) = (case find P xs of None \<Rightarrow> find P ys | Some x \<Rightarrow> Some x)"
  by (induction xs) auto

lemma find_operation_Some:
  "find_operation scope k s = Some r \<Longrightarrow> r \<in> set (sl_operations s) \<and> op_key r = k \<and> op_scope r = scope"
  by (auto simp: find_operation_def find_Some_iff)

lemma without_key_absent: "find_operation scope k s = None \<Longrightarrow> without_key scope k s = s"
  by (auto simp: find_operation_def find_None_iff without_key_def delete_rows_def intro!: filter_True)

lemma find_without_other:
  "(scope, k) \<noteq> (scope', k') \<Longrightarrow> find_operation scope k (without_key scope' k' s) = find_operation scope k s"
proof -
  assume ne: "(scope, k) \<noteq> (scope', k')"
  have "find (\<lambda>r. op_key r = k \<and> op_scope r = scope) (filter (\<lambda>r. \<not> (op_key r = k' \<and> op_scope r = scope')) t)
      = find (\<lambda>r. op_key r = k \<and> op_scope r = scope) t" for t
    using ne by (induction t) auto
  then show ?thesis by (simp add: find_operation_def without_key_def delete_rows_def)
qed

lemma replayTx_cases:
  "replayTx svc scope k kind req s =
     (case find_operation scope k s of
        Some r \<Rightarrow> if is_now svc < op_expires r
                  then (if op_kind r = kind \<and> op_request r = req then Inr (Some (op_result r), s) else E CodeIdempotencyKeyReused)
                  else Inr (None, without_key scope k s)
      | None \<Rightarrow> Inr (None, without_key scope k s))"
  using without_key_absent[of scope k s] by (auto simp: replayTx_def without_key_def split: option.splits)

text \<open>
  The contract shared by the recoverable operations: look the key up, else run the body, which leaves
  the journal alone, and record its result.
\<close>

locale journaled =
  fixes svc :: "'b integration_service" and scope keyHash kind reqHash :: string
    and body :: "sales \<Rightarrow> (op_result \<times> sales) result" and tx :: "sales \<Rightarrow> ((op_result \<times> bool) \<times> sales) result"
  assumes tx_eq: "tx s = ebind (replayTx svc scope keyHash kind reqHash s) (\<lambda>(prior, s1). case prior of
       Some r \<Rightarrow> Inr ((r, True), s1)
     | None \<Rightarrow> ebind (body s1) (\<lambda>(r, s2). ebind (recordResultTx scope keyHash reqHash r s2) (\<lambda>s3. Inr ((r, False), s3))))"
    and body_frame: "body s1 = Inr (r, s2) \<Longrightarrow>
       sl_operations s2 = sl_operations s1 \<and> or_kind r = kind \<and> or_created r = is_now svc"
begin

lemma tx_live:
  assumes "find_operation scope keyHash s = Some row" "is_now svc < op_expires row"
  shows "tx s = (if op_kind row = kind \<and> op_request row = reqHash then Inr ((op_result row, True), s) else E CodeIdempotencyKeyReused)"
  using assms by (simp add: tx_eq replayTx_cases)

lemma tx_replayed:
  assumes "tx s = Inr ((r, True), s')"
  shows "s' = s" "\<exists>row. find_operation scope keyHash s = Some row \<and> is_now svc < op_expires row
       \<and> op_kind row = kind \<and> op_request row = reqHash \<and> op_result row = r"
  using assms by (auto simp: tx_eq replayTx_cases tx_simps split: option.splits if_splits prod.splits)

lemma tx_fresh:
  assumes "tx s = Inr ((r, False), s')"
  obtains s2 row where "body (without_key scope keyHash s) = Inr (r, s2)"
    "s' = s2\<lparr>sl_operations := sl_operations (without_key scope keyHash s) @ [row]\<rparr>"
    "op_id row = or_id r" "op_key row = keyHash" "op_scope row = scope" "op_kind row = kind" "op_request row = reqHash"
    "op_result row = r" "op_expires row = is_now svc + ResultRetention"
    "op_id row \<notin> op_id ` set (sl_operations (without_key scope keyHash s))"
    "op_key row \<notin> op_key ` set (sl_operations (without_key scope keyHash s))"
    "find_operation scope keyHash s' = Some row"
    "\<And>row. find_operation scope keyHash s = Some row \<Longrightarrow> op_expires row \<le> is_now svc"
proof -
  from assms obtain s2 where b: "body (without_key scope keyHash s) = Inr (r, s2)"
    and rec: "recordResultTx scope keyHash reqHash r s2 = Inr s'"
    and ex: "\<And>row. find_operation scope keyHash s = Some row \<Longrightarrow> op_expires row \<le> is_now svc"
    by (auto simp: tx_eq replayTx_cases tx_simps split: option.splits if_splits prod.splits)
  note f = body_frame[OF b]
  let ?row = "\<lparr>op_id = or_id r, op_scope = scope, op_key = keyHash, op_kind = kind, op_request = reqHash, op_result = r,
    op_created = is_now svc, op_expires = is_now svc + ResultRetention\<rparr>"
  from rec f have s': "s' = s2\<lparr>sl_operations := sl_operations (without_key scope keyHash s) @ [?row]\<rparr>"
    and new: "or_id r \<notin> op_id ` set (sl_operations (without_key scope keyHash s))"
      "keyHash \<notin> op_key ` set (sl_operations (without_key scope keyHash s))"
    by (auto simp: recordResultTx_def split: if_splits)
  have "find (\<lambda>r. op_key r = keyHash \<and> op_scope r = scope) (sl_operations (without_key scope keyHash s)) = None"
    by (auto simp: find_None_iff without_key_def)
  then have "find_operation scope keyHash s' = Some ?row"
    by (simp add: find_operation_def s' find_append)
  with b s' new ex show ?thesis by (intro that[of s2 ?row]) simp_all
qed

text \<open>Any transaction of the journal keeps the rows that have not expired.\<close>

lemma tx_keeps:
  assumes "tx s = Inr (x, s')" "ops_inv s"
  shows "ops_inv s'"
    "find_operation sc k s = Some row \<Longrightarrow> is_now svc < op_expires row \<Longrightarrow> find_operation sc k s' = Some row"
proof -
  obtain r b where x: "x = (r, b)" by (cases x)
  have "ops_inv s' \<and> (find_operation sc k s = Some row \<longrightarrow> is_now svc < op_expires row \<longrightarrow> find_operation sc k s' = Some row)"
  proof (cases b)
    case True
    then have "tx s = Inr ((r, True), s')" using assms(1) x by simp
    from tx_replayed(1)[OF this] assms(2) show ?thesis by simp
  next
    case False
    with assms(1) x obtain s2 row' where s': "s' = s2\<lparr>sl_operations := sl_operations (without_key scope keyHash s) @ [row']\<rparr>"
      and new: "op_id row' \<notin> op_id ` set (sl_operations (without_key scope keyHash s))"
        "op_key row' \<notin> op_key ` set (sl_operations (without_key scope keyHash s))"
      and ex: "\<And>row. find_operation scope keyHash s = Some row \<Longrightarrow> op_expires row \<le> is_now svc"
      using tx_fresh[of s r s'] by metis
    have "ops_inv s'"
      using assms(2) new by (auto simp: ops_inv_def s' unique_on_append_one without_key_def unique_on_delete)
    moreover have "find_operation sc k s' = Some row" if f: "find_operation sc k s = Some row" "is_now svc < op_expires row"
    proof -
      have "(sc, k) \<noteq> (scope, keyHash)" using ex[of row] f by force
      from find_without_other[OF this, of s] f(1) show ?thesis
        by (simp add: find_operation_def s' find_append)
    qed
    ultimately show ?thesis by blast
  qed
  then show "ops_inv s'"
    "find_operation sc k s = Some row \<Longrightarrow> is_now svc < op_expires row \<Longrightarrow> find_operation sc k s' = Some row"
    by blast+
qed

end

lemma purchaseUserInput_ops: "purchaseUserInput inp (s\<lparr>sl_operations := ops\<rparr>) = purchaseUserInput inp s"
  by (cases "pu_entitlement inp") (simp_all add: purchaseUserInput_def Let_def Plan_Get_def)

lemma purchase_body_frame:
  assumes "purchase_body svc fr mint inp s = Inr (r, s')"
  shows "sl_operations s' = sl_operations s \<and> or_kind r = ''purchase'' \<and> or_created r = is_now svc"
proof -
  from assms obtain d u l where "Link_CreateTx (is_links svc) mint u (s\<lparr>sl_db := d\<rparr>) = Inr (l, s')"
    and r: "or_kind r = ''purchase''" "or_created r = is_now svc"
    by (auto simp: purchase_body_def Let_def tx_simps split: prod.splits if_splits)
  from Link_CreateTx_ok(5)[OF this(1)] r show ?thesis by (metis sales.select_convs(8) sales.surjective sales.update_convs(1,5))
qed

lemma top_up_body_frame:
  "top_up_body svc acc fr inp s = Inr (r, s') \<Longrightarrow>
     sl_operations s' = sl_operations s \<and> or_kind r = ''quota_top_up'' \<and> or_created r = is_now svc"
  by (auto simp: top_up_body_def tx_simps split: prod.splits if_splits)

interpretation buy: journaled svc "scopeKey (pu_reseller inp)" "hashedKey svc (scopeKey (pu_reseller inp)) (pu_key inp)"
  "''purchase''" "requestHash svc (purchase_order inp)" "purchase_body svc fr mint inp" "purchaseTx svc fr mint inp"
  by unfold_locales (simp_all add: purchaseTx_def Let_def purchase_body_frame)

interpretation topup: journaled svc "scopeKey (tu_reseller inp)" "hashedKey svc (scopeKey (tu_reseller inp)) (tu_key inp)"
  "''quota_top_up''" "requestHash svc (TopUpOrder (tu_user inp) (tu_bytes inp))" "top_up_body svc acc fr inp" "top_upTx svc acc fr inp"
  by unfold_locales (simp_all add: top_upTx_def Let_def top_up_body_frame)

end
