(* ===== verification/Orders.thy ===== *)
theory Orders
  imports Purchases
begin

text \<open>
  What a purchase and a top-up do, and that retries do nothing more: the effect of the first call, and
  the answer of a later call under the same key after any other activity of the node.
\<close>

section \<open>The effect of a purchase\<close>

text \<open>A service as \<open>serve.go\<close> wires it, at one reading of the clock.\<close>

definition wired_at :: "time \<Rightarrow> 'b integration_service \<Rightarrow> bool" where
  "wired_at now svc \<longleftrightarrow> is_now svc = now \<and> is_users svc = wired_users now \<and> is_devices svc = wired_devices now
     \<and> (\<exists>reg run hook. is_accounting svc = Some (wired_accounting now reg run hook))"

lemma create_devices_ok:
  assumes "create_devices svc fr n name uid ifc i keys s = Inr (ids, s')" "is_devices svc = wired_devices now"
  shows "\<exists>ds. devices s' = devices s @ ds \<and> map d_id ds = ids \<and> map d_pubkey ds = map k_public keys
      \<and> (\<forall>d \<in> set ds. d_user d = uid \<and> d_enabled d) \<and> users s' = users s \<and> retired s' = retired s
      \<and> (devices_inv s \<longrightarrow> devices_inv s')"
  using assms(1)
proof (induction keys arbitrary: i s ids)
  case Nil
  then show ?case by simp
next
  case (Cons k keys)
  let ?name = "if 1 < n then name @ ''-'' @ show_nat (i + 1) else name"
  from Cons.prems obtain d s1 ids' where c: "Device_CreateTx (wired_devices now) s (fr_devices fr i) uid ?name k ifc = Inr (d, s1)"
    and rest: "create_devices svc fr n name uid ifc (i + 1) keys s1 = Inr (ids', s')" and ids: "ids = d_id d # ids'"
    by (auto simp: assms(2) tx_simps split: prod.splits)
  from c obtain ifcID ip t where d: "d = new_device now (fr_devices fr i) uid (trim_space ?name) k ifcID ip"
    and t: "insertDevice d s = Inr t" "same_domain t s1"
    by (rule wired_dev.CreateTx_ok) (metis wired_devices_simps(1))
  have s1: "devices s1 = devices s @ [d]" "users s1 = users s" "retired s1 = retired s"
    using t insertDevice_ok(1)[OF t(1)] by (simp_all add: same_domain_def d new_device_def)
  obtain ds where ds: "devices s' = devices s1 @ ds" "map d_id ds = ids'" "map d_pubkey ds = map k_public keys"
    "\<forall>d \<in> set ds. d_user d = uid \<and> d_enabled d" "users s' = users s1" "retired s' = retired s1" "devices_inv s1 \<longrightarrow> devices_inv s'"
    using Cons.IH[OF rest] by blast
  have "d_pubkey d = k_public k" "d_user d = uid" "d_enabled d" by (simp_all add: d new_device_def)
  moreover have "devices_inv s \<Longrightarrow> devices_inv s1" by (rule wired_dev.CreateTx_inv[OF _ c])
  ultimately show ?case using ds s1 ids by (intro exI[of _ "d # ds"]) auto
qed

text \<open>The entitlement a purchase buys: the direct terms, else the plan of the catalogue.\<close>

definition bought :: "sales \<Rightarrow> purchase_input \<Rightarrow> user \<Rightarrow> bool" where
  "bought s inp u \<longleftrightarrow>
     (case pu_entitlement inp of
        Some t \<Rightarrow> u_limit u = Some (en_limit t) \<and> u_duration u = Some (en_duration t) \<and> u_device_limit u = Some (en_device_limit t)
          \<and> u_speed_down u = en_speed_down t \<and> u_speed_up u = en_speed_up t \<and> u_template u = None
      | None \<Rightarrow> \<exists>p. Plan_Get s (pu_template inp) = Inr p \<and> pl_enabled p
          \<and> u_limit u = pl_limit p \<and> u_duration u = pl_duration p \<and> u_device_limit u = pl_device_limit p
          \<and> u_speed_down u = pl_speed_down p \<and> u_speed_up u = pl_speed_up p \<and> u_template u = nullText (Some (pl_id p)))"

lemma buildCreate_limits:
  "u_limit (buildCreate now nid input) = opt_given (in_limit input)" "u_duration (buildCreate now nid input) = in_duration input"
  "u_device_limit (buildCreate now nid input) = opt_given (in_device_limit input)"
  "u_speed_down (buildCreate now nid input) = opt_given (in_speed_down input)"
  "u_speed_up (buildCreate now nid input) = opt_given (in_speed_up input)"
  "u_template (buildCreate now nid input) = opt_given (in_template input)"
  "u_reseller (buildCreate now nid input) = in_reseller input" "u_id (buildCreate now nid input) = nid"
  by (simp_all add: buildCreate_def Let_def opt_resolve_None)

lemma bought_built:
  assumes "purchaseUserInput inp s = Inr (input, ifc, tid)"
  shows "bought s inp (stored_user (buildCreate now nid input)) \<and> in_reseller input = pu_reseller inp"
proof (cases "pu_entitlement inp")
  case None
  with assms obtain p where "Plan_Get s (pu_template inp) = Inr p" "pl_enabled p"
    "input = ApplyToUser p (bare_input (pu_username inp) (pu_reseller inp))"
    by (auto simp: purchaseUserInput_def Let_def tx_simps)
  with None show ?thesis
    by (simp add: bought_def stored_user_def buildCreate_limits ApplyToUser_def bare_input_def) (simp add: opt_given_def)
next
  case (Some t)
  with assms show ?thesis
    by (auto simp: purchaseUserInput_def Let_def bought_def stored_user_def buildCreate_limits bare_input_def)
      (simp_all add: opt_given_def opt_absent_def)
qed

lemma normalize_ok:
  assumes "normalize_purchase svc inp0 = Inr inp"
  shows "pu_key inp = pu_key inp0" "pu_reseller inp = pu_reseller inp0" "pu_keys inp = pu_keys inp0"
    "pu_template inp = TrimSpace (pu_template inp0)" "pu_reseller inp \<noteq> Some []" "validKey (pu_key inp)"
    "pu_keys inp \<noteq> []" "length (pu_keys inp) \<le> 100" "pu_entitlement inp = None \<longleftrightarrow> pu_entitlement inp0 = None"
    "pu_entitlement inp = Some t \<Longrightarrow> \<exists>t0. pu_entitlement inp0 = Some t0 \<and> en_limit t = en_limit t0 \<and> en_duration t = en_duration t0
       \<and> en_device_limit t = en_device_limit t0 \<and> en_speed_down t = en_speed_down t0 \<and> en_speed_up t = en_speed_up t0"
  using assms
  by (auto simp: normalize_purchase_def Let_def tx_simps MaxPurchaseDevices_def split: option.splits if_splits)

lemma Link_CreateTx_row:
  assumes "Link_CreateTx svc mint uid s = Inr (l, s')"
  shows "\<exists>row. s' = s\<lparr>sl_links := sl_links s @ [row]\<rparr> \<and> sb_user row = uid \<and> sb_revoked row = None"
proof -
  from assms obtain token enc where "insert_link (new_link_row svc uid token enc) s = Inr s'"
    by (auto simp: Link_CreateTx_def tx_simps)
  from insert_link_ok(1)[OF this] show ?thesis by (auto simp: new_link_row_def)
qed

text \<open>What one sale adds: one account, its devices and its link, and nothing to any other table.\<close>

definition sold :: "sales \<Rightarrow> purchase_input \<Rightarrow> op_result \<Rightarrow> sales \<Rightarrow> bool" where
  "sold s inp r s' \<longleftrightarrow> (\<exists>u ds l.
     users (sl_db s') = users (sl_db s) @ [u] \<and> u_id u = or_user r \<and> u_reseller u = pu_reseller inp \<and> bought s inp u
     \<and> devices (sl_db s') = devices (sl_db s) @ ds \<and> map d_id ds = or_devices r
     \<and> map d_pubkey ds = map k_public (pu_keys inp) \<and> (\<forall>d \<in> set ds. d_user d = or_user r \<and> d_enabled d)
     \<and> (\<forall>lim \<in> set_option (u_device_limit u). int (length ds) \<le> lim)
     \<and> sl_links s' = sl_links s @ [l] \<and> sb_user l = or_user r \<and> sb_revoked l = None)
   \<and> (\<forall>rid \<in> set_option (pu_reseller inp). assigned s rid (pu_template inp))
   \<and> retired (sl_db s') = retired (sl_db s) \<and> same_sales s s'"

lemma purchase_body_ok:
  assumes "purchase_body svc fr mint inp s = Inr (r, s')" "wired_at now svc" "pu_reseller inp \<noteq> Some []"
    and inv: "users_inv (sl_db s)" "devices_inv (sl_db s)" "links_inv s"
  shows "sold s inp r s'" "users_inv (sl_db s') \<and> devices_inv (sl_db s') \<and> links_inv s'"
proof -
  from assms(1,2) obtain input ifc tid u d1 ids d2 l where
    asg: "\<forall>rid \<in> set_option (pu_reseller inp). assigned s rid (pu_template inp)"
    and pi: "purchaseUserInput inp s = Inr (input, ifc, tid)"
    and lim: "\<forall>l \<in> set_option (opt_given (in_device_limit input)). int (length (pu_keys inp)) \<le> l"
    and cu: "CreateTx (wired_users now) (sl_db s) (fr_user fr) input = Inr (u, d1)"
    and cd: "create_devices svc fr (length (pu_keys inp)) (pu_device_name inp) (u_id u) ifc 0 (pu_keys inp) d1 = Inr (ids, d2)"
    and cl: "Link_CreateTx (is_links svc) mint (u_id u) (s\<lparr>sl_db := d2\<rparr>) = Inr (l, s')"
    and r: "or_user r = u_id u" "or_devices r = ids"
    by (fastforce simp: purchase_body_def wired_at_def Let_def tx_simps not_less split: prod.splits if_splits)
  note uo = wired.CreateTx_ok[OF cu]
  have isd: "is_devices svc = wired_devices now" using assms(2) by (simp add: wired_at_def)
  obtain ds where ds: "devices d2 = devices d1 @ ds" "map d_id ds = ids" "map d_pubkey ds = map k_public (pu_keys inp)"
    "\<forall>d \<in> set ds. d_user d = u_id u \<and> d_enabled d" "users d2 = users d1" "retired d2 = retired d1" "devices_inv d1 \<longrightarrow> devices_inv d2"
    using create_devices_ok[OF cd isd] by blast
  obtain row where row: "s' = s\<lparr>sl_db := d2, sl_links := sl_links s @ [row]\<rparr>" "sb_user row = u_id u" "sb_revoked row = None"
    using Link_CreateTx_row[OF cl] by auto
  note bb = bought_built[OF pi, of now "fr_user fr"]
  have id: "u_id (stored_user u) = u_id u" "u_reseller (stored_user u) = pu_reseller inp"
    using bb assms(3) by (auto simp: stored_user_def uo(1) buildCreate_limits nullText_def split: option.splits)
  have dl: "u_device_limit (stored_user u) = opt_given (in_device_limit input)"
    by (simp add: stored_user_def uo(1) buildCreate_limits)
  have len: "length ds = length (pu_keys inp)" using arg_cong[OF ds(3), of length] by simp
  show "sold s inp r s'"
    unfolding sold_def
  proof (intro conjI exI)
    show "users (sl_db s') = users (sl_db s) @ [stored_user u]" using ds(5) uo(2) row(1) by simp
    show "bought s inp (stored_user u)" using bb uo(1) by simp
    show "devices (sl_db s') = devices (sl_db s) @ ds" "retired (sl_db s') = retired (sl_db s)" "sl_links s' = sl_links s @ [row]"
      using ds(1,6) uo(3,5) row(1) by simp_all
    show "\<forall>lim \<in> set_option (u_device_limit (stored_user u)). int (length ds) \<le> lim" using lim dl len by simp
    show "same_sales s s'" by (simp add: same_sales_def row(1))
  qed (use id r ds row asg in auto)
  have "devices_inv d1"
    using inv(2) uo(2-4) by (auto simp: devices_inv_def device_ok_def)
  moreover have "links_inv s'"
    using Link_CreateTx_ok(1)[OF cl] inv(3) uo(2) ds(5) by (auto simp: links_inv_def)
  ultimately show "users_inv (sl_db s') \<and> devices_inv (sl_db s') \<and> links_inv s'"
    using wired.CreateTx_inv[OF inv(1) cu] ds(5,7) row(1) by (simp add: users_inv_def)
qed

lemma sold_without_key: "sold (without_key scope k s) inp r s' \<longleftrightarrow> sold s inp r s'"
proof -
  have pg: "Plan_Get (without_key scope k s) = Plan_Get s" by (rule ext) (simp add: Plan_Get_def without_key_def)
  have "bought (without_key scope k s) = bought s" unfolding bought_def[abs_def] pg ..
  then show ?thesis by (simp add: sold_def) (simp add: without_key_def assigned_def same_sales_def)
qed

lemma sold_more_ops: "sold s inp r s' \<Longrightarrow> sold s inp r (s'\<lparr>sl_operations := ops\<rparr>)"
  by (simp add: sold_def same_sales_def)


section \<open>Retries\<close>

text \<open>
  Everything that may happen to the journal up to \<open>limit\<close>: other purchases and top-ups, by any caller and
  at any reading of the clock before it, housekeeping, and any change that leaves the journal alone. (The backend of the accounting
  service plays no part in these operations; its state is the unit type here.)
\<close>

inductive journal_run :: "time \<Rightarrow> sales \<Rightarrow> sales \<Rightarrow> bool" for limit s where
  start: "journal_run limit s s"
| purchase: "journal_run limit s t \<Longrightarrow> is_now (svc :: unit integration_service) < limit \<Longrightarrow> Purchase svc fr mint inp t = (res, t') \<Longrightarrow> journal_run limit s t'"
| top_up: "journal_run limit s t \<Longrightarrow> is_now (svc :: unit integration_service) < limit \<Longrightarrow> TopUpQuota svc fr inp' t = (res', t') \<Longrightarrow> journal_run limit s t'"
| prune: "journal_run limit s t \<Longrightarrow> now < limit \<Longrightarrow> operations_Prune now t = (n, t') \<Longrightarrow> journal_run limit s t'"
| elsewhere: "journal_run limit s t \<Longrightarrow> sl_operations t' = sl_operations t \<Longrightarrow> journal_run limit s t'"

lemma prune_keeps:
  assumes "ops_inv s" "operations_Prune now s = (n, s')"
  shows "ops_inv s'"
    "find_operation sc k s = Some row \<Longrightarrow> now + 1000000000 \<le> op_expires row \<Longrightarrow> find_operation sc k s' = Some row"
proof -
  let ?dead = "take 500 (sort_key (\<lambda>r. text_key (op_expires r)) (filter (\<lambda>r. text_key (op_expires r) \<le> text_key now) (sl_operations s)))"
  have s': "s' = s\<lparr>sl_operations := delete_rows (\<lambda>r. op_id r \<in> op_id ` set ?dead) (sl_operations s)\<rparr>"
    using assms(2) by (simp add: operations_Prune_def Let_def)
  show "ops_inv s'" using assms(1) by (simp add: ops_inv_def s' unique_on_delete)
  have dead: "text_key (op_expires r) \<le> text_key now \<and> r \<in> set (sl_operations s)" if "r \<in> set ?dead" for r
    using set_take_subset[of 500] that by fastforce
  assume f: "find_operation sc k s = Some row" and late: "now + 1000000000 \<le> op_expires row"
  have row: "row \<in> set (sl_operations s)" "op_key row = k" "op_scope row = sc" using find_operation_Some[OF f] by auto
  have alive: "op_id row \<notin> op_id ` set ?dead"
  proof
    assume "op_id row \<in> op_id ` set ?dead"
    then obtain r where r: "r \<in> set ?dead" "op_id r = op_id row" by auto
    have "r = row" using unique_on_eq[of op_id "sl_operations s" r row] assms(1) dead[OF r(1)] row r(2) by (simp add: ops_inv_def)
    with dead[OF r(1)] text_key_le_if[OF late] show False by (meson leD)
  qed
  have only: "x = row" if "x \<in> set (sl_operations s')" "op_key x = k" for x
    using unique_on_eq[of op_key "sl_operations s" x row] assms(1) that row by (auto simp: ops_inv_def s')
  have "row \<in> set (sl_operations s')" using row alive by (simp add: s')
  then obtain x where x: "find_operation sc k s' = Some x"
    using row unfolding find_operation_def by (metis (mono_tags, lifting) find_None_iff option.exhaust)
  with only find_operation_Some[OF x] show "find_operation sc k s' = Some row" by simp
qed

lemma journal_run_keeps:
  assumes "journal_run limit s t" "ops_inv s" "find_operation sc k s = Some row" "limit + 1000000000 \<le> op_expires row"
  shows "ops_inv t \<and> find_operation sc k t = Some row"
  using assms
proof induction
  case (purchase t svc fr mint inp res t')
  show ?case
  proof (cases "\<exists>inp' x. purchaseTx svc fr mint inp' t = Inr (x, t')")
    case True
    then obtain inp' x where "purchaseTx svc fr mint inp' t = Inr (x, t')" by blast
    from buy.tx_keeps[OF this] purchase show ?thesis by fastforce
  next
    case False
    with purchase.hyps(3) have "t' = t" by (auto simp: Purchase_def WithTx_def split: sum.splits)
    with purchase show ?thesis by simp
  qed
next
  case (top_up t svc fr inp' res' t')
  show ?case
  proof (cases "\<exists>acc x. top_upTx svc acc fr inp' t = Inr (x, t')")
    case True
    then obtain acc x where "top_upTx svc acc fr inp' t = Inr (x, t')" by blast
    from topup.tx_keeps[OF this] top_up show ?thesis by fastforce
  next
    case False
    with top_up.hyps(3) have "t' = t" by (auto simp: TopUpQuota_def WithTx_def split: sum.splits option.splits if_splits)
    with top_up show ?thesis by simp
  qed
next
  case (prune t now n t')
  from prune_keeps[OF _ prune.hyps(3)] prune show ?case by fastforce
next
  case (elsewhere t t')
  then show ?case by (simp add: ops_inv_def find_operation_def)
qed simp

text \<open>
  C15. A retry never sells twice. After a first purchase, and after anything else the node did up to one
  second before the result expires (90 days), the same order under the same key - with whatever key material,
  entropy and identifiers the retry brings - answers with the recorded result and changes
  nothing at all, and a different order or a top-up under that key is refused without a change.
\<close>

theorem purchase_retried:
  assumes inv: "ops_inv s" and first: "Purchase svc fr mint inp0 s = (Inr (r, False), s1)"
    and run: "journal_run (is_now svc + ResultRetention - 1000000000) s1 s2"
    and later: "is_now svc' < is_now svc + ResultRetention" "is_sha256 svc' = is_sha256 svc" "is_marshal svc' = is_marshal svc"
    and same: "pu_key inp0' = pu_key inp0" "pu_reseller inp0' = pu_reseller inp0"
    and norm: "normalize_purchase svc inp0 = Inr inp" "normalize_purchase svc' inp0' = Inr inp'"
  shows "(purchase_order inp' = purchase_order inp \<longrightarrow> Purchase svc' fr' mint' inp0' s2 = (Inr (r, True), s2))
    \<and> (requestHash svc (purchase_order inp') \<noteq> requestHash svc (purchase_order inp) \<longrightarrow>
         Purchase svc' fr' mint' inp0' s2 = (E CodeIdempotencyKeyReused, s2))
    \<and> (tu_key t = pu_key inp0 \<and> tu_reseller t = pu_reseller inp0 \<and> is_accounting svc' \<noteq> None \<and> tu_user t \<noteq> [] \<and> 0 < tu_bytes t \<longrightarrow>
         TopUpQuota svc' fr' t s2 = (E CodeIdempotencyKeyReused, s2))"
proof -
  from first norm(1) have t: "purchaseTx svc fr mint inp s = Inr ((r, False), s1)"
    by (simp add: Purchase_def tx_simps)
  note no = normalize_ok[OF norm(1)] and no' = normalize_ok[OF norm(2)]
  let ?scope = "scopeKey (pu_reseller inp)"
  let ?k = "hashedKey svc ?scope (pu_key inp)"
  from t obtain row where row: "op_kind row = ''purchase''" "op_request row = requestHash svc (purchase_order inp)" "op_result row = r"
    "op_expires row = is_now svc + ResultRetention" "find_operation ?scope ?k s1 = Some row"
    by (rule buy.tx_fresh) blast
  have f: "find_operation ?scope ?k s2 = Some row"
    using journal_run_keeps[OF run buy.tx_keeps(1)[OF t inv] row(5)] row(4) by simp
  have h: "hashedKey svc' scope k = hashedKey svc scope k" "requestHash svc' ord = requestHash svc ord" for scope k ord
    using later by (simp_all add: hashedKey_def requestHash_def)
  have kr: "pu_key inp' = pu_key inp" "pu_reseller inp' = pu_reseller inp" using no no' same by simp_all
  have exp: "is_now svc' < op_expires row" using later row by simp
  have p: "purchaseTx svc' fr' mint' inp' s2 =
      (if requestHash svc (purchase_order inp') = op_request row then Inr ((r, True), s2) else E CodeIdempotencyKeyReused)"
    using buy.tx_live[where svc = svc' and inp = inp' and s = s2 and row = row, OF _ exp] f row kr h by simp
  have q: "TopUpQuota svc' fr' t s2 = (E CodeIdempotencyKeyReused, s2)"
    if "tu_key t = pu_key inp0 \<and> tu_reseller t = pu_reseller inp0 \<and> is_accounting svc' \<noteq> None \<and> tu_user t \<noteq> [] \<and> 0 < tu_bytes t"
  proof -
    from that obtain acc where acc: "is_accounting svc' = Some acc" by auto
    have "top_upTx svc' acc fr' t s2 = E CodeIdempotencyKeyReused"
      using topup.tx_live[where svc = svc' and inp = t and s = s2 and row = row, OF _ exp] f row that no h by simp
    then show ?thesis using that no acc by (simp add: TopUpQuota_def)
  qed
  from p q row norm(2) show ?thesis by (simp add: Purchase_def)
qed

section \<open>Top-ups\<close>

lemma top_up_body_ok:
  assumes "top_up_body svc (wired_accounting now reg run hook) fr inp s = Inr (r, s')" "users_inv (sl_db s)" "is_i64 (tu_bytes inp)"
  obtains u l v where "find_row u_id (tu_user inp) (users (sl_db s)) = Some u" "u_deleted u = None" "u_limit u = Some l"
    "\<forall>rid \<in> set_option (tu_reseller inp). u_reseller u = Some rid"
    "find_row u_id (tu_user inp) (users (sl_db s')) = Some v" "u_limit v = Some (l + tu_bytes inp)" "l + tu_bytes inp \<le> MaxInt64"
    "u_used_rx v = u_used_rx u" "u_used_tx v = u_used_tx u"
    "map_option qs_limit (or_after r) = Some (l + tu_bytes inp)"
    "\<And>other. other \<noteq> tu_user inp \<Longrightarrow> find_row u_id other (users (sl_db s')) = find_row u_id other (users (sl_db s))"
    "devices (sl_db s') = devices (sl_db s)" "s' = s\<lparr>sl_db := sl_db s'\<rparr>"
proof -
  let ?uid = "tu_user inp" and ?acc = "wired_accounting now reg run hook"
  have uu: "unique_on u_id (users (sl_db s))" using assms(2) by (simp add: users_inv_def)
  from assms(1) obtain c d where q: "AddQuotaTx ?acc ?uid (tu_bytes inp) (sl_db s) = Inr (c, d)" and s': "s' = s\<lparr>sl_db := d\<rparr>"
    and r: "or_after r = Some (qc_after c)"
    and own: "\<forall>rid \<in> set_option (tu_reseller inp).
       list_ex (\<lambda>u. u_id u = ?uid \<and> u_reseller u = Some rid \<and> u_deleted u = None) (users (sl_db s))"
    by (auto simp: top_up_body_def tx_simps split: if_splits)
  from q obtain u l where u: "live_user (sl_db s) ?uid = Inr u" "u_limit u = Some l" and b: "0 < tu_bytes inp"
    and room: "\<not> i64 (MaxInt64 - tu_bytes inp) < l" and lim: "qs_limit (qc_after c) = i64 (l + tu_bytes inp)"
    and dom: "same_domain ((sl_db s)\<lparr>users := update_rows (\<lambda>r. u_id r = ?uid) (raised_row (ac_now ?acc) u (i64 (l + tu_bytes inp))) (users (sl_db s))\<rparr>) d"
    by (rule wired_acc.AddQuotaTx_ok)
  have f: "find_row u_id ?uid (users (sl_db s)) = Some u" "u_deleted u = None" using u(1) live_user_get[OF uu] by auto
  have "0 \<le> l" using assms(2) f(1) u(2) by (auto simp: users_inv_def row_ok_def)
  note fits = quota_fits[OF assms(3) b this room]
  have us: "users d = update_rows (\<lambda>r. u_id r = ?uid) (raised_row now u (l + tu_bytes inp)) (users (sl_db s))" "devices d = devices (sl_db s)"
    using dom fits(1) by (simp_all add: same_domain_def)
  have "\<forall>rid \<in> set_option (tu_reseller inp). u_reseller u = Some rid"
    using own by (simp add: list_ex_iff bex_find_row[OF f(1) uu])
  with f u(2) fits r lim show ?thesis
    by (intro that[of u l "raised_row now u (l + tu_bytes inp) u"])
      (auto simp: s' us raised.find_update_self raised.find_update_other raised_row_def)
qed

text \<open>
  C16. A paid top-up is applied exactly once. The first call raises the finite limit of the live account (of the reseller, for a
  reseller's call) by exactly the bytes, within 64 bits, leaves its usage and every other account alone, and records the new limit; any
  retry up to a second before the result expires, after anything else the node did, answers with the
  recorded result and changes nothing. A failed call changes nothing.
\<close>

theorem top_up_once:
  assumes wired: "wired_at now (svc :: 'b integration_service)" and inv: "users_inv (sl_db s)" "ops_inv s" and bytes: "is_i64 (tu_bytes inp)"
    and call: "TopUpQuota svc fr inp s = (res, s1)"
  shows "(\<forall>e. res = Inl e \<longrightarrow> s1 = s)
    \<and> (\<forall>r. res = Inr (r, False) \<longrightarrow>
        (\<exists>u l v. find_row u_id (tu_user inp) (users (sl_db s)) = Some u \<and> u_deleted u = None \<and> u_limit u = Some l
           \<and> (\<forall>rid \<in> set_option (tu_reseller inp). u_reseller u = Some rid)
           \<and> find_row u_id (tu_user inp) (users (sl_db s1)) = Some v \<and> u_limit v = Some (l + tu_bytes inp)
           \<and> l + tu_bytes inp \<le> MaxInt64 \<and> u_used_rx v = u_used_rx u \<and> u_used_tx v = u_used_tx u
           \<and> map_option qs_limit (or_after r) = u_limit v)
        \<and> (\<forall>other. other \<noteq> tu_user inp \<longrightarrow> find_row u_id other (users (sl_db s1)) = find_row u_id other (users (sl_db s)))
        \<and> (\<forall>s2 (svc' :: 'b integration_service) fr'. journal_run (now + ResultRetention - 1000000000) s1 s2 \<and> is_now svc' < now + ResultRetention
             \<and> is_sha256 svc' = is_sha256 svc \<and> is_marshal svc' = is_marshal svc \<and> is_accounting svc' \<noteq> None
             \<longrightarrow> TopUpQuota svc' fr' inp s2 = (Inr (r, True), s2)))"
proof (intro conjI allI impI)
  fix e
  assume "res = Inl e"
  with call show "s1 = s" by (auto simp: TopUpQuota_def WithTx_def split: sum.splits option.splits if_splits)
next
  fix r
  assume ok: "res = Inr (r, False)"
  from wired obtain reg run hook where acc: "is_accounting svc = Some (wired_accounting now reg run hook)" and nw: "is_now svc = now"
    by (auto simp: wired_at_def)
  let ?acc = "wired_accounting now reg run hook" and ?scope = "scopeKey (tu_reseller inp)"
  let ?k = "hashedKey svc ?scope (tu_key inp)"
  from call ok acc have valid: "validKey (tu_key inp)" "tu_user inp \<noteq> []" "0 < tu_bytes inp" "tu_reseller inp \<noteq> Some []"
    and t: "top_upTx svc ?acc fr inp s = Inr ((r, False), s1)"
    by (auto simp: TopUpQuota_def tx_simps split: if_splits)
  from t obtain s2 row where b: "top_up_body svc ?acc fr inp (without_key ?scope ?k s) = Inr (r, s2)"
    and s1: "s1 = s2\<lparr>sl_operations := sl_operations (without_key ?scope ?k s) @ [row]\<rparr>"
    and row: "op_kind row = ''quota_top_up''" "op_request row = requestHash svc (TopUpOrder (tu_user inp) (tu_bytes inp))"
      "op_result row = r" "op_expires row = is_now svc + ResultRetention" "find_operation ?scope ?k s1 = Some row"
    by (rule topup.tx_fresh) blast
  have iv: "users_inv (sl_db (without_key ?scope ?k s))" and db: "sl_db (without_key ?scope ?k s) = sl_db s" "sl_db s1 = sl_db s2"
    using inv(1) by (simp_all add: without_key_def s1)
  show "\<exists>u l v. find_row u_id (tu_user inp) (users (sl_db s)) = Some u \<and> u_deleted u = None \<and> u_limit u = Some l
           \<and> (\<forall>rid \<in> set_option (tu_reseller inp). u_reseller u = Some rid)
           \<and> find_row u_id (tu_user inp) (users (sl_db s1)) = Some v \<and> u_limit v = Some (l + tu_bytes inp)
           \<and> l + tu_bytes inp \<le> MaxInt64 \<and> u_used_rx v = u_used_rx u \<and> u_used_tx v = u_used_tx u
           \<and> map_option qs_limit (or_after r) = u_limit v"
    unfolding db by (rule top_up_body_ok[OF b iv bytes]) (simp add: db)
  show "other \<noteq> tu_user inp \<Longrightarrow> find_row u_id other (users (sl_db s1)) = find_row u_id other (users (sl_db s))" for other
    unfolding db by (rule top_up_body_ok[OF b iv bytes]) (simp add: db)
  fix s3 fr' and svc' :: "'b integration_service"
  assume later: "journal_run (now + ResultRetention - 1000000000) s1 s3 \<and> is_now svc' < now + ResultRetention
      \<and> is_sha256 svc' = is_sha256 svc \<and> is_marshal svc' = is_marshal svc \<and> is_accounting svc' \<noteq> None"
  then obtain acc' where acc': "is_accounting svc' = Some acc'" by auto
  have f: "find_operation ?scope ?k s3 = Some row"
    using journal_run_keeps[OF later[THEN conjunct1] topup.tx_keeps(1)[OF t inv(2)] row(5)] row(4) nw by simp
  have h: "hashedKey svc' scope k = hashedKey svc scope k" "requestHash svc' ord = requestHash svc ord" for scope k ord
    using later by (simp_all add: hashedKey_def requestHash_def)
  have "top_upTx svc' acc' fr' inp s3 = Inr ((r, True), s3)"
    using topup.tx_live[where svc = svc' and inp = inp and s = s3 and row = row] f row later nw h by simp
  then show "TopUpQuota svc' fr' inp s3 = (Inr (r, True), s3)"
    using valid acc' by (simp add: TopUpQuota_def)
qed

section \<open>Example data\<close>

lemma example_device:
  assumes "devices s = []" "ifaces s = [example_iface]" "find (\<lambda>u. u_id u = uid \<and> u_deleted u = None) (users s) = Some u"
    "u_enabled u" "PeerWanted (u_status u)" "u_interface u = None" "u_device_limit u = Some 2" "uid \<in> u_id ` set (users s)"
  shows "\<exists>d s'. Device_CreateTx (wired_devices now) s did uid ''device-1'' (example_keys 1) [] = Inr (d, s')"
proof -
  obtain b where b: "allocateIP s ''if-1'' [show_prefix example_pool] = Inr (show_addr b @ ''/32'')"
    using example_alloc[OF assms(1)] by blast
  have n: "trim_space ''device-1'' = ''device-1''" by (simp add: trim_space_def is_space_def)
  have k: "k_private (example_keys m) \<noteq> []" for m by (simp add: example_keys_def)
  have c: "choose_iface s u [] = Inr ''if-1''"
    by (simp add: choose_iface_def assms first_enabled_iface_def example_iface_def)
  let ?d = "new_device now did uid ''device-1'' (example_keys 1) ''if-1'' (show_addr b @ ''/32'')"
  have "insertDevice ?d s = Inr (s\<lparr>devices := [?d]\<rparr>)"
    using assms(8) by (simp add: insertDevice_def new_device_def assms(1,2) example_iface_def)
  then show ?thesis
    by (simp add: Device_CreateTx_def Let_def n k c assms example_iface_def example_pool_Decode b device_count_def record_opt_def
        RecordTx_def ValidEvent_def Catalog_def)
qed

definition demo_service :: "time \<Rightarrow> unit integration_service" where
  "demo_service now = \<lparr>is_users = wired_users now, is_devices = wired_devices now, is_links = demo_links,
     is_accounting = Some (wired_accounting now None None None), is_now = now,
     is_sha256 = map (\<lambda>c. of_nat (of_char c)), is_marshal = (\<lambda>_. [])\<rparr>"

definition demo_fresh :: fresh where
  "demo_fresh = \<lparr>fr_user = ''id-2'', fr_devices = (\<lambda>_. ''dev-2''), fr_operation = ''op-1''\<rparr>"

definition demo_order :: purchase_input where
  "demo_order = \<lparr>pu_key = ''k1'', pu_reseller = None, pu_username = ''bob'', pu_template = ''p1'', pu_entitlement = None,
     pu_device_name = ''device-1'', pu_keys = [example_keys 1]\<rparr>"

lemma demo_normalized_keys:
  "normalize_purchase (demo_service now) (demo_order\<lparr>pu_keys := [k]\<rparr>) = Inr (demo_order\<lparr>pu_keys := [k]\<rparr>)"
proof -
  have "TrimSpace ''p1'' = ''p1''" "TrimSpace ''bob'' = ''bob''" "TrimSpace ''device-1'' = ''device-1''" by code_simp+
  then show ?thesis
    by (simp add: normalize_purchase_def demo_order_def MaxPurchaseDevices_def validKey_def)
qed

lemma demo_normalized: "normalize_purchase (demo_service now) demo_order = Inr demo_order"
  using demo_normalized_keys[of now "example_keys 1"] by (simp add: demo_order_def)

lemma demo_purchase:
  obtains r s' where "Purchase (demo_service 9) demo_fresh (Inr (replicate 32 0)) demo_order demo_sales = (Inr (r, False), s')"
proof -
  let ?svc = "demo_service 9" and ?in = "ApplyToUser demo_plan (bare_input ''bob'' None)"
  let ?d0 = "example_db\<lparr>templates := [''p1'']\<rparr>"
  let ?u = "buildCreate 9 ''id-2'' ?in"
  obtain a where a: "users example_db = [a]" "u_id a = ''id-1''" "u_username a = ''alice''"
    by (simp add: example_db_def user_op_defs user_example_simps)
  have un: "u_id ?u = ''id-2''" "u_username ?u = ''bob''" by (simp_all add: buildCreate_def Let_def ApplyToUser_def bare_input_def)
  have v: "usernameRe ''bob''" "validateLimits ?in = Inr ()"
    by (simp_all add: usernameRe_def name_char_def validateLimits_def ApplyToUser_def demo_plan_def bare_input_def opt_given_def opt_absent_def optOfPtr_def)
  have ins: "insert_user ?u ?d0 = Inr (?d0\<lparr>users := [a, stored_user ?u]\<rparr>)"
    by (simp add: insert_user_def un a refs_ok_def)
      (simp add: buildCreate_def Let_def ApplyToUser_def demo_plan_def bare_input_def opt_resolve_def opt_absent_def nullText_def)
  obtain d1 where d1: "record_opt (Some (RecordTx 9)) (?d0\<lparr>users := [a, stored_user ?u]\<rparr>) ''user.created'' (created_event ?u) = Inr d1"
    using RecordTx_total[of "''user.created''" 9 "?d0\<lparr>users := [a, stored_user ?u]\<rparr>" "created_event ?u"]
    by (auto simp: record_opt_def ValidEvent_def Catalog_def)
  have cu: "CreateTx (wired_users 9) ?d0 ''id-2'' ?in = Inr (?u, d1)"
    using v ins d1 by (simp add: CreateTx_def Let_def ApplyToUser_def bare_input_def)
  have f: "users d1 = [a, stored_user ?u]" "devices d1 = []" "ifaces d1 = [example_iface]"
    using webhook_rc.frame[OF d1] by (simp_all add: same_domain_def example_db_fields)
  have su: "u_id (stored_user ?u) = ''id-2''" "u_deleted (stored_user ?u) = None" "u_enabled (stored_user ?u)"
    "PeerWanted (u_status (stored_user ?u))" "u_interface (stored_user ?u) = None" "u_device_limit (stored_user ?u) = Some 2"
    by (simp_all add: stored_user_def buildCreate_def Let_def ApplyToUser_def demo_plan_def bare_input_def opt_resolve_def opt_absent_def)
  obtain d d2 where cd: "Device_CreateTx (wired_devices 9) d1 ''dev-2'' ''id-2'' ''device-1'' (example_keys 1) [] = Inr (d, d2)"
    using example_device[of d1 "''id-2''" "stored_user ?u" 9 "''dev-2''"] f su a by auto
  have ud2: "users d2 = users d1"
    using cd by (rule wired_dev.CreateTx_ok) (auto dest!: insertDevice_ok(1) simp: same_domain_def)
  let ?s2 = "demo_sales\<lparr>sl_db := d2\<rparr>"
  obtain l s3 where cl: "Link_CreateTx demo_links (Inr (replicate 32 0)) ''id-2'' ?s2 = Inr (l, s3)"
    using ud2 f(1) su(1) by (simp add: Link_CreateTx_def NewToken_def demo_links_def insert_link_def new_link_row_def demo_sales_def)
  have g: "purchaseUserInput demo_order demo_sales = Inr (?in, [], ''p1'')"
    by (simp add: purchaseUserInput_def demo_order_def Plan_Get_def demo_sales_def find_row_def) (simp add: demo_plan_def)
  have "purchase_body ?svc demo_fresh (Inr (replicate 32 0)) demo_order demo_sales = Inr (\<lparr>or_id = ''op-1'', or_kind = ''purchase'',
      or_user = ''id-2'', or_device = d_id d, or_devices = [d_id d], or_template = ''p1'', or_before = None, or_after = None,
      or_created = 9\<rparr>, s3)"
    using g cu cd cl un
    by (simp add: purchase_body_def on_db_def demo_service_def demo_fresh_def demo_order_def)
      (simp add: demo_sales_def ApplyToUser_def demo_plan_def opt_given_def optOfPtr_def)
  moreover from calculation have "sl_operations s3 = []" using purchase_body_frame by (fastforce simp: demo_sales_def)
  moreover have "find_operation scope k demo_sales = None" for scope k by (simp add: find_operation_def demo_sales_def)
  ultimately obtain r s' where "purchaseTx ?svc demo_fresh (Inr (replicate 32 0)) demo_order demo_sales = Inr ((r, False), s')"
    by (simp add: purchaseTx_def Let_def replayTx_def recordResultTx_def)
  then show ?thesis by (intro that) (simp add: Purchase_def demo_normalized)
qed

lemma demo_sales_wf: "users_inv (sl_db demo_sales)" "devices_inv (sl_db demo_sales)" "links_inv demo_sales" "ops_inv demo_sales"
  by (simp_all add: demo_sales_def users_inv_def devices_inv_def links_inv_def ops_inv_def unique_on_def example_db_fields)
    (simp add: example_db_def user_op_defs user_example_simps row_ok_def)

lemma demo_wired: "wired_at now (demo_service now)"
  by (auto simp: wired_at_def demo_service_def)


theorem purchase_retried_witness:
  "\<exists>r s'. Purchase (demo_service 9) demo_fresh (Inr (replicate 32 0)) demo_order demo_sales = (Inr (r, False), s')
     \<and> Purchase (demo_service 99) demo_fresh (Inr (replicate 32 1)) (demo_order\<lparr>pu_keys := [example_keys 2]\<rparr>) s' = (Inr (r, True), s')"
proof -
  obtain r s' where c: "Purchase (demo_service 9) demo_fresh (Inr (replicate 32 0)) demo_order demo_sales = (Inr (r, False), s')"
    by (rule demo_purchase)
  let ?inp = "demo_order\<lparr>pu_keys := [example_keys 2]\<rparr>"
  have t: "is_now (demo_service 99) < is_now (demo_service 9) + ResultRetention" "is_sha256 (demo_service 99) = is_sha256 (demo_service 9)"
    "is_marshal (demo_service 99) = is_marshal (demo_service 9)" by (simp_all add: demo_service_def ResultRetention_def)
  from purchase_retried[OF demo_sales_wf(4) c journal_run.start t _ _ demo_normalized demo_normalized_keys] c show ?thesis
    by (auto simp: demo_order_def purchase_order_def)
qed

theorem top_up_once_witness:
  "\<exists>r s1 s2. TopUpQuota (demo_service 9) demo_fresh \<lparr>tu_key = ''k2'', tu_reseller = None, tu_user = ''id-1'', tu_bytes = 50\<rparr> demo_store = (Inr (r, False), s1)
     \<and> TopUpQuota (demo_service 99) demo_fresh \<lparr>tu_key = ''k2'', tu_reseller = None, tu_user = ''id-1'', tu_bytes = 50\<rparr> s1 = (Inr (r, True), s1)"
proof -
  let ?t = "\<lparr>tu_key = ''k2'', tu_reseller = None, tu_user = ''id-1'', tu_bytes = 50\<rparr>"
  let ?acc = "wired_accounting 9 None None None :: unit accounting_service"
  have "\<exists>c d. AddQuotaTx ?acc ''id-1'' 50 (sl_db demo_store) = Inr (c, d)"
    by (simp add: AddQuotaTx_def live_user_def demo_store_def demo_sales_def metered_db_def stored_user_def buildCreate_def Let_def
        plain_input_def opt_given_def opt_absent_def is_i64_def empty_db_def record_opt_def RecordTx_def ValidEvent_def Catalog_def
        event_owner_def user_event_def update_rows_def)
  then obtain c d where q: "AddQuotaTx ?acc ''id-1'' 50 (sl_db demo_store) = Inr (c, d)" by blast
  have "find_operation scope k demo_store = None" "sl_operations demo_store = []" for scope k
    by (simp_all add: find_operation_def demo_store_def demo_sales_def)
  with q obtain r s1 where c: "TopUpQuota (demo_service 9) demo_fresh ?t demo_store = (Inr (r, False), s1)"
    by (simp add: TopUpQuota_def validKey_def demo_service_def top_upTx_def Let_def replayTx_def top_up_body_def on_db_def
        recordResultTx_def demo_fresh_def WithTx_def)
  have i: "users_inv (sl_db demo_store)" "ops_inv demo_store"
    using metered_db_inv(1)[of 100] by (simp_all add: demo_store_def demo_sales_def users_inv_def ops_inv_def unique_on_def)
  have "is_i64 (tu_bytes ?t)" by (simp add: is_i64_def)
  from top_up_once[OF demo_wired i this c, THEN conjunct2, rule_format, OF refl, THEN conjunct2, THEN conjunct2, rule_format,
      OF conjI[OF journal_run.start], of "demo_service 99" demo_fresh]
  show ?thesis using c by (auto simp: demo_service_def ResultRetention_def)
qed

end
