(* ===== verification/NextPlans.thy ===== *)
theory NextPlans
  imports Purchases
begin

text \<open>
  Queued successors (\<open>src/internal/integration/next_plan.go\<close>): one plan per account that takes over
  when the current entitlement reaches its time or usage boundary, with the terms fixed when it was
  queued. The pass of the scheduler selects the due accounts in one query and then runs one
  transaction per account. The identifiers of history rows are arguments.
\<close>

section \<open>Queueing\<close>

record queue_input =
  qi_user :: string
  qi_template :: string
  qi_reseller :: "string option"
  qi_carry :: bool

definition termsOf :: "plan \<Rightarrow> plan_terms" where
  "termsOf p = \<lparr>nt_name = pl_name p, nt_limit = pl_limit p, nt_duration = pl_duration p, nt_device_limit = pl_device_limit p,
     nt_speed_down = pl_speed_down p, nt_speed_up = pl_speed_up p, nt_interface = pl_interface p\<rparr>"

definition ownerOfNextPlan :: "sales \<Rightarrow> string \<Rightarrow> string option \<Rightarrow> user result" where
  "ownerOfNextPlan s uid rid =
     (case find (\<lambda>u. u_id u = uid \<and> u_deleted u = None) (users (sl_db s)) of
        None \<Rightarrow> E CodeUserNotFound
      | Some u \<Rightarrow> if rid \<noteq> None \<and> u_reseller u \<noteq> rid then E CodeUserNotFound else Inr u)"

text \<open>Why the terms do not fit the account's devices; \<open>None\<close> when they do.\<close>

definition nextPlanDeviceConflict :: "db \<Rightarrow> string \<Rightarrow> plan_terms \<Rightarrow> string option" where
  "nextPlanDeviceConflict s uid terms =
     (let own = filter (\<lambda>d. d_user d = uid) (devices s) in
      if \<exists>i \<in> set_option (nt_interface terms). case find_row i_id i (ifaces s) of None \<Rightarrow> True | Some r \<Rightarrow> \<not> i_enabled r
      then Some ''interface_unavailable''
      else if \<exists>l \<in> set_option (nt_device_limit terms). l < int (length own) then Some ''device_limit''
      else if \<exists>i \<in> set_option (nt_interface terms). 0 < length (filter (\<lambda>d. d_iface d \<noteq> i) own) then Some ''interface''
      else None)"

definition MaxSeconds :: int where
  "MaxSeconds = 9223372036"

definition queue_checks :: "sales \<Rightarrow> queue_input \<Rightarrow> (user \<times> plan_terms) result" where
  "queue_checks s inp =
     ebind (ownerOfNextPlan s (qi_user inp) (qi_reseller inp)) (\<lambda>u.
       if u_limit u = None \<and> u_expires u = None then E CodeInvalidRequest
       else if \<exists>rid \<in> set_option (qi_reseller inp). \<not> assigned s rid (qi_template inp) then E CodeForbidden
       else ebind (Plan_Get s (qi_template inp)) (\<lambda>p.
         if \<not> pl_enabled p then E CodeForbidden
         else let terms = termsOf p in
           if \<exists>d \<in> set_option (nt_duration terms). MaxSeconds < d then E CodeInvalidRequest
           else if qi_carry inp \<and> (case (u_limit u, nt_limit terms) of
                  (Some l, Some t) \<Rightarrow> i64 (MaxInt64 - l) < t | _ \<Rightarrow> True) then E CodeInvalidRequest
           else if nextPlanDeviceConflict (sl_db s) (qi_user inp) terms \<noteq> None then E CodeInvalidRequest
           else Inr (u, terms)))"

text \<open>\<open>INSERT .. ON CONFLICT(user_id) DO UPDATE\<close>.\<close>

definition upsert_queue :: "queue_row \<Rightarrow> queue_row list \<Rightarrow> queue_row list" where
  "upsert_queue r t =
     (if nq_user r \<in> nq_user ` set t then update_rows (\<lambda>x. nq_user x = nq_user r) (\<lambda>_. r) t else t @ [r])"

definition QueueNextPlan :: "'b integration_service \<Rightarrow> queue_input \<Rightarrow> sales \<Rightarrow> queue_row result \<times> sales" where
  "QueueNextPlan svc inp s =
     (if qi_user inp = [] \<or> qi_template inp = [] then (E CodeInvalidRequest, s)
      else WithTx s (\<lambda>s. ebind (queue_checks s inp) (\<lambda>(u, terms).
        let r = \<lparr>nq_user = qi_user inp, nq_template = qi_template inp, nq_source = u_template u, nq_terms = terms,
                 nq_carry = qi_carry inp, nq_state = Queued, nq_reason = [], nq_scope = scopeKey (qi_reseller inp),
                 nq_created = is_now svc, nq_updated = is_now svc\<rparr>
        in Inr (r, s\<lparr>sl_queue := upsert_queue r (sl_queue s)\<rparr>))))"

definition NextPlanForUser :: "sales \<Rightarrow> string \<Rightarrow> string option \<Rightarrow> queue_row option result" where
  "NextPlanForUser s uid rid = ebind (ownerOfNextPlan s uid rid) (\<lambda>_. Inr (find_row nq_user uid (sl_queue s)))"

definition CancelNextPlan :: "string \<Rightarrow> string option \<Rightarrow> sales \<Rightarrow> unit result \<times> sales" where
  "CancelNextPlan uid rid s = WithTx s (\<lambda>s. ebind (ownerOfNextPlan s uid rid) (\<lambda>_.
     Inr ((), s\<lparr>sl_queue := delete_rows (\<lambda>q. nq_user q = uid) (sl_queue s)\<rparr>)))"

definition NextPlanActivations :: "sales \<Rightarrow> string \<Rightarrow> string option \<Rightarrow> int \<Rightarrow> activation list result" where
  "NextPlanActivations s uid rid limit =
     (if limit < 1 \<or> 100 < limit then E CodeInvalidRequest
      else ebind (ownerOfNextPlan s uid rid) (\<lambda>_.
        Inr (take (nat limit) (rev (sort_key (\<lambda>a. (text_key (na_at a), na_id a)) (filter (\<lambda>a. na_user a = uid) (sl_history s)))))))"

section \<open>Activation\<close>

text \<open>\<open>unixepoch(t)\<close>: SQLite rounds to milliseconds and drops the fraction of the second.\<close>

definition unixepoch :: "time \<Rightarrow> int" where
  "unixepoch t = (t + 500000) div 1000000000"

definition quota_reached :: "user \<Rightarrow> bool" where
  "quota_reached u \<longleftrightarrow> (\<exists>l \<in> set_option (u_limit u). l \<le> u_used_rx u \<or> i64 (l - u_used_rx u) \<le> u_used_tx u)"

definition due_select :: "time \<Rightarrow> sales \<Rightarrow> queue_row \<Rightarrow> bool" where
  "due_select now s q \<longleftrightarrow> nq_state q = Queued
     \<and> list_ex (\<lambda>u. u_id u = nq_user q \<and> u_deleted u = None \<and> u_enabled u
         \<and> u_status u \<in> {UserActive, UserWaitingFirstConnection, UserExpired, UserTrafficExceeded}
         \<and> ((\<exists>e \<in> set_option (u_expires u). unixepoch e \<le> unixepoch now) \<or> quota_reached u)) (users (sl_db s))"

definition due_ids :: "time \<Rightarrow> sales \<Rightarrow> string list" where
  "due_ids now s = map nq_user (take 50 (sort_key (\<lambda>q. (text_key (nq_created q), nq_user q)) (filter (due_select now s) (sl_queue s))))"

definition nextPlanAuditTx :: "string \<Rightarrow> string \<Rightarrow> payload \<Rightarrow> sales \<Rightarrow> sales" where
  "nextPlanAuditTx action uid data s = s\<lparr>sl_audit := sl_audit s @ [\<lparr>al_action = action, al_target = uid, al_data = data\<rparr>]\<rparr>"

definition markNextPlanReview :: "string \<Rightarrow> string \<Rightarrow> time \<Rightarrow> sales \<Rightarrow> sales" where
  "markNextPlanReview uid reason now s =
     nextPlanAuditTx ''user.next_plan_needs_review'' uid [(''reason'', JStr reason)]
       (s\<lparr>sl_queue := update_rows (\<lambda>q. nq_user q = uid)
          (\<lambda>q. q\<lparr>nq_state := NeedsReview, nq_reason := reason, nq_updated := now\<rparr>) (sl_queue s)\<rparr>)"

definition activation_trigger :: "time \<Rightarrow> user \<Rightarrow> trigger option" where
  "activation_trigger now u =
     (if quota_reached u then Some ByQuota
      else case u_expires u of None \<Rightarrow> None | Some e \<Rightarrow> if now < e then None else Some ByTime)"

definition remaining_traffic :: "user \<Rightarrow> int \<Rightarrow> int" where
  "remaining_traffic u l =
     (if u_used_rx u < l \<and> u_used_tx u < i64 (l - u_used_rx u) then i64 (i64 (l - u_used_rx u) - u_used_tx u) else 0)"

text \<open>The next traffic limit; \<open>None\<close> when the carried traffic does not fit.\<close>

definition next_limit :: "queue_row \<Rightarrow> user \<Rightarrow> trigger \<Rightarrow> int option option" where
  "next_limit q u trig =
     (case nt_limit (nq_terms q) of
        None \<Rightarrow> Some None
      | Some limit \<Rightarrow>
          (case u_limit u of
             Some l \<Rightarrow>
               if nq_carry q \<and> trig = ByTime \<and> 0 < remaining_traffic u l then
                 (if i64 (MaxInt64 - remaining_traffic u l) < limit then None else Some (Some (i64 (limit + remaining_traffic u l))))
               else Some (Some limit)
           | None \<Rightarrow> Some (Some limit)))"

definition successor_row :: "time \<Rightarrow> queue_row \<Rightarrow> int option \<Rightarrow> time option \<Rightarrow> user \<Rightarrow> user" where
  "successor_row now q limit expires u =
     (let t = nq_terms q in
      u\<lparr>u_template := Some (nq_template q), u_limit := limit, u_used_rx := 0, u_used_tx := 0, u_duration := nt_duration t,
        u_policy := StartImmediate, u_activated := Some now, u_expires := expires, u_device_limit := nt_device_limit t,
        u_speed_down := nt_speed_down t, u_speed_up := nt_speed_up t,
        u_interface := (case nt_interface t of None \<Rightarrow> u_interface u | Some i \<Rightarrow> Some i),
        u_status := UserActive, u_reason := None, u_updated := now\<rparr>)"

fun trigger_text :: "trigger \<Rightarrow> string" where
  "trigger_text ByTime = ''time''"
| "trigger_text ByQuota = ''quota''"

definition view_of :: "user \<Rightarrow> entitlement_view" where
  "view_of u = \<lparr>av_template = u_template u, av_expires = u_expires u, av_limit = u_limit u, av_used_rx = u_used_rx u,
     av_used_tx = u_used_tx u, av_status = u_status u\<rparr>"

definition switch_plan ::
  "'b integration_service \<Rightarrow> string \<Rightarrow> time \<Rightarrow> queue_row \<Rightarrow> user \<Rightarrow> trigger \<Rightarrow> int option \<Rightarrow> time option \<Rightarrow> sales \<Rightarrow> (bool \<times> sales) result" where
  "switch_plan svc nid now q u trig limit expires s =
     (let uid = nq_user q; u' = successor_row now q limit expires u in
      if \<not> refs_ok (sl_db s) u' then Inl (Foreign ''integration: activate next plan'')
      else let s1 = s\<lparr>sl_db := (sl_db s)\<lparr>
                 users := update_rows (\<lambda>r. u_id r = uid) (successor_row now q limit expires) (users (sl_db s)),
                 devices := update_rows (\<lambda>d. d_user d = uid) (\<lambda>d. d\<lparr>d_rx := 0, d_tx := 0\<rparr>) (devices (sl_db s))\<rparr>,
               sl_queue := delete_rows (\<lambda>x. nq_user x = uid) (sl_queue s)\<rparr>
      in if nid \<in> na_id ` set (sl_history s1) then Inl (Foreign ''integration: next-plan history'')
      else let s2 = s1\<lparr>sl_history := sl_history s1 @ [\<lparr>na_id = nid, na_user = uid, na_template = nq_template q, na_trigger = trig,
                 na_before = view_of u, na_after = view_of u', na_at = now\<rparr>]\<rparr>;
               s3 = nextPlanAuditTx ''user.next_plan_activated'' uid
                 [(''template_id'', JStr (nq_template q)), (''trigger'', JStr (trigger_text trig))] s2
      in on_db (\<lambda>d. ebind (record_opt (us_recorder (is_users svc)) d ''user.updated''
             [(''user_id'', JStr uid), (''template_id'', JStr (nq_template q)), (''next_plan_trigger'', JStr (trigger_text trig))])
             (\<lambda>d'. Inr (True, d'))) s3)"

definition activateNextPlanTx :: "'b integration_service \<Rightarrow> string \<Rightarrow> string \<Rightarrow> time \<Rightarrow> sales \<Rightarrow> (bool \<times> sales) result" where
  "activateNextPlanTx svc nid uid now s =
     (case (find_row nq_user uid (sl_queue s), find (\<lambda>u. u_id u = uid \<and> u_deleted u = None) (users (sl_db s))) of
        (Some q, Some u) \<Rightarrow>
          if nq_state q \<noteq> Queued \<or> \<not> u_enabled u \<or> u_status u = UserDisabled \<or> u_status u = UserSuspended then Inr (False, s)
          else (case activation_trigger now u of
            None \<Rightarrow> Inr (False, s)
          | Some trig \<Rightarrow>
              if nq_source q \<noteq> u_template u then Inr (False, markNextPlanReview uid ''current_plan_changed'' now s)
              else (case nextPlanDeviceConflict (sl_db s) uid (nq_terms q) of
                Some reason \<Rightarrow> Inr (False, markNextPlanReview uid reason now s)
              | None \<Rightarrow>
                  (case next_limit q u trig of
                     None \<Rightarrow> Inr (False, markNextPlanReview uid ''traffic_overflow'' now s)
                   | Some limit \<Rightarrow>
                       (case nt_duration (nq_terms q) of
                          None \<Rightarrow> switch_plan svc nid now q u trig limit None s
                        | Some d \<Rightarrow>
                            if d \<le> 0 \<or> MaxSeconds < d then Inr (False, markNextPlanReview uid ''invalid_duration'' now s)
                            else switch_plan svc nid now q u trig limit (Some (now + go_seconds d)) s))))
      | _ \<Rightarrow> Inr (False, s))"

fun activate_each ::
  "'b integration_service \<Rightarrow> (string \<Rightarrow> string) \<Rightarrow> time \<Rightarrow> string list \<Rightarrow> nat \<Rightarrow> sales \<Rightarrow> (nat \<times> error option) \<times> sales" where
  "activate_each svc nids now [] n s = ((n, None), s)"
| "activate_each svc nids now (uid # ids) n s =
     (case WithTx s (activateNextPlanTx svc (nids uid) uid now) of
        (Inl e, s1) \<Rightarrow> ((n, Some e), s1)
      | (Inr did, s1) \<Rightarrow> activate_each svc nids now ids (if did then Suc n else n) s1)"

definition ActivateDueNextPlans ::
  "'b integration_service \<Rightarrow> (string \<Rightarrow> string) \<Rightarrow> sales \<Rightarrow> sales \<Rightarrow> (nat \<times> error option) \<times> sales" where
  "ActivateDueNextPlans svc nids seen s = activate_each svc nids (is_now svc) (due_ids (is_now svc) seen) 0 s"

text \<open>The calendar arithmetic of \<open>AddDate(-1, 0, 0)\<close> is an argument.\<close>

definition PruneNextPlanHistory :: "(time \<Rightarrow> time) \<Rightarrow> time \<Rightarrow> sales \<Rightarrow> nat \<times> sales" where
  "PruneNextPlanHistory year_before now s =
     (let ids = map na_id (take 500 (sort_key (\<lambda>a. text_key (na_at a))
            (filter (\<lambda>a. text_key (na_at a) < text_key (year_before now)) (sl_history s))));
          rest = delete_rows (\<lambda>a. na_id a \<in> set ids) (sl_history s)
      in (length (sl_history s) - length rest, s\<lparr>sl_history := rest\<rparr>))"

end
