(* ===== verification/Successors.thy ===== *)
theory Successors
  imports NextPlans
begin

text \<open>
  What the successor workflow guarantees: an activation switches exactly one account, at its boundary,
  to the terms fixed when the plan was queued, and a pass of the scheduler leaves no due account behind.
\<close>

section \<open>Well-formed queues\<close>

definition terms_ok :: "plan_terms \<Rightarrow> bool" where
  "terms_ok t \<longleftrightarrow> (\<forall>v \<in> set_option (nt_limit t). 0 \<le> v \<and> v \<le> MaxInt64)
     \<and> positive (nt_device_limit t) \<and> positive (nt_speed_down t) \<and> positive (nt_speed_up t)"

definition meters_ok :: "user \<Rightarrow> bool" where
  "meters_ok u \<longleftrightarrow> 0 \<le> u_used_rx u \<and> 0 \<le> u_used_tx u \<and> u_used_rx u \<le> MaxInt64 \<and> u_used_tx u \<le> MaxInt64
     \<and> (\<forall>l \<in> set_option (u_limit u). 0 \<le> l \<and> l \<le> MaxInt64)"

definition queue_inv :: "sales \<Rightarrow> bool" where
  "queue_inv s \<longleftrightarrow> users_inv (sl_db s) \<and> (\<forall>u \<in> set (users (sl_db s)). meters_ok u)
     \<and> unique_on nq_user (sl_queue s) \<and> (\<forall>q \<in> set (sl_queue s). terms_ok (nq_terms q))"

lemma quota_reached_iff:
  "meters_ok u \<Longrightarrow> quota_reached u \<longleftrightarrow> (\<exists>l. u_limit u = Some l \<and> l \<le> u_used_rx u + u_used_tx u)"
  by (cases "u_limit u") (auto simp: quota_reached_def meters_ok_def is_i64_def)

lemma remaining_traffic_eq:
  assumes "meters_ok u" "u_limit u = Some l"
  shows "remaining_traffic u l = max 0 (l - u_used_rx u - u_used_tx u)"
proof -
  have "i64 (l - u_used_rx u) = l - u_used_rx u" using assms by (simp add: meters_ok_def is_i64_def)
  moreover have "u_used_rx u < l \<and> u_used_tx u < l - u_used_rx u \<Longrightarrow>
      i64 (l - u_used_rx u - u_used_tx u) = l - u_used_rx u - u_used_tx u"
    using assms by (simp add: meters_ok_def is_i64_def)
  ultimately show ?thesis
    using assms by (auto simp: remaining_traffic_def meters_ok_def)
qed

definition carried :: "queue_row \<Rightarrow> user \<Rightarrow> int" where
  "carried q u = (case u_limit u of Some l \<Rightarrow> if nq_carry q then max 0 (l - u_used_rx u - u_used_tx u) else 0 | None \<Rightarrow> 0)"

lemma next_limit_eq:
  assumes "meters_ok u" "terms_ok (nq_terms q)" "activation_trigger now u = Some trig" "next_limit q u trig = Some limit"
  shows "limit = map_option (\<lambda>t. t + carried q u) (nt_limit (nq_terms q))" "\<forall>v \<in> set_option limit. 0 \<le> v \<and> v \<le> MaxInt64"
proof -
  have "limit = map_option (\<lambda>t. t + carried q u) (nt_limit (nq_terms q)) \<and> (\<forall>v \<in> set_option limit. 0 \<le> v \<and> v \<le> MaxInt64)"
  proof (cases "nt_limit (nq_terms q)")
    case None
    with assms(4) show ?thesis by (simp add: next_limit_def)
  next
    case (Some t)
    then have t: "0 \<le> t" "t \<le> MaxInt64" using assms(2) by (simp_all add: terms_ok_def)
    show ?thesis
    proof (cases "u_limit u")
      case None
      with Some assms(4) t show ?thesis by (auto simp: next_limit_def carried_def option.map_ident)
    next
      case (Some l)
      note rem = remaining_traffic_eq[OF assms(1) Some]
      have "trig = ByQuota \<Longrightarrow> remaining_traffic u l = 0"
        using assms(3) quota_reached_iff[OF assms(1)] rem Some by (auto simp: activation_trigger_def split: if_splits option.splits)
      then have tr: "0 < remaining_traffic u l \<Longrightarrow> trig = ByTime" by (cases trig) auto
      have "0 \<le> remaining_traffic u l \<and> remaining_traffic u l \<le> MaxInt64" using rem assms(1) Some by (auto simp: meters_ok_def)
      then have i: "i64 (MaxInt64 - remaining_traffic u l) = MaxInt64 - remaining_traffic u l" by (simp add: is_i64_def)
      show ?thesis
      proof (cases "nq_carry q \<and> 0 < remaining_traffic u l")
        case True
        with assms(4) \<open>nt_limit (nq_terms q) = Some t\<close> Some tr i
        have le: "t + remaining_traffic u l \<le> MaxInt64" and lim: "limit = Some (i64 (t + remaining_traffic u l))"
          by (auto simp: next_limit_def split: if_splits)
        have "i64 (t + remaining_traffic u l) = t + remaining_traffic u l" using t le True by (simp add: is_i64_def)
        with lim le t True \<open>nt_limit (nq_terms q) = Some t\<close> Some rem show ?thesis by (simp add: carried_def)
      next
        case False
        with assms(4) \<open>nt_limit (nq_terms q) = Some t\<close> Some have "limit = Some t" by (auto simp: next_limit_def split: if_splits)
        with False t \<open>nt_limit (nq_terms q) = Some t\<close> Some rem show ?thesis by (auto simp: carried_def)
      qed
    qed
  qed
  then show "limit = map_option (\<lambda>t. t + carried q u) (nt_limit (nq_terms q))" "\<forall>v \<in> set_option limit. 0 \<le> v \<and> v \<le> MaxInt64"
    by blast+
qed

section \<open>One activation\<close>

interpretation successor: row_update u_id "successor_row now q limit expires"
  by unfold_locales (simp add: successor_row_def Let_def)

interpretation successor_name: row_update u_username "successor_row now q limit expires"
  by unfold_locales (simp add: successor_row_def Let_def)

interpretation review_row: row_update nq_user "\<lambda>q :: queue_row. q\<lparr>nq_state := NeedsReview, nq_reason := reason, nq_updated := now\<rparr>"
  by unfold_locales simp

lemma find_live:
  assumes "unique_on u_id t" "find (\<lambda>u. u_id u = uid \<and> u_deleted u = None) t = Some u"
  shows "find_row u_id uid t = Some u" "u_deleted u = None"
  using find_eq_Some[OF assms(2)] find_row_unique[OF assms(1), of u] by auto

text \<open>The account may be switched: queued, live, not blocked by the operator, and at its boundary.\<close>

definition due :: "time \<Rightarrow> sales \<Rightarrow> string \<Rightarrow> bool" where
  "due now s uid \<longleftrightarrow> (\<exists>q u. find_row nq_user uid (sl_queue s) = Some q \<and> nq_state q = Queued
     \<and> find_row u_id uid (users (sl_db s)) = Some u \<and> u_deleted u = None \<and> u_enabled u
     \<and> u_status u \<noteq> UserDisabled \<and> u_status u \<noteq> UserSuspended \<and> activation_trigger now u \<noteq> None)"

lemma activate_cases:
  assumes "activateNextPlanTx svc nid uid now s = Inr (did, s')" "unique_on u_id (users (sl_db s))"
  obtains (idle) "\<not> did" "s' = s" "\<not> due now s uid"
  | (review) reason where "\<not> did" "due now s uid" "s' = markNextPlanReview uid reason now s"
  | (switch) q u trig limit where "did" "due now s uid" "find_row nq_user uid (sl_queue s) = Some q"
      "find_row u_id uid (users (sl_db s)) = Some u" "activation_trigger now u = Some trig" "nq_source q = u_template u"
      "nextPlanDeviceConflict (sl_db s) uid (nq_terms q) = None"
      "next_limit q u trig = Some limit" "positive (nt_duration (nq_terms q))"
      "switch_plan svc nid now q u trig limit (map_option (\<lambda>d. now + d * 1000000000) (nt_duration (nq_terms q))) s = Inr (True, s')"
proof (cases "find (\<lambda>u. u_id u = uid \<and> u_deleted u = None) (users (sl_db s))")
  case None
  then have "find_row u_id uid (users (sl_db s)) = Some u \<Longrightarrow> u_deleted u \<noteq> None" for u
    by (auto simp: find_None_iff dest!: find_row_Some)
  with None assms(1) show ?thesis by (intro idle) (auto simp: activateNextPlanTx_def due_def split: option.splits)
next
  case (Some u)
  note fl = find_live[OF assms(2) Some]
  show ?thesis
  proof (cases "find_row nq_user uid (sl_queue s)")
    case None
    with Some assms(1) show ?thesis by (intro idle) (auto simp: activateNextPlanTx_def due_def)
  next
    case q: (Some q)
    have d: "due now s uid \<longleftrightarrow> \<not> (nq_state q \<noteq> Queued \<or> \<not> u_enabled u \<or> u_status u = UserDisabled \<or> u_status u = UserSuspended)
        \<and> activation_trigger now u \<noteq> None"
      using q fl by (auto simp: due_def)
    note run = assms(1)[unfolded activateNextPlanTx_def q Some prod.case option.case]
    show ?thesis
    proof (cases "due now s uid")
      case False
      with run d show ?thesis by (intro idle) (auto split: if_splits option.splits)
    next
      case True
      then obtain trig where g: "\<not> (nq_state q \<noteq> Queued \<or> \<not> u_enabled u \<or> u_status u = UserDisabled \<or> u_status u = UserSuspended)"
        and trig: "activation_trigger now u = Some trig" using d by auto
      note run1 = run[unfolded if_not_P[OF g] trig option.case]
      consider (r) reason where "\<not> did" "s' = markNextPlanReview uid reason now s"
        | (a) limit where "nq_source q = u_template u" "nextPlanDeviceConflict (sl_db s) uid (nq_terms q) = None"
            "next_limit q u trig = Some limit" "nt_duration (nq_terms q) = None"
            "switch_plan svc nid now q u trig limit None s = Inr (did, s')"
        | (b) limit secs where "nq_source q = u_template u" "nextPlanDeviceConflict (sl_db s) uid (nq_terms q) = None"
            "next_limit q u trig = Some limit" "nt_duration (nq_terms q) = Some secs" "0 < secs" "secs \<le> MaxSeconds"
            "switch_plan svc nid now q u trig limit (Some (now + go_seconds secs)) s = Inr (did, s')"
        using run1 by (auto simp: not_le not_less split: if_splits option.splits)
      then show ?thesis
      proof cases
        case r
        with True show ?thesis by (intro review)
      next
        case a
        then have "did" by (auto simp: switch_plan_def Let_def tx_simps split: if_splits)
        with a True q fl trig show ?thesis by (intro switch[of q u trig limit]) simp_all
      next
        case b
        then have "did" by (auto simp: switch_plan_def Let_def tx_simps split: if_splits)
        moreover have "go_seconds secs = secs * 1000000000" using b by (intro go_seconds_id) (simp_all add: MaxSeconds_def)
        ultimately show ?thesis using b True q fl trig by (intro switch[of q u trig limit]) simp_all
      qed
    qed
  qed
qed

lemma switch_plan_ok:
  assumes "switch_plan svc nid now q u trig limit expires s = Inr (x, s')" "is_users svc = wired_users t"
  shows "users (sl_db s') = update_rows (\<lambda>r. u_id r = nq_user q) (successor_row now q limit expires) (users (sl_db s))"
    "devices (sl_db s') = update_rows (\<lambda>d. d_user d = nq_user q) (\<lambda>d. d\<lparr>d_rx := 0, d_tx := 0\<rparr>) (devices (sl_db s))"
    "sl_queue s' = delete_rows (\<lambda>r. nq_user r = nq_user q) (sl_queue s)"
    "sl_history s' = sl_history s @ [\<lparr>na_id = nid, na_user = nq_user q, na_template = nq_template q, na_trigger = trig,
       na_before = view_of u, na_after = view_of (successor_row now q limit expires u), na_at = now\<rparr>]"
    "nid \<notin> na_id ` set (sl_history s)" "retired (sl_db s') = retired (sl_db s)" "ifaces (sl_db s') = ifaces (sl_db s)"
proof -
  let ?us = "update_rows (\<lambda>r. u_id r = nq_user q) (successor_row now q limit expires) (users (sl_db s))"
  let ?ds = "update_rows (\<lambda>d. d_user d = nq_user q) (\<lambda>d. d\<lparr>d_rx := 0, d_tx := 0\<rparr>) (devices (sl_db s))"
  from assms obtain ev data d where
    rec: "record_opt (Some (RecordTx t)) ((sl_db s)\<lparr>users := ?us, devices := ?ds\<rparr>) ev data = Inr d" and nid: "nid \<notin> na_id ` set (sl_history s)"
    and s': "sl_db s' = d" "sl_queue s' = delete_rows (\<lambda>r. nq_user r = nq_user q) (sl_queue s)"
      "sl_history s' = sl_history s @ [\<lparr>na_id = nid, na_user = nq_user q, na_template = nq_template q, na_trigger = trig,
         na_before = view_of u, na_after = view_of (successor_row now q limit expires u), na_at = now\<rparr>]"
    by (auto simp: switch_plan_def Let_def tx_simps nextPlanAuditTx_def split: if_splits)
  from webhook_rc.frame[OF rec] s' nid show
    "users (sl_db s') = update_rows (\<lambda>r. u_id r = nq_user q) (successor_row now q limit expires) (users (sl_db s))"
    "devices (sl_db s') = update_rows (\<lambda>d. d_user d = nq_user q) (\<lambda>d. d\<lparr>d_rx := 0, d_tx := 0\<rparr>) (devices (sl_db s))"
    "sl_queue s' = delete_rows (\<lambda>r. nq_user r = nq_user q) (sl_queue s)"
    "sl_history s' = sl_history s @ [\<lparr>na_id = nid, na_user = nq_user q, na_template = nq_template q, na_trigger = trig,
       na_before = view_of u, na_after = view_of (successor_row now q limit expires u), na_at = now\<rparr>]"
    "nid \<notin> na_id ` set (sl_history s)" "retired (sl_db s') = retired (sl_db s)" "ifaces (sl_db s') = ifaces (sl_db s)"
    by (simp_all add: same_domain_def)
qed

lemma review_frame:
  "sl_db (markNextPlanReview uid reason now s) = sl_db s" "sl_history (markNextPlanReview uid reason now s) = sl_history s"
  "sl_queue (markNextPlanReview uid reason now s) = update_rows (\<lambda>q. nq_user q = uid)
     (\<lambda>q. q\<lparr>nq_state := NeedsReview, nq_reason := reason, nq_updated := now\<rparr>) (sl_queue s)"
  by (simp_all add: markNextPlanReview_def nextPlanAuditTx_def)

lemma row_ok_successor:
  assumes "row_ok u" "terms_ok (nq_terms q)" "positive (nt_duration (nq_terms q))" "\<forall>v \<in> set_option limit. 0 \<le> v \<and> v \<le> MaxInt64"
  shows "row_ok (successor_row now q limit expires u)" "meters_ok (successor_row now q limit expires u)"
  using assms by (auto simp: row_ok_def meters_ok_def terms_ok_def successor_row_def Let_def)

lemma no_conflict_fits:
  assumes "nextPlanDeviceConflict s uid terms = None" "nt_device_limit terms = Some l"
  shows "int (CountForUser s uid) \<le> l"
  using assms by (auto simp: nextPlanDeviceConflict_def CountForUser_def Let_def split: if_splits)

lemma CountForUser_totals:
  "devices t = update_rows P (\<lambda>d. d\<lparr>d_rx := 0, d_tx := 0\<rparr>) (devices s) \<Longrightarrow> CountForUser t uid = CountForUser s uid"
  by (simp add: CountForUser_def update_rows_def filter_map comp_def if_distrib[of d_user] cong: if_cong)

text \<open>What a switch of one account to its successor has done.\<close>

definition switched :: "time \<Rightarrow> string \<Rightarrow> sales \<Rightarrow> sales \<Rightarrow> bool" where
  "switched now uid s s' \<longleftrightarrow> (\<exists>q u v a. find_row nq_user uid (sl_queue s) = Some q \<and> nq_state q = Queued
     \<and> find_row u_id uid (users (sl_db s)) = Some u \<and> nq_source q = u_template u
     \<and> ((\<exists>l. u_limit u = Some l \<and> l \<le> u_used_rx u + u_used_tx u) \<or> (\<exists>e. u_expires u = Some e \<and> e \<le> now))
     \<and> find_row u_id uid (users (sl_db s')) = Some v \<and> u_template v = Some (nq_template q)
     \<and> u_limit v = map_option (\<lambda>t. t + carried q u) (nt_limit (nq_terms q)) \<and> (\<forall>l \<in> set_option (u_limit v). l \<le> MaxInt64)
     \<and> u_used_rx v = 0 \<and> u_used_tx v = 0 \<and> u_status v = UserActive \<and> u_reason v = None \<and> u_enabled v = u_enabled u
     \<and> u_expires v = map_option (\<lambda>d. now + d * 1000000000) (nt_duration (nq_terms q))
     \<and> (\<forall>l \<in> set_option (u_device_limit v). int (CountForUser (sl_db s') uid) \<le> l)
     \<and> sl_history s' = sl_history s @ [a] \<and> na_user a = uid \<and> na_before a = view_of u \<and> na_after a = view_of v)
   \<and> find_row nq_user uid (sl_queue s') = None
   \<and> map (\<lambda>d. (d_id d, d_iface d, d_ipv4 d, d_pubkey d, d_last_rx d, d_last_tx d)) (devices (sl_db s'))
       = map (\<lambda>d. (d_id d, d_iface d, d_ipv4 d, d_pubkey d, d_last_rx d, d_last_tx d)) (devices (sl_db s))"

lemma activate_switched:
  assumes "activateNextPlanTx svc nid uid now s = Inr (True, s')" "queue_inv s" "is_users svc = wired_users t"
  shows "switched now uid s s'"
proof -
  have uu: "unique_on u_id (users (sl_db s))" using assms(2) by (simp add: queue_inv_def users_inv_def)
  from assms(1) uu show ?thesis
  proof (cases rule: activate_cases)
    case (switch q u trig limit)
    let ?exp = "map_option (\<lambda>d. now + d * 1000000000) (nt_duration (nq_terms q))"
    have q: "nq_user q = uid" "terms_ok (nq_terms q)" "nq_state q = Queued"
      using switch(2,3) assms(2) by (auto simp: queue_inv_def due_def)
    have u: "meters_ok u" using switch(4) assms(2) by (auto simp: queue_inv_def)
    note sw = switch_plan_ok[OF switch(10) assms(3)] and nl = next_limit_eq[OF u q(2) switch(5,8)]
    let ?v = "successor_row now q limit ?exp u"
    have v: "find_row u_id uid (users (sl_db s')) = Some ?v"
      using switch(4) by (simp add: sw(1) q(1) successor.find_update_self)
    have b: "(\<exists>l. u_limit u = Some l \<and> l \<le> u_used_rx u + u_used_tx u) \<or> (\<exists>e. u_expires u = Some e \<and> e \<le> now)"
      using switch(5) quota_reached_iff[OF u] by (auto simp: activation_trigger_def split: if_splits option.splits)
    have c: "CountForUser (sl_db s') uid = CountForUser (sl_db s) uid" by (rule CountForUser_totals[OF sw(2)])
    have "\<forall>l \<in> set_option (u_device_limit ?v). int (CountForUser (sl_db s') uid) \<le> l"
      using no_conflict_fits[OF switch(7)] c by (simp add: successor_row_def Let_def)
    moreover have "find_row nq_user uid (sl_queue s') = None" by (simp add: sw(3) q(1) find_row_delete_self)
    moreover have "map (\<lambda>d. (d_id d, d_iface d, d_ipv4 d, d_pubkey d, d_last_rx d, d_last_tx d)) (devices (sl_db s'))
       = map (\<lambda>d. (d_id d, d_iface d, d_ipv4 d, d_pubkey d, d_last_rx d, d_last_tx d)) (devices (sl_db s))"
      by (simp add: sw(2) update_rows_def)
    moreover have "u_limit ?v = map_option (\<lambda>t. t + carried q u) (nt_limit (nq_terms q))" "\<forall>l \<in> set_option (u_limit ?v). l \<le> MaxInt64"
      using nl by (simp_all add: successor_row_def Let_def)
    moreover have "u_template ?v = Some (nq_template q)" "u_used_rx ?v = 0" "u_used_tx ?v = 0" "u_status ?v = UserActive" "u_reason ?v = None"
      "u_enabled ?v = u_enabled u" "u_expires ?v = ?exp" by (simp_all add: successor_row_def Let_def)
    ultimately show ?thesis
      unfolding switched_def using switch(3,4,6) q(1,3) b v sw(4) by (intro conjI exI[of _ q] exI[of _ u] exI[of _ ?v]) auto
  qed simp_all
qed

lemma activate_unchanged:
  assumes "activateNextPlanTx svc nid uid now s = Inr (False, s')" "unique_on u_id (users (sl_db s))"
  shows "sl_db s' = sl_db s \<and> sl_history s' = sl_history s"
  using assms by (cases rule: activate_cases) (simp_all add: review_frame)

lemma activate_others:
  assumes "activateNextPlanTx svc nid uid now s = Inr (did, s')" "unique_on u_id (users (sl_db s))" "is_users svc = wired_users t" "other \<noteq> uid"
  shows "find_row nq_user other (sl_queue s') = find_row nq_user other (sl_queue s)"
    "find_row u_id other (users (sl_db s')) = find_row u_id other (users (sl_db s))"
    "filter (\<lambda>d. d_user d = other) (devices (sl_db s')) = filter (\<lambda>d. d_user d = other) (devices (sl_db s))"
proof -
  have "find_row nq_user other (sl_queue s') = find_row nq_user other (sl_queue s)
    \<and> find_row u_id other (users (sl_db s')) = find_row u_id other (users (sl_db s))
    \<and> filter (\<lambda>d. d_user d = other) (devices (sl_db s')) = filter (\<lambda>d. d_user d = other) (devices (sl_db s))"
    using assms(1,2)
  proof (cases rule: activate_cases)
    case (review reason)
    then show ?thesis using assms(4) by (simp add: review_frame review_row.find_update_other)
  next
    case (switch q u trig limit)
    have q: "nq_user q = uid" using switch(3) by auto
    note sw = switch_plan_ok[OF switch(10) assms(3)]
    have "filter (\<lambda>d. d_user d = other) (update_rows (\<lambda>d. d_user d = uid) (\<lambda>d. d\<lparr>d_rx := 0, d_tx := 0\<rparr>) ds)
        = filter (\<lambda>d. d_user d = other) ds" for ds :: "device list"
      using assms(4) by (induction ds) (auto simp: update_rows_Cons update_rows_def)
    then show ?thesis
      using assms(4) by (auto simp: sw(1-3) q successor.find_update_other intro!: find_row_delete_other)
  qed simp
  then show "find_row nq_user other (sl_queue s') = find_row nq_user other (sl_queue s)"
    "find_row u_id other (users (sl_db s')) = find_row u_id other (users (sl_db s))"
    "filter (\<lambda>d. d_user d = other) (devices (sl_db s')) = filter (\<lambda>d. d_user d = other) (devices (sl_db s))" by blast+
qed

lemma activate_settles:
  assumes "activateNextPlanTx svc nid uid now s = Inr (did, s')" "unique_on u_id (users (sl_db s))" "is_users svc = wired_users t"
  shows "\<not> due now s' uid"
  using assms(1,2)
proof (cases rule: activate_cases)
  case (review reason)
  then show ?thesis by (auto simp: due_def review_frame review_row.find_update_self)
next
  case (switch q u trig limit)
  then have "nq_user q = uid" by auto
  then show ?thesis by (simp add: due_def switch_plan_ok(3)[OF switch(10) assms(3)] find_row_delete_self)
qed simp

lemma activate_inv:
  assumes "activateNextPlanTx svc nid uid now s = Inr (did, s')" "queue_inv s" "is_users svc = wired_users t"
  shows "queue_inv s'"
proof -
  have uu: "unique_on u_id (users (sl_db s))" using assms(2) by (simp add: queue_inv_def users_inv_def)
  from assms(1) uu show ?thesis
  proof (cases rule: activate_cases)
    case (review reason)
    then show ?thesis using assms(2) by (auto simp: queue_inv_def review_frame review_row.unique_update set_update_rows)
  next
    case (switch q u trig limit)
    have q: "nq_user q = uid" "terms_ok (nq_terms q)" using switch(3) assms(2) by (auto simp: queue_inv_def)
    have u: "u \<in> set (users (sl_db s))" "u_id u = uid" "meters_ok u" "row_ok u" "usernameRe (u_username u)"
      using switch(4) assms(2) by (auto simp: queue_inv_def users_inv_def)
    note sw = switch_plan_ok[OF switch(10) assms(3)] and nl = next_limit_eq[OF u(3) q(2) switch(5,8)]
    have only: "r = u" if "r \<in> set (users (sl_db s))" "u_id r = nq_user q" for r
      using unique_on_eq[OF uu that(1) u(1)] that(2) u(2) q(1) by simp
    have rows: "\<forall>r \<in> set (users (sl_db s')). usernameRe (u_username r) \<and> row_ok r \<and> meters_ok r"
      unfolding sw(1)
    proof (rule ball_update_rows)
      show "usernameRe (u_username r) \<and> row_ok r \<and> meters_ok r" if "r \<in> set (users (sl_db s))" for r
        using that assms(2) by (simp add: queue_inv_def users_inv_def)
      show "usernameRe (u_username (successor_row now q limit e r)) \<and> row_ok (successor_row now q limit e r) \<and> meters_ok (successor_row now q limit e r)"
        if "r \<in> set (users (sl_db s))" "u_id r = nq_user q" for r e
        using only[OF that] u row_ok_successor[OF u(4) q(2) switch(9) nl(2)] by (simp add: successor_name.keeps_key)
    qed
    moreover have "unique_on nq_user (sl_queue s')" "\<forall>x \<in> set (sl_queue s'). terms_ok (nq_terms x)"
      using assms(2) by (auto simp: sw(3) queue_inv_def unique_on_delete)
    moreover have "unique_on u_id (users (sl_db s'))" "unique_on u_username (users (sl_db s'))"
      using assms(2) by (simp_all add: sw(1) queue_inv_def users_inv_def successor.unique_update successor_name.unique_update)
    ultimately show ?thesis by (simp add: queue_inv_def users_inv_def)
  qed (use assms(2) in simp)
qed

section \<open>A pass of the scheduler\<close>

lemma unixepoch_mono: "e \<le> now \<Longrightarrow> unixepoch e \<le> unixepoch now"
  by (simp add: unixepoch_def zdiv_mono1)

text \<open>The query finds every account that is due at the instant of the pass.\<close>

lemma due_selected:
  assumes "due now s uid" "users_inv (sl_db s)"
  shows "\<exists>q \<in> set (sl_queue s). nq_user q = uid \<and> due_select now s q"
proof -
  from assms(1) obtain q u where q: "find_row nq_user uid (sl_queue s) = Some q" "nq_state q = Queued"
    and u: "find_row u_id uid (users (sl_db s)) = Some u" "u_deleted u = None" "u_enabled u" "u_status u \<noteq> UserDisabled" "u_status u \<noteq> UserSuspended"
    and tr: "activation_trigger now u \<noteq> None" by (auto simp: due_def)
  have "u \<in> set (users (sl_db s))" "u_id u = uid" using u(1) by auto
  then have "status_valid (u_status u)" using assms(2) by (simp add: users_inv_def row_ok_def)
  then have st: "u_status u \<in> {UserActive, UserWaitingFirstConnection, UserExpired, UserTrafficExceeded}"
    using u(4,5) by (cases "u_status u") auto
  have "(\<exists>e \<in> set_option (u_expires u). unixepoch e \<le> unixepoch now) \<or> quota_reached u"
    using tr unixepoch_mono by (auto simp: activation_trigger_def split: if_splits option.splits)
  moreover have "q \<in> set (sl_queue s)" "nq_user q = uid" using q(1) by auto
  ultimately show ?thesis
    using q(2) u st \<open>u \<in> set (users (sl_db s))\<close> \<open>u_id u = uid\<close> unfolding due_select_def list_ex_iff by blast
qed

lemma due_cong:
  "find_row nq_user uid (sl_queue t) = find_row nq_user uid (sl_queue s) \<Longrightarrow>
     find_row u_id uid (users (sl_db t)) = find_row u_id uid (users (sl_db s)) \<Longrightarrow> due now t uid \<longleftrightarrow> due now s uid"
  by (simp add: due_def)

lemma activate_each_ok:
  assumes "activate_each svc nids now ids n s = ((m, None), s')" "queue_inv s" "is_users svc = wired_users t"
  shows "queue_inv s' \<and> n \<le> m \<and> m \<le> n + length ids \<and> (\<forall>uid \<in> set ids. \<not> due now s' uid)
    \<and> (\<forall>uid. \<not> due now s uid \<longrightarrow> \<not> due now s' uid \<and> find_row u_id uid (users (sl_db s')) = find_row u_id uid (users (sl_db s)))
    \<and> (\<forall>uid. uid \<notin> set ids \<longrightarrow> find_row u_id uid (users (sl_db s')) = find_row u_id uid (users (sl_db s)))"
  using assms(1,2)
proof (induction ids arbitrary: n s)
  case Nil
  then show ?case by simp
next
  case (Cons uid ids)
  from Cons.prems(1) obtain did s1 where a: "activateNextPlanTx svc (nids uid) uid now s = Inr (did, s1)"
    and rest: "activate_each svc nids now ids (if did then Suc n else n) s1 = ((m, None), s')"
    by (auto simp: WithTx_def split: sum.splits prod.splits)
  have uu: "unique_on u_id (users (sl_db s))" using Cons.prems(2) by (simp add: queue_inv_def users_inv_def)
  note i1 = activate_inv[OF a Cons.prems(2) assms(3)]
  note ih = Cons.IH[OF rest i1] and oth = activate_others[OF a uu assms(3)] and sett = activate_settles[OF a uu assms(3)]
  have keep: "\<not> due now s1 w \<and> find_row u_id w (users (sl_db s1)) = find_row u_id w (users (sl_db s))" if "\<not> due now s w" for w
  proof (cases "w = uid")
    case True
    from a uu have "sl_db s1 = sl_db s" by (cases rule: activate_cases) (use that True in \<open>simp_all add: review_frame\<close>)
    with sett True show ?thesis by simp
  next
    case False
    with oth that due_cong[of w s1 s now] show ?thesis by simp
  qed
  have "\<not> due now s' uid" using ih sett by blast
  moreover have "find_row u_id w (users (sl_db s')) = find_row u_id w (users (sl_db s))" if "w \<notin> set (uid # ids)" for w
    using ih oth that by simp
  ultimately show ?case using ih keep by (cases did) auto
qed



section \<open>Queueing\<close>

lemma upsert_queue_find:
  "find_row nq_user (nq_user r) (upsert_queue r t) = Some r"
  "other \<noteq> nq_user r \<Longrightarrow> find_row nq_user other (upsert_queue r t) = find_row nq_user other t"
proof -
  show "find_row nq_user (nq_user r) (upsert_queue r t) = Some r"
    by (induction t) (auto simp: upsert_queue_def update_rows_def find_row_def)
  have "other \<noteq> nq_user r \<Longrightarrow> find_row nq_user other (update_rows (\<lambda>x. nq_user x = nq_user r) (\<lambda>_. r) t) = find_row nq_user other t"
    by (induction t) (auto simp: update_rows_def find_row_Cons)
  then show "other \<noteq> nq_user r \<Longrightarrow> find_row nq_user other (upsert_queue r t) = find_row nq_user other t"
    by (auto simp: upsert_queue_def row_simps find_row_Cons split: option.splits)
qed

lemma upsert_queue_unique: "unique_on nq_user t \<Longrightarrow> unique_on nq_user (upsert_queue r t)"
proof -
  have "map nq_user (update_rows (\<lambda>x. nq_user x = nq_user r) (\<lambda>_. r) t) = map nq_user t"
    by (auto simp: update_rows_def)
  then show "unique_on nq_user t \<Longrightarrow> unique_on nq_user (upsert_queue r t)"
    by (auto simp: upsert_queue_def unique_on_append_one) (simp add: unique_on_def)
qed

text \<open>
  C19. Queueing a successor. On success the account is live (and the caller's, for a reseller), has a boundary at which the successor
  can start, and the plan is enabled (and assigned to the reseller); the account has exactly one queued
  successor, which holds a copy of the plan's terms that fits its devices and, if unused traffic is to be carried, its
  limits; a later change of the plan does not alter it. Nothing else changes, and a refused request changes nothing.
\<close>

theorem queue_next_plan_correct:
  assumes inv: "queue_inv s" "plans_inv s" "\<forall>p \<in> set (sl_plans s). \<forall>l \<in> set_option (pl_limit p). l \<le> MaxInt64"
    and call: "QueueNextPlan svc inp s = (res, s')"
  shows "(\<forall>e. res = Inl e \<longrightarrow> s' = s)
    \<and> (\<forall>r. res = Inr r \<longrightarrow> queue_inv s' \<and> sl_db s' = sl_db s \<and> sl_plans s' = sl_plans s
        \<and> find_row nq_user (qi_user inp) (sl_queue s') = Some r \<and> nq_state r = Queued \<and> nq_carry r = qi_carry inp
        \<and> (\<exists>p u. Plan_Get s (qi_template inp) = Inr p \<and> pl_enabled p \<and> nq_terms r = termsOf p
             \<and> find_row u_id (qi_user inp) (users (sl_db s)) = Some u \<and> u_deleted u = None \<and> nq_source r = u_template u
             \<and> (u_limit u \<noteq> None \<or> u_expires u \<noteq> None)
             \<and> (\<forall>rid \<in> set_option (qi_reseller inp). u_reseller u = Some rid \<and> assigned s rid (qi_template inp))
             \<and> (\<forall>l \<in> set_option (pl_device_limit p). int (CountForUser (sl_db s) (qi_user inp)) \<le> l)
             \<and> (qi_carry inp \<longrightarrow> (\<exists>l t. u_limit u = Some l \<and> pl_limit p = Some t \<and> l + t \<le> MaxInt64)))
        \<and> (\<forall>other. other \<noteq> qi_user inp \<longrightarrow> find_row nq_user other (sl_queue s') = find_row nq_user other (sl_queue s))
        \<and> (\<forall>now pid pin. find_row nq_user (qi_user inp) (sl_queue (snd (Plan_Update now pid pin s'))) = Some r))"
proof (intro conjI allI impI)
  fix e
  assume "res = Inl e"
  with call show "s' = s" by (auto simp: QueueNextPlan_def WithTx_Inl split: if_splits)
next
  fix r
  assume "res = Inr r"
  with call obtain u p where o: "ownerOfNextPlan s (qi_user inp) (qi_reseller inp) = Inr u"
    and bound: "u_limit u \<noteq> None \<or> u_expires u \<noteq> None"
    and asg: "\<forall>rid \<in> set_option (qi_reseller inp). assigned s rid (qi_template inp)"
    and p: "Plan_Get s (qi_template inp) = Inr p" "pl_enabled p"
    and carry: "qi_carry inp \<longrightarrow> (\<exists>l t. u_limit u = Some l \<and> pl_limit p = Some t \<and> \<not> i64 (MaxInt64 - l) < t)"
    and conf: "nextPlanDeviceConflict (sl_db s) (qi_user inp) (termsOf p) = None"
    and r: "nq_user r = qi_user inp" "nq_source r = u_template u" "nq_terms r = termsOf p" "nq_carry r = qi_carry inp" "nq_state r = Queued"
    and s': "s' = s\<lparr>sl_queue := upsert_queue r (sl_queue s)\<rparr>"
    by (auto simp: QueueNextPlan_def queue_checks_def Let_def tx_simps termsOf_def split: if_splits option.splits)
  have uu: "unique_on u_id (users (sl_db s))" using inv(1) by (simp add: queue_inv_def users_inv_def)
  from o have f: "find (\<lambda>u. u_id u = qi_user inp \<and> u_deleted u = None) (users (sl_db s)) = Some u"
    and own: "\<forall>rid \<in> set_option (qi_reseller inp). u_reseller u = Some rid"
    by (auto simp: ownerOfNextPlan_def split: option.splits if_splits)
  note fl = find_live[OF uu f]
  have po: "p \<in> set (sl_plans s)" "plan_ok p" using p(1) inv(2) by (auto simp: Plan_Get_Inr plans_inv_def)
  then have "terms_ok (nq_terms r)" using inv(3) by (auto simp: r(3) termsOf_def terms_ok_def plan_ok_def)
  moreover have "set (upsert_queue r (sl_queue s)) \<subseteq> insert r (set (sl_queue s))"
    by (auto simp: upsert_queue_def set_update_rows)
  ultimately show "queue_inv s'"
    using inv(1) by (auto simp: queue_inv_def s' upsert_queue_unique)
  show "sl_db s' = sl_db s" "sl_plans s' = sl_plans s" "nq_state r = Queued" "nq_carry r = qi_carry inp" by (simp_all add: s' r)
  show q: "find_row nq_user (qi_user inp) (sl_queue s') = Some r" using upsert_queue_find(1)[of r] by (simp add: s' r)
  show "other \<noteq> qi_user inp \<Longrightarrow> find_row nq_user other (sl_queue s') = find_row nq_user other (sl_queue s)" for other
    using upsert_queue_find(2)[of other r] by (simp add: s' r)
  have "u \<in> set (users (sl_db s))" using fl by auto
  then have m: "meters_ok u" using inv(1) by (simp add: queue_inv_def)
  have "qi_carry inp \<longrightarrow> (\<exists>l t. u_limit u = Some l \<and> pl_limit p = Some t \<and> l + t \<le> MaxInt64)"
  proof
    assume "qi_carry inp"
    with carry obtain l t where lt: "u_limit u = Some l" "pl_limit p = Some t" "\<not> i64 (MaxInt64 - l) < t" by auto
    moreover have "i64 (MaxInt64 - l) = MaxInt64 - l" using m lt(1) by (simp add: meters_ok_def is_i64_def)
    ultimately show "\<exists>l t. u_limit u = Some l \<and> pl_limit p = Some t \<and> l + t \<le> MaxInt64" by auto
  qed
  moreover have "\<forall>l \<in> set_option (pl_device_limit p). int (CountForUser (sl_db s) (qi_user inp)) \<le> l"
    using no_conflict_fits[OF conf] by (simp add: termsOf_def)
  ultimately show "\<exists>p u. Plan_Get s (qi_template inp) = Inr p \<and> pl_enabled p \<and> nq_terms r = termsOf p
             \<and> find_row u_id (qi_user inp) (users (sl_db s)) = Some u \<and> u_deleted u = None \<and> nq_source r = u_template u
             \<and> (u_limit u \<noteq> None \<or> u_expires u \<noteq> None)
             \<and> (\<forall>rid \<in> set_option (qi_reseller inp). u_reseller u = Some rid \<and> assigned s rid (qi_template inp))
             \<and> (\<forall>l \<in> set_option (pl_device_limit p). int (CountForUser (sl_db s) (qi_user inp)) \<le> l)
             \<and> (qi_carry inp \<longrightarrow> (\<exists>l t. u_limit u = Some l \<and> pl_limit p = Some t \<and> l + t \<le> MaxInt64))"
    using p r fl bound own asg by blast
  have "sl_queue (snd (Plan_Update now pid pin t)) = sl_queue t" for now pid pin t
    by (auto simp: Plan_Update_def Plan_Update_from_def plan_write_def Let_def split: sum.splits)
  with q show "find_row nq_user (qi_user inp) (sl_queue (snd (Plan_Update now pid pin s'))) = Some r" for now pid pin by simp
qed

section \<open>Example data\<close>

definition spent_user :: user where
  "spent_user = (stored_user (buildCreate 0 ''id-1'' ((plain_input ''alice'')\<lparr>in_limit := \<lparr>opt_set = True, opt_null = False, opt_value = 100\<rparr>\<rparr>)))\<lparr>u_used_rx := 100\<rparr>"

definition spent_store :: sales where
  "spent_store = demo_store\<lparr>sl_db := (sl_db demo_store)\<lparr>users := [spent_user]\<rparr>,
     sl_queue := [\<lparr>nq_user = ''id-1'', nq_template = ''p1'', nq_source = None, nq_terms = termsOf demo_plan, nq_carry = False,
        nq_state = Queued, nq_reason = [], nq_scope = ''owner'', nq_created = 1, nq_updated = 1\<rparr>]\<rparr>"

definition demo_switcher :: "unit integration_service" where
  "demo_switcher = \<lparr>is_users = wired_users 9, is_devices = wired_devices 9, is_links = demo_links, is_accounting = None, is_now = 9,
     is_sha256 = (\<lambda>_. []), is_marshal = (\<lambda>_. [])\<rparr>"

lemma spent_user_fields: "u_id spent_user = ''id-1''" "u_deleted spent_user = None" "u_enabled spent_user" "u_status spent_user = UserActive"
  "u_limit spent_user = Some 100" "u_used_rx spent_user = 100" "u_used_tx spent_user = 0" "u_template spent_user = None" "u_interface spent_user = None"
  "u_expires spent_user = None" "row_ok spent_user" "usernameRe (u_username spent_user)" "meters_ok spent_user" "u_reseller spent_user = None"
  by (simp_all add: spent_user_def stored_user_def buildCreate_def Let_def user_example_simps row_ok_def meters_ok_def)

lemma spent_store_fields:
  "users (sl_db spent_store) = [spent_user]" "templates (sl_db spent_store) = [''p1'']" "sl_history spent_store = []" "queue_inv spent_store"
  "plans_inv spent_store"
  by (simp_all add: spent_store_def demo_store_def demo_sales_def queue_inv_def users_inv_def unique_on_def spent_user_fields terms_ok_def
      termsOf_def demo_plan_def plans_inv_def plan_ok_def)

lemma spent_due: "due 9 spent_store ''id-1''"
  by (simp add: due_def spent_store_fields(1) find_row_Cons spent_user_fields activation_trigger_def quota_reached_def)
    (simp add: spent_store_def find_row_def)

lemma spent_activation: "\<exists>s'. activateNextPlanTx demo_switcher ''a1'' ''id-1'' 9 spent_store = Inr (True, s')"
proof -
  let ?q = "hd (sl_queue spent_store)"
  let ?exp = "Some (9 + 60 * 1000000000)"
  have q: "find_row nq_user ''id-1'' (sl_queue spent_store) = Some ?q" "nq_state ?q = Queued" "nq_source ?q = None" "nq_user ?q = ''id-1''"
    "nq_template ?q = ''p1''" "nq_terms ?q = termsOf demo_plan" by (simp_all add: spent_store_def find_row_def)
  have t: "activation_trigger 9 spent_user = Some ByQuota"
    by (simp add: activation_trigger_def quota_reached_def spent_user_fields)
  have c: "nextPlanDeviceConflict (sl_db spent_store) ''id-1'' (termsOf demo_plan) = None"
    by (simp add: nextPlanDeviceConflict_def termsOf_def demo_plan_def spent_store_def demo_store_def metered_db_def probe_device_def)
  have l: "next_limit ?q spent_user ByQuota = Some (Some 1000)"
    by (simp add: next_limit_def q spent_user_fields termsOf_def demo_plan_def)
  have g: "go_seconds 60 = 60 * 1000000000" by (rule go_seconds_id) simp_all
  have refs: "refs_ok (sl_db spent_store) (successor_row 9 ?q (Some 1000) ?exp spent_user)"
    by (simp add: refs_ok_def successor_row_def Let_def q spent_user_fields termsOf_def demo_plan_def spent_store_fields(2) nullText_def)
  have "\<exists>s'. on_db (\<lambda>d. ebind (record_opt (us_recorder (is_users demo_switcher)) d ''user.updated'' data) (\<lambda>d'. Inr (True, d'))) s3 = Inr (True, s')"
    for s3 data
    using RecordTx_total[of "''user.updated''" 9 "sl_db s3" data]
    by (auto simp: on_db_def record_opt_def ValidEvent_def Catalog_def demo_switcher_def)
  then have "\<exists>s'. switch_plan demo_switcher ''a1'' 9 ?q spent_user ByQuota (Some 1000) ?exp spent_store = Inr (True, s')"
    using refs by (simp add: switch_plan_def Let_def spent_store_fields(3))
  then show ?thesis
    using q t c l g
    by (simp add: activateNextPlanTx_def spent_store_fields(1) spent_user_fields MaxSeconds_def termsOf_def demo_plan_def)
qed

lemma demo_switcher_users: "is_users demo_switcher = wired_users 9"
  by (simp add: demo_switcher_def)


lemma spent_due_ids: "due_ids 9 spent_store = [''id-1'']"
proof -
  obtain q where q: "sl_queue spent_store = [q]" "nq_user q = ''id-1''" "nq_state q = Queued" by (simp add: spent_store_def)
  have "due_select 9 spent_store q"
    by (simp add: due_select_def q spent_store_fields(1) spent_user_fields quota_reached_def)
  with q show ?thesis by (simp add: due_ids_def)
qed


theorem queue_next_plan_correct_witness:
  "\<exists>r s'. QueueNextPlan demo_switcher \<lparr>qi_user = ''id-1'', qi_template = ''p1'', qi_reseller = None, qi_carry = True\<rparr> spent_store = (Inr r, s')
     \<and> find_row nq_user ''id-1'' (sl_queue s') = Some r"
proof -
  let ?inp = "\<lparr>qi_user = ''id-1'', qi_template = ''p1'', qi_reseller = None, qi_carry = True\<rparr>"
  have g: "Plan_Get spent_store ''p1'' = Inr demo_plan"
    by (simp add: Plan_Get_def spent_store_def demo_store_def demo_sales_def find_row_def demo_plan_def)
  have c: "nextPlanDeviceConflict (sl_db spent_store) ''id-1'' (termsOf demo_plan) = None"
    by (simp add: nextPlanDeviceConflict_def termsOf_def demo_plan_def spent_store_def demo_store_def metered_db_def probe_device_def)
  have t: "nt_limit (termsOf demo_plan) = Some 1000" "nt_duration (termsOf demo_plan) = Some 60" "pl_enabled demo_plan"
    by (simp_all add: termsOf_def demo_plan_def)
  have "queue_checks spent_store ?inp = Inr (spent_user, termsOf demo_plan)"
    using g c t by (simp add: queue_checks_def ownerOfNextPlan_def spent_store_fields(1) spent_user_fields Let_def MaxSeconds_def is_i64_def)
  then obtain r s' where q: "QueueNextPlan demo_switcher ?inp spent_store = (Inr r, s')"
    by (simp add: QueueNextPlan_def WithTx_def Let_def)
  have "\<forall>p \<in> set (sl_plans spent_store). \<forall>l \<in> set_option (pl_limit p). l \<le> MaxInt64"
    by (simp add: spent_store_def demo_store_def demo_sales_def demo_plan_def)
  from queue_next_plan_correct[OF spent_store_fields(4,5) this q] q show ?thesis by auto
qed

end
